(* ===== verification/Prelude.thy ===== *)
theory Prelude
  imports Complex_Main "HOL-Library.AList"
begin

text \<open>
  What every component of the development shares: the result type of a Python function that
  may raise, the Python dictionary with its insertion order, and the collections of rewrite
  rules that carry the component proofs.

  A function that may raise returns \<open>'e + 'a\<close>: \<open>Inl e\<close> is the raised exception, \<open>Inr x\<close> the
  returned value. \<open>bnd\<close> runs the next statement only when the previous one returned.
\<close>

named_theorems result_simps "equations of the result type"
named_theorems dict_simps "equations of Python dictionaries"

section \<open>Results\<close>

fun bnd :: "'e + 'a \<Rightarrow> ('a \<Rightarrow> 'e + 'b) \<Rightarrow> 'e + 'b" where
  "bnd (Inl e) f = Inl e"
| "bnd (Inr x) f = f x"

text \<open>For evaluation: the next statement is not touched before the previous one has a value.\<close>

lemma bnd_case [code_unfold]: "bnd m f = (case m of Inl e \<Rightarrow> Inl e | Inr x \<Rightarrow> f x)"
  by (cases m) simp_all

lemma bnd_Inr_iff [result_simps]: "bnd m f = Inr y \<longleftrightarrow> (\<exists>x. m = Inr x \<and> f x = Inr y)"
  by (cases m) auto

lemma bnd_Inl_iff [result_simps]:
  "bnd m f = Inl e \<longleftrightarrow> m = Inl e \<or> (\<exists>x. m = Inr x \<and> f x = Inl e)"
  by (cases m) auto

lemma bnd_assoc: "bnd (bnd m f) g = bnd m (\<lambda>x. bnd (f x) g)"
  by (cases m) auto

lemma if_Inl_Inr_iff [result_simps]:
  "(if b then Inl e else r) = Inr y \<longleftrightarrow> \<not> b \<and> r = Inr y"
  by auto

text \<open>A loop that threads an accumulator and stops at the first raise.\<close>

fun foldm :: "('b \<Rightarrow> 'a \<Rightarrow> 'e + 'b) \<Rightarrow> 'b \<Rightarrow> 'a list \<Rightarrow> 'e + 'b" where
  "foldm f acc [] = Inr acc"
| "foldm f acc (x # xs) = bnd (f acc x) (\<lambda>acc'. foldm f acc' xs)"

lemma foldm_append: "foldm f acc (xs @ ys) = bnd (foldm f acc xs) (\<lambda>a. foldm f a ys)"
  by (induction xs arbitrary: acc) (auto simp: bnd_assoc)

lemma foldm_invariant:
  assumes "foldm f acc xs = Inr res" and "P acc"
    and "\<And>a x a'. x \<in> set xs \<Longrightarrow> P a \<Longrightarrow> f a x = Inr a' \<Longrightarrow> P a'"
  shows "P res"
  using assms
proof (induction xs arbitrary: acc)
  case Nil
  then show ?case by simp
next
  case (Cons x xs)
  from Cons.prems(1) obtain a where a: "f acc x = Inr a" and rest: "foldm f a xs = Inr res"
    by (auto simp: result_simps)
  have "P a" using Cons.prems(2,3) a by auto
  then show ?case using Cons.IH [OF rest] Cons.prems(3) by (meson list.set_intros(2))
qed

section \<open>Dictionaries\<close>

text \<open>
  A Python \<open>dict\<close> keeps the order of first insertion and iterates in it, and storing under a
  key that is present replaces the value in place. \<open>AList.update\<close> does exactly this, so a
  dictionary whose iteration order matters is an association list without duplicate keys.
\<close>

type_synonym ('k, 'v) dict = "('k \<times> 'v) list"

abbreviation dget :: "('k, 'v) dict \<Rightarrow> 'k \<Rightarrow> 'v option" where
  "dget d k \<equiv> map_of d k"

abbreviation dset :: "'k \<Rightarrow> 'v \<Rightarrow> ('k, 'v) dict \<Rightarrow> ('k, 'v) dict" where
  "dset k v d \<equiv> AList.update k v d"

abbreviation dvalues :: "('k, 'v) dict \<Rightarrow> 'v list" where
  "dvalues d \<equiv> map snd d"

abbreviation dict_ok :: "('k, 'v) dict \<Rightarrow> bool" where
  "dict_ok d \<equiv> distinct (map fst d)"

lemma dget_dset [dict_simps]: "dget (dset k v d) = (dget d)(k \<mapsto> v)"
  by (rule update_conv')

lemma dict_ok_dset [dict_simps]: "dict_ok d \<Longrightarrow> dict_ok (dset k v d)"
  by (rule distinct_update)

lemma set_dset [dict_simps]:
  "dict_ok d \<Longrightarrow> set (dset k v d) = insert (k, v) {p \<in> set d. fst p \<noteq> k}"
  by (induction d) (force simp: image_iff)+

lemma dset_absent: "dget d k = None \<Longrightarrow> dset k v d = d @ [(k, v)]"
  by (induction d) (auto split: if_splits)

lemma dset_dset [dict_simps]: "dset k w (dset k v d) = dset k w d"
  by (induction d) auto

text \<open>Replacing one entry of a dictionary, seen as a sum over its values.\<close>

lemma sum_list_dset:
  fixes f :: "'v \<Rightarrow> 'n::ab_group_add"
  assumes "dict_ok d"
  shows "(\<Sum>v\<leftarrow>dvalues (dset k w d). f v) =
    (\<Sum>v\<leftarrow>dvalues d. f v) + f w - (case dget d k of None \<Rightarrow> 0 | Some v \<Rightarrow> f v)"
  using assms
proof (induction d)
  case Nil
  then show ?case by simp
next
  case (Cons p d)
  obtain a b where p: "p = (a, b)" by (cases p)
  show ?case
  proof (cases "a = k")
    case True
    then show ?thesis by (simp add: p)
  next
    case False
    with Cons.IH Cons.prems show ?thesis by (simp add: p)
  qed
qed

lemma set_map_filter: "set (List.map_filter f xs) = {y. \<exists>x \<in> set xs. f x = Some y}"
  by (force simp: List.map_filter_def)

end
