(* ===== verification/Decimals.thy ===== *)
theory Decimals
  imports Prelude
begin

text \<open>
  The part of Python's \<open>decimal\<close> module the program uses: finite decimals as a coefficient and
  an exponent, the seven rounding modes, and the operations under a context of \<open>prec\<close>
  significant digits. An operation computes the exact result and then rounds it to the
  context's precision (\<open>_fix\<close>), half to even, the rounding of the ambient context.

  The range of exponents is unbounded here (the module's \<open>Emax\<close> and \<open>Emin\<close> are 999999 and
  -999999), and a zero carries no sign: neither is observed by the modelled code.
\<close>

named_theorems dec_eval "rules that evaluate decimal operations on numerals"

section \<open>Rounding an integer quotient\<close>

datatype rounding = ROUND_HALF_EVEN | ROUND_HALF_UP | ROUND_HALF_DOWN | ROUND_UP
  | ROUND_DOWN | ROUND_CEILING | ROUND_FLOOR

text \<open>\<open>round_up_q m c d q\<close>: whether \<open>c / d\<close>, with floor \<open>q\<close> and not whole, rounds to \<open>q + 1\<close>.\<close>

fun round_up_q :: "rounding \<Rightarrow> int \<Rightarrow> int \<Rightarrow> int \<Rightarrow> bool" where
  "round_up_q ROUND_FLOOR c d q = False"
| "round_up_q ROUND_CEILING c d q = True"
| "round_up_q ROUND_DOWN c d q = (c < 0)"
| "round_up_q ROUND_UP c d q = (0 < c)"
| "round_up_q ROUND_HALF_EVEN c d q = (d < 2 * (c - q * d) \<or> d = 2 * (c - q * d) \<and> odd q)"
| "round_up_q ROUND_HALF_UP c d q = (d < 2 * (c - q * d) \<or> d = 2 * (c - q * d) \<and> 0 < c)"
| "round_up_q ROUND_HALF_DOWN c d q = (d < 2 * (c - q * d) \<or> d = 2 * (c - q * d) \<and> c < 0)"

definition round_int :: "rounding \<Rightarrow> int \<Rightarrow> int \<Rightarrow> int" where
  "round_int m c d =
     (if c mod d = 0 then c div d
      else if round_up_q m c d (c div d) then c div d + 1 else c div d)"

text \<open>The laws every use of a rounding mode rests on.\<close>

locale rounding_law =
  fixes rnd :: "int \<Rightarrow> int \<Rightarrow> int"
  assumes exact: "0 < d \<Longrightarrow> rnd (k * d) d = k"
    and lower: "0 < d \<Longrightarrow> c div d \<le> rnd c d"
    and upper: "0 < d \<Longrightarrow> rnd c d \<le> c div d + 1"
    and mono: "0 < d \<Longrightarrow> a \<le> b \<Longrightarrow> rnd a d \<le> rnd b d"
begin

lemma error_lt: "0 < d \<Longrightarrow> \<bar>rnd c d * d - c\<bar> < d \<or> rnd c d * d = c + d"
proof -
  assume d: "0 < d"
  have c: "c = c div d * d + c mod d" by simp
  have r: "0 \<le> c mod d" "c mod d < d" using d by auto
  consider "rnd c d = c div d" | "rnd c d = c div d + 1"
    using lower [OF d, of c] upper [OF d, of c] by linarith
  then show ?thesis
  proof cases
    case 1
    then show ?thesis using c r by (simp add: minus_div_mult_eq_mod [symmetric])
  next
    case 2
    then have "rnd c d * d = c div d * d + d" by (simp add: algebra_simps)
    then show ?thesis using c r by linarith
  qed
qed

lemma le_grid: "0 < d \<Longrightarrow> c \<le> k * d \<Longrightarrow> rnd c d \<le> k"
  using mono [of d c "k * d"] exact [of d k] by simp

lemma ge_grid: "0 < d \<Longrightarrow> k * d \<le> c \<Longrightarrow> k \<le> rnd c d"
  using mono [of d "k * d" c] exact [of d k] by simp

lemma nonneg: "0 < d \<Longrightarrow> 0 \<le> c \<Longrightarrow> 0 \<le> rnd c d"
  using ge_grid [of d 0 c] by simp

end

lemma round_int_whole [simp]: "0 < d \<Longrightarrow> round_int m (k * d) d = k"
  by (simp add: round_int_def)

lemma round_int_one [simp]: "round_int m c 1 = c"
  by (simp add: round_int_def)

text \<open>A common factor of numerator and divisor does not change the rounding.\<close>

lemma round_int_scale:
  assumes "0 < k" and "0 < d"
  shows "round_int m (c * k) (d * k) = round_int m c d"
proof -
  have q: "(c * k) div (d * k) = c div d" and r: "(c * k) mod (d * k) = c mod d * k"
    using assms by simp_all
  have x: "c * k - c div d * (d * k) = (c - c div d * d) * k" by (simp add: algebra_simps)
  have lt: "(d * k < 2 * ((c - c div d * d) * k)) = (d < 2 * (c - c div d * d))"
    and eq: "(d * k = 2 * ((c - c div d * d) * k)) = (d = 2 * (c - c div d * d))"
    using mult_less_cancel_right_pos [OF assms(1), of d "2 * (c - c div d * d)"] assms(1)
    by (simp_all only: mult.assoc [symmetric] mult_cancel_right) simp_all
  have "round_up_q m (c * k) (d * k) (c div d) = round_up_q m c d (c div d)"
    using assms by (cases m) (simp_all add: x lt eq zero_less_mult_iff mult_less_0_iff)
  then show ?thesis using assms by (simp add: round_int_def q r)
qed

lemma round_int_lower: "0 < d \<Longrightarrow> c div d \<le> round_int m c d"
  by (simp add: round_int_def)

lemma round_int_upper: "0 < d \<Longrightarrow> round_int m c d \<le> c div d + 1"
  by (simp add: round_int_def)

lemma round_up_q_mono:
  assumes d: "0 < d" and ab: "a \<le> b" and q: "a div d = b div d"
    and a: "a mod d \<noteq> 0" and up: "round_up_q m a d (a div d)"
  shows "b mod d \<noteq> 0 \<and> round_up_q m b d (b div d)"
proof -
  have am: "a - a div d * d = a mod d" and bm: "b - b div d * d = b mod d"
    by (simp_all add: minus_div_mult_eq_mod)
  have le: "a mod d \<le> b mod d" using am bm ab q by (metis diff_right_mono)
  have nz: "0 < a mod d" using d a by (simp add: order.not_eq_order_implies_strict)
  have sgn: "(0 < a) = (0 < b) \<and> (a < 0) = (b < 0)"
  proof -
    have "0 \<le> a \<longleftrightarrow> 0 \<le> b" using q d by (metis pos_imp_zdiv_nonneg_iff)
    moreover have "a \<noteq> 0" using nz by auto
    moreover have "b \<noteq> 0" using nz le by auto
    ultimately show ?thesis by linarith
  qed
  have "round_up_q m b d (b div d)"
    using up le sgn by (cases m) (auto simp: am bm q [symmetric] bm [unfolded q [symmetric]])
  then show ?thesis using nz le by auto
qed

lemma round_int_mono:
  assumes d: "0 < d" and ab: "a \<le> b"
  shows "round_int m a d \<le> round_int m b d"
proof (cases "a div d = b div d")
  case True
  then show ?thesis
    using round_up_q_mono [OF d ab True, of m] by (auto simp: round_int_def)
next
  case False
  have "a div d \<le> b div d" using zdiv_mono1 [OF ab d] .
  with False have "a div d + 1 \<le> b div d" by simp
  then show ?thesis
    using round_int_upper [OF d, of m a] round_int_lower [OF d, of b m] by linarith
qed

interpretation rnd: rounding_law "round_int m" for m
  by unfold_locales (simp_all add: round_int_lower round_int_upper round_int_mono)


section \<open>Digits of a coefficient\<close>

function ndigits :: "int \<Rightarrow> nat" where
  "ndigits n = (if n < 10 then 1 else Suc (ndigits (n div 10)))"
  by pat_completeness auto
termination
  by (relation "measure nat") auto

declare ndigits.simps [simp del]

lemma ndigits_small [dec_eval]: "n < 10 \<Longrightarrow> ndigits n = 1"
  by (subst ndigits.simps) simp

lemma ndigits_step [dec_eval]: "10 \<le> n \<Longrightarrow> ndigits n = Suc (ndigits (n div 10))"
  by (subst ndigits.simps) simp

lemma ndigits_pos: "0 < ndigits n"
  by (subst ndigits.simps) simp

lemma ndigits_le_iff: "0 < p \<Longrightarrow> ndigits n \<le> p \<longleftrightarrow> n < 10 ^ p"
proof (induction n arbitrary: p rule: ndigits.induct)
  case (1 n)
  show ?case
  proof (cases "n < 10")
    case True
    have "(10::int) ^ 1 \<le> 10 ^ p" using "1.prems" by (intro power_increasing) auto
    then show ?thesis using True "1.prems" by (simp add: ndigits_small)
  next
    case False
    show ?thesis
    proof (cases "p = 1")
      case True
      then show ?thesis using False ndigits_pos [of "n div 10"] by (simp add: ndigits_step)
    next
      case p: False
      then obtain k where k: "p = Suc k" "0 < k" using "1.prems" by (cases p) auto
      have "ndigits n \<le> p \<longleftrightarrow> ndigits (n div 10) \<le> k"
        using False k by (simp add: ndigits_step)
      also have "\<dots> \<longleftrightarrow> n div 10 < 10 ^ k" using "1.IH" False k by simp
      also have "\<dots> \<longleftrightarrow> n < 10 ^ p" using k by auto
      finally show ?thesis .
    qed
  qed
qed

lemma ndigits_lower: "1 < ndigits n \<Longrightarrow> 10 ^ (ndigits n - 1) \<le> n"
  using ndigits_le_iff [of "ndigits n - 1" n] by auto

lemma ndigits_upper: "n < 10 ^ ndigits n"
  using ndigits_le_iff [of "ndigits n" n] ndigits_pos by auto

section \<open>Finite decimals\<close>

datatype decimal = Dec (dcoeff: int) (dexp: int)

text \<open>The number a decimal denotes. Python compares decimals by this number.\<close>

definition dval :: "decimal \<Rightarrow> rat" where
  "dval d = of_int (dcoeff d) * 10 powi dexp d"

text \<open>Two decimals as integers over their common (smaller) exponent.\<close>

definition common_exp :: "decimal \<Rightarrow> decimal \<Rightarrow> int" where
  "common_exp a b = min (dexp a) (dexp b)"

definition coeff_at :: "decimal \<Rightarrow> int \<Rightarrow> int" where
  "coeff_at d e = dcoeff d * 10 ^ nat (dexp d - e)"

definition dec_lt :: "decimal \<Rightarrow> decimal \<Rightarrow> bool" where
  "dec_lt a b = (coeff_at a (common_exp a b) < coeff_at b (common_exp a b))"

definition dec_le :: "decimal \<Rightarrow> decimal \<Rightarrow> bool" where
  "dec_le a b = (coeff_at a (common_exp a b) \<le> coeff_at b (common_exp a b))"

definition dec_eq :: "decimal \<Rightarrow> decimal \<Rightarrow> bool" where
  "dec_eq a b = (coeff_at a (common_exp a b) = coeff_at b (common_exp a b))"

definition dec_zero :: decimal where
  "dec_zero = Dec 0 0"

definition dec_of_int :: "int \<Rightarrow> decimal" where
  "dec_of_int n = Dec n 0"

text \<open>Python's \<open>min(a, b)\<close> keeps the first of two equal arguments.\<close>

definition dec_min :: "decimal \<Rightarrow> decimal \<Rightarrow> decimal" where
  "dec_min a b = (if dec_lt b a then b else a)"

definition dec_max :: "decimal \<Rightarrow> decimal \<Rightarrow> decimal" where
  "dec_max a b = (if dec_lt a b then b else a)"

lemma powi_pos [simp]: "(0::rat) < 10 powi e"
  by (simp add: power_int_def)

lemma powi_not_neg [simp]: "\<not> (10::rat) powi e < 0"
  using powi_pos [of e] by linarith

lemma powi_split: "e \<le> f \<Longrightarrow> (10::rat) powi f = 10 ^ nat (f - e) * 10 powi e"
  using power_int_add [of "10::rat" "f - e" e] by (simp add: power_int_def)

lemma coeff_at_val: "e \<le> dexp d \<Longrightarrow> dval d = of_int (coeff_at d e) * 10 powi e"
  by (simp add: dval_def coeff_at_def powi_split [of e "dexp d"] mult.assoc)

lemma common_exp_le: "common_exp a b \<le> dexp a" "common_exp a b \<le> dexp b"
  by (simp_all add: common_exp_def)

lemma dec_lt_val: "dec_lt a b \<longleftrightarrow> dval a < dval b"
  by (simp add: dec_lt_def coeff_at_val [OF common_exp_le(1) [of a b]]
      coeff_at_val [OF common_exp_le(2) [of a b]])

lemma dec_le_val: "dec_le a b \<longleftrightarrow> dval a \<le> dval b"
  by (simp add: dec_le_def coeff_at_val [OF common_exp_le(1) [of a b]]
      coeff_at_val [OF common_exp_le(2) [of a b]])

lemma dec_eq_val: "dec_eq a b \<longleftrightarrow> dval a = dval b"
  by (simp add: dec_eq_def coeff_at_val [OF common_exp_le(1) [of a b]]
      coeff_at_val [OF common_exp_le(2) [of a b]])

lemmas dec_order_val = dec_lt_val dec_le_val dec_eq_val

lemma dval_zero [simp]: "dval dec_zero = 0"
  by (simp add: dval_def dec_zero_def)

lemma dval_pos_iff: "0 < dval d \<longleftrightarrow> 0 < dcoeff d"
  by (simp add: dval_def zero_less_mult_iff)

lemma dval_neg_iff: "dval d < 0 \<longleftrightarrow> dcoeff d < 0"
  by (simp add: dval_def mult_less_0_iff)

lemma dval_0_iff: "dval d = 0 \<longleftrightarrow> dcoeff d = 0"
  by (simp add: dval_def)

lemmas dval_sign = dval_pos_iff dval_neg_iff dval_0_iff

lemma dec_min_val: "dval (dec_min a b) = min (dval a) (dval b)"
  by (simp add: dec_min_def dec_lt_val min_def)

lemma dec_max_val: "dval (dec_max a b) = max (dval a) (dval b)"
  by (simp add: dec_max_def dec_lt_val max_def)


section \<open>Operations under a context\<close>

text \<open>\<open>Decimal._fix\<close>: more than \<open>prec\<close> digits are rounded half to even to \<open>prec\<close> digits.\<close>

definition dec_fix :: "nat \<Rightarrow> decimal \<Rightarrow> decimal" where
  "dec_fix p d =
     (if ndigits \<bar>dcoeff d\<bar> \<le> p then d
      else
        let k = ndigits \<bar>dcoeff d\<bar> - p;
            q = round_int ROUND_HALF_EVEN (dcoeff d) (10 ^ k)
        in if ndigits \<bar>q\<bar> \<le> p then Dec q (dexp d + int k)
           else Dec (q div 10) (dexp d + int k + 1))"

definition dec_add :: "nat \<Rightarrow> decimal \<Rightarrow> decimal \<Rightarrow> decimal" where
  "dec_add p a b =
     dec_fix p (Dec (coeff_at a (common_exp a b) + coeff_at b (common_exp a b)) (common_exp a b))"

definition dec_neg :: "nat \<Rightarrow> decimal \<Rightarrow> decimal" where
  "dec_neg p a = dec_fix p (Dec (- dcoeff a) (dexp a))"

definition dec_sub :: "nat \<Rightarrow> decimal \<Rightarrow> decimal \<Rightarrow> decimal" where
  "dec_sub p a b =
     dec_fix p (Dec (coeff_at a (common_exp a b) - coeff_at b (common_exp a b)) (common_exp a b))"

definition dec_mul :: "nat \<Rightarrow> decimal \<Rightarrow> decimal \<Rightarrow> decimal" where
  "dec_mul p a b = dec_fix p (Dec (dcoeff a * dcoeff b) (dexp a + dexp b))"

text \<open>\<open>Decimal.scaleb\<close>: moves the exponent; no digit is lost unless there are more than \<open>prec\<close>.\<close>

definition dec_scaleb :: "nat \<Rightarrow> decimal \<Rightarrow> int \<Rightarrow> decimal" where
  "dec_scaleb p a k = dec_fix p (Dec (dcoeff a) (dexp a + k))"

text \<open>The coefficient of \<open>d\<close> rounded to exponent \<open>e\<close>, under any of the seven modes.\<close>

definition rescale :: "rounding \<Rightarrow> decimal \<Rightarrow> int \<Rightarrow> int" where
  "rescale m d e =
     (if e \<le> dexp d then coeff_at d e else round_int m (dcoeff d) (10 ^ nat (e - dexp d)))"

text \<open>\<open>Decimal.quantize\<close>: \<open>None\<close> is the \<open>InvalidOperation\<close> raised when the result needs more
  than \<open>prec\<close> digits.\<close>

definition dec_quantize :: "nat \<Rightarrow> rounding \<Rightarrow> int \<Rightarrow> decimal \<Rightarrow> decimal option" where
  "dec_quantize p m e d =
     (let c = rescale m d e in if ndigits \<bar>c\<bar> \<le> p then Some (Dec c e) else None)"

text \<open>Division: enough quotient digits for a correct rounding, with a sticky digit when the
  division is inexact, and the ideal exponent restored when it is exact.\<close>

function strip_zeros :: "int \<Rightarrow> int \<Rightarrow> int \<Rightarrow> decimal" where
  "strip_zeros c e ideal =
     (if e < ideal \<and> c mod 10 = 0 then strip_zeros (c div 10) (e + 1) ideal else Dec c e)"
  by pat_completeness auto
termination
  by (relation "measure (\<lambda>(c, e, ideal). nat (ideal - e))") auto

declare strip_zeros.simps [simp del]

definition sticky :: "int \<Rightarrow> int \<Rightarrow> int" where
  "sticky q r = (if r \<noteq> 0 \<and> q mod 5 = 0 then q + 1 else q)"

definition dec_div_abs :: "nat \<Rightarrow> int \<Rightarrow> int \<Rightarrow> int \<Rightarrow> decimal" where
  "dec_div_abs p a b ideal =
     (let shift = int (ndigits b) - int (ndigits a) + int p + 1;
          n = a * 10 ^ nat shift;
          m = b * 10 ^ nat (- shift)
      in if n mod m = 0 then strip_zeros (n div m) (ideal - shift) ideal
         else Dec (sticky (n div m) (n mod m)) (ideal - shift))"

text \<open>\<open>None\<close> is \<open>DivisionByZero\<close>, or \<open>InvalidOperation\<close> for \<open>0 / 0\<close>.\<close>

definition dec_div :: "nat \<Rightarrow> decimal \<Rightarrow> decimal \<Rightarrow> decimal option" where
  "dec_div p a b =
     (if dcoeff b = 0 then None
      else if dcoeff a = 0 then Some (Dec 0 (dexp a - dexp b))
      else
        let q = dec_div_abs p \<bar>dcoeff a\<bar> \<bar>dcoeff b\<bar> (dexp a - dexp b)
        in Some (dec_fix p (Dec (sgn (dcoeff a) * sgn (dcoeff b) * dcoeff q) (dexp q))))"

text \<open>\<open>x == x.to_integral_value()\<close> and \<open>int(x)\<close> (which truncates).\<close>

definition dec_is_integral :: "decimal \<Rightarrow> bool" where
  "dec_is_integral d = (0 \<le> dexp d \<or> dcoeff d mod 10 ^ nat (- dexp d) = 0)"

definition dec_to_int :: "decimal \<Rightarrow> int" where
  "dec_to_int d =
     (if 0 \<le> dexp d then dcoeff d * 10 ^ nat (dexp d)
      else sgn (dcoeff d) * (\<bar>dcoeff d\<bar> div 10 ^ nat (- dexp d)))"

section \<open>Exact cases\<close>

definition fits :: "nat \<Rightarrow> int \<Rightarrow> bool" where
  "fits p c = (\<bar>c\<bar> < 10 ^ p)"

lemma fits_ndigits: "0 < p \<Longrightarrow> ndigits \<bar>c\<bar> \<le> p \<longleftrightarrow> fits p c"
  by (simp add: ndigits_le_iff fits_def)

lemma fits_minus [simp]: "fits p (- c) = fits p c"
  by (simp add: fits_def)

lemma fits_le: "fits p b \<Longrightarrow> \<bar>a\<bar> \<le> \<bar>b\<bar> \<Longrightarrow> fits p a"
  by (simp add: fits_def)

lemma fits_0 [simp]: "fits p 0"
  by (simp add: fits_def)

lemma dec_fix_fits: "0 < p \<Longrightarrow> fits p (dcoeff d) \<Longrightarrow> dec_fix p d = d"
  by (simp add: dec_fix_def fits_ndigits)

lemma coeff_at_self [simp]: "coeff_at (Dec c e) e = c"
  by (simp add: coeff_at_def)

lemma common_exp_self [simp]: "common_exp (Dec a e) (Dec b e) = e"
  by (simp add: common_exp_def)

lemma dec_add_same: "0 < p \<Longrightarrow> fits p (a + b) \<Longrightarrow> dec_add p (Dec a e) (Dec b e) = Dec (a + b) e"
  by (simp add: dec_add_def dec_fix_fits)

lemma dec_sub_same: "0 < p \<Longrightarrow> fits p (a - b) \<Longrightarrow> dec_sub p (Dec a e) (Dec b e) = Dec (a - b) e"
  by (simp add: dec_sub_def dec_fix_fits)

lemma dec_neg_fits: "0 < p \<Longrightarrow> fits p a \<Longrightarrow> dec_neg p (Dec a e) = Dec (- a) e"
  by (simp add: dec_neg_def dec_fix_fits)

lemma dec_add_zero_left:
  "0 < p \<Longrightarrow> fits p b \<Longrightarrow> e \<le> 0 \<Longrightarrow> dec_add p dec_zero (Dec b e) = Dec b e"
  by (simp add: dec_add_def dec_zero_def common_exp_def coeff_at_def dec_fix_fits)

lemma dec_sub_zero_left:
  "0 < p \<Longrightarrow> fits p b \<Longrightarrow> e \<le> 0 \<Longrightarrow> dec_sub p dec_zero (Dec b e) = Dec (- b) e"
  by (simp add: dec_sub_def dec_zero_def common_exp_def coeff_at_def dec_fix_fits)

lemma dec_sub_zero_right:
  "0 < p \<Longrightarrow> fits p b \<Longrightarrow> e \<le> 0 \<Longrightarrow> dec_sub p (Dec b e) dec_zero = Dec b e"
  by (simp add: dec_sub_def dec_zero_def common_exp_def coeff_at_def dec_fix_fits)

lemma dec_cmp_same [simp]:
  "dec_lt (Dec a e) (Dec b e) = (a < b)"
  "dec_le (Dec a e) (Dec b e) = (a \<le> b)"
  "dec_eq (Dec a e) (Dec b e) = (a = b)"
  by (simp_all add: dec_lt_def dec_le_def dec_eq_def)

lemma dec_cmp_zero [simp]:
  "dec_lt d dec_zero = (dcoeff d < 0)"
  "dec_lt dec_zero d = (0 < dcoeff d)"
  "dec_le d dec_zero = (dcoeff d \<le> 0)"
  "dec_le dec_zero d = (0 \<le> dcoeff d)"
  "dec_eq d dec_zero = (dcoeff d = 0)"
  using dval_pos_iff [of d] dval_neg_iff [of d] dval_0_iff [of d]
  by (simp_all add: dec_order_val flip: not_less)

lemma dec_quantize_Some:
  assumes "0 < p"
  shows "dec_quantize p m e d = Some r \<longleftrightarrow> fits p (rescale m d e) \<and> r = Dec (rescale m d e) e"
  using assms by (auto simp: dec_quantize_def Let_def fits_ndigits)

lemma rescale_same [simp]: "rescale m (Dec c e) e = c"
  by (simp add: rescale_def)

lemma rescale_zero [simp]: "rescale m dec_zero e = 0"
  by (auto simp: rescale_def dec_zero_def coeff_at_def round_int_def)

lemma dec_quantize_idem: "0 < p \<Longrightarrow> fits p c \<Longrightarrow> dec_quantize p m e (Dec c e) = Some (Dec c e)"
  by (simp add: dec_quantize_Some)

lemma dec_quantize_twice:
  "0 < p \<Longrightarrow> dec_quantize p m e d = Some r \<Longrightarrow> dec_quantize p m' e r = Some r"
  by (auto simp: dec_quantize_Some)


section \<open>Rounding to the context keeps representable bounds\<close>

lemma dval_Dec: "dval (Dec c e) = of_int c * 10 powi e"
  by (simp add: dval_def)

lemma dval_Dec_scale: "0 \<le> k \<Longrightarrow> dval (Dec c (e + k)) = of_int (c * 10 ^ nat k) * 10 powi e"
  using powi_split [of e "e + k"] by (simp add: dval_def)

lemma dval_sum: "dval (Dec (coeff_at a (common_exp a b) + coeff_at b (common_exp a b))
    (common_exp a b)) = dval a + dval b"
  using coeff_at_val [OF common_exp_le(1) [of a b]] coeff_at_val [OF common_exp_le(2) [of a b]]
  by (simp add: dval_Dec algebra_simps)

lemma dval_diff: "dval (Dec (coeff_at a (common_exp a b) - coeff_at b (common_exp a b))
    (common_exp a b)) = dval a - dval b"
  using coeff_at_val [OF common_exp_le(1) [of a b]] coeff_at_val [OF common_exp_le(2) [of a b]]
  by (simp add: dval_Dec algebra_simps)

lemma dval_prod: "dval (Dec (dcoeff a * dcoeff b) (dexp a + dexp b)) = dval a * dval b"
  by (simp add: dval_def power_int_add)

lemma round_half_even_minus:
  assumes "0 < d"
  shows "round_int ROUND_HALF_EVEN (- c) d = - round_int ROUND_HALF_EVEN c d"
proof (cases "c mod d = 0")
  case True
  then show ?thesis using assms by (auto simp: round_int_def zmod_zminus1_eq_if zdiv_zminus1_eq_if)
next
  case False
  have q: "(- c) div d = - (c div d) - 1" and nz: "(- c) mod d \<noteq> 0"
    using False assms less_imp_neq [OF pos_mod_bound [OF assms, of c]]
    by (auto simp: zdiv_zminus1_eq_if zmod_zminus1_eq_if)
  have r: "- c - (- (c div d) - 1) * d = d - (c - c div d * d)"
    by (simp add: algebra_simps)
  show ?thesis using False by (auto simp: round_int_def nz q r)
qed

lemma dec_fix_round_bounds:
  assumes p: "0 < p" and n: "p < ndigits \<bar>c\<bar>" and k: "k = ndigits \<bar>c\<bar> - p"
    and q: "q = round_int ROUND_HALF_EVEN c (10 ^ k)"
  shows "\<bar>q\<bar> \<le> 10 ^ p"
proof -
  have "\<bar>c\<bar> < 10 ^ ndigits \<bar>c\<bar>" by (rule ndigits_upper)
  also have "(10::int) ^ ndigits \<bar>c\<bar> = 10 ^ p * 10 ^ k"
    using k n by (simp flip: power_add)
  finally have "c \<le> 10 ^ p * 10 ^ k" and "- (10 ^ p) * 10 ^ k \<le> c" by auto
  then have "q \<le> 10 ^ p" and "- (10 ^ p) \<le> q"
    unfolding q by (simp_all add: rnd.le_grid rnd.ge_grid)
  then show ?thesis by simp
qed

lemma dec_fix_val:
  assumes p: "0 < p" and n: "p < ndigits \<bar>c\<bar>" and k: "k = ndigits \<bar>c\<bar> - p"
  shows "dval (dec_fix p (Dec c e)) =
    of_int (round_int ROUND_HALF_EVEN c (10 ^ k)) * 10 powi (e + int k)"
proof -
  define q where "q = round_int ROUND_HALF_EVEN c (10 ^ k)"
  show ?thesis
  proof (cases "ndigits \<bar>q\<bar> \<le> p")
    case True
    then show ?thesis using n k by (simp add: dec_fix_def Let_def q_def dval_Dec)
  next
    case False
    then have "10 ^ p \<le> \<bar>q\<bar>" using ndigits_le_iff [OF p, of "\<bar>q\<bar>"] by linarith
    moreover have "\<bar>q\<bar> \<le> 10 ^ p" by (rule dec_fix_round_bounds [OF p n k q_def])
    ultimately have "\<bar>q\<bar> = 10 ^ p" by simp
    then have "10 dvd q" using p by (metis dvd_abs_iff dvd_power)
    then have q10: "q div 10 * 10 = q" by simp
    have "dval (Dec (q div 10) (e + int k + 1)) = of_int q * 10 powi (e + int k)"
      using q10 dval_Dec_scale [of 1 "q div 10" "e + int k"] by simp
    then show ?thesis using False n k by (simp add: dec_fix_def Let_def q_def)
  qed
qed

lemma dval_dec_fix_minus:
  assumes "0 < p"
  shows "dval (dec_fix p (Dec (- c) e)) = - dval (dec_fix p (Dec c e))"
proof (cases "ndigits \<bar>c\<bar> \<le> p")
  case True
  then show ?thesis by (simp add: dec_fix_def dval_def)
next
  case False
  then show ?thesis
    using dec_fix_val [OF assms _ refl, of c e] dec_fix_val [OF assms _ refl, of "- c" e]
    by (simp add: round_half_even_minus)
qed

lemma dec_fix_le:
  assumes p: "0 < p" and le: "dval d \<le> dval g" and fit: "fits p (dcoeff g)"
  shows "dval (dec_fix p d) \<le> dval g"
proof (cases "ndigits \<bar>dcoeff d\<bar> \<le> p")
  case True
  then show ?thesis using le by (simp add: dec_fix_def)
next
  case False
  obtain c e where d: "d = Dec c e" by (cases d)
  obtain m f where g: "g = Dec m f" by (cases g)
  define k where "k = ndigits \<bar>c\<bar> - p"
  define q where "q = round_int ROUND_HALF_EVEN c (10 ^ k)"
  have n: "p < ndigits \<bar>c\<bar>" using False d by simp
  have val: "dval (dec_fix p d) = of_int q * 10 powi (e + int k)"
    using dec_fix_val [OF p n k_def] by (simp add: d q_def)
  have big: "10 ^ (p - 1) * 10 ^ k \<le> \<bar>c\<bar>"
    using ndigits_lower [of "\<bar>c\<bar>"] n p k_def by (simp flip: power_add)
  show ?thesis
  proof (cases "e + int k \<le> f")
    case True
    define m' where "m' = m * 10 ^ nat (f - (e + int k))"
    have gv: "dval g = of_int m' * 10 powi (e + int k)"
      using dval_Dec_scale [of "f - (e + int k)" m "e + int k"] True by (simp add: g m'_def)
    have "dval g = of_int (m' * 10 ^ k) * 10 powi e"
      using powi_split [of e "e + int k"] by (simp add: gv)
    then have "(of_int c :: rat) * 10 powi e \<le> of_int (m' * 10 ^ k) * 10 powi e"
      using le by (simp add: d dval_Dec)
    then have "(of_int c :: rat) \<le> of_int (m' * 10 ^ k)" by simp
    then have "c \<le> m' * 10 ^ k" by linarith
    then have "q \<le> m'" unfolding q_def by (simp add: rnd.le_grid)
    then show ?thesis by (simp add: val gv)
  next
    case f: False
    have small: "\<bar>dval g\<bar> < 10 ^ (p - 1) * 10 powi (e + int k)"
    proof -
      have "\<bar>dval g\<bar> < 10 ^ p * 10 powi f"
        using fit of_int_less_iff [of "\<bar>m\<bar>" "10 ^ p", where ?'a = rat]
        by (simp add: g dval_Dec abs_mult fits_def)
      also have "(10::rat) ^ p * 10 powi f = 10 ^ (p - 1) * 10 powi (f + 1)"
        using p by (cases p) (simp_all add: power_int_add)
      also have "\<dots> \<le> 10 ^ (p - 1) * 10 powi (e + int k)"
        using f by (simp add: power_int_increasing)
      finally show ?thesis .
    qed
    show ?thesis
    proof (cases "0 < c")
      case True
      have "(of_int (10 ^ (p - 1) * 10 ^ k) :: rat) \<le> of_int c"
        using big True by (simp only: of_int_le_iff)
      then have "10 ^ (p - 1) * 10 ^ k * 10 powi e \<le> dval d" by (simp add: d dval_Dec)
      then have "10 ^ (p - 1) * 10 powi (e + int k) \<le> dval d"
        using powi_split [of e "e + int k"] by (simp add: mult.assoc)
      then show ?thesis using small le by linarith
    next
      case False
      then have "c \<le> - (10 ^ (p - 1)) * 10 ^ k" using big by simp
      then have "q \<le> - (10 ^ (p - 1))"
        unfolding q_def using rnd.le_grid [of "10 ^ k" c "- (10 ^ (p - 1))"] by simp
      then have "(of_int q :: rat) \<le> of_int (- (10 ^ (p - 1)))" by (simp only: of_int_le_iff)
      then have "dval (dec_fix p d) \<le> - (10 ^ (p - 1)) * 10 powi (e + int k)"
        by (simp only: val) (rule mult_right_mono, simp_all add: less_imp_le)
      then show ?thesis using small by linarith
    qed
  qed
qed

lemma dec_fix_ge:
  assumes p: "0 < p" and ge: "dval g \<le> dval d" and fit: "fits p (dcoeff g)"
  shows "dval g \<le> dval (dec_fix p d)"
proof -
  have "dval (Dec (- dcoeff d) (dexp d)) \<le> dval (Dec (- dcoeff g) (dexp g))"
    using ge by (simp add: dval_def)
  then have "dval (dec_fix p (Dec (- dcoeff d) (dexp d))) \<le> dval (Dec (- dcoeff g) (dexp g))"
    by (rule dec_fix_le [OF p]) (simp add: fit)
  then have "- dval (dec_fix p (Dec (dcoeff d) (dexp d))) \<le> - dval g"
    by (simp only: dval_dec_fix_minus [OF p]) (simp add: dval_def)
  then show ?thesis by simp
qed

lemma dec_fix_nonneg: "0 < p \<Longrightarrow> 0 \<le> dval d \<Longrightarrow> 0 \<le> dval (dec_fix p d)"
  using dec_fix_ge [of p dec_zero d] by (simp add: dec_zero_def dval_Dec)

lemma dec_fix_nonpos: "0 < p \<Longrightarrow> dval d \<le> 0 \<Longrightarrow> dval (dec_fix p d) \<le> 0"
  using dec_fix_le [of p d dec_zero] by (simp add: dec_zero_def dval_Dec)


section \<open>Exact arithmetic on a grid\<close>

text \<open>
  A decimal is on the grid of an exponent \<open>e\<close> when it is a multiple of \<open>10 ^ e\<close> by its form.
  Sums on a grid are exact as long as the result fits in the context: what the ledger's
  exactness rests on.
\<close>

definition on_grid :: "int \<Rightarrow> decimal \<Rightarrow> bool" where
  "on_grid e d = (e \<le> dexp d)"

lemma on_grid_Dec [simp]: "on_grid e (Dec c f) = (e \<le> f)"
  by (simp add: on_grid_def)

lemma on_grid_zero [simp]: "on_grid e dec_zero = (e \<le> 0)"
  by (simp add: dec_zero_def)

lemma coeff_at_zero [simp]: "coeff_at dec_zero e = 0"
  by (simp add: coeff_at_def dec_zero_def)

lemma on_grid_common: "on_grid e a \<Longrightarrow> on_grid e b \<Longrightarrow> e \<le> common_exp a b"
  by (simp add: on_grid_def common_exp_def)

lemma coeff_at_shift: "e \<le> f \<Longrightarrow> f \<le> dexp d \<Longrightarrow> coeff_at d e = coeff_at d f * 10 ^ nat (f - e)"
  by (simp add: coeff_at_def mult.assoc flip: power_add) (simp add: nat_add_distrib [symmetric])

lemma grid_val: "on_grid e d \<Longrightarrow> dval d = of_int (coeff_at d e) * 10 powi e"
  by (simp add: on_grid_def coeff_at_val)

lemma grid_lt: "on_grid e a \<Longrightarrow> on_grid e b \<Longrightarrow> dec_lt a b \<longleftrightarrow> coeff_at a e < coeff_at b e"
  by (simp add: dec_lt_val grid_val)

lemma grid_eq: "on_grid e a \<Longrightarrow> on_grid e b \<Longrightarrow> dec_eq a b \<longleftrightarrow> coeff_at a e = coeff_at b e"
  by (simp add: dec_eq_val grid_val)

lemma coeff_at_sign: "(coeff_at d e < 0) = (dcoeff d < 0)" "(0 < coeff_at d e) = (0 < dcoeff d)"
  "(coeff_at d e = 0) = (dcoeff d = 0)"
  by (simp_all add: coeff_at_def zero_less_mult_iff mult_less_0_iff)

lemma coeff_at_Dec: "e \<le> f \<Longrightarrow> coeff_at (Dec c f) e = c * 10 ^ nat (f - e)"
  by (simp add: coeff_at_def)

lemma grid_fix:
  assumes p: "0 < p" and e: "e \<le> f" and fit: "fits p (c * 10 ^ nat (f - e))"
  shows "dec_fix p (Dec c f) = Dec c f"
proof (rule dec_fix_fits [OF p])
  have "\<bar>c\<bar> * 1 \<le> \<bar>c\<bar> * 10 ^ nat (f - e)" by (rule mult_left_mono) simp_all
  then show "fits p (dcoeff (Dec c f))" using fit by (simp add: fits_def abs_mult)
qed

lemma grid_add:
  assumes p: "0 < p" and a: "on_grid e a" and b: "on_grid e b"
    and fit: "fits p (coeff_at a e + coeff_at b e)"
  shows "on_grid e (dec_add p a b)"
    and "coeff_at (dec_add p a b) e = coeff_at a e + coeff_at b e"
proof -
  define f where "f = common_exp a b"
  have e: "e \<le> f" and le: "f \<le> dexp a" "f \<le> dexp b"
    using on_grid_common [OF a b] common_exp_le by (simp_all add: f_def)
  have s: "(coeff_at a f + coeff_at b f) * 10 ^ nat (f - e) = coeff_at a e + coeff_at b e"
    by (simp add: coeff_at_shift [OF e le(1)] coeff_at_shift [OF e le(2)] distrib_right)
  have fx: "dec_add p a b = Dec (coeff_at a f + coeff_at b f) f"
    unfolding dec_add_def f_def [symmetric] by (rule grid_fix [OF p e]) (simp only: s fit)
  show "on_grid e (dec_add p a b)" using e by (simp add: fx)
  show "coeff_at (dec_add p a b) e = coeff_at a e + coeff_at b e"
    by (simp only: fx coeff_at_Dec [OF e] s)
qed

lemma grid_sub:
  assumes p: "0 < p" and a: "on_grid e a" and b: "on_grid e b"
    and fit: "fits p (coeff_at a e - coeff_at b e)"
  shows "on_grid e (dec_sub p a b)"
    and "coeff_at (dec_sub p a b) e = coeff_at a e - coeff_at b e"
proof -
  define f where "f = common_exp a b"
  have e: "e \<le> f" and le: "f \<le> dexp a" "f \<le> dexp b"
    using on_grid_common [OF a b] common_exp_le by (simp_all add: f_def)
  have s: "(coeff_at a f - coeff_at b f) * 10 ^ nat (f - e) = coeff_at a e - coeff_at b e"
    by (simp add: coeff_at_shift [OF e le(1)] coeff_at_shift [OF e le(2)] left_diff_distrib)
  have fx: "dec_sub p a b = Dec (coeff_at a f - coeff_at b f) f"
    unfolding dec_sub_def f_def [symmetric] by (rule grid_fix [OF p e]) (simp only: s fit)
  show "on_grid e (dec_sub p a b)" using e by (simp add: fx)
  show "coeff_at (dec_sub p a b) e = coeff_at a e - coeff_at b e"
    by (simp only: fx coeff_at_Dec [OF e] s)
qed

lemma grid_neg:
  assumes p: "0 < p" and a: "on_grid e a" and fit: "fits p (coeff_at a e)"
  shows "on_grid e (dec_neg p a)" and "coeff_at (dec_neg p a) e = - coeff_at a e"
proof -
  have e: "e \<le> dexp a" using a by (simp add: on_grid_def)
  have "dec_neg p a = Dec (- dcoeff a) (dexp a)"
    unfolding dec_neg_def by (rule grid_fix [OF p e]) (use fit in \<open>simp add: coeff_at_def\<close>)
  then show "on_grid e (dec_neg p a)" and "coeff_at (dec_neg p a) e = - coeff_at a e"
    using e by (simp_all add: coeff_at_def)
qed


lemma grid_sub_nonneg:
  assumes p: "0 < p" and a: "on_grid e a" and b: "on_grid e b"
    and nn: "0 \<le> dcoeff (dec_sub p a b)"
  shows "coeff_at b e \<le> coeff_at a e"
proof (rule ccontr)
  assume "\<not> coeff_at b e \<le> coeff_at a e"
  then have "coeff_at a e - coeff_at b e \<le> - 1" by simp
  then have "(of_int (coeff_at a e - coeff_at b e) :: rat) \<le> of_int (- 1)" by (simp only: of_int_le_iff)
  then have "(of_int (coeff_at a e - coeff_at b e) :: rat) * 10 powi e \<le> of_int (- 1) * 10 powi e"
    by (rule mult_right_mono) (simp add: less_imp_le)
  then have "dval a - dval b \<le> dval (Dec (- 1) e)"
    by (simp add: grid_val [OF a] grid_val [OF b] dval_Dec algebra_simps)
  moreover have "fits p (dcoeff (Dec (- 1) e))" using p by (simp add: fits_def)
  ultimately have "dval (dec_sub p a b) \<le> dval (Dec (- 1) e)"
    unfolding dec_sub_def dval_diff [symmetric] by (intro dec_fix_le [OF p])
  also have "\<dots> < 0" by (simp add: dval_Dec)
  finally show False using nn by (simp add: dval_sign)
qed

lemma rescale_coeff_zero [simp]: "dcoeff d = 0 \<Longrightarrow> rescale m d e = 0"
  by (simp add: rescale_def coeff_at_def round_int_def)

lemma dec_fix_coeff_zero [simp]: "0 < p \<Longrightarrow> dec_fix p (Dec 0 e) = Dec 0 e"
  by (simp add: dec_fix_fits)

lemma dec_mul_zero_left: "0 < p \<Longrightarrow> dcoeff a = 0 \<Longrightarrow> dcoeff (dec_mul p a b) = 0"
  by (simp add: dec_mul_def)

section \<open>Division keeps representable bounds\<close>

lemma strip_zeros_val: "dval (strip_zeros c e ideal) = of_int c * 10 powi e"
proof (induction c e ideal rule: strip_zeros.induct)
  case (1 c e ideal)
  show ?case
  proof (cases "e < ideal \<and> c mod 10 = 0")
    case True
    then have "c = c div 10 * 10" by auto
    then have c: "(of_int c :: rat) = of_int (c div 10) * 10" by (metis of_int_mult of_int_numeral)
    have "strip_zeros c e ideal = strip_zeros (c div 10) (e + 1) ideal"
      using True by (subst strip_zeros.simps) simp
    then show ?thesis using "1.IH" [OF True] by (simp add: power_int_add c)
  next
    case False
    then have "strip_zeros c e ideal = Dec c e"
      by (simp only: strip_zeros.simps [of c e ideal] if_False)
    then show ?thesis by (simp add: dval_Dec)
  qed
qed

lemma ndigits_lower1: "0 < n \<Longrightarrow> 10 ^ (ndigits n - 1) \<le> n"
  using ndigits_lower [of n] ndigits_pos [of n] by (cases "ndigits n = 1") auto

lemma nat_powi: "(10::rat) ^ nat s = 10 powi s * 10 ^ nat (- s)"
proof (cases "0 \<le> s")
  case True
  then show ?thesis by (simp add: power_int_def)
next
  case False
  then show ?thesis by (simp add: power_int_def flip: power_mult_distrib)
qed

text \<open>The quotient as an integer fraction of at least \<open>p + 1\<close> digits over its unit.\<close>

lemma dec_div_abs_fraction:
  assumes a: "0 < a" and b: "0 < b"
  obtains n m u where "0 < m" "10 ^ p * m \<le> n"
    "(of_int a / of_int b :: rat) * 10 powi ideal = of_int n / of_int m * 10 powi u"
    "dec_div_abs p a b ideal =
       (if n mod m = 0 then strip_zeros (n div m) u ideal else Dec (sticky (n div m) (n mod m)) u)"
proof -
  define s where "s = int (ndigits b) - int (ndigits a) + int p + 1"
  define n where "n = a * 10 ^ nat s"
  define m where "m = b * 10 ^ nat (- s)"
  have m: "0 < m" using b by (simp add: m_def)
  have val: "(of_int a / of_int b :: rat) * 10 powi ideal = of_int n / of_int m * 10 powi (ideal - s)"
    using b by (simp add: n_def m_def nat_powi [of s] power_int_diff)
  have "b < 10 ^ ndigits b" by (rule ndigits_upper)
  then have "10 ^ p * m \<le> 10 ^ p * (10 ^ ndigits b * 10 ^ nat (- s))"
    by (simp add: m_def)
  also have "\<dots> = 10 ^ (p + ndigits b + nat (- s))" by (simp add: power_add)
  also have "\<dots> \<le> 10 ^ (ndigits a - 1 + nat s)"
    using ndigits_pos [of a] by (intro power_increasing) (auto simp: s_def)
  also have "\<dots> \<le> n"
    using ndigits_lower1 [OF a] by (simp add: n_def power_add)
  finally have big: "10 ^ p * m \<le> n" .
  show thesis
    by (rule that [OF m big val]) (simp add: dec_div_abs_def Let_def s_def n_def m_def)
qed

lemma sticky_bounds: "q \<le> sticky q r" "sticky q r \<le> q + 1"
  by (simp_all add: sticky_def)

text \<open>A representable bound of the exact quotient bounds the computed digits.\<close>

lemma dec_div_abs_le:
  assumes a: "0 < a" and b: "0 < b" and fit: "fits p (dcoeff g)"
    and le: "of_int a / of_int b * 10 powi ideal \<le> dval g"
  shows "dval (dec_div_abs p a b ideal) \<le> dval g"
proof -
  obtain n m u where m: "0 < m" and big: "10 ^ p * m \<le> n"
    and val: "(of_int a / of_int b :: rat) * 10 powi ideal = of_int n / of_int m * 10 powi u"
    and run: "dec_div_abs p a b ideal =
       (if n mod m = 0 then strip_zeros (n div m) u ideal else Dec (sticky (n div m) (n mod m)) u)"
    using dec_div_abs_fraction [OF a b] .
  obtain c f where g: "g = Dec c f" by (cases g)
  have q_big: "(10::rat) ^ p \<le> of_int n / of_int m"
  proof -
    have "(of_int (10 ^ p * m) :: rat) \<le> of_int n" using big by (simp only: of_int_le_iff)
    then show ?thesis using m by (simp add: pos_le_divide_eq)
  qed
  have u: "u \<le> f"
  proof (rule ccontr)
    assume "\<not> u \<le> f"
    then have "(10::rat) ^ p * 10 powi f \<le> 10 ^ p * 10 powi u" by (simp add: power_int_increasing)
    also have "\<dots> \<le> of_int n / of_int m * 10 powi u"
      using q_big by (intro mult_right_mono) (simp_all add: less_imp_le)
    also have "\<dots> \<le> dval g" using le val by simp
    also have "\<dots> < 10 ^ p * 10 powi f"
      using fit of_int_less_iff [of "\<bar>c\<bar>" "10 ^ p", where ?'a = rat] by (simp add: g dval_Dec fits_def)
    finally show False by simp
  qed
  define h where "h = c * 10 ^ nat (f - u)"
  have gh: "dval g = of_int h * 10 powi u"
    using dval_Dec_scale [of "f - u" c u] u by (simp add: g h_def)
  have "(of_int n :: rat) / of_int m * 10 powi u \<le> of_int h * 10 powi u"
    using le by (simp only: val gh)
  then have "(of_int n :: rat) / of_int m \<le> of_int h" by (rule mult_right_le_imp_le) simp
  then have "(of_int n :: rat) \<le> of_int (h * m)" using m by (simp add: pos_divide_le_eq)
  then have nh: "n \<le> h * m" by linarith
  show ?thesis
  proof (cases "n mod m = 0")
    case True
    have "n div m \<le> h" using nh m by (metis nonzero_mult_div_cancel_right less_irrefl zdiv_mono1)
    then show ?thesis using run True by (simp add: strip_zeros_val gh)
  next
    case False
    then have "n \<noteq> h * m" by auto
    with nh have "n < h * m" by simp
    then have "n div m * m < h * m" using pos_mod_sign [OF m, of n] div_mult_mod_eq [of n m] by linarith
    then have "n div m < h" using m by simp
    then have "sticky (n div m) (n mod m) \<le> h" using sticky_bounds(2) [of "n div m" "n mod m"] by linarith
    then show ?thesis using run False by (simp add: dval_Dec gh)
  qed
qed

lemma dec_div_abs_ge:
  assumes a: "0 < a" and b: "0 < b" and fit: "fits p (dcoeff g)"
    and ge: "dval g \<le> of_int a / of_int b * 10 powi ideal"
  shows "dval g \<le> dval (dec_div_abs p a b ideal)"
proof -
  obtain n m u where m: "0 < m" and big: "10 ^ p * m \<le> n"
    and val: "(of_int a / of_int b :: rat) * 10 powi ideal = of_int n / of_int m * 10 powi u"
    and run: "dec_div_abs p a b ideal =
       (if n mod m = 0 then strip_zeros (n div m) u ideal else Dec (sticky (n div m) (n mod m)) u)"
    using dec_div_abs_fraction [OF a b] .
  obtain c f where g: "g = Dec c f" by (cases g)
  have "10 ^ p * m div m \<le> n div m" using big m by (intro zdiv_mono1) simp_all
  then have q_big: "10 ^ p \<le> n div m" using m by simp
  have low: "of_int (n div m) * 10 powi u \<le> dval (dec_div_abs p a b ideal)"
    using run sticky_bounds(1) [of "n div m" "n mod m"] by (simp add: strip_zeros_val dval_Dec)
  show ?thesis
  proof (cases "u \<le> f")
    case True
    define h where "h = c * 10 ^ nat (f - u)"
    have gh: "dval g = of_int h * 10 powi u"
      using dval_Dec_scale [of "f - u" c u] True by (simp add: g h_def)
    have "(of_int h :: rat) * 10 powi u \<le> of_int n / of_int m * 10 powi u"
      using ge by (simp only: val gh)
    then have "(of_int h :: rat) \<le> of_int n / of_int m" by (rule mult_right_le_imp_le) simp
    then have "(of_int (h * m) :: rat) \<le> of_int n" using m by (simp add: pos_le_divide_eq)
    then have "h * m \<le> n" by linarith
    then have "h \<le> n div m" using m by (metis nonzero_mult_div_cancel_right less_irrefl zdiv_mono1)
    then have "dval g \<le> of_int (n div m) * 10 powi u" by (simp add: gh)
    then show ?thesis using low by linarith
  next
    case False
    have "dval g < 10 ^ p * 10 powi f"
      using fit of_int_less_iff [of "\<bar>c\<bar>" "10 ^ p", where ?'a = rat] by (simp add: g dval_Dec fits_def)
    also have "\<dots> \<le> 10 ^ p * 10 powi u" using False by (simp add: power_int_increasing)
    also have "\<dots> \<le> of_int (n div m) * 10 powi u"
    proof -
      have "(of_int (10 ^ p) :: rat) \<le> of_int (n div m)" using q_big by (simp only: of_int_le_iff)
      then show ?thesis by simp
    qed
    finally show ?thesis using low by linarith
  qed
qed

text \<open>The same for the division of a non-negative by a positive decimal.\<close>

lemma dec_div_pos:
  assumes "0 < dcoeff a" and "0 < dcoeff b" and "dec_div p a b = Some q"
  shows "q = dec_fix p (dec_div_abs p (dcoeff a) (dcoeff b) (dexp a - dexp b))"
proof -
  obtain c e where "dec_div_abs p (dcoeff a) (dcoeff b) (dexp a - dexp b) = Dec c e"
    using decimal.exhaust by blast
  then show ?thesis using assms by (auto simp: dec_div_def Let_def)
qed

lemma dec_div_quotient:
  "dval a / dval b = of_int (dcoeff a) / of_int (dcoeff b) * 10 powi (dexp a - dexp b)"
  by (simp add: dval_def power_int_diff)

lemma dec_div_le:
  assumes p: "0 < p" and a: "0 \<le> dcoeff a" and b: "0 < dcoeff b"
    and run: "dec_div p a b = Some q" and fit: "fits p (dcoeff g)"
    and le: "dval a / dval b \<le> dval g"
  shows "dval q \<le> dval g"
proof (cases "dcoeff a = 0")
  case True
  then show ?thesis using run b le by (auto simp: dec_div_def dval_def)
next
  case False
  then have "0 < dcoeff a" using a by simp
  then show ?thesis
    using dec_div_pos [OF _ b run] dec_div_abs_le [OF _ b fit] le
    by (simp add: dec_div_quotient dec_fix_le [OF p _ fit])
qed

lemma dec_div_ge:
  assumes p: "0 < p" and a: "0 \<le> dcoeff a" and b: "0 < dcoeff b"
    and run: "dec_div p a b = Some q" and fit: "fits p (dcoeff g)"
    and ge: "dval g \<le> dval a / dval b"
  shows "dval g \<le> dval q"
proof (cases "dcoeff a = 0")
  case True
  then show ?thesis using run b ge by (auto simp: dec_div_def dval_def)
next
  case False
  then have "0 < dcoeff a" using a by simp
  then show ?thesis
    using dec_div_pos [OF _ b run] dec_div_abs_ge [OF _ b fit] ge
    by (simp add: dec_div_quotient dec_fix_ge [OF p _ fit])
qed

end
