(* ===== verification/Py_Values.thy ===== *)
theory Py_Values
  imports Decimals
begin

text \<open>
  Python values as the program's boundaries receive them (\<open>Any\<close>), the string methods it uses,
  the \<open>Decimal\<close> constructor on a string and \<open>str\<close> of a decimal. Strings are ASCII: one
  character here is one code point there.
\<close>

section \<open>Dynamically typed values\<close>

text \<open>\<open>NonFinite\<close> is any of the infinities and NaNs; \<open>PyFloat\<close> any binary float (the modelled code
  refuses every float without reading it); \<open>PyOther\<close> an object of any other type.\<close>

datatype pydec = Fin decimal | NonFinite

datatype pyval = PyNone | PyBool bool | PyInt int | PyFloat | PyStr string | PyDec pydec | PyOther

abbreviation D :: "decimal \<Rightarrow> pyval" where
  "D d \<equiv> PyDec (Fin d)"

text \<open>The built-in exceptions the modelled code raises or lets through.\<close>

datatype py_exc = ValueError | KeyError | TypeError | OverflowError

section \<open>String methods\<close>

definition chr_code :: "char \<Rightarrow> int" where
  "chr_code c = of_char c"

definition is_space :: "char \<Rightarrow> bool" where
  "is_space c = (let n = chr_code c in 9 \<le> n \<and> n \<le> 13 \<or> 28 \<le> n \<and> n \<le> 32)"

definition py_strip :: "string \<Rightarrow> string" where
  "py_strip s = rev (dropWhile is_space (rev (dropWhile is_space s)))"

definition upper_char :: "char \<Rightarrow> char" where
  "upper_char c = (if 97 \<le> chr_code c \<and> chr_code c \<le> 122 then char_of (chr_code c - 32) else c)"

definition lower_char :: "char \<Rightarrow> char" where
  "lower_char c = (if 65 \<le> chr_code c \<and> chr_code c \<le> 90 then char_of (chr_code c + 32) else c)"

definition py_upper :: "string \<Rightarrow> string" where
  "py_upper s = map upper_char s"

definition py_lower :: "string \<Rightarrow> string" where
  "py_lower s = map lower_char s"

text \<open>\<open>s.replace(a, b)\<close> for single characters.\<close>

definition py_replace1 :: "char \<Rightarrow> char \<Rightarrow> string \<Rightarrow> string" where
  "py_replace1 a b s = map (\<lambda>c. if c = a then b else c) s"

lemma py_strip_id:
  assumes "s = [] \<or> (\<not> is_space (hd s) \<and> \<not> is_space (last s))"
  shows "py_strip s = s"
proof -
  have "dropWhile is_space s = s" and "dropWhile is_space (rev s) = rev s"
    using assms by (auto simp: dropWhile_eq_self_iff hd_rev)
  then show ?thesis by (simp add: py_strip_def)
qed

lemma py_strip_no_space: "\<forall>c \<in> set s. \<not> is_space c \<Longrightarrow> py_strip s = s"
  by (rule py_strip_id) (use hd_in_set last_in_set in blast)

section \<open>Digits\<close>

definition is_digit :: "char \<Rightarrow> bool" where
  "is_digit c = (48 \<le> chr_code c \<and> chr_code c \<le> 57)"

definition digit_char :: "int \<Rightarrow> char" where
  "digit_char d = char_of (48 + d)"

function int_digits :: "int \<Rightarrow> string" where
  "int_digits n = (if n < 10 then [digit_char n] else int_digits (n div 10) @ [digit_char (n mod 10)])"
  by pat_completeness auto
termination
  by (relation "measure nat") auto

declare int_digits.simps [simp del]

definition int_of_digits :: "string \<Rightarrow> int" where
  "int_of_digits s = foldl (\<lambda>acc c. acc * 10 + (chr_code c - 48)) 0 s"

lemma int_of_digits_Nil [simp]: "int_of_digits [] = 0"
  by (simp add: int_of_digits_def)

lemma int_of_digits_snoc [simp]: "int_of_digits (s @ [c]) = int_of_digits s * 10 + (chr_code c - 48)"
  by (simp add: int_of_digits_def)

lemma chr_code_digit: "0 \<le> d \<Longrightarrow> d < 10 \<Longrightarrow> chr_code (digit_char d) = 48 + d"
  by (simp add: chr_code_def digit_char_def of_char_of)

lemma is_digit_digit [simp]: "0 \<le> d \<Longrightarrow> d < 10 \<Longrightarrow> is_digit (digit_char d)"
  by (simp add: is_digit_def chr_code_digit)

lemma is_digit_0 [simp]: "is_digit CHR ''0''"
  by (simp add: is_digit_def chr_code_def)

lemma int_digits_nonempty [simp]: "int_digits n \<noteq> []"
  by (subst int_digits.simps) simp

lemma int_digits_digits: "0 \<le> n \<Longrightarrow> \<forall>c \<in> set (int_digits n). is_digit c"
proof (induction n rule: int_digits.induct)
  case (1 n)
  show ?case
  proof (cases "n < 10")
    case True
    then show ?thesis using "1.prems" by (subst int_digits.simps) simp
  next
    case False
    then show ?thesis using "1.IH" by (subst int_digits.simps) simp
  qed
qed

lemma int_of_int_digits [simp]: "0 \<le> n \<Longrightarrow> int_of_digits (int_digits n) = n"
proof (induction n rule: int_digits.induct)
  case (1 n)
  show ?case
  proof (cases "n < 10")
    case True
    then show ?thesis using "1.prems" int_of_digits_snoc [of "[]"]
      by (subst int_digits.simps) (simp add: chr_code_digit)
  next
    case False
    then show ?thesis using "1.IH"
      by (subst int_digits.simps) (simp add: chr_code_digit div_mult_mod_eq)
  qed
qed

lemma int_of_digits_zeros: "int_of_digits (replicate k CHR ''0'' @ s) = int_of_digits s"
proof (induction s rule: rev_induct)
  case Nil
  have "int_of_digits (replicate k CHR ''0'') = 0"
    by (induction k) (simp_all add: replicate_append_same [symmetric] chr_code_def)
  then show ?case by simp
next
  case (snoc c s)
  then show ?case by (metis append_assoc int_of_digits_snoc)
qed

section \<open>The \<open>Decimal\<close> constructor on a string\<close>

text \<open>The unsigned part: digits, an optional fraction, an optional exponent.\<close>

definition parse_exponent :: "string \<Rightarrow> int option" where
  "parse_exponent r =
     (case r of
        [] \<Rightarrow> Some 0
      | c # r' \<Rightarrow>
          if c = CHR ''e'' \<or> c = CHR ''E'' then
            (let sg = (if r' \<noteq> [] \<and> hd r' = CHR ''-'' then -1 else 1);
                 ds = (if r' \<noteq> [] \<and> (hd r' = CHR ''-'' \<or> hd r' = CHR ''+'') then tl r' else r')
             in if ds \<noteq> [] \<and> list_all is_digit ds then Some (sg * int_of_digits ds) else None)
          else None)"

definition is_special :: "string \<Rightarrow> bool" where
  "is_special s =
     (let l = py_lower s; isnan = (\<lambda>k. list_all is_digit (drop k l)) in
      l = ''inf'' \<or> l = ''infinity'' \<or> take 3 l = ''nan'' \<and> isnan 3 \<or> take 4 l = ''snan'' \<and> isnan 4)"

definition parse_unsigned :: "string \<Rightarrow> (int \<times> int) option" where
  "parse_unsigned s =
     (let ip = takeWhile is_digit s;
          r = dropWhile is_digit s;
          dot = r \<noteq> [] \<and> hd r = CHR ''.'';
          fp = (if dot then takeWhile is_digit (tl r) else []);
          r' = (if dot then dropWhile is_digit (tl r) else r)
      in if ip = [] \<and> fp = [] then None
         else case parse_exponent r' of
                None \<Rightarrow> None
              | Some e \<Rightarrow> Some (int_of_digits (ip @ fp), e - int (length fp)))"

text \<open>\<open>None\<close> is \<open>InvalidOperation\<close>. Underscores are dropped, as the constructor does.\<close>

definition parse_decimal :: "string \<Rightarrow> pydec option" where
  "parse_decimal s0 =
     (let s = filter (\<lambda>c. c \<noteq> CHR ''_'') (py_strip s0);
          neg = (s \<noteq> [] \<and> hd s = CHR ''-'');
          u = (if s \<noteq> [] \<and> (hd s = CHR ''-'' \<or> hd s = CHR ''+'') then tl s else s)
      in case parse_unsigned u of
           Some (c, e) \<Rightarrow> Some (Fin (Dec (if neg then - c else c) e))
         | None \<Rightarrow> if is_special u then Some NonFinite else None)"

section \<open>\<open>str\<close> of a decimal\<close>

definition dec_str_abs :: "int \<Rightarrow> int \<Rightarrow> string" where
  "dec_str_abs c e =
     (let s = int_digits c; left = e + int (length s) in
      if e \<le> 0 \<and> - 6 < left then
        (if left \<le> 0 then ''0.'' @ replicate (nat (- left)) CHR ''0'' @ s
         else if e = 0 then s
         else take (nat left) s @ ''.'' @ drop (nat left) s)
      else
        take 1 s @ (if length s = 1 then [] else ''.'' @ drop 1 s) @
        (if left - 1 < 0 then ''E-'' else ''E+'') @ int_digits \<bar>left - 1\<bar>)"

definition dec_str :: "decimal \<Rightarrow> string" where
  "dec_str d =
     (let u = dec_str_abs \<bar>dcoeff d\<bar> (dexp d) in if dcoeff d < 0 then CHR ''-'' # u else u)"

lemma span_digits:
  assumes "\<forall>c \<in> set a. is_digit c"
  shows "takeWhile is_digit a = a" and "dropWhile is_digit a = []"
    and "\<not> is_digit c \<Longrightarrow> takeWhile is_digit (a @ c # r) = a"
    and "\<not> is_digit c \<Longrightarrow> dropWhile is_digit (a @ c # r) = c # r"
  using assms by (simp_all add: takeWhile_append2 dropWhile_append2)

lemma parse_unsigned_plain:
  assumes "\<forall>c \<in> set a. is_digit c" and "a \<noteq> []"
  shows "parse_unsigned a = Some (int_of_digits a, 0)"
  using assms(2) by (simp add: parse_unsigned_def parse_exponent_def Let_def span_digits [OF assms(1)])

lemma parse_unsigned_dot:
  assumes a: "\<forall>c \<in> set a. is_digit c" and b: "\<forall>c \<in> set b. is_digit c" and ne: "a \<noteq> []"
  shows "parse_unsigned (a @ ''.'' @ b) = Some (int_of_digits (a @ b), - int (length b))"
proof -
  have dot: "\<not> is_digit CHR ''.''" by (simp add: is_digit_def chr_code_def)
  show ?thesis
    using ne by (simp add: parse_unsigned_def parse_exponent_def Let_def dot
        span_digits [OF a] span_digits [OF b])
qed

text \<open>What \<open>str\<close> prints without an exponent, the constructor reads back exactly.\<close>

lemma parse_unsigned_str:
  assumes c: "0 \<le> c" and e: "e \<le> 0" and left: "- 6 < e + int (length (int_digits c))"
  shows "parse_unsigned (dec_str_abs c e) = Some (c, e)"
proof -
  define s where "s = int_digits c"
  define left where "left = e + int (length s)"
  have ds: "\<forall>x \<in> set s. is_digit x" using int_digits_digits [OF c] by (simp add: s_def)
  have val: "int_of_digits s = c" using c by (simp add: s_def)
  have str: "dec_str_abs c e = (if left \<le> 0 then ''0.'' @ replicate (nat (- left)) CHR ''0'' @ s
      else if e = 0 then s else take (nat left) s @ ''.'' @ drop (nat left) s)"
    using e assms(3) by (simp add: dec_str_abs_def Let_def left_def s_def)
  consider "left \<le> 0" | "0 < left" "e = 0" | "0 < left" "e < 0" using e by linarith
  then show ?thesis
  proof cases
    case 1
    define z where "z = replicate (nat (- left)) CHR ''0'' @ s"
    have "int_of_digits (''0'' @ z) = c"
      using int_of_digits_zeros [of "Suc (nat (- left))" s] val by (simp add: z_def)
    moreover have "int (length z) = - e" using 1 by (simp add: z_def left_def)
    moreover have "\<forall>x \<in> set z. is_digit x" using ds by (auto simp: z_def)
    ultimately have "parse_unsigned (''0'' @ ''.'' @ z) = Some (c, e)"
      by (subst parse_unsigned_dot) auto
    then show ?thesis using 1 by (simp add: str z_def)
  next
    case 2
    have "dec_str_abs c e = s" by (subst str) (use 2 in simp)
    then show ?thesis using parse_unsigned_plain [OF ds] 2 c by (simp add: s_def)
  next
    case 3
    have "parse_unsigned (take (nat left) s @ ''.'' @ drop (nat left) s) =
        Some (int_of_digits (take (nat left) s @ drop (nat left) s), - int (length (drop (nat left) s)))"
      using 3 ds by (intro parse_unsigned_dot) (auto dest: in_set_takeD in_set_dropD simp: s_def)
    then show ?thesis using 3 by (simp add: str val left_def)
  qed
qed

lemma parse_decimal_str:
  assumes e: "dexp d \<le> 0" and left: "- 6 < dexp d + int (length (int_digits \<bar>dcoeff d\<bar>))"
  shows "parse_decimal (dec_str d) = Some (Fin d)" and "py_strip (dec_str d) = dec_str d"
proof -
  define u where "u = dec_str_abs \<bar>dcoeff d\<bar> (dexp d)"
  have ds: "\<forall>x \<in> set (int_digits \<bar>dcoeff d\<bar>). is_digit x" by (rule int_digits_digits) simp
  have chars: "x \<in> set u \<Longrightarrow> is_digit x \<or> x = CHR ''.''" for x
    using ds e left unfolding u_def dec_str_abs_def Let_def
    by (auto split: if_splits dest: in_set_takeD in_set_dropD)
  have ne: "u \<noteq> []" by (simp add: u_def dec_str_abs_def Let_def)
  have hd: "hd u \<noteq> CHR ''-'' \<and> hd u \<noteq> CHR ''+''"
    using chars [of "hd u"] ne by (auto simp: is_digit_def chr_code_def)
  have ok: "x \<in> set (dec_str d) \<Longrightarrow> \<not> is_space x \<and> x \<noteq> CHR ''_''" for x
    using chars [of x] by (auto simp: dec_str_def Let_def u_def [symmetric] is_digit_def is_space_def
        chr_code_def split: if_splits)
  have st: "py_strip (dec_str d) = dec_str d" using ok by (simp add: py_strip_no_space)
  have fl: "filter (\<lambda>c. c \<noteq> CHR ''_'') (dec_str d) = dec_str d" using ok by (simp add: filter_id_conv)
  have pu: "parse_unsigned u = Some (\<bar>dcoeff d\<bar>, dexp d)"
    unfolding u_def using e left by (intro parse_unsigned_str) auto
  have sd: "dec_str d = (if dcoeff d < 0 then CHR ''-'' # u else u)"
    by (simp add: dec_str_def u_def Let_def)
  have "parse_decimal (dec_str d) = Some (Fin (Dec (dcoeff d) (dexp d)))"
    unfolding parse_decimal_def st fl Let_def
    using hd ne pu by (cases "dcoeff d < 0") (simp_all add: sd)
  then show "parse_decimal (dec_str d) = Some (Fin d)" by simp
  show "py_strip (dec_str d) = dec_str d" by (rule st)
qed

section \<open>Every decimal that \<open>str\<close> prints is read back\<close>

lemma not_digit_marks [simp]:
  "\<not> is_digit CHR ''.''" "\<not> is_digit CHR ''E''" "\<not> is_digit CHR ''-''" "\<not> is_digit CHR ''+''"
  by (simp_all add: is_digit_def chr_code_def)

definition exponent_text :: "int \<Rightarrow> string" where
  "exponent_text k = (if k < 0 then ''E-'' else ''E+'') @ int_digits \<bar>k\<bar>"

lemma parse_exponent_text: "parse_exponent (exponent_text k) = Some k"
proof -
  have ds: "list_all is_digit (int_digits \<bar>k\<bar>)"
    using int_digits_digits [of "\<bar>k\<bar>"] by (simp add: list_all_iff)
  have "is_digit (hd (int_digits \<bar>k\<bar>))"
    using ds hd_in_set [of "int_digits \<bar>k\<bar>"] by (simp add: list_all_iff)
  then have "hd (int_digits \<bar>k\<bar>) \<noteq> CHR ''-''" "hd (int_digits \<bar>k\<bar>) \<noteq> CHR ''+''"
    using not_digit_marks by metis+
  then show ?thesis using ds by (cases "k < 0") (simp_all add: parse_exponent_def exponent_text_def Let_def)
qed

lemma exponent_text_head: "\<exists>r. exponent_text k = CHR ''E'' # r"
  by (simp add: exponent_text_def)

lemma parse_unsigned_sci:
  assumes d: "is_digit d" and ds: "\<forall>c \<in> set ds. is_digit c"
  shows "parse_unsigned (d # (if ds = [] then [] else ''.'' @ ds) @ exponent_text k) =
    Some (int_of_digits (d # ds), k - int (length ds))"
proof -
  obtain r where r: "exponent_text k = CHR ''E'' # r" using exponent_text_head by blast
  have pe: "parse_exponent (CHR ''E'' # r) = Some k" using parse_exponent_text [of k] by (simp add: r)
  show ?thesis
    using d span_digits(3,4) [OF ds, of "CHR ''E''" r]
    by (cases "ds = []") (simp_all add: parse_unsigned_def Let_def r pe)
qed

lemma parse_unsigned_any:
  assumes c: "0 \<le> c"
  shows "parse_unsigned (dec_str_abs c e) = Some (c, e)"
proof (cases "e \<le> 0 \<and> - 6 < e + int (length (int_digits c))")
  case True
  then show ?thesis using parse_unsigned_str [OF c] by simp
next
  case False
  obtain d ds where s: "int_digits c = d # ds" using int_digits_nonempty [of c] by (cases "int_digits c") auto
  have dd: "is_digit d" "\<forall>x \<in> set ds. is_digit x" using int_digits_digits [OF c] by (auto simp: s)
  have "dec_str_abs c e = d # (if ds = [] then [] else ''.'' @ ds) @ exponent_text (e + int (length ds))"
    using False by (auto simp: dec_str_abs_def Let_def s exponent_text_def)
  then show ?thesis using parse_unsigned_sci [OF dd] int_of_int_digits [OF c] by (simp add: s)
qed

lemma dec_str_abs_chars:
  assumes c: "0 \<le> c" and x: "x \<in> set (dec_str_abs c e)"
  shows "is_digit x \<or> x \<in> {CHR ''.'', CHR ''-'', CHR ''E'', CHR ''+''}"
proof -
  have a: "\<forall>y \<in> set (int_digits c). is_digit y" using int_digits_digits [OF c] .
  have b: "\<forall>y \<in> set (int_digits \<bar>k\<bar>). is_digit y" for k by (rule int_digits_digits) simp
  show ?thesis
  proof (cases "e \<le> 0 \<and> - 6 < e + int (length (int_digits c))")
    case True
    define k where "k = nat (e + int (length (int_digits c)))"
    have "set (dec_str_abs c e) \<subseteq> set (int_digits c) \<union> set (take k (int_digits c)) \<union>
        set (drop k (int_digits c)) \<union> {CHR ''0'', CHR ''.''}"
      using True unfolding dec_str_abs_def Let_def k_def
      by (simp only: if_True) (auto split: if_splits)
    then have "x \<in> set (int_digits c) \<or> x = CHR ''0'' \<or> x = CHR ''.''"
      using x set_take_subset [of k "int_digits c"] set_drop_subset [of k "int_digits c"] by blast
    then show ?thesis using a by (elim disjE) simp_all
  next
    case False
    have "dec_str_abs c e = take 1 (int_digits c) @ (if length (int_digits c) = 1 then [] else ''.'' @ drop 1 (int_digits c)) @
        exponent_text (e + int (length (int_digits c)) - 1)"
      unfolding dec_str_abs_def Let_def exponent_text_def if_not_P [OF False] append_assoc ..
    then have "x \<in> set (take 1 (int_digits c)) \<or> x = CHR ''.'' \<or> x \<in> set (drop 1 (int_digits c)) \<or>
        x \<in> set (exponent_text (e + int (length (int_digits c)) - 1))"
      using x by (simp split: if_splits) blast
    then show ?thesis
      using a b [of "e + int (length (int_digits c)) - 1"]
      by (elim disjE) (auto simp: exponent_text_def split: if_splits dest!: in_set_takeD in_set_dropD)
  qed
qed

lemma dec_str_chars:
  assumes "x \<in> set (dec_str d)"
  shows "is_digit x \<or> x \<in> {CHR ''.'', CHR ''-'', CHR ''E'', CHR ''+''}"
  using assms dec_str_abs_chars [of "\<bar>dcoeff d\<bar>" x "dexp d"]
  by (auto simp: dec_str_def Let_def split: if_splits)

lemma dec_str_plain: "x \<in> set (dec_str d) \<Longrightarrow> \<not> is_space x \<and> x \<noteq> CHR ''_''"
  using dec_str_chars [of x d] by (auto simp: is_digit_def is_space_def chr_code_def)

lemma dec_str_strip [simp]: "py_strip (dec_str d) = dec_str d"
  by (simp add: py_strip_no_space dec_str_plain)

theorem parse_decimal_dec_str [simp]: "parse_decimal (dec_str d) = Some (Fin d)"
proof -
  define u where "u = dec_str_abs \<bar>dcoeff d\<bar> (dexp d)"
  have pu: "parse_unsigned u = Some (\<bar>dcoeff d\<bar>, dexp d)" unfolding u_def by (rule parse_unsigned_any) simp
  have ds: "\<forall>y \<in> set (int_digits \<bar>dcoeff d\<bar>). is_digit y" by (rule int_digits_digits) simp
  have ne: "u \<noteq> []" by (simp add: u_def dec_str_abs_def Let_def)
  have "hd u \<in> set (int_digits \<bar>dcoeff d\<bar>) \<or> hd u = CHR ''0''"
    using int_digits_nonempty [of "\<bar>dcoeff d\<bar>"]
    by (cases "int_digits \<bar>dcoeff d\<bar>") (auto simp: u_def dec_str_abs_def Let_def)
  then have hd: "hd u \<noteq> CHR ''-'' \<and> hd u \<noteq> CHR ''+''" using ds by (auto simp: is_digit_def chr_code_def)
  have fl: "filter (\<lambda>c. c \<noteq> CHR ''_'') (dec_str d) = dec_str d" using dec_str_plain by (auto simp: filter_id_conv)
  have sd: "dec_str d = (if dcoeff d < 0 then CHR ''-'' # u else u)" by (simp add: dec_str_def u_def Let_def)
  have "parse_decimal (dec_str d) = Some (Fin (Dec (dcoeff d) (dexp d)))"
    unfolding parse_decimal_def dec_str_strip fl Let_def
    using hd ne pu by (cases "dcoeff d < 0") (simp_all add: sd)
  then show ?thesis by simp
qed

end
