(* ===== verification/Paper_Config.thy ===== *)
theory Paper_Config
  imports Py_Values
begin

text \<open>
  The first third of \<open>backend/paper/paper_accounting.py\<close>: the exceptions, the coercion to exact
  decimals, the two quantizers and the frozen session configuration they are bound to.
\<close>

section \<open>Exceptions\<close>

text \<open>
  \<open>StalePrice\<close> carries the symbol, \<open>InvariantViolation\<close> the name of the invariant.
  \<open>PaperDecimalSignal\<close> is an \<open>InvalidOperation\<close> or \<open>DivisionByZero\<close> of the \<open>decimal\<close> module that
  the code lets through.
\<close>

datatype paper_error = StalePrice string | InvariantViolation string | SnapshotOrderError
  | InvalidConfiguration | InvalidQuantity | PaperDecimalSignal

definition DECIMAL_PRECISION :: nat where
  "DECIMAL_PRECISION = 34"

section \<open>Coercion\<close>

definition to_decimal :: "pyval \<Rightarrow> paper_error + decimal" where
  "to_decimal v =
     (case v of
        PyDec (Fin d) \<Rightarrow> Inr d
      | PyDec NonFinite \<Rightarrow> Inl InvalidQuantity
      | PyInt n \<Rightarrow> Inr (dec_of_int n)
      | PyStr s \<Rightarrow>
          (case parse_decimal (py_strip s) of
             Some (Fin d) \<Rightarrow> Inr d
           | Some NonFinite \<Rightarrow> Inl InvalidQuantity
           | None \<Rightarrow> Inl InvalidQuantity)
      | _ \<Rightarrow> Inl InvalidQuantity)"

text \<open>\<open>_quantum\<close>: a non-negative \<open>int\<close> number of places.\<close>

definition paper_quantum :: "pyval \<Rightarrow> paper_error + decimal" where
  "paper_quantum v =
     (case v of
        PyInt n \<Rightarrow> if n < 0 then Inl InvalidConfiguration else Inr (Dec 1 (- n))
      | _ \<Rightarrow> Inl InvalidConfiguration)"

definition resolve_quantum :: "pyval \<Rightarrow> paper_error + decimal" where
  "resolve_quantum v =
     (case v of
        PyDec (Fin d) \<Rightarrow> if dec_le d dec_zero then Inl InvalidConfiguration else Inr d
      | PyDec NonFinite \<Rightarrow> Inl InvalidConfiguration
      | _ \<Rightarrow> paper_quantum v)"

fun rounding_name :: "rounding \<Rightarrow> string" where
  "rounding_name ROUND_HALF_EVEN = ''ROUND_HALF_EVEN''"
| "rounding_name ROUND_HALF_UP = ''ROUND_HALF_UP''"
| "rounding_name ROUND_HALF_DOWN = ''ROUND_HALF_DOWN''"
| "rounding_name ROUND_UP = ''ROUND_UP''"
| "rounding_name ROUND_DOWN = ''ROUND_DOWN''"
| "rounding_name ROUND_CEILING = ''ROUND_CEILING''"
| "rounding_name ROUND_FLOOR = ''ROUND_FLOOR''"

definition ROUNDING_MODES :: "rounding list" where
  "ROUNDING_MODES = [ROUND_HALF_EVEN, ROUND_HALF_UP, ROUND_HALF_DOWN, ROUND_UP, ROUND_DOWN,
     ROUND_CEILING, ROUND_FLOOR]"

definition resolve_rounding :: "pyval \<Rightarrow> paper_error + rounding" where
  "resolve_rounding v =
     (case v of
        PyStr s \<Rightarrow>
          (case map_of (map (\<lambda>m. (rounding_name m, m)) ROUNDING_MODES) s of
             None \<Rightarrow> Inl InvalidConfiguration
           | Some m \<Rightarrow> Inr m)
      | _ \<Rightarrow> Inl InvalidConfiguration)"

section \<open>Quantization\<close>

text \<open>\<open>d.quantize(quantum, rounding)\<close> at the module's precision.\<close>

definition quantize_dec :: "rounding \<Rightarrow> int \<Rightarrow> decimal \<Rightarrow> paper_error + decimal" where
  "quantize_dec m e d =
     (case dec_quantize DECIMAL_PRECISION m e d of
        None \<Rightarrow> Inl PaperDecimalSignal
      | Some q \<Rightarrow> Inr q)"

definition quantize_money :: "pyval \<Rightarrow> pyval \<Rightarrow> pyval \<Rightarrow> paper_error + decimal" where
  "quantize_money v exponent mode =
     bnd (to_decimal v) (\<lambda>d.
     bnd (resolve_quantum exponent) (\<lambda>quantum.
     bnd (resolve_rounding mode) (\<lambda>m.
       quantize_dec m (dexp quantum) d)))"

definition quantize_qty :: "pyval \<Rightarrow> pyval \<Rightarrow> pyval \<Rightarrow> paper_error + decimal" where
  "quantize_qty v precision mode =
     bnd (to_decimal v) (\<lambda>d.
     bnd (resolve_quantum precision) (\<lambda>quantum.
     bnd (resolve_rounding mode) (\<lambda>m.
       quantize_dec m (dexp quantum) d)))"

section \<open>The session configuration\<close>

definition WEIGHTED_AVERAGE :: string where
  "WEIGHTED_AVERAGE = ''WEIGHTED_AVERAGE''"

definition MARGIN_MARKET_TYPES :: "string list" where
  "MARGIN_MARKET_TYPES = [''swap'', ''future'']"

text \<open>\<open>AccountingConfig\<close> after \<open>__post_init__\<close>: the three precisions are non-negative by then.\<close>

record accounting_config =
  cfg_fee_rate :: decimal
  cfg_slippage_rate :: decimal
  cfg_rounding_mode :: rounding
  cfg_cost_basis :: string
  cfg_price_precision :: nat
  cfg_quantity_precision :: nat
  cfg_minor_unit_exponent :: nat
  cfg_market_type :: "string option"

text \<open>A market type: the text of a value that is no string names no market type.\<close>

definition market_text :: "pyval \<Rightarrow> string option" where
  "market_text v =
     (case v of PyNone \<Rightarrow> None | PyStr s \<Rightarrow> Some (py_lower (py_strip s)) | _ \<Rightarrow> Some [])"

definition places_of :: "pyval \<Rightarrow> paper_error + nat" where
  "places_of v = bnd (paper_quantum v) (\<lambda>q. Inr (nat (- dexp q)))"

text \<open>The constructor with the checks of \<open>__post_init__\<close>, in their order.\<close>

definition make_accounting_config ::
  "pyval \<Rightarrow> pyval \<Rightarrow> pyval \<Rightarrow> pyval \<Rightarrow> pyval \<Rightarrow> pyval \<Rightarrow> pyval \<Rightarrow> pyval \<Rightarrow> paper_error + accounting_config"
  where
  "make_accounting_config fee slip mode basis price_p qty_p minor_p market =
     bnd (to_decimal fee) (\<lambda>fee_rate.
     bnd (to_decimal slip) (\<lambda>slippage_rate.
     if dec_lt fee_rate dec_zero then Inl InvalidConfiguration
     else if dec_lt slippage_rate dec_zero then Inl InvalidConfiguration
     else
     bnd (resolve_rounding mode) (\<lambda>m.
     if basis \<noteq> PyStr WEIGHTED_AVERAGE then Inl InvalidConfiguration
     else
     bnd (places_of price_p) (\<lambda>pp.
     bnd (places_of qty_p) (\<lambda>qp.
     bnd (places_of minor_p) (\<lambda>mp.
       Inr \<lparr>cfg_fee_rate = fee_rate, cfg_slippage_rate = slippage_rate, cfg_rounding_mode = m,
         cfg_cost_basis = WEIGHTED_AVERAGE, cfg_price_precision = pp,
         cfg_quantity_precision = qp, cfg_minor_unit_exponent = mp,
         cfg_market_type = market_text market\<rparr>))))))"

definition require_key :: "(string \<rightharpoonup> pyval) \<Rightarrow> string \<Rightarrow> paper_error + pyval" where
  "require_key config k =
     (case config k of
        None \<Rightarrow> Inl InvalidConfiguration
      | Some v \<Rightarrow> if v = PyNone then Inl InvalidConfiguration else Inr v)"

text \<open>\<open>from_session_config\<close>; \<open>None\<close> stands for an argument that is not a mapping.\<close>

definition from_session_config :: "(string \<rightharpoonup> pyval) option \<Rightarrow> paper_error + accounting_config" where
  "from_session_config payload =
     (case payload of
        None \<Rightarrow> Inl InvalidConfiguration
      | Some config \<Rightarrow>
          bnd (bnd (require_key config ''fee_rate'') to_decimal) (\<lambda>fee.
          bnd (bnd (require_key config ''slippage_rate'') to_decimal) (\<lambda>slip.
          bnd (require_key config ''rounding_mode'') (\<lambda>mode.
          bnd (require_key config ''cost_basis'') (\<lambda>basis.
          bnd (require_key config ''price_precision'') (\<lambda>pp.
          bnd (require_key config ''quantity_precision'') (\<lambda>qp.
          bnd (require_key config ''minor_unit_exponent'') (\<lambda>mp.
            make_accounting_config (D fee) (D slip) mode basis pp qp mp
              (case config ''market_type'' of None \<Rightarrow> PyNone | Some v \<Rightarrow> v)))))))))"

definition supports_margin :: "accounting_config \<Rightarrow> bool" where
  "supports_margin cfg =
     (case cfg_market_type cfg of None \<Rightarrow> False | Some t \<Rightarrow> t \<in> set MARGIN_MARKET_TYPES)"

text \<open>The quantizers bound to the recorded mode.\<close>

definition cfg_money :: "accounting_config \<Rightarrow> pyval \<Rightarrow> paper_error + decimal" where
  "cfg_money cfg v = quantize_money v (PyInt (int (cfg_minor_unit_exponent cfg)))
     (PyStr (rounding_name (cfg_rounding_mode cfg)))"

definition cfg_qty :: "accounting_config \<Rightarrow> pyval \<Rightarrow> paper_error + decimal" where
  "cfg_qty cfg v = quantize_qty v (PyInt (int (cfg_quantity_precision cfg)))
     (PyStr (rounding_name (cfg_rounding_mode cfg)))"

definition cfg_price :: "accounting_config \<Rightarrow> pyval \<Rightarrow> paper_error + decimal" where
  "cfg_price cfg v = quantize_money v (PyInt (int (cfg_price_precision cfg)))
     (PyStr (rounding_name (cfg_rounding_mode cfg)))"

section \<open>Facts the engine rests on\<close>

lemma prec_pos [simp]: "0 < DECIMAL_PRECISION"
  by (simp add: DECIMAL_PRECISION_def)

lemma to_decimal_D [simp]: "to_decimal (D d) = Inr d"
  by (simp add: to_decimal_def)

lemma resolve_rounding_name [simp]: "resolve_rounding (PyStr (rounding_name m)) = Inr m"
  by (cases m) (simp_all add: resolve_rounding_def ROUNDING_MODES_def)

lemma resolve_quantum_int [simp]: "resolve_quantum (PyInt (int n)) = Inr (Dec 1 (- int n))"
  by (simp add: resolve_quantum_def paper_quantum_def)

lemma cfg_money_eq: "cfg_money cfg v = bnd (to_decimal v)
    (quantize_dec (cfg_rounding_mode cfg) (- int (cfg_minor_unit_exponent cfg)))"
  by (simp add: cfg_money_def quantize_money_def)

lemma cfg_qty_eq: "cfg_qty cfg v = bnd (to_decimal v)
    (quantize_dec (cfg_rounding_mode cfg) (- int (cfg_quantity_precision cfg)))"
  by (simp add: cfg_qty_def quantize_qty_def)

lemma cfg_price_eq: "cfg_price cfg v = bnd (to_decimal v)
    (quantize_dec (cfg_rounding_mode cfg) (- int (cfg_price_precision cfg)))"
  by (simp add: cfg_price_def quantize_money_def)

lemmas cfg_quantizers = cfg_money_eq cfg_qty_eq cfg_price_eq

text \<open>A quantized value is at the scale and within the precision.\<close>

lemma quantize_dec_Inr:
  "quantize_dec m e d = Inr q \<longleftrightarrow> q = Dec (rescale m d e) e \<and> fits DECIMAL_PRECISION (rescale m d e)"
  by (auto simp: quantize_dec_def dec_quantize_Some split: option.splits)
    (simp add: dec_quantize_def Let_def fits_ndigits split: if_splits)

lemma quantize_dec_scale: "quantize_dec m e d = Inr q \<Longrightarrow> q = Dec (dcoeff q) e \<and> fits DECIMAL_PRECISION (dcoeff q)"
  by (simp add: quantize_dec_Inr)

lemma quantize_dec_id: "fits DECIMAL_PRECISION c \<Longrightarrow> quantize_dec m e (Dec c e) = Inr (Dec c e)"
  by (simp add: quantize_dec_Inr)

text \<open>Quantizing keeps every bound that is a multiple of the quantum.\<close>

lemma rescale_le: "dval d \<le> of_int k * 10 powi e \<Longrightarrow> rescale m d e \<le> k"
proof (cases "e \<le> dexp d")
  case True
  assume "dval d \<le> of_int k * 10 powi e"
  then show ?thesis using coeff_at_val [OF True] True by (simp add: rescale_def)
next
  case False
  define g where "g = nat (e - dexp d)"
  assume "dval d \<le> of_int k * 10 powi e"
  then have "of_int (dcoeff d) * 10 powi dexp d \<le> (of_int (k * 10 ^ g) :: rat) * 10 powi dexp d"
    using powi_split [of "dexp d" e] False by (simp add: dval_def g_def mult.assoc)
  then have "dcoeff d \<le> k * 10 ^ g" by (simp only: mult_le_cancel_right powi_not_neg powi_pos of_int_le_iff simp_thms)
  then show ?thesis using False by (simp add: rescale_def g_def rnd.le_grid)
qed

lemma rescale_ge: "of_int k * 10 powi e \<le> dval d \<Longrightarrow> k \<le> rescale m d e"
proof (cases "e \<le> dexp d")
  case True
  assume "of_int k * 10 powi e \<le> dval d"
  then show ?thesis using coeff_at_val [OF True] True by (simp add: rescale_def)
next
  case False
  define g where "g = nat (e - dexp d)"
  assume "of_int k * 10 powi e \<le> dval d"
  then have "(of_int (k * 10 ^ g) :: rat) * 10 powi dexp d \<le> of_int (dcoeff d) * 10 powi dexp d"
    using powi_split [of "dexp d" e] False by (simp add: dval_def g_def mult.assoc)
  then have "k * 10 ^ g \<le> dcoeff d" by (simp only: mult_le_cancel_right powi_not_neg powi_pos of_int_le_iff simp_thms)
  then show ?thesis using False by (simp add: rescale_def g_def rnd.ge_grid)
qed

lemma rescale_nonneg: "0 \<le> dval d \<Longrightarrow> 0 \<le> rescale m d e"
  using rescale_ge [of 0 e d m] by simp


section \<open>The contract of a quantizer\<close>

text \<open>A round trip through the nearest multiple of the quantum is off by at most one quantum.\<close>

lemma rescale_error: "\<bar>dval (Dec (rescale m d e) e) - dval d\<bar> \<le> 10 powi e"
proof (cases "e \<le> dexp d")
  case True
  then show ?thesis using coeff_at_val [OF True] powi_pos [of e] by (simp add: rescale_def dval_Dec)
next
  case False
  define g where "g = (10::int) ^ nat (e - dexp d)"
  have g: "0 < g" by (simp add: g_def)
  have pe: "(10::rat) powi e = of_int g * 10 powi dexp d"
    using powi_split [of "dexp d" e] False by (simp add: g_def)
  have "\<bar>round_int m (dcoeff d) g * g - dcoeff d\<bar> \<le> g"
    using rnd.error_lt [OF g, of m "dcoeff d"] g by (elim disjE) simp_all
  then have "(of_int \<bar>round_int m (dcoeff d) g * g - dcoeff d\<bar> :: rat) \<le> of_int g"
    by (simp only: of_int_le_iff)
  then have le: "\<bar>of_int (round_int m (dcoeff d) g) * of_int g - of_int (dcoeff d) :: rat\<bar> \<le> of_int g"
    by simp
  have "dval (Dec (rescale m d e) e) - dval d =
      (of_int (round_int m (dcoeff d) g) * of_int g - of_int (dcoeff d)) * 10 powi dexp d"
    using False by (simp add: rescale_def g_def [symmetric] dval_Dec pe dval_def algebra_simps)
  then have "\<bar>dval (Dec (rescale m d e) e) - dval d\<bar> =
      \<bar>of_int (round_int m (dcoeff d) g) * of_int g - of_int (dcoeff d)\<bar> * 10 powi dexp d"
    using powi_pos [of "dexp d"] by (simp add: abs_mult)
  also have "\<dots> \<le> of_int g * 10 powi dexp d"
    using le by (rule mult_right_mono) (simp add: less_imp_le)
  finally show ?thesis by (simp add: pe)
qed

lemma rescale_mono:
  assumes "dval a \<le> dval b"
  shows "rescale m a e \<le> rescale m b e"
proof -
  define f where "f = min e (common_exp a b)"
  have fa: "f \<le> dexp a" "f \<le> dexp b" "f \<le> e" using common_exp_le [of a b] by (auto simp: f_def)
  have eq: "rescale m d e = round_int m (coeff_at d f) (10 ^ nat (e - f))" if fd: "f \<le> dexp d" for d
  proof (cases "e \<le> dexp d")
    case True
    have "coeff_at d f = coeff_at d e * 10 ^ nat (e - f)"
      using coeff_at_shift [OF fa(3) True] .
    then show ?thesis using True by (simp add: rescale_def)
  next
    case False
    have split: "(10::int) ^ nat (e - f) = 10 ^ nat (e - dexp d) * 10 ^ nat (dexp d - f)"
      using False fd by (simp flip: power_add nat_add_distrib)
    show ?thesis using False
      by (simp add: rescale_def coeff_at_def split round_int_scale)
  qed
  have "dval a = of_int (coeff_at a f) * 10 powi f" "dval b = of_int (coeff_at b f) * 10 powi f"
    using fa coeff_at_val by blast+
  then have "coeff_at a f \<le> coeff_at b f" using assms by simp
  then show ?thesis by (simp add: eq [OF fa(1)] eq [OF fa(2)] rnd.mono)
qed

locale scale_quantizer =
  fixes quant :: "pyval \<Rightarrow> 'e + decimal"
    and m :: rounding
    and e :: int
  assumes quant_iff: "quant v = Inr q \<longleftrightarrow>
    (\<exists>d. to_decimal v = Inr d \<and> q = Dec (rescale m d e) e \<and> fits DECIMAL_PRECISION (rescale m d e))"
begin

lemma form: "quant v = Inr q \<Longrightarrow> q = Dec (dcoeff q) e"
  by (auto simp: quant_iff)

lemma exponent: "quant v = Inr q \<Longrightarrow> dexp q = e"
  by (auto simp: quant_iff)

lemma grid: "quant v = Inr q \<Longrightarrow> on_grid e q"
  by (auto simp: quant_iff)

lemma coeff: "quant v = Inr q \<Longrightarrow> coeff_at q e = dcoeff q"
  by (auto simp: quant_iff)

lemma exact: "fits DECIMAL_PRECISION c \<Longrightarrow> quant (D (Dec c e)) = Inr (Dec c e)"
  by (auto simp: quant_iff)

lemma idem: "quant v = Inr q \<Longrightarrow> quant (D q) = Inr q"
  by (auto simp: quant_iff)

lemma error: "quant v = Inr q \<Longrightarrow> to_decimal v = Inr d \<Longrightarrow> \<bar>dval q - dval d\<bar> \<le> 10 powi e"
  using rescale_error by (auto simp: quant_iff)

lemma mono:
  "quant v = Inr q \<Longrightarrow> quant w = Inr r \<Longrightarrow> to_decimal v = Inr a \<Longrightarrow> to_decimal w = Inr b \<Longrightarrow>
    dval a \<le> dval b \<Longrightarrow> dval q \<le> dval r"
  using rescale_mono [of a b m e] by (auto simp: quant_iff dval_Dec)

lemma upper:
  "quant v = Inr q \<Longrightarrow> to_decimal v = Inr d \<Longrightarrow> dval d \<le> dval (Dec k e) \<Longrightarrow> dval q \<le> dval (Dec k e)"
  using rescale_le [of d k e m] by (auto simp: quant_iff dval_Dec)

lemma lower:
  "quant v = Inr q \<Longrightarrow> to_decimal v = Inr d \<Longrightarrow> dval (Dec k e) \<le> dval d \<Longrightarrow> dval (Dec k e) \<le> dval q"
  using rescale_ge [of k e d m] by (auto simp: quant_iff dval_Dec)

lemma sign: "quant v = Inr q \<Longrightarrow> to_decimal v = Inr d \<Longrightarrow> 0 \<le> dval d \<Longrightarrow> 0 \<le> dval q"
  using rescale_nonneg [of d m e] by (auto simp: quant_iff dval_Dec)

end

lemma quantizer_bnd:
  "bnd (to_decimal v) (quantize_dec m e) = Inr q \<longleftrightarrow>
    (\<exists>d. to_decimal v = Inr d \<and> q = Dec (rescale m d e) e \<and> fits DECIMAL_PRECISION (rescale m d e))"
  by (auto simp: result_simps quantize_dec_Inr)

interpretation money: scale_quantizer "cfg_money cfg" "cfg_rounding_mode cfg"
  "- int (cfg_minor_unit_exponent cfg)" for cfg
  by unfold_locales (simp add: cfg_money_eq quantizer_bnd)

interpretation qty: scale_quantizer "cfg_qty cfg" "cfg_rounding_mode cfg"
  "- int (cfg_quantity_precision cfg)" for cfg
  by unfold_locales (simp add: cfg_qty_eq quantizer_bnd)

interpretation price: scale_quantizer "cfg_price cfg" "cfg_rounding_mode cfg"
  "- int (cfg_price_precision cfg)" for cfg
  by unfold_locales (simp add: cfg_price_eq quantizer_bnd)

text \<open>
  A quantized amount is a multiple of the minor unit within one minor unit of
  the value it came from; quantizing it again changes nothing, and a larger value never becomes
  a smaller amount, in every rounding mode.
\<close>

theorem cfg_money_sound:
  assumes q: "cfg_money cfg v = Inr q" and r: "cfg_money cfg w = Inr r"
    and a: "to_decimal v = Inr a" and b: "to_decimal w = Inr b"
  shows "dexp q = - int (cfg_minor_unit_exponent cfg) \<and>
    \<bar>dval q - dval a\<bar> \<le> 10 powi (- int (cfg_minor_unit_exponent cfg)) \<and>
    cfg_money cfg (D q) = Inr q \<and> (dval a \<le> dval b \<longrightarrow> dval q \<le> dval r)"
  using money.exponent [OF q] money.error [OF q a] money.idem [OF q] money.mono [OF q r a b] by blast

end
