(* ===== verification/Paper_Book.thy ===== *)
theory Paper_Book
  imports Paper_Config
begin

text \<open>
  The second third of \<open>backend/paper/paper_accounting.py\<close>: the account and its positions, their
  valuation at given prices, the five invariants, and the cash reservation for an order.
  Positions are a dictionary from symbol to position in insertion order; prices a map from
  symbol to whatever the caller supplied. Timestamps are microseconds.
\<close>

type_synonym stamp = int

definition LONG :: string where
  "LONG = ''LONG''"

definition SHORT :: string where
  "SHORT = ''SHORT''"

definition SIDES :: "string list" where
  "SIDES = [LONG, SHORT]"

section \<open>The value objects\<close>

record position =
  pos_symbol :: string
  pos_side :: string
  pos_size :: decimal
  pos_entry_price :: decimal
  pos_current_price :: "decimal option"
  pos_unrealized_pnl :: "decimal option"
  pos_price_at :: "stamp option"
  pos_opened_at :: "stamp option"
  pos_closed_at :: "stamp option"

text \<open>The checks of \<open>Position.__post_init__\<close>, which run on construction and on \<open>replace\<close>.\<close>

definition mk_position :: "position \<Rightarrow> paper_error + position" where
  "mk_position p =
     (if py_strip (pos_symbol p) = [] then Inl InvalidQuantity
      else if pos_side p \<notin> set SIDES then Inl (InvariantViolation ''position_side'')
      else if dec_lt (pos_size p) dec_zero then Inl (InvariantViolation ''position_size'')
      else Inr p)"

definition pos_is_open :: "position \<Rightarrow> bool" where
  "pos_is_open p = dec_lt dec_zero (pos_size p)"

definition pos_is_closed :: "position \<Rightarrow> bool" where
  "pos_is_closed p = dec_eq (pos_size p) dec_zero"

record account =
  acc_available :: decimal
  acc_locked :: decimal
  acc_realized :: decimal
  acc_total_equity :: decimal
  acc_currency :: string

definition acc_cash :: "account \<Rightarrow> decimal" where
  "acc_cash a = dec_add DECIMAL_PRECISION (acc_available a) (acc_locked a)"

section \<open>Valuation\<close>

definition price_for :: "string \<Rightarrow> (string \<rightharpoonup> pyval) \<Rightarrow> paper_error + decimal" where
  "price_for symbol prices =
     (case prices symbol of
        None \<Rightarrow> Inl (StalePrice symbol)
      | Some v \<Rightarrow> if v = PyNone then Inl (StalePrice symbol) else to_decimal v)"

definition position_value :: "position \<Rightarrow> pyval \<Rightarrow> paper_error + decimal" where
  "position_value p price =
     bnd (to_decimal price) (\<lambda>current.
       if pos_side p = LONG then Inr (dec_mul DECIMAL_PRECISION (pos_size p) current)
       else Inr (dec_mul DECIMAL_PRECISION (pos_size p)
              (dec_sub DECIMAL_PRECISION
                (dec_mul DECIMAL_PRECISION (dec_of_int 2) (pos_entry_price p)) current)))"

definition position_unrealized_pnl :: "position \<Rightarrow> pyval \<Rightarrow> paper_error + decimal" where
  "position_unrealized_pnl p price =
     bnd (to_decimal price) (\<lambda>current.
       if pos_side p = LONG then
         Inr (dec_mul DECIMAL_PRECISION (dec_sub DECIMAL_PRECISION current (pos_entry_price p)) (pos_size p))
       else
         Inr (dec_mul DECIMAL_PRECISION (dec_sub DECIMAL_PRECISION (pos_entry_price p) current) (pos_size p)))"

text \<open>\<open>config.money(x) if config is not None else x\<close>.\<close>

definition money_if :: "accounting_config option \<Rightarrow> decimal \<Rightarrow> paper_error + decimal" where
  "money_if cfg d = (case cfg of None \<Rightarrow> Inr d | Some c \<Rightarrow> cfg_money c (D d))"

text \<open>One iteration of the loop of \<open>position_market_value\<close>.\<close>

definition add_market_value ::
  "(string \<rightharpoonup> pyval) \<Rightarrow> accounting_config option \<Rightarrow> decimal \<Rightarrow> position \<Rightarrow> paper_error + decimal" where
  "add_market_value prices cfg acc p =
     (if \<not> pos_is_open p then Inr acc
      else
        bnd (price_for (pos_symbol p) prices) (\<lambda>price.
        bnd (position_value p (D price)) (\<lambda>v.
        bnd (money_if cfg v) (\<lambda>q.
          Inr (dec_add DECIMAL_PRECISION acc q)))))"

definition position_market_value ::
  "position list \<Rightarrow> (string \<rightharpoonup> pyval) \<Rightarrow> accounting_config option \<Rightarrow> paper_error + decimal" where
  "position_market_value positions prices cfg =
     foldm (add_market_value prices cfg) dec_zero positions"

definition add_unrealized_pnl ::
  "(string \<rightharpoonup> pyval) \<Rightarrow> accounting_config option \<Rightarrow> decimal \<Rightarrow> position \<Rightarrow> paper_error + decimal" where
  "add_unrealized_pnl prices cfg acc p =
     (if \<not> pos_is_open p then Inr acc
      else
        bnd (price_for (pos_symbol p) prices) (\<lambda>price.
        bnd (position_unrealized_pnl p (D price)) (\<lambda>v.
        bnd (money_if cfg v) (\<lambda>q.
          Inr (dec_add DECIMAL_PRECISION acc q)))))"

definition unrealized_pnl ::
  "position list \<Rightarrow> (string \<rightharpoonup> pyval) \<Rightarrow> accounting_config option \<Rightarrow> paper_error + decimal" where
  "unrealized_pnl positions prices cfg = foldm (add_unrealized_pnl prices cfg) dec_zero positions"

definition total_equity ::
  "account \<Rightarrow> position list \<Rightarrow> (string \<rightharpoonup> pyval) \<Rightarrow> accounting_config option \<Rightarrow> paper_error + decimal" where
  "total_equity a positions prices cfg =
     bnd (position_market_value positions prices cfg) (\<lambda>mv.
       Inr (dec_add DECIMAL_PRECISION (dec_add DECIMAL_PRECISION (acc_available a) (acc_locked a)) mv))"

section \<open>The invariants\<close>

fun bad_position :: "position list \<Rightarrow> string option" where
  "bad_position [] = None"
| "bad_position (p # ps) =
     (if pos_side p \<notin> set SIDES then Some ''position_side''
      else if dec_lt (pos_size p) dec_zero then Some ''position_size''
      else bad_position ps)"

definition violated_invariant ::
  "account \<Rightarrow> position list \<Rightarrow> (string \<rightharpoonup> pyval) \<Rightarrow> accounting_config option \<Rightarrow>
    paper_error + string option" where
  "violated_invariant a positions prices cfg =
     (case bad_position positions of
        Some n \<Rightarrow> Inr (Some n)
      | None \<Rightarrow>
          if dec_lt (acc_available a) dec_zero then Inr (Some ''available_balance'')
          else if dec_lt (acc_locked a) dec_zero then Inr (Some ''locked_balance'')
          else
            bnd (total_equity a positions prices cfg) (\<lambda>expected.
              if \<not> dec_eq (acc_total_equity a) expected then Inr (Some ''total_equity'')
              else Inr None))"

definition invariants_hold ::
  "account \<Rightarrow> position list \<Rightarrow> (string \<rightharpoonup> pyval) \<Rightarrow> accounting_config option \<Rightarrow> paper_error + bool" where
  "invariants_hold a positions prices cfg =
     bnd (violated_invariant a positions prices cfg) (\<lambda>v. Inr (v = None))"

definition assert_invariants ::
  "account \<Rightarrow> position list \<Rightarrow> (string \<rightharpoonup> pyval) \<Rightarrow> accounting_config option \<Rightarrow> paper_error + unit" where
  "assert_invariants a positions prices cfg =
     bnd (violated_invariant a positions prices cfg) (\<lambda>v.
       case v of None \<Rightarrow> Inr () | Some n \<Rightarrow> Inl (InvariantViolation n))"

text \<open>A dictionary built by a comprehension: a later position with the same symbol wins.\<close>

definition last_validated_prices :: "position list \<Rightarrow> (string \<rightharpoonup> decimal)" where
  "last_validated_prices positions =
     fold (\<lambda>p m. case pos_current_price p of None \<Rightarrow> m | Some c \<Rightarrow> m(pos_symbol p \<mapsto> c)) positions
       Map.empty"

definition latest_price_at :: "position list \<Rightarrow> stamp option" where
  "latest_price_at positions =
     (case List.map_filter pos_price_at positions of
        [] \<Rightarrow> None
      | s # ss \<Rightarrow> Some (fold max ss s))"

section \<open>Funds\<close>

definition py_attr :: "(string \<rightharpoonup> pyval) \<Rightarrow> string \<Rightarrow> paper_error + pyval" where
  "py_attr source name = (case source name of None \<Rightarrow> Inl InvalidQuantity | Some v \<Rightarrow> Inr v)"

definition required_funds ::
  "(string \<rightharpoonup> pyval) \<Rightarrow> pyval \<Rightarrow> accounting_config \<Rightarrow> paper_error + decimal" where
  "required_funds intent reference_price cfg =
     bnd (bnd (py_attr intent ''quantity'') to_decimal) (\<lambda>quantity.
     bnd (to_decimal reference_price) (\<lambda>price.
       let notional = dec_mul DECIMAL_PRECISION quantity price;
           rate = dec_add DECIMAL_PRECISION
             (dec_add DECIMAL_PRECISION (dec_of_int 1) (cfg_fee_rate cfg)) (cfg_slippage_rate cfg)
       in cfg_money cfg (D (dec_mul DECIMAL_PRECISION notional rate))))"

definition lock :: "account \<Rightarrow> pyval \<Rightarrow> accounting_config \<Rightarrow> paper_error + account" where
  "lock a amount cfg =
     bnd (cfg_money cfg amount) (\<lambda>q.
       if dec_lt q dec_zero then Inl InvalidQuantity
       else if dec_lt (acc_available a) q then Inl (InvariantViolation ''available_balance'')
       else Inr (a\<lparr>acc_available := dec_sub DECIMAL_PRECISION (acc_available a) q,
                   acc_locked := dec_add DECIMAL_PRECISION (acc_locked a) q\<rparr>))"

definition unlock :: "account \<Rightarrow> pyval \<Rightarrow> accounting_config \<Rightarrow> paper_error + account" where
  "unlock a amount cfg =
     bnd (cfg_money cfg amount) (\<lambda>q.
       if dec_lt q dec_zero then Inl InvalidQuantity
       else if dec_lt (acc_locked a) q then Inl (InvariantViolation ''locked_balance'')
       else Inr (a\<lparr>acc_available := dec_add DECIMAL_PRECISION (acc_available a) q,
                   acc_locked := dec_sub DECIMAL_PRECISION (acc_locked a) q\<rparr>))"


section \<open>Sums over the open positions\<close>

text \<open>The three loops over the book have one shape: a closed position is skipped, an open one
  adds what \<open>f\<close> makes of it.\<close>

definition add_open ::
  "(position \<Rightarrow> paper_error + decimal) \<Rightarrow> decimal \<Rightarrow> position \<Rightarrow> paper_error + decimal" where
  "add_open f acc p =
     (if \<not> pos_is_open p then Inr acc
      else bnd (f p) (\<lambda>q. Inr (dec_add DECIMAL_PRECISION acc q)))"

lemma add_open_open [simp]:
  "pos_is_open p \<Longrightarrow> add_open f acc p = bnd (f p) (\<lambda>q. Inr (dec_add DECIMAL_PRECISION acc q))"
  "\<not> pos_is_open p \<Longrightarrow> add_open f acc p = Inr acc"
  by (simp_all add: add_open_def)

text \<open>The mark of one position: its quantized value at the given prices.\<close>

definition mark ::
  "(string \<rightharpoonup> pyval) \<Rightarrow> accounting_config option \<Rightarrow> position \<Rightarrow> paper_error + decimal" where
  "mark prices cfg p =
     bnd (price_for (pos_symbol p) prices) (\<lambda>price.
     bnd (position_value p (D price)) (money_if cfg))"

lemma add_market_value_open: "add_market_value prices cfg = add_open (mark prices cfg)"
  by (intro ext) (simp add: add_market_value_def add_open_def mark_def bnd_assoc)

text \<open>What an open position contributes, in units of \<open>10 ^ e\<close>.\<close>

definition open_units :: "int \<Rightarrow> (position \<Rightarrow> paper_error + decimal) \<Rightarrow> position \<Rightarrow> int" where
  "open_units e f p =
     (if pos_is_open p then (case f p of Inl _ \<Rightarrow> 0 | Inr q \<Rightarrow> coeff_at q e) else 0)"

lemma foldm_open_exact:
  assumes "foldm (add_open f) acc ps = Inr t"
    and "\<And>p q. f p = Inr q \<Longrightarrow> on_grid e q" and "on_grid e acc"
    and "\<bar>coeff_at acc e\<bar> + (\<Sum>p\<leftarrow>ps. \<bar>open_units e f p\<bar>) < 10 ^ DECIMAL_PRECISION"
  shows "on_grid e t \<and> coeff_at t e = coeff_at acc e + (\<Sum>p\<leftarrow>ps. open_units e f p)"
  using assms
proof (induction ps arbitrary: acc)
  case Nil
  then show ?case by simp
next
  case (Cons p ps)
  show ?case
  proof (cases "pos_is_open p")
    case False
    then show ?thesis using Cons by (simp add: open_units_def)
  next
    case True
    then obtain q where q: "f p = Inr q"
      and rest: "foldm (add_open f) (dec_add DECIMAL_PRECISION acc q) ps = Inr t"
      using Cons.prems(1) by (auto simp: result_simps)
    have u: "open_units e f p = coeff_at q e" using True q by (simp add: open_units_def)
    have nn: "0 \<le> (\<Sum>p\<leftarrow>ps. \<bar>open_units e f p\<bar>)" by (intro sum_list_nonneg) auto
    have fit: "fits DECIMAL_PRECISION (coeff_at acc e + coeff_at q e)"
      using Cons.prems(4) u nn by (simp add: fits_def)
    note g = grid_add [OF prec_pos Cons.prems(3) Cons.prems(2) [OF q] fit]
    have "\<bar>coeff_at acc e + coeff_at q e\<bar> + (\<Sum>p\<leftarrow>ps. \<bar>open_units e f p\<bar>) < 10 ^ DECIMAL_PRECISION"
      using Cons.prems(4) u by simp
    then show ?thesis
      using Cons.IH [OF rest Cons.prems(2) g(1)] g(2) u by simp
  qed
qed

lemma foldm_open_cong:
  assumes "\<And>p. p \<in> set ps \<Longrightarrow> pos_is_open p \<Longrightarrow> f p = g p"
  shows "foldm (add_open f) acc ps = foldm (add_open g) acc ps"
  using assms
proof (induction ps arbitrary: acc)
  case (Cons p ps)
  have "add_open f acc p = add_open g acc p" using Cons.prems [of p] by (cases "pos_is_open p") simp_all
  moreover have "foldm (add_open f) a ps = foldm (add_open g) a ps" for a
    using Cons.prems by (intro Cons.IH) simp
  ultimately show ?case by simp
qed simp

lemma foldm_open_returns:
  "(\<exists>t. foldm (add_open f) acc ps = Inr t) \<longleftrightarrow>
    (\<forall>p \<in> set ps. pos_is_open p \<longrightarrow> (\<exists>q. f p = Inr q))"
proof (induction ps arbitrary: acc)
  case (Cons p ps)
  show ?case
    using Cons.IH by (cases "f p"; cases "pos_is_open p") auto
qed simp

section \<open>The minor-unit grid\<close>

text \<open>The exponent of the account currency, and the magnitude below which every sum of the
  ledger fits in the 34 digits of the context.\<close>

definition cash_exp :: "accounting_config \<Rightarrow> int" where
  "cash_exp cfg = - int (cfg_minor_unit_exponent cfg)"

definition CASH_LIMIT :: int where
  "CASH_LIMIT = 10 ^ 32"

lemma cash_exp_le [simp]: "cash_exp cfg \<le> 0"
  by (simp add: cash_exp_def)

lemma fits_cash: "\<bar>c\<bar> < 50 * CASH_LIMIT \<Longrightarrow> fits DECIMAL_PRECISION c"
  by (simp add: fits_def CASH_LIMIT_def DECIMAL_PRECISION_def)

lemma cfg_money_D: "cfg_money cfg (D d) = quantize_dec (cfg_rounding_mode cfg) (cash_exp cfg) d"
  by (simp add: cfg_money_eq cash_exp_def)

lemma cfg_money_grid: "cfg_money cfg v = Inr q \<Longrightarrow> q = Dec (dcoeff q) (cash_exp cfg)"
  unfolding cash_exp_def by (rule money.form)

lemma cfg_money_on_grid: "cfg_money cfg v = Inr q \<Longrightarrow> on_grid (cash_exp cfg) q"
  unfolding cash_exp_def by (rule money.grid)

lemma cfg_money_coeff: "cfg_money cfg v = Inr q \<Longrightarrow> coeff_at q (cash_exp cfg) = dcoeff q"
  unfolding cash_exp_def by (rule money.coeff)

lemma mark_on_grid: "mark prices (Some cfg) p = Inr q \<Longrightarrow> on_grid (cash_exp cfg) q"
  by (auto simp: mark_def money_if_def result_simps intro: cfg_money_on_grid)

text \<open>An account whose balances are non-negative minor units of bounded magnitude.\<close>

definition cash_ok :: "accounting_config \<Rightarrow> account \<Rightarrow> bool" where
  "cash_ok cfg a \<longleftrightarrow>
     on_grid (cash_exp cfg) (acc_available a) \<and> on_grid (cash_exp cfg) (acc_locked a) \<and>
     0 \<le> coeff_at (acc_available a) (cash_exp cfg) \<and> 0 \<le> coeff_at (acc_locked a) (cash_exp cfg) \<and>
     coeff_at (acc_available a) (cash_exp cfg) + coeff_at (acc_locked a) (cash_exp cfg) < CASH_LIMIT"

text \<open>The sum of the magnitudes of the marks of a book, in minor units.\<close>

definition exposure :: "accounting_config \<Rightarrow> (string \<rightharpoonup> pyval) \<Rightarrow> position list \<Rightarrow> int" where
  "exposure cfg prices ps = (\<Sum>p\<leftarrow>ps. \<bar>open_units (cash_exp cfg) (mark prices (Some cfg)) p\<bar>)"

lemma market_value_exact:
  assumes "position_market_value ps prices (Some cfg) = Inr mv"
    and "exposure cfg prices ps < 50 * CASH_LIMIT"
  shows "on_grid (cash_exp cfg) mv \<and>
    coeff_at mv (cash_exp cfg) = (\<Sum>p\<leftarrow>ps. open_units (cash_exp cfg) (mark prices (Some cfg)) p)"
proof -
  have "\<bar>coeff_at dec_zero (cash_exp cfg)\<bar> +
      (\<Sum>p\<leftarrow>ps. \<bar>open_units (cash_exp cfg) (mark prices (Some cfg)) p\<bar>) < 10 ^ DECIMAL_PRECISION"
    using assms(2) by (simp add: exposure_def CASH_LIMIT_def DECIMAL_PRECISION_def)
  from foldm_open_exact [OF assms(1) [unfolded position_market_value_def add_market_value_open]
      mark_on_grid _ this]
  show ?thesis by simp
qed

lemma abs_sum_open_le:
  "\<bar>\<Sum>p\<leftarrow>ps. open_units e f p\<bar> \<le> (\<Sum>p\<leftarrow>ps. \<bar>open_units e f p\<bar>)"
  using sum_list_abs [of "map (open_units e f) ps"] by (simp add: comp_def)


section \<open>Balances in minor units\<close>

definition avail_units :: "accounting_config \<Rightarrow> account \<Rightarrow> int" where
  "avail_units cfg a = coeff_at (acc_available a) (cash_exp cfg)"

definition locked_units :: "accounting_config \<Rightarrow> account \<Rightarrow> int" where
  "locked_units cfg a = coeff_at (acc_locked a) (cash_exp cfg)"

lemma cash_okD:
  assumes "cash_ok cfg a"
  shows "on_grid (cash_exp cfg) (acc_available a)" "on_grid (cash_exp cfg) (acc_locked a)"
    "0 \<le> avail_units cfg a" "0 \<le> locked_units cfg a"
    "avail_units cfg a + locked_units cfg a < CASH_LIMIT"
  using assms by (simp_all add: cash_ok_def avail_units_def locked_units_def)

lemma cash_okI:
  assumes "on_grid (cash_exp cfg) (acc_available a)" "on_grid (cash_exp cfg) (acc_locked a)"
    "0 \<le> avail_units cfg a" "0 \<le> locked_units cfg a"
    "avail_units cfg a + locked_units cfg a < CASH_LIMIT"
  shows "cash_ok cfg a"
  using assms by (simp add: cash_ok_def avail_units_def locked_units_def)

lemma balance_val:
  assumes "cash_ok cfg a"
  shows "dval (acc_available a) = of_int (avail_units cfg a) * 10 powi cash_exp cfg"
    "dval (acc_locked a) = of_int (locked_units cfg a) * 10 powi cash_exp cfg"
  using cash_okD [OF assms] by (simp_all add: grid_val avail_units_def locked_units_def)

text \<open>Moving \<open>q\<close> units from one balance to the other.\<close>

lemma lock_exact:
  assumes ok: "cash_ok cfg a" and m: "cfg_money cfg amount = Inr q"
    and q: "0 \<le> dcoeff q" "dcoeff q \<le> avail_units cfg a"
  shows "\<exists>b. lock a amount cfg = Inr b \<and> cash_ok cfg b \<and>
    avail_units cfg b = avail_units cfg a - dcoeff q \<and>
    locked_units cfg b = locked_units cfg a + dcoeff q \<and>
    acc_realized b = acc_realized a \<and> acc_total_equity b = acc_total_equity a \<and>
    acc_currency b = acc_currency a"
proof -
  note d = cash_okD [OF ok]
  note qg = cfg_money_on_grid [OF m] and qc = cfg_money_coeff [OF m]
  have lt: "\<not> dec_lt (acc_available a) q" "\<not> dec_lt q dec_zero"
    using q by (simp_all add: grid_lt [OF d(1) qg] qc flip: avail_units_def)
  define b where "b = a\<lparr>acc_available := dec_sub DECIMAL_PRECISION (acc_available a) q,
    acc_locked := dec_add DECIMAL_PRECISION (acc_locked a) q\<rparr>"
  have run: "lock a amount cfg = Inr b" using lt by (simp add: lock_def m b_def)
  have f1: "fits DECIMAL_PRECISION (coeff_at (acc_available a) (cash_exp cfg) - coeff_at q (cash_exp cfg))"
    by (rule fits_cash) (use q d in \<open>simp add: qc flip: avail_units_def\<close>)
  have f2: "fits DECIMAL_PRECISION (coeff_at (acc_locked a) (cash_exp cfg) + coeff_at q (cash_exp cfg))"
    by (rule fits_cash) (use q d in \<open>simp add: qc flip: locked_units_def\<close>)
  note g1 = grid_sub [OF prec_pos d(1) qg f1] and g2 = grid_add [OF prec_pos d(2) qg f2]
  have u: "avail_units cfg b = avail_units cfg a - dcoeff q"
    "locked_units cfg b = locked_units cfg a + dcoeff q"
    using g1(2) g2(2) by (simp_all add: avail_units_def locked_units_def b_def qc)
  have "cash_ok cfg b"
    using g1(1) g2(1) u q d by (intro cash_okI) (simp_all add: b_def)
  then show ?thesis using run u by (simp add: b_def)
qed

lemma unlock_exact:
  assumes ok: "cash_ok cfg a" and m: "cfg_money cfg amount = Inr q"
    and q: "0 \<le> dcoeff q" "dcoeff q \<le> locked_units cfg a"
  shows "\<exists>b. unlock a amount cfg = Inr b \<and> cash_ok cfg b \<and>
    avail_units cfg b = avail_units cfg a + dcoeff q \<and>
    locked_units cfg b = locked_units cfg a - dcoeff q \<and>
    acc_realized b = acc_realized a \<and> acc_total_equity b = acc_total_equity a \<and>
    acc_currency b = acc_currency a"
proof -
  note d = cash_okD [OF ok]
  note qg = cfg_money_on_grid [OF m] and qc = cfg_money_coeff [OF m]
  have lt: "\<not> dec_lt (acc_locked a) q" "\<not> dec_lt q dec_zero"
    using q by (simp_all add: grid_lt [OF d(2) qg] qc flip: locked_units_def)
  define b where "b = a\<lparr>acc_available := dec_add DECIMAL_PRECISION (acc_available a) q,
    acc_locked := dec_sub DECIMAL_PRECISION (acc_locked a) q\<rparr>"
  have run: "unlock a amount cfg = Inr b" using lt by (simp add: unlock_def m b_def)
  have f1: "fits DECIMAL_PRECISION (coeff_at (acc_available a) (cash_exp cfg) + coeff_at q (cash_exp cfg))"
    by (rule fits_cash) (use q d in \<open>simp add: qc flip: avail_units_def\<close>)
  have f2: "fits DECIMAL_PRECISION (coeff_at (acc_locked a) (cash_exp cfg) - coeff_at q (cash_exp cfg))"
    by (rule fits_cash) (use q d in \<open>simp add: qc flip: locked_units_def\<close>)
  note g1 = grid_add [OF prec_pos d(1) qg f1] and g2 = grid_sub [OF prec_pos d(2) qg f2]
  have u: "avail_units cfg b = avail_units cfg a + dcoeff q"
    "locked_units cfg b = locked_units cfg a - dcoeff q"
    using g1(2) g2(2) by (simp_all add: avail_units_def locked_units_def b_def qc)
  have "cash_ok cfg b"
    using g1(1) g2(1) u q d by (intro cash_okI) (simp_all add: b_def)
  then show ?thesis using run u by (simp add: b_def)
qed

text \<open>A refused move, with the reason.\<close>

lemma lock_refused:
  assumes ok: "cash_ok cfg a" and m: "cfg_money cfg amount = Inr q"
  shows "dcoeff q < 0 \<Longrightarrow> lock a amount cfg = Inl InvalidQuantity"
    and "0 \<le> dcoeff q \<Longrightarrow> avail_units cfg a < dcoeff q \<Longrightarrow>
      lock a amount cfg = Inl (InvariantViolation ''available_balance'')"
  using grid_lt [OF cash_okD(1) [OF ok] cfg_money_on_grid [OF m]]
  by (simp_all add: lock_def m cfg_money_coeff [OF m] flip: avail_units_def)

lemma unlock_refused:
  assumes ok: "cash_ok cfg a" and m: "cfg_money cfg amount = Inr q"
  shows "dcoeff q < 0 \<Longrightarrow> unlock a amount cfg = Inl InvalidQuantity"
    and "0 \<le> dcoeff q \<Longrightarrow> locked_units cfg a < dcoeff q \<Longrightarrow>
      unlock a amount cfg = Inl (InvariantViolation ''locked_balance'')"
  using grid_lt [OF cash_okD(2) [OF ok] cfg_money_on_grid [OF m]]
  by (simp_all add: unlock_def m cfg_money_coeff [OF m] flip: locked_units_def)

text \<open>The computed equity, exact.\<close>

lemma equity_exact:
  assumes av: "on_grid (cash_exp cfg) av" and lk: "on_grid (cash_exp cfg) lk"
    and lim: "\<bar>coeff_at av (cash_exp cfg)\<bar> + \<bar>coeff_at lk (cash_exp cfg)\<bar> < 10 * CASH_LIMIT"
    and mv: "position_market_value ps prices (Some cfg) = Inr mv"
    and ex: "exposure cfg prices ps < CASH_LIMIT"
  shows "on_grid (cash_exp cfg) (dec_add DECIMAL_PRECISION (dec_add DECIMAL_PRECISION av lk) mv)"
    and "coeff_at (dec_add DECIMAL_PRECISION (dec_add DECIMAL_PRECISION av lk) mv) (cash_exp cfg) =
      coeff_at av (cash_exp cfg) + coeff_at lk (cash_exp cfg) +
      (\<Sum>p\<leftarrow>ps. open_units (cash_exp cfg) (mark prices (Some cfg)) p)"
proof -
  let ?e = "cash_exp cfg"
  let ?s = "\<Sum>p\<leftarrow>ps. open_units ?e (mark prices (Some cfg)) p"
  have L: "0 < CASH_LIMIT" by (simp add: CASH_LIMIT_def)
  have m: "on_grid ?e mv" "coeff_at mv ?e = ?s"
    using market_value_exact [OF mv] ex L by simp_all
  have s: "\<bar>?s\<bar> < CASH_LIMIT"
    using abs_sum_open_le [of ?e "mark prices (Some cfg)" ps] ex by (simp add: exposure_def)
  have f1: "fits DECIMAL_PRECISION (coeff_at av ?e + coeff_at lk ?e)"
    by (rule fits_cash) (use lim L in linarith)
  note g1 = grid_add [OF prec_pos av lk f1]
  have f2: "fits DECIMAL_PRECISION
      (coeff_at (dec_add DECIMAL_PRECISION av lk) ?e + coeff_at mv ?e)"
    by (rule fits_cash) (use lim s L in \<open>simp add: g1 m\<close>)
  note g2 = grid_add [OF prec_pos g1(1) m(1) f2]
  show "on_grid ?e (dec_add DECIMAL_PRECISION (dec_add DECIMAL_PRECISION av lk) mv)"
    by (rule g2(1))
  show "coeff_at (dec_add DECIMAL_PRECISION (dec_add DECIMAL_PRECISION av lk) mv) ?e =
      coeff_at av ?e + coeff_at lk ?e + ?s"
    by (simp add: g2(2) g1(2) m(2))
qed

lemma total_equity_exact:
  assumes ok: "cash_ok cfg a" and ex: "exposure cfg prices ps < CASH_LIMIT"
    and te: "total_equity a ps prices (Some cfg) = Inr t"
  shows "on_grid (cash_exp cfg) t" and "coeff_at t (cash_exp cfg) = avail_units cfg a +
    locked_units cfg a + (\<Sum>p\<leftarrow>ps. open_units (cash_exp cfg) (mark prices (Some cfg)) p)"
proof -
  note d = cash_okD [OF ok]
  from te obtain mv where mv: "position_market_value ps prices (Some cfg) = Inr mv"
    and t: "t = dec_add DECIMAL_PRECISION (dec_add DECIMAL_PRECISION (acc_available a) (acc_locked a)) mv"
    by (auto simp: total_equity_def result_simps)
  have lim: "\<bar>coeff_at (acc_available a) (cash_exp cfg)\<bar> + \<bar>coeff_at (acc_locked a) (cash_exp cfg)\<bar> <
      10 * CASH_LIMIT"
    using d by (simp add: CASH_LIMIT_def flip: avail_units_def locked_units_def)
  show "on_grid (cash_exp cfg) t" and "coeff_at t (cash_exp cfg) = avail_units cfg a +
      locked_units cfg a + (\<Sum>p\<leftarrow>ps. open_units (cash_exp cfg) (mark prices (Some cfg)) p)"
    using equity_exact [OF d(1,2) lim mv ex] by (simp_all add: t avail_units_def locked_units_def)
qed

lemma bad_position_None:
  "bad_position ps = None \<longleftrightarrow> (\<forall>p \<in> set ps. pos_side p \<in> set SIDES \<and> 0 \<le> dcoeff (pos_size p))"
  by (induction ps) (simp_all add: not_less)

lemma violated_None:
  "violated_invariant a ps prices cfg = Inr None \<longleftrightarrow>
    bad_position ps = None \<and> 0 \<le> dcoeff (acc_available a) \<and> 0 \<le> dcoeff (acc_locked a) \<and>
    (\<exists>t. total_equity a ps prices cfg = Inr t \<and> dec_eq (acc_total_equity a) t)"
  by (auto simp: violated_invariant_def result_simps not_less split: option.splits)

end
