(* ===== verification/Paper_Fill.thy ===== *)
theory Paper_Fill
  imports Paper_Book
begin

text \<open>
  The last third of the ledger arithmetic of \<open>backend/paper/paper_accounting.py\<close>: one fill, and
  the revaluation of the book. \<open>apply_fill\<close> is one Python function; it is split here into its
  consecutive blocks, in their order, each a definition over the values the earlier blocks
  computed.
\<close>

section \<open>The results\<close>

record closed_trade =
  tr_symbol :: string
  tr_side :: string
  tr_quantity :: decimal
  tr_entry_price :: decimal
  tr_exit_price :: decimal
  tr_realized_pnl :: decimal
  tr_fee :: decimal
  tr_opened_at :: "stamp option"
  tr_closed_at :: "stamp option"

definition tr_is_win :: "closed_trade \<Rightarrow> bool" where
  "tr_is_win t = dec_lt dec_zero (tr_realized_pnl t)"

type_synonym book = "(string, position) dict"

record fill_result =
  fr_account :: account
  fr_positions :: book
  fr_position :: position
  fr_realized_pnl :: decimal
  fr_fee :: decimal
  fr_available_delta :: decimal
  fr_locked_delta :: decimal
  fr_realized_delta :: decimal
  fr_total_equity_delta :: decimal
  fr_market_value :: decimal
  fr_closed_trade :: "closed_trade option"

record valuation =
  val_account :: account
  val_positions :: book
  val_market_value :: decimal
  val_unrealized_pnl :: decimal
  val_price_at :: "stamp option"

section \<open>The parts of a fill\<close>

definition side_for_order :: "pyval \<Rightarrow> paper_error + string" where
  "side_for_order v =
     (case v of
        PyStr s \<Rightarrow>
          (let normalised = py_lower (py_strip s) in
           if normalised = ''buy'' then Inr LONG
           else if normalised = ''sell'' then Inr SHORT
           else Inl InvalidQuantity)
      | _ \<Rightarrow> Inl InvalidQuantity)"

definition weighted_average_entry ::
  "decimal \<Rightarrow> decimal \<Rightarrow> decimal \<Rightarrow> decimal \<Rightarrow> accounting_config \<Rightarrow> paper_error + decimal" where
  "weighted_average_entry old_size old_entry added_size fill_price cfg =
     (if cfg_cost_basis cfg \<noteq> WEIGHTED_AVERAGE then Inl InvalidConfiguration
      else
        let new_size = dec_add DECIMAL_PRECISION old_size added_size in
        if dec_le new_size dec_zero then Inl InvalidQuantity
        else
          case dec_div DECIMAL_PRECISION
                 (dec_add DECIMAL_PRECISION
                   (dec_mul DECIMAL_PRECISION old_size old_entry)
                   (dec_mul DECIMAL_PRECISION added_size fill_price)) new_size of
            None \<Rightarrow> Inl PaperDecimalSignal
          | Some d \<Rightarrow> cfg_price cfg (D d))"

definition realized_on_close :: "string \<Rightarrow> decimal \<Rightarrow> decimal \<Rightarrow> decimal \<Rightarrow> decimal" where
  "realized_on_close closing_side entry_price exit_price quantity =
     (if closing_side = LONG then
        dec_mul DECIMAL_PRECISION (dec_sub DECIMAL_PRECISION exit_price entry_price) quantity
      else
        dec_mul DECIMAL_PRECISION (dec_sub DECIMAL_PRECISION entry_price exit_price) quantity)"

text \<open>The quantized arguments of a fill, after the checks at the head of \<open>apply_fill\<close>.\<close>

record fill_args =
  fa_symbol :: pyval
  fa_side :: string
  fa_qty :: decimal
  fa_price :: decimal
  fa_fee :: decimal
  fa_release :: decimal

definition fill_inputs ::
  "(string \<rightharpoonup> pyval) \<Rightarrow> pyval \<Rightarrow> pyval \<Rightarrow> pyval \<Rightarrow> accounting_config \<Rightarrow> pyval \<Rightarrow>
    paper_error + fill_args" where
  "fill_inputs order quantity price fee cfg release_from_locked =
     bnd (py_attr order ''symbol'') (\<lambda>symbol.
     bnd (py_attr order ''side'') (\<lambda>order_side.
     bnd (side_for_order order_side) (\<lambda>incoming_side.
     bnd (cfg_qty cfg quantity) (\<lambda>fill_qty.
     bnd (cfg_price cfg price) (\<lambda>fill_price.
     bnd (cfg_money cfg fee) (\<lambda>fill_fee.
     bnd (cfg_money cfg release_from_locked) (\<lambda>release.
       if dec_le fill_qty dec_zero then Inl InvalidQuantity
       else if dec_le fill_price dec_zero then Inl InvalidQuantity
       else if dec_lt fill_fee dec_zero then Inl InvalidQuantity
       else if dec_lt release dec_zero then Inl InvalidQuantity
       else Inr \<lparr>fa_symbol = symbol, fa_side = incoming_side, fa_qty = fill_qty,
                 fa_price = fill_price, fa_fee = fill_fee, fa_release = release\<rparr>)))))))"

text \<open>\<open>positions.get(symbol)\<close>, kept only when it is open.\<close>

definition open_position :: "book \<Rightarrow> pyval \<Rightarrow> position option" where
  "open_position positions symbol =
     (case symbol of
        PyStr s \<Rightarrow>
          (case dget positions s of
             None \<Rightarrow> None
           | Some p \<Rightarrow> if pos_is_open p then Some p else None)
      | _ \<Rightarrow> None)"

definition old_position_value ::
  "position option \<Rightarrow> decimal \<Rightarrow> accounting_config \<Rightarrow> paper_error + decimal" where
  "old_position_value open_pos price cfg =
     (case open_pos of
        None \<Rightarrow> Inr dec_zero
      | Some p \<Rightarrow> bnd (position_value p (D price)) (\<lambda>v. cfg_money cfg (D v)))"

text \<open>A newly opened position; a symbol that is not a string is refused by its constructor.\<close>

definition opened_position ::
  "pyval \<Rightarrow> string \<Rightarrow> decimal \<Rightarrow> decimal \<Rightarrow> stamp option \<Rightarrow> paper_error + position" where
  "opened_position symbol side qty price filled_at =
     (case symbol of
        PyStr s \<Rightarrow>
          mk_position \<lparr>pos_symbol = s, pos_side = side, pos_size = qty, pos_entry_price = price,
            pos_current_price = Some price, pos_unrealized_pnl = Some dec_zero,
            pos_price_at = filled_at, pos_opened_at = filled_at, pos_closed_at = None\<rparr>
      | _ \<Rightarrow> Inl InvalidQuantity)"

definition accumulated_position ::
  "position \<Rightarrow> fill_args \<Rightarrow> accounting_config \<Rightarrow> stamp option \<Rightarrow> paper_error + position" where
  "accumulated_position p args cfg filled_at =
     bnd (cfg_qty cfg (D (dec_add DECIMAL_PRECISION (pos_size p) (fa_qty args)))) (\<lambda>new_size.
     bnd (weighted_average_entry (pos_size p) (pos_entry_price p) (fa_qty args) (fa_price args) cfg)
       (\<lambda>entry.
       mk_position (p\<lparr>pos_size := new_size, pos_entry_price := entry,
         pos_current_price := Some (fa_price args), pos_unrealized_pnl := None,
         pos_price_at := filled_at, pos_closed_at := None\<rparr>)))"

text \<open>The opposite side: partial close, full close, or reversal through zero.\<close>

definition closing_position ::
  "position \<Rightarrow> fill_args \<Rightarrow> accounting_config \<Rightarrow> stamp option \<Rightarrow>
    paper_error + (position \<times> decimal \<times> closed_trade option)" where
  "closing_position p args cfg filled_at =
     (let closing_qty = dec_min (fa_qty args) (pos_size p) in
      bnd (cfg_money cfg (D (realized_on_close (pos_side p) (pos_entry_price p) (fa_price args)
             closing_qty))) (\<lambda>realized.
      bnd (cfg_qty cfg (D (dec_sub DECIMAL_PRECISION (pos_size p) closing_qty))) (\<lambda>remaining.
      bnd (if dec_le (fa_qty args) (pos_size p) then
             mk_position (p\<lparr>pos_size := remaining, pos_current_price := Some (fa_price args),
               pos_unrealized_pnl := None, pos_price_at := filled_at,
               pos_closed_at := if dec_eq remaining dec_zero then filled_at else None\<rparr>)
           else
             bnd (cfg_qty cfg (D (dec_sub DECIMAL_PRECISION (fa_qty args) (pos_size p))))
               (\<lambda>surplus. opened_position (fa_symbol args) (fa_side args) surplus (fa_price args)
                  filled_at)) (\<lambda>new_position.
        Inr (new_position, realized,
          if dec_eq remaining dec_zero then
            Some \<lparr>tr_symbol = (case fa_symbol args of PyStr s \<Rightarrow> s | _ \<Rightarrow> []),
              tr_side = pos_side p, tr_quantity = closing_qty, tr_entry_price = pos_entry_price p,
              tr_exit_price = fa_price args, tr_realized_pnl = realized, tr_fee = fa_fee args,
              tr_opened_at = pos_opened_at p, tr_closed_at = filled_at\<rparr>
          else None)))))"

text \<open>The five cases of the table in the docstring.\<close>

definition fill_position ::
  "position option \<Rightarrow> fill_args \<Rightarrow> accounting_config \<Rightarrow> stamp option \<Rightarrow>
    paper_error + (position \<times> decimal \<times> closed_trade option)" where
  "fill_position open_pos args cfg filled_at =
     (case open_pos of
        None \<Rightarrow>
          bnd (opened_position (fa_symbol args) (fa_side args) (fa_qty args) (fa_price args)
                 filled_at) (\<lambda>p. Inr (p, dec_zero, None))
      | Some p \<Rightarrow>
          if pos_side p = fa_side args then
            bnd (accumulated_position p args cfg filled_at) (\<lambda>q. Inr (q, dec_zero, None))
          else closing_position p args cfg filled_at)"

text \<open>The cash: the residual of the change of the position's value.\<close>

definition cash_delta :: "decimal \<Rightarrow> decimal \<Rightarrow> decimal \<Rightarrow> decimal" where
  "cash_delta old_value new_value fee =
     dec_sub DECIMAL_PRECISION
       (dec_neg DECIMAL_PRECISION (dec_sub DECIMAL_PRECISION new_value old_value)) fee"

definition fill_cash ::
  "account \<Rightarrow> fill_args \<Rightarrow> decimal \<Rightarrow> decimal \<Rightarrow> paper_error + (decimal \<times> decimal)" where
  "fill_cash a args old_value new_value =
     (let available_after = dec_add DECIMAL_PRECISION
            (dec_add DECIMAL_PRECISION (acc_available a) (fa_release args))
            (cash_delta old_value new_value (fa_fee args));
          locked_after = dec_sub DECIMAL_PRECISION (acc_locked a) (fa_release args)
      in if dec_lt locked_after dec_zero then Inl (InvariantViolation ''locked_balance'')
         else if dec_lt available_after dec_zero then
           Inl (InvariantViolation ''available_balance'')
         else Inr (available_after, locked_after))"

text \<open>Finite prices as the price map of the valuation functions.\<close>

definition as_prices :: "(string \<rightharpoonup> decimal) \<Rightarrow> (string \<rightharpoonup> pyval)" where
  "as_prices m = (\<lambda>s. map_option D (m s))"

definition prices_at_fill :: "book \<Rightarrow> string \<Rightarrow> decimal \<Rightarrow> (string \<rightharpoonup> pyval)" where
  "prices_at_fill new_positions symbol fill_price =
     as_prices ((last_validated_prices (dvalues new_positions))(symbol \<mapsto> fill_price))"

text \<open>Pricing the book, the new account, and the returned deltas.\<close>

definition fill_outcome ::
  "account \<Rightarrow> book \<Rightarrow> fill_args \<Rightarrow> accounting_config \<Rightarrow> position \<Rightarrow> decimal \<Rightarrow>
    closed_trade option \<Rightarrow> decimal \<Rightarrow> decimal \<Rightarrow> string \<Rightarrow> paper_error + fill_result" where
  "fill_outcome a positions args cfg new_position realized trade available_after locked_after symbol =
     (let new_positions = dset symbol new_position positions in
      bnd (position_market_value (dvalues new_positions)
             (prices_at_fill new_positions symbol (fa_price args)) (Some cfg)) (\<lambda>market_value.
      bnd (position_unrealized_pnl new_position (D (fa_price args))) (\<lambda>u.
      bnd (cfg_money cfg (D u)) (\<lambda>pnl.
      bnd (mk_position (new_position\<lparr>pos_unrealized_pnl := Some pnl\<rparr>)) (\<lambda>final_position.
        Inr \<lparr>fr_account =
               \<lparr>acc_available = available_after, acc_locked = locked_after,
                acc_realized = dec_add DECIMAL_PRECISION (acc_realized a) realized,
                acc_total_equity = dec_add DECIMAL_PRECISION
                  (dec_add DECIMAL_PRECISION available_after locked_after) market_value,
                acc_currency = acc_currency a\<rparr>,
             fr_positions = dset symbol final_position new_positions,
             fr_position = final_position,
             fr_realized_pnl = realized,
             fr_fee = fa_fee args,
             fr_available_delta = dec_sub DECIMAL_PRECISION available_after (acc_available a),
             fr_locked_delta = dec_sub DECIMAL_PRECISION locked_after (acc_locked a),
             fr_realized_delta = realized,
             fr_total_equity_delta = dec_neg DECIMAL_PRECISION (fa_fee args),
             fr_market_value = market_value,
             fr_closed_trade = trade\<rparr>)))))"

definition apply_fill ::
  "account \<Rightarrow> book \<Rightarrow> (string \<rightharpoonup> pyval) \<Rightarrow> pyval \<Rightarrow> pyval \<Rightarrow> pyval \<Rightarrow> accounting_config \<Rightarrow>
    stamp option \<Rightarrow> pyval \<Rightarrow> paper_error + fill_result" where
  "apply_fill a positions order quantity price fee cfg filled_at release_from_locked =
     bnd (fill_inputs order quantity price fee cfg release_from_locked) (\<lambda>args.
       let open_pos = open_position positions (fa_symbol args) in
       bnd (old_position_value open_pos (fa_price args) cfg) (\<lambda>old_value.
       bnd (fill_position open_pos args cfg filled_at) (\<lambda>(new_position, realized, trade).
       bnd (bnd (position_value new_position (D (fa_price args))) (\<lambda>v. cfg_money cfg (D v)))
         (\<lambda>new_value.
       bnd (fill_cash a args old_value new_value) (\<lambda>(available_after, locked_after).
         fill_outcome a positions args cfg new_position realized trade available_after locked_after
           (case fa_symbol args of PyStr s \<Rightarrow> s | _ \<Rightarrow> []))))))"

section \<open>Revaluation\<close>

text \<open>One iteration of \<open>recalculate\<close> over \<open>(revalued, market_value, unrealized_total)\<close>.\<close>

definition revalue_position ::
  "(string \<rightharpoonup> pyval) \<Rightarrow> accounting_config \<Rightarrow> stamp option \<Rightarrow> book \<times> decimal \<times> decimal \<Rightarrow>
    string \<times> position \<Rightarrow> paper_error + (book \<times> decimal \<times> decimal)" where
  "revalue_position prices cfg price_at st entry =
     (case st of (revalued, market_value, unrealized_total) \<Rightarrow>
      case entry of (symbol, p) \<Rightarrow>
        if \<not> pos_is_open p then
          bnd (mk_position (p\<lparr>pos_unrealized_pnl := Some dec_zero\<rparr>)) (\<lambda>q.
            Inr (dset symbol q revalued, market_value, unrealized_total))
        else
          bnd (price_for (pos_symbol p) prices) (\<lambda>current.
          bnd (bnd (position_value p (D current)) (\<lambda>v. cfg_money cfg (D v))) (\<lambda>value.
          bnd (bnd (position_unrealized_pnl p (D current)) (\<lambda>v. cfg_money cfg (D v))) (\<lambda>pnl.
          bnd (mk_position (p\<lparr>pos_current_price := Some current, pos_unrealized_pnl := Some pnl,
                 pos_price_at := (if price_at \<noteq> None then price_at else pos_price_at p)\<rparr>)) (\<lambda>q.
            Inr (dset symbol q revalued,
                 dec_add DECIMAL_PRECISION market_value value,
                 dec_add DECIMAL_PRECISION unrealized_total pnl))))))"

definition recalculate ::
  "account \<Rightarrow> book \<Rightarrow> (string \<rightharpoonup> pyval) \<Rightarrow> accounting_config \<Rightarrow> stamp option \<Rightarrow>
    paper_error + valuation" where
  "recalculate a positions prices cfg price_at =
     bnd (foldm (revalue_position prices cfg price_at) ([], dec_zero, dec_zero) positions)
       (\<lambda>(revalued, market_value, unrealized_total).
         Inr \<lparr>val_account = a\<lparr>acc_total_equity := dec_add DECIMAL_PRECISION
                  (dec_add DECIMAL_PRECISION (acc_available a) (acc_locked a)) market_value\<rparr>,
              val_positions = revalued,
              val_market_value = market_value,
              val_unrealized_pnl = unrealized_total,
              val_price_at = (if price_at \<noteq> None then price_at
                              else latest_price_at (dvalues revalued))\<rparr>)"


section \<open>Well-formed books\<close>

definition qty_exp :: "accounting_config \<Rightarrow> int" where
  "qty_exp cfg = - int (cfg_quantity_precision cfg)"

text \<open>A row of the book: what every fill leaves behind.\<close>

definition position_ok :: "accounting_config \<Rightarrow> string \<Rightarrow> position \<Rightarrow> bool" where
  "position_ok cfg s p \<longleftrightarrow>
     pos_symbol p = s \<and> py_strip s \<noteq> [] \<and> pos_side p \<in> set SIDES \<and>
     0 \<le> dcoeff (pos_size p) \<and> dexp (pos_size p) = qty_exp cfg \<and>
     pos_current_price p \<noteq> None \<and> (pos_closed_at p \<noteq> None \<longrightarrow> dcoeff (pos_size p) = 0)"

definition book_ok :: "accounting_config \<Rightarrow> book \<Rightarrow> bool" where
  "book_ok cfg b \<longleftrightarrow> dict_ok b \<and> (\<forall>(s, p) \<in> set b. position_ok cfg s p)"

lemma mk_position_Inr:
  "mk_position p = Inr q \<longleftrightarrow> q = p \<and> py_strip (pos_symbol p) \<noteq> [] \<and> pos_side p \<in> set SIDES \<and>
    0 \<le> dcoeff (pos_size p)"
  by (auto simp: mk_position_def not_less)

lemma cfg_qty_grid: "cfg_qty cfg v = Inr q \<Longrightarrow> q = Dec (dcoeff q) (qty_exp cfg)"
  unfolding qty_exp_def by (rule qty.form)

lemma cfg_qty_exp: "cfg_qty cfg v = Inr q \<Longrightarrow> dexp q = qty_exp cfg"
  unfolding qty_exp_def by (rule qty.exponent)

lemma book_ok_dget: "book_ok cfg b \<Longrightarrow> dget b s = Some p \<Longrightarrow> position_ok cfg s p"
  by (auto simp: book_ok_def dest: map_of_SomeD)

lemma book_ok_dset: "book_ok cfg b \<Longrightarrow> position_ok cfg s p \<Longrightarrow> book_ok cfg (dset s p b)"
  by (auto simp: book_ok_def dict_simps)

lemma position_ok_unrealized:
  "position_ok cfg s (p\<lparr>pos_unrealized_pnl := u\<rparr>) = position_ok cfg s p"
  by (simp add: position_ok_def)

lemma open_position_Some:
  "open_position b v = Some p \<Longrightarrow> \<exists>s. v = PyStr s \<and> dget b s = Some p \<and> pos_is_open p"
  by (auto simp: open_position_def split: pyval.splits option.splits if_splits)

section \<open>The recorded prices of a book\<close>

lemma last_validated_fold:
  assumes "dict_ok b" and "\<forall>(s, p) \<in> set b. pos_symbol p = s"
  shows "fold (\<lambda>p m. case pos_current_price p of None \<Rightarrow> m | Some c \<Rightarrow> m(pos_symbol p \<mapsto> c))
      (dvalues b) m s =
    (case dget b s of None \<Rightarrow> m s
     | Some p \<Rightarrow> (case pos_current_price p of None \<Rightarrow> m s | Some c \<Rightarrow> Some c))"
  using assms
proof (induction b arbitrary: m)
  case (Cons e b)
  obtain t q where e: "e = (t, q)" by (cases e)
  have q: "pos_symbol q = t" and fresh: "dget b t = None"
    using Cons.prems by (auto simp: e map_of_eq_None_iff)
  have IH: "fold (\<lambda>p m. case pos_current_price p of None \<Rightarrow> m | Some c \<Rightarrow> m(pos_symbol p \<mapsto> c))
      (dvalues b) m' s =
    (case dget b s of None \<Rightarrow> m' s
     | Some p \<Rightarrow> (case pos_current_price p of None \<Rightarrow> m' s | Some c \<Rightarrow> Some c))" for m'
    using Cons.prems by (intro Cons.IH) (auto simp: e)
  show ?case by (auto simp: e IH q fresh split: option.splits)
qed simp

lemma last_validated_dget:
  assumes "book_ok cfg b"
  shows "last_validated_prices (dvalues b) s =
    (case dget b s of None \<Rightarrow> None | Some p \<Rightarrow> pos_current_price p)"
proof -
  have "\<forall>(s, p) \<in> set b. pos_symbol p = s" "dict_ok b"
    using assms by (auto simp: book_ok_def position_ok_def)
  then show ?thesis
    by (simp add: last_validated_prices_def last_validated_fold split: option.splits)
qed

text \<open>Nothing in a valuation reads the recorded unrealized profit.\<close>

definition forget_pnl :: "position \<Rightarrow> position" where
  "forget_pnl p = p\<lparr>pos_unrealized_pnl := None\<rparr>"

lemma mark_forget [simp]: "mark prices cfg (forget_pnl p) = mark prices cfg p"
  by (simp add: mark_def position_value_def forget_pnl_def cong: if_cong)

lemma is_open_forget [simp]: "pos_is_open (forget_pnl p) = pos_is_open p"
  by (simp add: pos_is_open_def forget_pnl_def)

lemma foldm_map: "(\<And>acc x. f acc (h x) = f acc x) \<Longrightarrow> foldm f acc (map h xs) = foldm f acc xs"
  by (induction xs arbitrary: acc) simp_all

lemma market_value_forget:
  "position_market_value (map forget_pnl ps) prices cfg = position_market_value ps prices cfg"
  unfolding position_market_value_def add_market_value_open
  by (rule foldm_map) (simp add: add_open_def)

lemma map_dset: "map f (dvalues (dset k v d)) = dvalues (dset k (f v) (map (\<lambda>(k, v). (k, f v)) d))"
  by (induction d) auto

lemma market_value_pnl:
  "position_market_value (dvalues (dset s (p\<lparr>pos_unrealized_pnl := u\<rparr>) b)) prices cfg =
    position_market_value (dvalues (dset s p b)) prices cfg"
proof -
  have "map forget_pnl (dvalues (dset s (p\<lparr>pos_unrealized_pnl := u\<rparr>) b)) =
      map forget_pnl (dvalues (dset s p b))"
    by (simp only: map_dset) (simp add: forget_pnl_def)
  then show ?thesis by (metis market_value_forget)
qed

section \<open>What a returning fill did\<close>

lemma side_for_order_Inr: "side_for_order v = Inr s \<Longrightarrow> s \<in> set SIDES"
  by (auto simp: side_for_order_def SIDES_def Let_def split: pyval.splits if_splits)

lemma fill_inputs_Inr:
  assumes "fill_inputs order quantity price fee cfg rel = Inr args"
  shows "fa_side args \<in> set SIDES" "0 < dcoeff (fa_qty args)" "dexp (fa_qty args) = qty_exp cfg"
    "0 < dcoeff (fa_price args)" "0 \<le> dcoeff (fa_fee args)" "cfg_money cfg fee = Inr (fa_fee args)"
    "0 \<le> dcoeff (fa_release args)" "cfg_money cfg rel = Inr (fa_release args)"
  using assms
  by (auto simp: fill_inputs_def result_simps not_less not_le dest: side_for_order_Inr cfg_qty_exp
      split: if_splits)

lemma fill_inputs_symbol:
  "fill_inputs order quantity price fee cfg rel = Inr args \<Longrightarrow> order ''symbol'' = Some (fa_symbol args)"
  by (auto simp: fill_inputs_def py_attr_def result_simps split: option.splits if_splits)

lemma opened_position_Inr:
  "opened_position v side q price t = Inr p \<longleftrightarrow> (\<exists>s. v = PyStr s \<and> py_strip s \<noteq> [] \<and>
    side \<in> set SIDES \<and> 0 \<le> dcoeff q \<and>
    p = \<lparr>pos_symbol = s, pos_side = side, pos_size = q, pos_entry_price = price,
         pos_current_price = Some price, pos_unrealized_pnl = Some dec_zero,
         pos_price_at = t, pos_opened_at = t, pos_closed_at = None\<rparr>)"
  by (auto simp: opened_position_def mk_position_Inr split: pyval.splits)


lemma closing_position_ok:
  assumes ok: "position_ok cfg s p" and inp: "fill_inputs order quantity price fee cfg rel = Inr args"
    and sym: "fa_symbol args = PyStr s"
    and run: "closing_position p args cfg t = Inr (q, realized, trade)"
  shows "position_ok cfg s q \<and> pos_current_price q = Some (fa_price args)"
  using run ok fill_inputs_Inr(1) [OF inp]
  by (auto simp: closing_position_def Let_def result_simps mk_position_Inr opened_position_Inr
      position_ok_def sym not_less dest: cfg_qty_exp split: if_splits)

lemma fill_position_ok:
  assumes b: "book_ok cfg b" and inp: "fill_inputs order quantity price fee cfg rel = Inr args"
    and run: "fill_position (open_position b (fa_symbol args)) args cfg t = Inr (q, realized, trade)"
  shows "\<exists>s. fa_symbol args = PyStr s \<and> position_ok cfg s q \<and>
    pos_current_price q = Some (fa_price args)"
proof (cases "open_position b (fa_symbol args)")
  case None
  then show ?thesis using run fill_inputs_Inr [OF inp]
    by (auto simp: fill_position_def result_simps opened_position_Inr position_ok_def)
next
  case (Some p)
  then obtain s where s: "fa_symbol args = PyStr s" "dget b s = Some p"
    using open_position_Some by blast
  have ok: "position_ok cfg s p" using book_ok_dget [OF b s(2)] .
  show ?thesis
  proof (cases "pos_side p = fa_side args")
    case True
    then have "accumulated_position p args cfg t = Inr q"
      using run Some by (auto simp: fill_position_def result_simps)
    then show ?thesis using ok s
      by (auto simp: accumulated_position_def result_simps mk_position_Inr position_ok_def
          dest: cfg_qty_exp)
  next
    case False
    then show ?thesis using run Some closing_position_ok [OF ok inp s(1)] s(1)
      by (auto simp: fill_position_def)
  qed
qed

text \<open>The values a returning fill went through.\<close>

record fill_trace =
  ft_args :: fill_args
  ft_symbol :: string
  ft_position :: position
  ft_old_value :: decimal
  ft_new_value :: decimal
  ft_pnl :: decimal

definition fill_trace_of ::
  "account \<Rightarrow> book \<Rightarrow> (string \<rightharpoonup> pyval) \<Rightarrow> pyval \<Rightarrow> pyval \<Rightarrow> pyval \<Rightarrow> accounting_config \<Rightarrow>
    stamp option \<Rightarrow> pyval \<Rightarrow> fill_result \<Rightarrow> fill_trace \<Rightarrow> bool" where
  "fill_trace_of a b order quantity price fee cfg t rel r f \<longleftrightarrow>
     fill_inputs order quantity price fee cfg rel = Inr (ft_args f) \<and>
     fa_symbol (ft_args f) = PyStr (ft_symbol f) \<and>
     position_ok cfg (ft_symbol f) (ft_position f) \<and>
     pos_current_price (ft_position f) = Some (fa_price (ft_args f)) \<and>
     old_position_value (open_position b (PyStr (ft_symbol f))) (fa_price (ft_args f)) cfg =
       Inr (ft_old_value f) \<and>
     fill_position (open_position b (PyStr (ft_symbol f))) (ft_args f) cfg t =
       Inr (ft_position f, fr_realized_pnl r, fr_closed_trade r) \<and>
     bnd (position_value (ft_position f) (D (fa_price (ft_args f)))) (\<lambda>v. cfg_money cfg (D v)) =
       Inr (ft_new_value f) \<and>
     fill_cash a (ft_args f) (ft_old_value f) (ft_new_value f) =
       Inr (acc_available (fr_account r), acc_locked (fr_account r)) \<and>
     position_market_value (dvalues (dset (ft_symbol f) (ft_position f) b))
       (prices_at_fill (dset (ft_symbol f) (ft_position f) b) (ft_symbol f) (fa_price (ft_args f)))
       (Some cfg) = Inr (fr_market_value r) \<and>
     fr_position r = (ft_position f)\<lparr>pos_unrealized_pnl := Some (ft_pnl f)\<rparr> \<and>
     bnd (position_unrealized_pnl (ft_position f) (D (fa_price (ft_args f))))
       (\<lambda>v. cfg_money cfg (D v)) = Inr (ft_pnl f) \<and>
     fr_positions r = dset (ft_symbol f) (fr_position r) b \<and>
     acc_total_equity (fr_account r) = dec_add DECIMAL_PRECISION
       (dec_add DECIMAL_PRECISION (acc_available (fr_account r)) (acc_locked (fr_account r)))
       (fr_market_value r) \<and>
     acc_realized (fr_account r) = dec_add DECIMAL_PRECISION (acc_realized a) (fr_realized_pnl r) \<and>
     acc_currency (fr_account r) = acc_currency a \<and>
     fr_fee r = fa_fee (ft_args f) \<and>
     fr_available_delta r =
       dec_sub DECIMAL_PRECISION (acc_available (fr_account r)) (acc_available a) \<and>
     fr_locked_delta r = dec_sub DECIMAL_PRECISION (acc_locked (fr_account r)) (acc_locked a) \<and>
     fr_realized_delta r = fr_realized_pnl r \<and>
     fr_total_equity_delta r = dec_neg DECIMAL_PRECISION (fa_fee (ft_args f))"

lemma apply_fill_trace:
  assumes b: "book_ok cfg b"
    and run: "apply_fill a b order quantity price fee cfg t rel = Inr r"
  obtains f where "fill_trace_of a b order quantity price fee cfg t rel r f"
proof -
  from run obtain args ov p realized trade nv av lk where
    inp: "fill_inputs order quantity price fee cfg rel = Inr args" and
    ov: "old_position_value (open_position b (fa_symbol args)) (fa_price args) cfg = Inr ov" and
    fp: "fill_position (open_position b (fa_symbol args)) args cfg t = Inr (p, realized, trade)" and
    nv: "bnd (position_value p (D (fa_price args))) (\<lambda>v. cfg_money cfg (D v)) = Inr nv" and
    fc: "fill_cash a args ov nv = Inr (av, lk)" and
    out: "fill_outcome a b args cfg p realized trade av lk
      (case fa_symbol args of PyStr s \<Rightarrow> s | _ \<Rightarrow> []) = Inr r"
    unfolding apply_fill_def Let_def bnd_Inr_iff split_paired_Ex prod.case by blast
  from fill_position_ok [OF b inp fp] obtain s where
    s: "fa_symbol args = PyStr s" "position_ok cfg s p" "pos_current_price p = Some (fa_price args)"
    by blast
  from out [unfolded s(1) pyval.case fill_outcome_def Let_def bnd_Inr_iff] obtain mv u pnl q where
    mv: "position_market_value (dvalues (dset s p b)) (prices_at_fill (dset s p b) s (fa_price args))
      (Some cfg) = Inr mv" and
    u: "position_unrealized_pnl p (D (fa_price args)) = Inr u" and
    pnl: "cfg_money cfg (D u) = Inr pnl" and
    q: "mk_position (p\<lparr>pos_unrealized_pnl := Some pnl\<rparr>) = Inr q" and
    r: "Inr \<lparr>fr_account =
               \<lparr>acc_available = av, acc_locked = lk,
                acc_realized = dec_add DECIMAL_PRECISION (acc_realized a) realized,
                acc_total_equity = dec_add DECIMAL_PRECISION (dec_add DECIMAL_PRECISION av lk) mv,
                acc_currency = acc_currency a\<rparr>,
             fr_positions = dset s q (dset s p b), fr_position = q, fr_realized_pnl = realized,
             fr_fee = fa_fee args,
             fr_available_delta = dec_sub DECIMAL_PRECISION av (acc_available a),
             fr_locked_delta = dec_sub DECIMAL_PRECISION lk (acc_locked a),
             fr_realized_delta = realized,
             fr_total_equity_delta = dec_neg DECIMAL_PRECISION (fa_fee args),
             fr_market_value = mv, fr_closed_trade = trade\<rparr> = (Inr r :: paper_error + fill_result)"
    by blast
  have q': "q = p\<lparr>pos_unrealized_pnl := Some pnl\<rparr>" using q by (simp add: mk_position_Inr)
  show thesis
    by (rule that [of "\<lparr>ft_args = args, ft_symbol = s, ft_position = p, ft_old_value = ov,
          ft_new_value = nv, ft_pnl = pnl\<rparr>"])
      (use inp ov fp nv fc mv u pnl s r in
        \<open>simp add: fill_trace_of_def q' dict_simps flip: r [unfolded sum.inject]\<close>)
qed


section \<open>The book after a fill\<close>

lemma fill_traceD:
  assumes "fill_trace_of a b order quantity price fee cfg t rel r f"
  shows "position_ok cfg (ft_symbol f) (fr_position r)"
    "fr_positions r = dset (ft_symbol f) (fr_position r) b"
    "pos_current_price (fr_position r) = Some (fa_price (ft_args f))"
  using assms by (auto simp: fill_trace_of_def position_ok_unrealized)

lemma fill_book_ok:
  assumes "book_ok cfg b" and "fill_trace_of a b order quantity price fee cfg t rel r f"
  shows "book_ok cfg (fr_positions r)"
  using fill_traceD [OF assms(2)] book_ok_dset [OF assms(1)] by simp

text \<open>The prices a fill values the book at are the prices it records.\<close>

lemma prices_recorded:
  assumes b: "book_ok cfg b" and p: "position_ok cfg s p" and c: "pos_current_price p = Some price"
  shows "prices_at_fill (dset s p b) s price = as_prices (last_validated_prices (dvalues (dset s p b)))"
proof -
  have "(last_validated_prices (dvalues (dset s p b)))(s \<mapsto> price) =
      last_validated_prices (dvalues (dset s p b))"
    using book_ok_dset [OF b p] c
    by (intro ext) (simp add: last_validated_dget dict_simps)
  then show ?thesis by (simp add: prices_at_fill_def)
qed

lemma last_validated_pnl:
  assumes "book_ok cfg b" and "position_ok cfg s p"
  shows "last_validated_prices (dvalues (dset s (p\<lparr>pos_unrealized_pnl := u\<rparr>) b)) =
    last_validated_prices (dvalues (dset s p b))"
  using assms book_ok_dset [OF assms(1), of s p]
    book_ok_dset [OF assms(1), of s "p\<lparr>pos_unrealized_pnl := u\<rparr>"]
  by (intro ext) (simp add: last_validated_dget dict_simps position_ok_unrealized)

definition book_prices :: "book \<Rightarrow> (string \<rightharpoonup> pyval)" where
  "book_prices b = as_prices (last_validated_prices (dvalues b))"

lemma fill_market_value:
  assumes b: "book_ok cfg b" and f: "fill_trace_of a b order quantity price fee cfg t rel r f"
  shows "position_market_value (dvalues (fr_positions r)) (book_prices (fr_positions r)) (Some cfg) =
    Inr (fr_market_value r)"
proof -
  note ft = f [unfolded fill_trace_of_def]
  have ok: "position_ok cfg (ft_symbol f) (ft_position f)"
    and c: "pos_current_price (ft_position f) = Some (fa_price (ft_args f))"
    and q: "fr_positions r = dset (ft_symbol f) ((ft_position f)\<lparr>pos_unrealized_pnl := Some (ft_pnl f)\<rparr>) b"
    and mv: "position_market_value (dvalues (dset (ft_symbol f) (ft_position f) b))
       (prices_at_fill (dset (ft_symbol f) (ft_position f) b) (ft_symbol f) (fa_price (ft_args f)))
       (Some cfg) = Inr (fr_market_value r)"
    using ft by auto
  show ?thesis
    using mv by (simp add: book_prices_def q market_value_pnl last_validated_pnl [OF b ok]
        prices_recorded [OF b ok c])
qed

lemma fill_cash_nonneg:
  assumes "fill_cash a args ov nv = Inr (av, lk)"
  shows "0 \<le> dcoeff av" "0 \<le> dcoeff lk"
  using assms by (auto simp: fill_cash_def Let_def not_less split: if_splits)

lemma book_ok_positions: "book_ok cfg b \<Longrightarrow> bad_position (dvalues b) = None"
  by (auto simp: bad_position_None book_ok_def position_ok_def)

text \<open>
  C9: every fill that returns leaves a book on which the five invariants
  hold exactly, valued at the prices the fill recorded, whatever the account was before: sizes
  and balances are not negative and \<open>total_equity\<close> is the computed sum, to the last digit.
\<close>

theorem apply_fill_invariants:
  assumes b: "book_ok cfg b"
    and run: "apply_fill a b order quantity price fee cfg t rel = Inr r"
  shows "violated_invariant (fr_account r) (dvalues (fr_positions r)) (book_prices (fr_positions r))
    (Some cfg) = Inr None"
proof -
  obtain f where f: "fill_trace_of a b order quantity price fee cfg t rel r f"
    using apply_fill_trace [OF b run] .
  have "fill_cash a (ft_args f) (ft_old_value f) (ft_new_value f) =
      Inr (acc_available (fr_account r), acc_locked (fr_account r))"
    using f by (simp add: fill_trace_of_def)
  note nn = fill_cash_nonneg [OF this]
  have "total_equity (fr_account r) (dvalues (fr_positions r)) (book_prices (fr_positions r))
      (Some cfg) = Inr (acc_total_equity (fr_account r))"
    using fill_market_value [OF b f] f by (simp add: total_equity_def fill_trace_of_def)
  then show ?thesis
    using nn book_ok_positions [OF fill_book_ok [OF b f]] by (simp add: violated_None dec_eq_def)
qed

text \<open>
  C10: every fill keeps the book well formed: one row per symbol under its own
  symbol, a recognised side, a size that is not negative and at the quantity scale, a recorded
  price, and \<open>closed_at\<close> only on a row of size zero. No row disappears, and no row of another
  symbol changes.
\<close>

theorem apply_fill_book:
  assumes b: "book_ok cfg b"
    and run: "apply_fill a b order quantity price fee cfg t rel = Inr r"
  shows "book_ok cfg (fr_positions r) \<and>
    (\<exists>s. order ''symbol'' = Some (PyStr s) \<and>
       dget (fr_positions r) = (dget b)(s \<mapsto> fr_position r))"
proof -
  obtain f where f: "fill_trace_of a b order quantity price fee cfg t rel r f"
    using apply_fill_trace [OF b run] .
  have "order ''symbol'' = Some (PyStr (ft_symbol f))"
    using f fill_inputs_symbol by (simp add: fill_trace_of_def) metis
  then show ?thesis
    using fill_book_ok [OF b f] fill_traceD(2) [OF f] by (auto simp: dict_simps)
qed


section \<open>The cash of a fill\<close>

lemma fill_cash_exact:
  assumes ok: "cash_ok cfg a" and run: "fill_cash a args ov nv = Inr (av, lk)"
    and g: "on_grid (cash_exp cfg) ov" "on_grid (cash_exp cfg) nv"
      "on_grid (cash_exp cfg) (fa_fee args)" "on_grid (cash_exp cfg) (fa_release args)"
    and lim: "\<bar>coeff_at ov (cash_exp cfg)\<bar> < CASH_LIMIT" "\<bar>coeff_at nv (cash_exp cfg)\<bar> < CASH_LIMIT"
      "\<bar>coeff_at (fa_fee args) (cash_exp cfg)\<bar> < CASH_LIMIT"
    and rel: "0 \<le> coeff_at (fa_release args) (cash_exp cfg)"
  shows "on_grid (cash_exp cfg) av" and "on_grid (cash_exp cfg) lk"
    and "coeff_at av (cash_exp cfg) = avail_units cfg a + coeff_at (fa_release args) (cash_exp cfg) -
      (coeff_at nv (cash_exp cfg) - coeff_at ov (cash_exp cfg)) - coeff_at (fa_fee args) (cash_exp cfg)"
    and "coeff_at lk (cash_exp cfg) = locked_units cfg a - coeff_at (fa_release args) (cash_exp cfg)"
    and "coeff_at (fa_release args) (cash_exp cfg) \<le> locked_units cfg a"
proof -
  let ?e = "cash_exp cfg"
  note d = cash_okD [OF ok]
  have L: "0 < CASH_LIMIT" by (simp add: CASH_LIMIT_def)
  have lk: "lk = dec_sub DECIMAL_PRECISION (acc_locked a) (fa_release args)"
    and av: "av = dec_add DECIMAL_PRECISION (dec_add DECIMAL_PRECISION (acc_available a)
      (fa_release args)) (cash_delta ov nv (fa_fee args))"
    using run by (auto simp: fill_cash_def Let_def split: if_splits)
  have r: "coeff_at (fa_release args) ?e \<le> locked_units cfg a"
    using grid_sub_nonneg [OF prec_pos d(2) g(4)] fill_cash_nonneg(2) [OF run]
    by (simp add: lk locked_units_def)
  then show "coeff_at (fa_release args) ?e \<le> locked_units cfg a" .
  have f1: "fits DECIMAL_PRECISION (coeff_at (acc_locked a) ?e - coeff_at (fa_release args) ?e)"
    by (rule fits_cash) (use d r rel L in \<open>simp flip: locked_units_def\<close>)
  note g1 = grid_sub [OF prec_pos d(2) g(4) f1]
  show "on_grid ?e lk" and "coeff_at lk ?e = locked_units cfg a - coeff_at (fa_release args) ?e"
    using g1 by (simp_all add: lk locked_units_def)
  have f2: "fits DECIMAL_PRECISION (coeff_at nv ?e - coeff_at ov ?e)"
    by (rule fits_cash) (use lim L in linarith)
  note g2 = grid_sub [OF prec_pos g(2,1) f2]
  have f3: "fits DECIMAL_PRECISION (coeff_at (dec_sub DECIMAL_PRECISION nv ov) ?e)"
    using f2 by (simp add: g2(2))
  note g3 = grid_neg [OF prec_pos g2(1) f3]
  have f4: "fits DECIMAL_PRECISION
      (coeff_at (dec_neg DECIMAL_PRECISION (dec_sub DECIMAL_PRECISION nv ov)) ?e -
       coeff_at (fa_fee args) ?e)"
    by (rule fits_cash) (simp add: g3(2) g2(2), use lim L in linarith)
  note g4 = grid_sub [OF prec_pos g3(1) g(3) f4, folded cash_delta_def]
  have f5: "fits DECIMAL_PRECISION (coeff_at (acc_available a) ?e + coeff_at (fa_release args) ?e)"
    by (rule fits_cash) (use d r rel L in \<open>simp flip: avail_units_def\<close>)
  note g5 = grid_add [OF prec_pos d(1) g(4) f5]
  have f6: "fits DECIMAL_PRECISION
      (coeff_at (dec_add DECIMAL_PRECISION (acc_available a) (fa_release args)) ?e +
       coeff_at (cash_delta ov nv (fa_fee args)) ?e)"
    by (rule fits_cash) (simp add: g5(2) g4(2) g3(2) g2(2) avail_units_def [symmetric],
        use lim d r rel L in linarith)
  note g6 = grid_add [OF prec_pos g5(1) g4(1) f6, folded av]
  show "on_grid ?e av" by (rule g6(1))
  show "coeff_at av ?e = avail_units cfg a + coeff_at (fa_release args) ?e -
      (coeff_at nv ?e - coeff_at ov ?e) - coeff_at (fa_fee args) ?e"
    by (simp add: g6(2) g5(2) g4(2) g3(2) g2(2) avail_units_def)
qed

text \<open>The marks of the filled symbol before and after, at the fill's price.\<close>

lemma closed_value_zero:
  assumes "dcoeff (pos_size p) = 0"
    and "bnd (position_value p (D price)) (\<lambda>v. cfg_money cfg (D v)) = Inr v"
  shows "coeff_at v (cash_exp cfg) = 0"
proof -
  from assms(2) obtain w where w: "position_value p (D price) = Inr w" "cfg_money cfg (D w) = Inr v"
    by (auto simp: result_simps)
  have "dcoeff w = 0"
    using w(1) assms(1) by (auto simp: position_value_def dec_mul_zero_left split: if_splits)
  then show ?thesis using w(2) by (simp add: cfg_money_D quantize_dec_Inr)
qed

lemma money_if_Some: "money_if (Some cfg) = (\<lambda>d. cfg_money cfg (D d))"
  by (rule ext) (simp add: money_if_def)

lemma mark_at_price:
  "prices (pos_symbol p) = Some (D c) \<Longrightarrow>
    mark prices (Some cfg) p = bnd (position_value p (D c)) (\<lambda>v. cfg_money cfg (D v))"
  by (simp add: mark_def price_for_def money_if_Some)

lemma new_mark_units:
  assumes "0 \<le> dcoeff (pos_size p)" and "prices (pos_symbol p) = Some (D c)"
    and "bnd (position_value p (D c)) (\<lambda>v. cfg_money cfg (D v)) = Inr v"
  shows "open_units (cash_exp cfg) (mark prices (Some cfg)) p = coeff_at v (cash_exp cfg)"
  using assms mark_at_price [of prices p c cfg] closed_value_zero [OF _ assms(3)]
  by (auto simp: open_units_def pos_is_open_def)

lemma old_mark_units:
  assumes b: "book_ok cfg b" and ps: "prices s = Some (D c)"
    and ov: "old_position_value (open_position b (PyStr s)) c cfg = Inr v"
  shows "on_grid (cash_exp cfg) v" and "coeff_at v (cash_exp cfg) =
    (case dget b s of None \<Rightarrow> 0 | Some p \<Rightarrow> open_units (cash_exp cfg) (mark prices (Some cfg)) p)"
proof -
  show "on_grid (cash_exp cfg) v"
    using ov by (auto simp: old_position_value_def result_simps intro: cfg_money_on_grid
        split: option.splits)
  show "coeff_at v (cash_exp cfg) =
      (case dget b s of None \<Rightarrow> 0 | Some p \<Rightarrow> open_units (cash_exp cfg) (mark prices (Some cfg)) p)"
  proof (cases "open_position b (PyStr s)")
    case None
    then show ?thesis using ov
      by (auto simp: old_position_value_def open_position_def open_units_def
          split: option.splits if_splits)
  next
    case (Some p)
    then have p: "dget b s = Some p" "pos_is_open p" using open_position_Some by fastforce+
    then have sym: "pos_symbol p = s" using book_ok_dget [OF b] by (simp add: position_ok_def)
    show ?thesis
      using ov Some p mark_at_price [of prices p c cfg] ps sym
      by (simp add: old_position_value_def open_units_def)
  qed
qed

lemma exposure_dset:
  assumes "dict_ok b"
  shows "exposure cfg prices (dvalues (dset s q b)) = exposure cfg prices (dvalues b) +
    \<bar>open_units (cash_exp cfg) (mark prices (Some cfg)) q\<bar> -
    (case dget b s of None \<Rightarrow> 0 | Some p \<Rightarrow> \<bar>open_units (cash_exp cfg) (mark prices (Some cfg)) p\<bar>)"
  unfolding exposure_def by (rule sum_list_dset [OF assms])

lemma exposure_member:
  assumes "p \<in> set ps"
  shows "\<bar>open_units (cash_exp cfg) (mark prices (Some cfg)) p\<bar> \<le> exposure cfg prices ps"
  unfolding exposure_def using assms by (intro member_le_sum_list) auto


lemma market_value_returns:
  "(\<exists>t. position_market_value ps prices cfg = Inr t) \<longleftrightarrow>
    (\<forall>p \<in> set ps. pos_is_open p \<longrightarrow> (\<exists>q. mark prices cfg p = Inr q))"
  by (simp add: position_market_value_def add_market_value_open foldm_open_returns)

text \<open>Everything the exactness of a fill needs to know, at the prices the fill recorded.\<close>

lemma fill_facts:
  assumes b: "book_ok cfg b" and f: "fill_trace_of a b order quantity price fee cfg t rel r f"
  defines "P \<equiv> book_prices (fr_positions r)"
  shows "P (ft_symbol f) = Some (D (fa_price (ft_args f)))"
    and "\<exists>m. position_market_value (dvalues b) P (Some cfg) = Inr m"
    and "open_units (cash_exp cfg) (mark P (Some cfg)) (fr_position r) =
      coeff_at (ft_new_value f) (cash_exp cfg)"
    and "on_grid (cash_exp cfg) (ft_new_value f)"
proof -
  note ft = f [unfolded fill_trace_of_def]
  note q = fill_traceD [OF f]
  show P: "P (ft_symbol f) = Some (D (fa_price (ft_args f)))"
    using fill_book_ok [OF b f] q
    by (simp add: P_def book_prices_def as_prices_def last_validated_dget dict_simps)
  have sym: "pos_symbol (fr_position r) = ft_symbol f" using q(1) by (simp add: position_ok_def)
  have nv: "bnd (position_value (ft_position f) (D (fa_price (ft_args f)))) (\<lambda>v. cfg_money cfg (D v)) =
      Inr (ft_new_value f)" using ft by blast
  then show "on_grid (cash_exp cfg) (ft_new_value f)"
    by (auto simp: result_simps intro: cfg_money_on_grid)
  have "position_value (fr_position r) v = position_value (ft_position f) v" for v
    using ft by (simp add: position_value_def cong: if_cong)
  then have "bnd (position_value (fr_position r) (D (fa_price (ft_args f)))) (\<lambda>v. cfg_money cfg (D v)) =
      Inr (ft_new_value f)" using nv by simp
  then show "open_units (cash_exp cfg) (mark P (Some cfg)) (fr_position r) =
      coeff_at (ft_new_value f) (cash_exp cfg)"
    using q(1) P sym by (intro new_mark_units) (simp_all add: position_ok_def)
  have new: "\<forall>p \<in> set (dvalues (fr_positions r)). pos_is_open p \<longrightarrow> (\<exists>m. mark P (Some cfg) p = Inr m)"
    using fill_market_value [OF b f] market_value_returns [of "dvalues (fr_positions r)" P "Some cfg"]
    by (auto simp: P_def)
  have "\<exists>m. mark P (Some cfg) p = Inr m" if mem: "p \<in> set (dvalues b)" and op: "pos_is_open p" for p
  proof (cases "pos_symbol p = ft_symbol f")
    case True
    obtain s where s: "(s, p) \<in> set b" using mem by auto
    then have "dget b s = Some p" using b by (simp add: book_ok_def map_of_eq_Some_iff)
    moreover from this have "s = ft_symbol f" using book_ok_dget [OF b] True by (auto simp: position_ok_def)
    ultimately have "open_position b (PyStr (ft_symbol f)) = Some p"
      using op by (simp add: open_position_def)
    then show ?thesis
      using ft mark_at_price [of P p "fa_price (ft_args f)" cfg] P True
      by (auto simp: old_position_value_def)
  next
    case False
    obtain s where s: "(s, p) \<in> set b" using mem by auto
    then have "pos_symbol p = s" using b by (auto simp: book_ok_def position_ok_def)
    then have "(s, p) \<in> set (fr_positions r)"
      using b False s by (auto simp: q(2) book_ok_def dict_simps)
    then have "p \<in> set (dvalues (fr_positions r))" by force
    then show ?thesis using new op by blast
  qed
  then show "\<exists>m. position_market_value (dvalues b) P (Some cfg) = Inr m"
    by (simp only: market_value_returns) blast
qed

lemma fee_grid:
  assumes "fill_trace_of a b order quantity price fee cfg t rel r f"
  shows "on_grid (cash_exp cfg) (fa_fee (ft_args f))" "on_grid (cash_exp cfg) (fa_release (ft_args f))"
    "coeff_at (fa_fee (ft_args f)) (cash_exp cfg) = dcoeff (fr_fee r)" "0 \<le> dcoeff (fr_fee r)"
    "0 \<le> coeff_at (fa_release (ft_args f)) (cash_exp cfg)"
proof -
  have i: "fill_inputs order quantity price fee cfg rel = Inr (ft_args f)"
    and r: "fr_fee r = fa_fee (ft_args f)"
    using assms by (simp_all add: fill_trace_of_def)
  note j = fill_inputs_Inr [OF i]
  show "on_grid (cash_exp cfg) (fa_fee (ft_args f))" "on_grid (cash_exp cfg) (fa_release (ft_args f))"
    using j(6,8) by (blast intro: cfg_money_on_grid)+
  show "coeff_at (fa_fee (ft_args f)) (cash_exp cfg) = dcoeff (fr_fee r)" "0 \<le> dcoeff (fr_fee r)"
    using j(5) cfg_money_coeff [OF j(6)] by (simp_all add: r)
  show "0 \<le> coeff_at (fa_release (ft_args f)) (cash_exp cfg)"
    using j(7) cfg_money_coeff [OF j(8)] by simp
qed

text \<open>The values of the filled position are within the bound of the exposures.\<close>

lemma fill_limits:
  assumes b: "book_ok cfg b"
    and f: "fill_trace_of a b order quantity price fee cfg t rel r f"
    and ex0: "exposure cfg (book_prices (fr_positions r)) (dvalues b) < CASH_LIMIT"
    and ex1: "exposure cfg (book_prices (fr_positions r)) (dvalues (fr_positions r)) < CASH_LIMIT"
  defines "u \<equiv> open_units (cash_exp cfg) (mark (book_prices (fr_positions r)) (Some cfg))"
  shows "on_grid (cash_exp cfg) (ft_old_value f)"
    and "coeff_at (ft_old_value f) (cash_exp cfg) =
      (case dget b (ft_symbol f) of None \<Rightarrow> 0 | Some p \<Rightarrow> u p)"
    and "u (fr_position r) = coeff_at (ft_new_value f) (cash_exp cfg)"
    and "\<bar>coeff_at (ft_old_value f) (cash_exp cfg)\<bar> < CASH_LIMIT"
    and "\<bar>coeff_at (ft_new_value f) (cash_exp cfg)\<bar> < CASH_LIMIT"
proof -
  let ?s = "ft_symbol f" and ?e = "cash_exp cfg"
  note q = fill_traceD [OF f] and facts = fill_facts [OF b f]
  have ov: "old_position_value (open_position b (PyStr ?s)) (fa_price (ft_args f)) cfg =
      Inr (ft_old_value f)" using f unfolding fill_trace_of_def by blast
  note om = old_mark_units [of cfg b "book_prices (fr_positions r)" ?s, OF b facts(1) ov, folded u_def]
  show "on_grid ?e (ft_old_value f)"
    and "coeff_at (ft_old_value f) ?e = (case dget b ?s of None \<Rightarrow> 0 | Some p \<Rightarrow> u p)"
    by (rule om)+
  show nm: "u (fr_position r) = coeff_at (ft_new_value f) ?e" using facts(3) by (simp add: u_def)
  show "\<bar>coeff_at (ft_old_value f) ?e\<bar> < CASH_LIMIT"
  proof (cases "dget b ?s")
    case None
    then show ?thesis using om by (simp add: CASH_LIMIT_def)
  next
    case (Some p)
    then have "p \<in> set (dvalues b)" by (force dest: map_of_SomeD)
    then show ?thesis using exposure_member [of p "dvalues b" cfg "book_prices (fr_positions r)"]
        Some om ex0 by (simp add: u_def)
  qed
  have "fr_position r \<in> set (dvalues (fr_positions r))"
    using b by (auto simp: q(2) book_ok_def dict_simps image_iff)
  then show "\<bar>coeff_at (ft_new_value f) ?e\<bar> < CASH_LIMIT"
    using exposure_member [of "fr_position r" "dvalues (fr_positions r)" cfg
        "book_prices (fr_positions r)"] ex1 nm by (simp add: u_def)
qed

text \<open>The cash part, in units: what left the account is the fee and the change of the mark.\<close>

lemma fill_units:
  assumes b: "book_ok cfg b" and ok: "cash_ok cfg a"
    and f: "fill_trace_of a b order quantity price fee cfg t rel r f"
    and ex0: "exposure cfg (book_prices (fr_positions r)) (dvalues b) < CASH_LIMIT"
    and ex1: "exposure cfg (book_prices (fr_positions r)) (dvalues (fr_positions r)) < CASH_LIMIT"
    and fee: "dcoeff (fr_fee r) < CASH_LIMIT"
  defines "u \<equiv> open_units (cash_exp cfg) (mark (book_prices (fr_positions r)) (Some cfg))"
  shows "on_grid (cash_exp cfg) (acc_available (fr_account r))"
    and "on_grid (cash_exp cfg) (acc_locked (fr_account r))"
    and "avail_units cfg (fr_account r) = avail_units cfg a +
      coeff_at (fa_release (ft_args f)) (cash_exp cfg) -
      (coeff_at (ft_new_value f) (cash_exp cfg) - coeff_at (ft_old_value f) (cash_exp cfg)) -
      dcoeff (fr_fee r)"
    and "locked_units cfg (fr_account r) =
      locked_units cfg a - coeff_at (fa_release (ft_args f)) (cash_exp cfg)"
    and "coeff_at (fa_release (ft_args f)) (cash_exp cfg) \<le> locked_units cfg a"
    and "avail_units cfg (fr_account r) + locked_units cfg (fr_account r) +
        (\<Sum>p\<leftarrow>dvalues (fr_positions r). u p) =
      avail_units cfg a + locked_units cfg a + (\<Sum>p\<leftarrow>dvalues b. u p) - dcoeff (fr_fee r)"
    and "\<bar>avail_units cfg (fr_account r)\<bar> + \<bar>locked_units cfg (fr_account r)\<bar> < 10 * CASH_LIMIT"
proof -
  let ?s = "ft_symbol f" and ?e = "cash_exp cfg"
  note q = fill_traceD [OF f] and facts = fill_facts [OF b f] and fg = fee_grid [OF f]
    and lm = fill_limits [OF b f ex0 ex1, folded u_def]
  have fee_le: "\<bar>coeff_at (fa_fee (ft_args f)) ?e\<bar> < CASH_LIMIT" using fg fee by simp
  have fc: "fill_cash a (ft_args f) (ft_old_value f) (ft_new_value f) =
      Inr (acc_available (fr_account r), acc_locked (fr_account r))"
    using f unfolding fill_trace_of_def by blast
  note c = fill_cash_exact [OF ok fc lm(1) facts(4) fg(1,2) lm(4,5) fee_le fg(5)]
  show "on_grid ?e (acc_available (fr_account r))" "on_grid ?e (acc_locked (fr_account r))"
    by (rule c(1), rule c(2))
  show av: "avail_units cfg (fr_account r) = avail_units cfg a +
      coeff_at (fa_release (ft_args f)) ?e -
      (coeff_at (ft_new_value f) ?e - coeff_at (ft_old_value f) ?e) - dcoeff (fr_fee r)"
    and lk: "locked_units cfg (fr_account r) = locked_units cfg a - coeff_at (fa_release (ft_args f)) ?e"
    and "coeff_at (fa_release (ft_args f)) ?e \<le> locked_units cfg a"
    using c(3,4,5) fg(3) by (simp_all add: avail_units_def locked_units_def)
  have sums: "(\<Sum>p\<leftarrow>dvalues (fr_positions r). u p) = (\<Sum>p\<leftarrow>dvalues b. u p) +
      coeff_at (ft_new_value f) ?e - coeff_at (ft_old_value f) ?e"
    using sum_list_dset [of b u ?s "fr_position r"] b by (simp add: q(2) book_ok_def lm(2,3))
  show "avail_units cfg (fr_account r) + locked_units cfg (fr_account r) +
        (\<Sum>p\<leftarrow>dvalues (fr_positions r). u p) =
      avail_units cfg a + locked_units cfg a + (\<Sum>p\<leftarrow>dvalues b. u p) - dcoeff (fr_fee r)"
    using av lk sums by simp
  show "\<bar>avail_units cfg (fr_account r)\<bar> + \<bar>locked_units cfg (fr_account r)\<bar> < 10 * CASH_LIMIT"
    using av lk c(5) fg(3,5) lm(4,5) fee_le cash_okD [OF ok] by linarith
qed

text \<open>
  C1: a fill changes the total equity by exactly minus its fee, to the last
  digit and whichever of the five cases it is: opening, adding, closing in part or in full, and
  reversing through zero. Both equities are taken at the fill's price for the filled symbol and
  at the recorded price for every other one.
\<close>

theorem apply_fill_equity:
  assumes b: "book_ok cfg b" and ok: "cash_ok cfg a"
    and run: "apply_fill a b order quantity price fee cfg t rel = Inr r"
    and ex0: "exposure cfg (book_prices (fr_positions r)) (dvalues b) < CASH_LIMIT"
    and ex1: "exposure cfg (book_prices (fr_positions r)) (dvalues (fr_positions r)) < CASH_LIMIT"
    and fee: "dcoeff (fr_fee r) < CASH_LIMIT"
  shows "\<exists>before. total_equity a (dvalues b) (book_prices (fr_positions r)) (Some cfg) = Inr before \<and>
    dval (acc_total_equity (fr_account r)) = dval before - dval (fr_fee r)"
proof -
  let ?e = "cash_exp cfg" and ?P = "book_prices (fr_positions r)"
  obtain f where f: "fill_trace_of a b order quantity price fee cfg t rel r f"
    using apply_fill_trace [OF b run] .
  note u = fill_units [OF b ok f ex0 ex1 fee]
  obtain before where before: "total_equity a (dvalues b) ?P (Some cfg) = Inr before"
    using fill_facts(2) [OF b f] by (auto simp: total_equity_def)
  note e0 = total_equity_exact [OF ok ex0 before]
  have lim: "\<bar>coeff_at (acc_available (fr_account r)) ?e\<bar> + \<bar>coeff_at (acc_locked (fr_account r)) ?e\<bar> <
      10 * CASH_LIMIT" using u(7) by (simp add: avail_units_def locked_units_def)
  note e1 = equity_exact [OF u(1,2) lim fill_market_value [OF b f] ex1]
  have after: "acc_total_equity (fr_account r) = dec_add DECIMAL_PRECISION
      (dec_add DECIMAL_PRECISION (acc_available (fr_account r)) (acc_locked (fr_account r)))
      (fr_market_value r)" and fr: "fr_fee r = fa_fee (ft_args f)"
    using f by (simp_all add: fill_trace_of_def)
  have "coeff_at (acc_total_equity (fr_account r)) ?e = coeff_at before ?e - dcoeff (fr_fee r)"
    using u(6) e0(2) e1(2) by (simp add: after avail_units_def locked_units_def)
  then have "dval (acc_total_equity (fr_account r)) = dval before - dval (fr_fee r)"
    using grid_val [OF e1(1)] grid_val [OF e0(1)] grid_val [OF fee_grid(1) [OF f]] fee_grid(3) [OF f]
    by (simp add: after fr left_diff_distrib)
  with before show ?thesis by blast
qed


section \<open>The size and the closed trade of a fill\<close>

definition signed_size :: "position \<Rightarrow> rat" where
  "signed_size p = (if pos_side p = LONG then dval (pos_size p) else - dval (pos_size p))"

definition QTY_LIMIT :: int where
  "QTY_LIMIT = 10 ^ 33"

lemma LONG_SHORT [simp]: "LONG \<noteq> SHORT" "SHORT \<noteq> LONG"
  by (simp_all add: LONG_def SHORT_def)

lemma other_side: "a \<in> set SIDES \<Longrightarrow> b \<in> set SIDES \<Longrightarrow> a \<noteq> b \<Longrightarrow> (b = LONG) = (a \<noteq> LONG)"
  by (auto simp: SIDES_def)

text \<open>Quantity arithmetic at the quantity scale is exact.\<close>

lemma qty_exact:
  assumes "0 \<le> x" "x < QTY_LIMIT" "0 \<le> y" "y < QTY_LIMIT"
  shows "cfg_qty cfg (D (dec_add DECIMAL_PRECISION (Dec x (qty_exp cfg)) (Dec y (qty_exp cfg)))) =
      Inr (Dec (x + y) (qty_exp cfg))"
    and "cfg_qty cfg (D (dec_sub DECIMAL_PRECISION (Dec x (qty_exp cfg)) (Dec y (qty_exp cfg)))) =
      Inr (Dec (x - y) (qty_exp cfg))"
proof -
  have f: "fits DECIMAL_PRECISION (x + y)" "fits DECIMAL_PRECISION (x - y)"
    using assms by (simp_all add: fits_def QTY_LIMIT_def DECIMAL_PRECISION_def)
  show "cfg_qty cfg (D (dec_add DECIMAL_PRECISION (Dec x (qty_exp cfg)) (Dec y (qty_exp cfg)))) =
      Inr (Dec (x + y) (qty_exp cfg))"
    using f(1) by (simp add: dec_add_same cfg_qty_eq quantize_dec_Inr flip: qty_exp_def)
  show "cfg_qty cfg (D (dec_sub DECIMAL_PRECISION (Dec x (qty_exp cfg)) (Dec y (qty_exp cfg)))) =
      Inr (Dec (x - y) (qty_exp cfg))"
    using f(2) by (simp add: dec_sub_same cfg_qty_eq quantize_dec_Inr flip: qty_exp_def)
qed

text \<open>The size of the filled row, case by case: \<open>x\<close> open, \<open>y\<close> filled.\<close>

lemma accumulated_size:
  assumes "accumulated_position p args cfg t = Inr q"
    and "pos_size p = Dec x (qty_exp cfg)" "fa_qty args = Dec y (qty_exp cfg)"
    and "0 \<le> x" "x < QTY_LIMIT" "0 \<le> y" "y < QTY_LIMIT"
  shows "pos_size q = Dec (x + y) (qty_exp cfg)" "pos_side q = pos_side p"
  using assms qty_exact(1) [OF assms(4-7), of cfg]
  by (auto simp: accumulated_position_def result_simps mk_position_Inr)

lemma closing_size:
  assumes run: "closing_position p args cfg t = Inr (q, realized, trade)"
    and x: "pos_size p = Dec x (qty_exp cfg)" "0 \<le> x" "x < QTY_LIMIT"
    and y: "fa_qty args = Dec y (qty_exp cfg)" "0 \<le> y" "y < QTY_LIMIT"
  shows "pos_size q = Dec \<bar>x - y\<bar> (qty_exp cfg)"
    and "pos_side q = (if y \<le> x then pos_side p else fa_side args)"
    and "trade \<noteq> None \<longleftrightarrow> x \<le> y"
    and "trade = Some tr \<Longrightarrow> tr_quantity tr = Dec x (qty_exp cfg) \<and> tr_realized_pnl tr = realized \<and>
      tr_side tr = pos_side p \<and> tr_entry_price tr = pos_entry_price p \<and>
      tr_exit_price tr = fa_price args \<and> tr_fee tr = fa_fee args"
proof -
  have m: "dec_min (fa_qty args) (pos_size p) = Dec (min y x) (qty_exp cfg)"
    by (simp add: dec_min_def x(1) y(1) min_def)
  have d: "0 \<le> min y x" "min y x < QTY_LIMIT" using x y by auto
  note rem = qty_exact(2) [OF x(2,3) d, of cfg, folded x(1)]
  note sur = qty_exact(2) [OF y(2,3) x(2,3), of cfg, folded x(1) y(1)]
  note run' = run [unfolded closing_position_def Let_def m rem, simplified]
  show "pos_size q = Dec \<bar>x - y\<bar> (qty_exp cfg)"
    and "pos_side q = (if y \<le> x then pos_side p else fa_side args)"
    using run' sur x y
    by (auto simp: result_simps mk_position_Inr opened_position_Inr split: if_splits)
  show "trade \<noteq> None \<longleftrightarrow> x \<le> y"
    using run' x y by (auto simp: result_simps split: if_splits)
  show "trade = Some tr \<Longrightarrow> tr_quantity tr = Dec x (qty_exp cfg) \<and> tr_realized_pnl tr = realized \<and>
      tr_side tr = pos_side p \<and> tr_entry_price tr = pos_entry_price p \<and>
      tr_exit_price tr = fa_price args \<and> tr_fee tr = fa_fee args"
    using run' x y by (auto simp: result_simps split: if_splits)
qed

lemma fill_inputs_args:
  assumes "fill_inputs order quantity price fee cfg rel = Inr args"
  shows "cfg_qty cfg quantity = Inr (fa_qty args)" "cfg_price cfg price = Inr (fa_price args)"
    "\<exists>v. order ''side'' = Some v \<and> side_for_order v = Inr (fa_side args)"
  using assms by (auto simp: fill_inputs_def py_attr_def result_simps split: option.splits if_splits)

lemma open_size:
  assumes "book_ok cfg b" and "open_position b (PyStr s) = Some p"
  shows "pos_size p = Dec (dcoeff (pos_size p)) (qty_exp cfg)" "0 < dcoeff (pos_size p)"
    "pos_side p \<in> set SIDES" "dget b s = Some p"
proof -
  have d: "dget b s = Some p" and o: "pos_is_open p" using open_position_Some [OF assms(2)] by auto
  show "dget b s = Some p" by (rule d)
  have ok: "position_ok cfg s p" using book_ok_dget [OF assms(1) d] .
  then show "pos_side p \<in> set SIDES" by (simp add: position_ok_def)
  show "0 < dcoeff (pos_size p)" using o by (simp add: pos_is_open_def)
  show "pos_size p = Dec (dcoeff (pos_size p)) (qty_exp cfg)"
    using ok by (cases "pos_size p") (simp add: position_ok_def)
qed

text \<open>
  C11: with the side as a sign, a fill adds exactly its quantized quantity to the
  position: opening, accumulating, closing and reversing through zero are one addition.
\<close>

theorem apply_fill_size:
  assumes b: "book_ok cfg b"
    and run: "apply_fill a b order quantity price fee cfg t rel = Inr r"
    and sym: "order ''symbol'' = Some (PyStr s)"
    and side: "order ''side'' = Some v" "side_for_order v = Inr side"
    and q: "cfg_qty cfg quantity = Inr q" "dcoeff q < QTY_LIMIT"
    and lim: "\<And>p. open_position b (PyStr s) = Some p \<Longrightarrow> dcoeff (pos_size p) < QTY_LIMIT"
  shows "signed_size (fr_position r) =
    (case open_position b (PyStr s) of None \<Rightarrow> 0 | Some p \<Rightarrow> signed_size p) +
    (if side = LONG then dval q else - dval q)"
proof -
  obtain f where f: "fill_trace_of a b order quantity price fee cfg t rel r f"
    using apply_fill_trace [OF b run] .
  note ft = f [unfolded fill_trace_of_def]
  have inp: "fill_inputs order quantity price fee cfg rel = Inr (ft_args f)" using ft by blast
  have s: "ft_symbol f = s" using fill_inputs_symbol [OF inp] ft sym by simp
  have args: "fa_side (ft_args f) = side" "fa_qty (ft_args f) = q"
    using fill_inputs_args [OF inp] side q by auto
  have fp: "fill_position (open_position b (PyStr s)) (ft_args f) cfg t =
      Inr (ft_position f, fr_realized_pnl r, fr_closed_trade r)" using ft s by blast
  have pos: "pos_size (fr_position r) = pos_size (ft_position f)"
    "pos_side (fr_position r) = pos_side (ft_position f)" using ft by simp_all
  obtain y where y: "q = Dec y (qty_exp cfg)" "0 < y" "y < QTY_LIMIT"
    using fill_inputs_Inr(2) [OF inp] args cfg_qty_grid [OF q(1)] q(2) by metis
  have sd: "side \<in> set SIDES" using side_for_order_Inr [OF side(2)] .
  show ?thesis
  proof (cases "open_position b (PyStr s)")
    case None
    then show ?thesis using fp
      by (auto simp: fill_position_def result_simps opened_position_Inr signed_size_def pos args)
  next
    case (Some p)
    define x where "x = dcoeff (pos_size p)"
    have x: "pos_size p = Dec x (qty_exp cfg)" "0 < x" "x < QTY_LIMIT" "pos_side p \<in> set SIDES"
      using open_size [OF b Some] lim [OF Some] by (simp_all add: x_def)
    have ya: "fa_qty (ft_args f) = Dec y (qty_exp cfg)" by (simp add: args y)
    show ?thesis
    proof (cases "pos_side p = side")
      case True
      then have "accumulated_position p (ft_args f) cfg t = Inr (ft_position f)"
        using fp Some by (auto simp: fill_position_def result_simps args)
      from accumulated_size [OF this x(1) ya] x y True show ?thesis
        by (simp add: Some signed_size_def pos dval_Dec algebra_simps)
    next
      case False
      then have "closing_position p (ft_args f) cfg t =
          Inr (ft_position f, fr_realized_pnl r, fr_closed_trade r)"
        using fp Some by (simp add: fill_position_def args)
      note c = closing_size [OF this x(1) _ x(3) ya _ y(3)]
      show ?thesis
        using c(1,2) x y other_side [OF x(4) sd False] args
        by (auto simp: Some signed_size_def pos dval_Dec algebra_simps)
    qed
  qed
qed



section \<open>What a revaluation did\<close>

definition pnl_mark ::
  "(string \<rightharpoonup> pyval) \<Rightarrow> accounting_config option \<Rightarrow> position \<Rightarrow> paper_error + decimal" where
  "pnl_mark prices cfg p =
     bnd (price_for (pos_symbol p) prices) (\<lambda>price.
     bnd (position_unrealized_pnl p (D price)) (money_if cfg))"

lemma add_unrealized_pnl_open: "add_unrealized_pnl prices cfg = add_open (pnl_mark prices cfg)"
  by (intro ext) (simp add: add_unrealized_pnl_def add_open_def pnl_mark_def bnd_assoc)

text \<open>The row a revaluation leaves for a position.\<close>

definition revalued :: "(string \<rightharpoonup> pyval) \<Rightarrow> accounting_config \<Rightarrow> stamp option \<Rightarrow> position \<Rightarrow> position" where
  "revalued prices cfg price_at p =
     (if \<not> pos_is_open p then p\<lparr>pos_unrealized_pnl := Some dec_zero\<rparr>
      else case (price_for (pos_symbol p) prices, pnl_mark prices (Some cfg) p) of
        (Inr c, Inr u) \<Rightarrow> p\<lparr>pos_current_price := Some c, pos_unrealized_pnl := Some u,
          pos_price_at := (if price_at \<noteq> None then price_at else pos_price_at p)\<rparr>
      | _ \<Rightarrow> p)"

lemma revalued_keeps [simp]:
  "pos_symbol (revalued prices cfg t p) = pos_symbol p"
  "pos_side (revalued prices cfg t p) = pos_side p"
  "pos_size (revalued prices cfg t p) = pos_size p"
  "pos_entry_price (revalued prices cfg t p) = pos_entry_price p"
  "pos_closed_at (revalued prices cfg t p) = pos_closed_at p"
  by (simp_all add: revalued_def split: sum.splits)

lemma is_open_revalued [simp]: "pos_is_open (revalued prices cfg t p) = pos_is_open p"
  by (simp add: pos_is_open_def)

lemma mark_revalued [simp]: "mark prices c (revalued prices cfg t p) = mark prices c p"
  by (simp add: mark_def position_value_def cong: if_cong)

lemma revalue_position_Inr:
  assumes "revalue_position prices cfg t (R, mv, up) (s, p) = Inr (R', mv', up')"
  shows "R' = dset s (revalued prices cfg t p) R"
    and "add_open (mark prices (Some cfg)) mv p = Inr mv'"
    and "add_open (pnl_mark prices (Some cfg)) up p = Inr up'"
proof -
  have "R' = dset s (revalued prices cfg t p) R \<and> add_open (mark prices (Some cfg)) mv p = Inr mv' \<and>
    add_open (pnl_mark prices (Some cfg)) up p = Inr up'"
  proof (cases "pos_is_open p")
    case False
    then show ?thesis using assms
      by (auto simp: revalue_position_def result_simps mk_position_Inr revalued_def)
  next
    case True
    from assms True obtain c v u where
      "price_for (pos_symbol p) prices = Inr c"
      "bnd (position_value p (D c)) (\<lambda>v. cfg_money cfg (D v)) = Inr v"
      "bnd (position_unrealized_pnl p (D c)) (\<lambda>v. cfg_money cfg (D v)) = Inr u"
      "R' = dset s (p\<lparr>pos_current_price := Some c, pos_unrealized_pnl := Some u,
          pos_price_at := (if t \<noteq> None then t else pos_price_at p)\<rparr>) R"
      "mv' = dec_add DECIMAL_PRECISION mv v" "up' = dec_add DECIMAL_PRECISION up u"
      unfolding revalue_position_def prod.case not_not if_False simp_thms if_not_P
      by (fastforce simp: bnd_Inr_iff mk_position_Inr)
    then show ?thesis using True
      by (simp add: revalued_def mark_def pnl_mark_def money_if_Some)
  qed
  then show "R' = dset s (revalued prices cfg t p) R"
    and "add_open (mark prices (Some cfg)) mv p = Inr mv'"
    and "add_open (pnl_mark prices (Some cfg)) up p = Inr up'" by blast+
qed

lemma revalue_fold:
  assumes "foldm (revalue_position prices cfg t) (R, mv, up) b = Inr (R', mv', up')"
    and "dict_ok (R @ b)"
  shows "R' = R @ map (\<lambda>(s, p). (s, revalued prices cfg t p)) b \<and>
    foldm (add_open (mark prices (Some cfg))) mv (dvalues b) = Inr mv' \<and>
    foldm (add_open (pnl_mark prices (Some cfg))) up (dvalues b) = Inr up'"
  using assms
proof (induction b arbitrary: R mv up)
  case (Cons e b)
  obtain s p where e: "e = (s, p)" by (cases e)
  from Cons.prems(1) obtain R1 mv1 up1 where
    step: "revalue_position prices cfg t (R, mv, up) (s, p) = Inr (R1, mv1, up1)" and
    rest: "foldm (revalue_position prices cfg t) (R1, mv1, up1) b = Inr (R', mv', up')"
    by (auto simp: e bnd_Inr_iff)
  note st = revalue_position_Inr [OF step]
  have "dget R s = None" using Cons.prems(2) by (auto simp: e map_of_eq_None_iff)
  then have R1: "R1 = R @ [(s, revalued prices cfg t p)]" by (simp add: st(1) dset_absent)
  have "dict_ok (R1 @ b)" using Cons.prems(2) by (simp add: R1 e)
  from Cons.IH [OF rest this] show ?case by (simp add: R1 e st(2,3))
qed simp

text \<open>
  C13: a revaluation that returns moves no money and no quantity. It keeps the
  rows of the book in their order with their side, size and entry price, returns the market
  value and the unrealized profit of the book at the given prices, and leaves an account on
  which the invariants hold exactly at these prices.
\<close>

theorem recalculate_sound:
  assumes b: "book_ok cfg b" and run: "recalculate a b prices cfg t = Inr v"
    and nn: "0 \<le> dcoeff (acc_available a)" "0 \<le> dcoeff (acc_locked a)"
  shows "violated_invariant (val_account v) (dvalues (val_positions v)) prices (Some cfg) = Inr None \<and>
    (val_account v)\<lparr>acc_total_equity := acc_total_equity a\<rparr> = a \<and>
    position_market_value (dvalues b) prices (Some cfg) = Inr (val_market_value v) \<and>
    unrealized_pnl (dvalues b) prices (Some cfg) = Inr (val_unrealized_pnl v) \<and>
    map (\<lambda>(s, p). (s, pos_side p, pos_size p, pos_entry_price p)) (val_positions v) =
      map (\<lambda>(s, p). (s, pos_side p, pos_size p, pos_entry_price p)) b"
proof -
  from run obtain R mv up where
    fold: "foldm (revalue_position prices cfg t) ([], dec_zero, dec_zero) b = Inr (R, mv, up)" and
    v: "val_account v = a\<lparr>acc_total_equity := dec_add DECIMAL_PRECISION
        (dec_add DECIMAL_PRECISION (acc_available a) (acc_locked a)) mv\<rparr>"
      "val_positions v = R" "val_market_value v = mv" "val_unrealized_pnl v = up"
    by (auto simp: recalculate_def result_simps)
  have ok: "dict_ok ([] @ b)" using b by (simp add: book_ok_def)
  note r = revalue_fold [OF fold ok]
  have R: "dvalues R = map (revalued prices cfg t) (dvalues b)"
    "map (\<lambda>(s, p). (s, pos_side p, pos_size p, pos_entry_price p)) R =
      map (\<lambda>(s, p). (s, pos_side p, pos_size p, pos_entry_price p)) b"
    using r by auto
  have mv: "position_market_value (dvalues b) prices (Some cfg) = Inr mv"
    using r by (simp add: position_market_value_def add_market_value_open)
  then have "position_market_value (dvalues R) prices (Some cfg) = Inr mv"
    unfolding R position_market_value_def add_market_value_open
    by (subst foldm_map) (simp_all add: add_open_def)
  moreover have "bad_position (dvalues R) = None"
    using book_ok_positions [OF b] by (auto simp: R bad_position_None)
  ultimately have "violated_invariant (val_account v) (dvalues R) prices (Some cfg) = Inr None"
    using nn by (simp add: v violated_None total_equity_def dec_eq_def)
  then show ?thesis
    using mv r R by (simp add: v unrealized_pnl_def add_unrealized_pnl_open)
qed

end
