(* ===== verification/Paper_Laws.thy ===== *)
theory Paper_Laws
  imports Paper_Fill
begin

text \<open>
  The laws of the smaller operations of \<open>backend/paper/paper_accounting.py\<close>: the reservation of
  cash, the valuation of a book whose prices are incomplete, the checks of a configuration, and
  the averaged entry price.
\<close>

section \<open>Reserving cash\<close>

text \<open>A balance on the minor-unit grid compares with a quantized amount as the units do.\<close>

lemma money_units:
  assumes "cfg_money cfg v = Inr q"
  shows "dval q = of_int (dcoeff q) * 10 powi cash_exp cfg"
  using grid_val [OF cfg_money_on_grid [OF assms]] by (simp add: cfg_money_coeff [OF assms])

lemma balance_less:
  assumes ok: "cash_ok cfg a" and m: "cfg_money cfg v = Inr q"
  shows "dval (acc_available a) < dval q \<longleftrightarrow> avail_units cfg a < dcoeff q"
    and "dval (acc_locked a) < dval q \<longleftrightarrow> locked_units cfg a < dcoeff q"
    and "dval q < 0 \<longleftrightarrow> dcoeff q < 0"
  by (simp_all add: balance_val [OF ok] money_units [OF m] mult_less_0_iff)

text \<open>
  C14: reserving cash succeeds exactly for an amount that is not negative and not above
  the available balance, and otherwise names what was wrong. It moves the quantized amount from
  the available to the locked balance to the last digit, and releasing the same amount restores
  both balances.
\<close>

theorem lock_reserves:
  assumes ok: "cash_ok cfg a" and m: "cfg_money cfg amount = Inr q"
  shows "case lock a amount cfg of
      Inl e \<Rightarrow> (dval q < 0 \<and> e = InvalidQuantity) \<or>
        (0 \<le> dval q \<and> dval (acc_available a) < dval q \<and> e = InvariantViolation ''available_balance'')
    | Inr b \<Rightarrow> 0 \<le> dval q \<and> dval q \<le> dval (acc_available a) \<and> cash_ok cfg b \<and>
        dval (acc_available b) = dval (acc_available a) - dval q \<and>
        dval (acc_locked b) = dval (acc_locked a) + dval q \<and>
        acc_realized b = acc_realized a \<and> acc_total_equity b = acc_total_equity a \<and>
        (\<exists>c. unlock b amount cfg = Inr c \<and> dval (acc_available c) = dval (acc_available a) \<and>
          dval (acc_locked c) = dval (acc_locked a))"
proof (cases "0 \<le> dcoeff q \<and> dcoeff q \<le> avail_units cfg a")
  case True
  then obtain b where b: "lock a amount cfg = Inr b" "cash_ok cfg b"
    "avail_units cfg b = avail_units cfg a - dcoeff q"
    "locked_units cfg b = locked_units cfg a + dcoeff q"
    "acc_realized b = acc_realized a" "acc_total_equity b = acc_total_equity a"
    using lock_exact [OF ok m] by blast
  have "dcoeff q \<le> locked_units cfg b" using b(4) cash_okD(4) [OF ok] by simp
  then obtain c where c: "unlock b amount cfg = Inr c" "cash_ok cfg c"
    "avail_units cfg c = avail_units cfg a" "locked_units cfg c = locked_units cfg a"
    using unlock_exact [OF b(2) m] True b(3,4) by auto
  show ?thesis
    using True b c
    by (simp add: balance_val [OF ok] balance_val [OF b(2)] balance_val [OF c(2)] money_units [OF m]
        left_diff_distrib distrib_right)
next
  case False
  then show ?thesis
    using lock_refused [OF ok m] balance_less [OF ok m] by (auto simp: not_le not_less)
qed

text \<open>
  A release succeeds exactly for an amount that is not negative and not above the
  locked balance, so that more is never released than was reserved, and it returns the quantized
  amount to the available balance to the last digit.
\<close>

theorem unlock_releases:
  assumes ok: "cash_ok cfg a" and m: "cfg_money cfg amount = Inr q"
  shows "case unlock a amount cfg of
      Inl e \<Rightarrow> (dval q < 0 \<and> e = InvalidQuantity) \<or>
        (0 \<le> dval q \<and> dval (acc_locked a) < dval q \<and> e = InvariantViolation ''locked_balance'')
    | Inr b \<Rightarrow> 0 \<le> dval q \<and> dval q \<le> dval (acc_locked a) \<and> cash_ok cfg b \<and>
        dval (acc_available b) = dval (acc_available a) + dval q \<and>
        dval (acc_locked b) = dval (acc_locked a) - dval q \<and>
        acc_realized b = acc_realized a \<and> acc_total_equity b = acc_total_equity a"
proof (cases "0 \<le> dcoeff q \<and> dcoeff q \<le> locked_units cfg a")
  case True
  then obtain b where b: "unlock a amount cfg = Inr b" "cash_ok cfg b"
    "avail_units cfg b = avail_units cfg a + dcoeff q"
    "locked_units cfg b = locked_units cfg a - dcoeff q"
    "acc_realized b = acc_realized a" "acc_total_equity b = acc_total_equity a"
    using unlock_exact [OF ok m] by blast
  then show ?thesis
    using True by (simp add: balance_val [OF ok] balance_val [OF b(2)] money_units [OF m]
        left_diff_distrib distrib_right)
next
  case False
  then show ?thesis
    using unlock_refused [OF ok m] balance_less [OF ok m] by (auto simp: not_le not_less)
qed

section \<open>Incomplete prices\<close>

text \<open>A symbol with a usable price.\<close>

definition priced :: "(string \<rightharpoonup> pyval) \<Rightarrow> position \<Rightarrow> bool" where
  "priced prices p = (case prices (pos_symbol p) of None \<Rightarrow> False | Some v \<Rightarrow> v \<noteq> PyNone)"

lemma mark_unpriced: "\<not> priced prices p \<Longrightarrow> mark prices cfg p = Inl (StalePrice (pos_symbol p))"
  by (auto simp: priced_def mark_def price_for_def split: option.splits)

lemma mark_priced: "mark prices cfg p = Inr q \<Longrightarrow> priced prices p"
  using mark_unpriced [of prices p cfg] by fastforce

lemma marked_sum:
  "(\<Sum>p\<leftarrow>filter pos_is_open ps. case mark prices (Some cfg) p of Inl _ \<Rightarrow> 0 | Inr q \<Rightarrow> dval q) =
    of_int (\<Sum>p\<leftarrow>ps. open_units (cash_exp cfg) (mark prices (Some cfg)) p) * 10 powi cash_exp cfg"
  by (induction ps)
    (auto simp: open_units_def distrib_right grid_val [OF mark_on_grid] split: sum.splits)

lemma foldm_mark_priced:
  assumes "foldm (add_open (mark prices cfg)) acc ps = Inr t"
  shows "\<forall>p \<in> set ps. pos_is_open p \<longrightarrow> priced prices p"
  using assms
proof (induction ps arbitrary: acc)
  case (Cons p ps)
  then show ?case
    using mark_priced [of prices cfg p] by (cases "pos_is_open p") (auto simp: result_simps)
qed simp

lemma foldm_first_stale:
  assumes "foldm (add_open (mark prices cfg)) acc before = Inr t"
    and "pos_is_open p" "\<not> priced prices p"
  shows "foldm (add_open (mark prices cfg)) acc (before @ p # after) = Inl (StalePrice (pos_symbol p))"
  by (simp add: foldm_append assms mark_unpriced)

text \<open>
  A book is valued only when every open position has a price, never by
  leaving one out or taking a default. The value is then the exact sum of the quantized values
  of the open positions. A position without a price stops the valuation with its own symbol,
  when the positions before it could be valued, and a closed position needs no price.
\<close>

theorem market_value_complete:
  assumes ex: "exposure cfg prices ps < CASH_LIMIT"
  shows "(\<forall>mv. position_market_value ps prices (Some cfg) = Inr mv \<longrightarrow>
      (\<forall>p \<in> set ps. pos_is_open p \<longrightarrow> priced prices p) \<and>
      dval mv = (\<Sum>p\<leftarrow>filter pos_is_open ps.
        case mark prices (Some cfg) p of Inl _ \<Rightarrow> 0 | Inr q \<Rightarrow> dval q)) \<and>
    (\<forall>before p after. ps = before @ p # after \<and> pos_is_open p \<and> \<not> priced prices p \<and>
        (\<exists>t. position_market_value before prices (Some cfg) = Inr t) \<longrightarrow>
      position_market_value ps prices (Some cfg) = Inl (StalePrice (pos_symbol p)))"
proof (intro conjI allI impI; (elim conjE exE)?)
  fix mv assume run: "position_market_value ps prices (Some cfg) = Inr mv"
  show "\<forall>p \<in> set ps. pos_is_open p \<longrightarrow> priced prices p"
    using foldm_mark_priced run by (simp add: position_market_value_def add_market_value_open)
  have "0 < CASH_LIMIT" by (simp add: CASH_LIMIT_def)
  then have lim: "exposure cfg prices ps < 50 * CASH_LIMIT" using ex by linarith
  show "dval mv = (\<Sum>p\<leftarrow>filter pos_is_open ps.
      case mark prices (Some cfg) p of Inl _ \<Rightarrow> 0 | Inr q \<Rightarrow> dval q)"
    using market_value_exact [OF run lim] grid_val [of "cash_exp cfg" mv] by (simp add: marked_sum)
next
  fix before p after t
  assume "ps = before @ p # after" "pos_is_open p" "\<not> priced prices p"
    "position_market_value before prices (Some cfg) = Inr t"
  then show "position_market_value ps prices (Some cfg) = Inl (StalePrice (pos_symbol p))"
    by (simp add: position_market_value_def add_market_value_open foldm_first_stale)
qed

section \<open>The configuration\<close>

definition REQUIRED_KEYS :: "string list" where
  "REQUIRED_KEYS = [''fee_rate'', ''slippage_rate'', ''rounding_mode'', ''cost_basis'',
     ''price_precision'', ''quantity_precision'', ''minor_unit_exponent'']"

lemma require_key_Inr: "require_key c k = Inr v \<longleftrightarrow> c k = Some v \<and> v \<noteq> PyNone"
  by (auto simp: require_key_def split: option.splits)

text \<open>
  A session configuration is accepted only when it records every figure itself:
  no key is missing or \<open>None\<close> and nothing is defaulted. The two rates are the recorded ones and
  not negative, the rounding mode is a recognised one, the cost basis is the weighted average,
  and each precision is the one the payload records.
\<close>

theorem config_complete:
  assumes run: "from_session_config (Some c) = Inr cfg"
  shows "(\<forall>k \<in> set REQUIRED_KEYS. \<exists>v. c k = Some v \<and> v \<noteq> PyNone) \<and>
    map_option to_decimal (c ''fee_rate'') = Some (Inr (cfg_fee_rate cfg)) \<and>
    map_option to_decimal (c ''slippage_rate'') = Some (Inr (cfg_slippage_rate cfg)) \<and>
    0 \<le> dval (cfg_fee_rate cfg) \<and> 0 \<le> dval (cfg_slippage_rate cfg) \<and>
    map_option resolve_rounding (c ''rounding_mode'') = Some (Inr (cfg_rounding_mode cfg)) \<and>
    c ''cost_basis'' = Some (PyStr (cfg_cost_basis cfg)) \<and> cfg_cost_basis cfg = WEIGHTED_AVERAGE \<and>
    map_option places_of (c ''price_precision'') = Some (Inr (cfg_price_precision cfg)) \<and>
    map_option places_of (c ''quantity_precision'') = Some (Inr (cfg_quantity_precision cfg)) \<and>
    map_option places_of (c ''minor_unit_exponent'') = Some (Inr (cfg_minor_unit_exponent cfg))"
proof -
  have nn: "0 \<le> dval d \<longleftrightarrow> \<not> dec_lt d dec_zero" for d
    by (simp add: dec_lt_val not_less)
  show ?thesis
    using run
    by (auto simp: from_session_config_def make_accounting_config_def REQUIRED_KEYS_def nn
        result_simps require_key_Inr split: if_splits)
qed

section \<open>The averaged entry price\<close>

lemma dec_mul_exact: "fits DECIMAL_PRECISION (dcoeff a * dcoeff b) \<Longrightarrow>
    dec_mul DECIMAL_PRECISION a b = Dec (dcoeff a * dcoeff b) (dexp a + dexp b)"
  by (simp add: dec_mul_def dec_fix_fits)

text \<open>A mean of two grid prices lies between them, before and after rounding.\<close>

lemma mean_between:
  fixes s t x y :: int
  assumes "0 < s" "0 < t"
  shows "s * x + t * y \<le> (s + t) * max x y" "(s + t) * min x y \<le> s * x + t * y"
proof -
  have "s * x \<le> s * max x y" "t * y \<le> t * max x y" "s * min x y \<le> s * x" "t * min x y \<le> t * y"
    using assms by (simp_all add: mult_left_mono)
  then show "s * x + t * y \<le> (s + t) * max x y" "(s + t) * min x y \<le> s * x + t * y"
    by (simp_all add: distrib_right)
qed

lemma dval_quotient:
  "0 < m \<Longrightarrow> dval (Dec n (e + f)) / dval (Dec m e) \<le> dval (Dec k f) \<longleftrightarrow> n \<le> m * k"
  "0 < m \<Longrightarrow> dval (Dec k f) \<le> dval (Dec n (e + f)) / dval (Dec m e) \<longleftrightarrow> m * k \<le> n"
proof -
  assume m: "0 < m"
  have eq: "dval (Dec n (e + f)) / dval (Dec m e) = of_int n / of_int m * 10 powi f"
    using m by (simp add: dval_Dec power_int_add field_simps)
  have pm: "0 < (of_int m :: rat)" using m by simp
  show "dval (Dec n (e + f)) / dval (Dec m e) \<le> dval (Dec k f) \<longleftrightarrow> n \<le> m * k"
    "dval (Dec k f) \<le> dval (Dec n (e + f)) / dval (Dec m e) \<longleftrightarrow> m * k \<le> n"
    unfolding eq unfolding dval_Dec mult_le_cancel_right pos_divide_le_eq [OF pm] pos_le_divide_eq [OF pm]
    by (simp_all add: mult.commute flip: of_int_mult)
qed

text \<open>
  The entry price of a position that is added to lies between its old entry
  price and the price of the fill, after the rounding of the products, of the division and of
  the price scale. Sizes share the quantity scale and prices the price scale, and the cost of
  the position has at most as many digits as the context keeps.
\<close>

theorem entry_price_between:
  assumes run: "weighted_average_entry s x t y cfg = Inr q"
    and scale: "dexp s = dexp t" "dexp x = - int (cfg_price_precision cfg)" "dexp y = dexp x"
    and pos: "0 < dcoeff s" "0 < dcoeff t" "0 < dcoeff x" "0 < dcoeff y"
    and fit: "dcoeff s * dcoeff x + dcoeff t * dcoeff y < 10 ^ DECIMAL_PRECISION"
  shows "min (dval x) (dval y) \<le> dval q \<and> dval q \<le> max (dval x) (dval y) \<and> dexp q = dexp x"
proof -
  let ?s = "dcoeff s" and ?t = "dcoeff t" and ?x = "dcoeff x" and ?y = "dcoeff y"
  let ?e = "dexp s" and ?f = "- int (cfg_price_precision cfg)"
  define num where "num = Dec (?s * ?x + ?t * ?y) (?e + ?f)"
  define den where "den = Dec (?s + ?t) ?e"
  have p: "0 < ?s * ?x" "0 < ?t * ?y" using pos by simp_all
  have ge: "?s \<le> ?s * ?x" "?t \<le> ?t * ?y" "?x \<le> ?s * ?x" "?y \<le> ?t * ?y"
    using pos by (simp_all add: mult_le_cancel_left1 mult_le_cancel_right1)
  have f: "fits DECIMAL_PRECISION (?s * ?x)" "fits DECIMAL_PRECISION (?t * ?y)"
    "fits DECIMAL_PRECISION (?s * ?x + ?t * ?y)" "fits DECIMAL_PRECISION (?s + ?t)"
    "fits DECIMAL_PRECISION ?x" "fits DECIMAL_PRECISION ?y"
    using p ge pos fit unfolding fits_def by linarith+
  have sdec: "s = Dec ?s ?e" "t = Dec ?t ?e" using scale by (cases s, simp, cases t, simp)
  have den: "dec_add DECIMAL_PRECISION s t = den"
    unfolding den_def by (subst sdec(1), subst sdec(2)) (rule dec_add_same [OF prec_pos f(4)])
  have num: "dec_add DECIMAL_PRECISION (dec_mul DECIMAL_PRECISION s x) (dec_mul DECIMAL_PRECISION t y) = num"
    unfolding num_def dec_mul_exact [OF f(1)] dec_mul_exact [OF f(2)] scale(2,3)
    by (subst scale(1) [symmetric]) (rule dec_add_same [OF prec_pos f(3)])
  from run obtain d where d: "dec_div DECIMAL_PRECISION num den = Some d" and q: "cfg_price cfg (D d) = Inr q"
    by (auto simp: weighted_average_entry_def num den Let_def split: if_splits option.splits)
  have c: "0 \<le> dcoeff num" "0 < dcoeff den" using p pos by (simp_all add: num_def den_def)
  have bound: "dval num / dval den \<le> dval (Dec (max ?x ?y) ?f)"
    "dval (Dec (min ?x ?y) ?f) \<le> dval num / dval den"
    unfolding num_def den_def using pos
    by (simp_all only: dval_quotient mean_between add_pos_pos)
  have fm: "fits DECIMAL_PRECISION (dcoeff (Dec (max ?x ?y) ?f))" "fits DECIMAL_PRECISION (dcoeff (Dec (min ?x ?y) ?f))"
    using f(5,6) by (simp_all add: max_def min_def)
  have "dval d \<le> dval (Dec (max ?x ?y) ?f)" "dval (Dec (min ?x ?y) ?f) \<le> dval d"
    using dec_div_le [OF prec_pos c d fm(1) bound(1)] dec_div_ge [OF prec_pos c d fm(2) bound(2)] .
  then have "dval q \<le> dval (Dec (max ?x ?y) ?f)" "dval (Dec (min ?x ?y) ?f) \<le> dval q"
    using price.upper [OF q to_decimal_D] price.lower [OF q to_decimal_D] by blast+
  moreover have "dval (Dec (max ?x ?y) ?f) = max (dval x) (dval y)"
    "dval (Dec (min ?x ?y) ?f) = min (dval x) (dval y)"
    by (simp_all add: dval_Dec dval_def scale max_def min_def)
  ultimately show ?thesis using price.exponent [OF q] scale by simp
qed

end
