(* ===== verification/Paper_Metrics.thy ===== *)
theory Paper_Metrics
  imports Paper_Fill
begin

text \<open>
  The metrics of \<open>backend/paper/paper_accounting.py\<close>: maximum drawdown over the persisted equity
  series, win rate over the closed trades, margin usage, and the assembled metrics row in which
  a figure that does not exist is absent and not zero.
\<close>

definition FRACTION_QUANTUM :: decimal where
  "FRACTION_QUANTUM = Dec 1 (- 5)"

definition WIN_RATE_QUANTUM :: decimal where
  "WIN_RATE_QUANTUM = Dec 1 (- 5)"

definition DEFAULT_ROUNDING_MODE :: rounding where
  "DEFAULT_ROUNDING_MODE = ROUND_HALF_EVEN"

section \<open>Drawdown\<close>

record drawdown =
  dd_amount :: decimal
  dd_fraction :: decimal

text \<open>A snapshot: a row (a mapping), an object with the two attributes, or a bare value. In a row
  the equity may be missing.\<close>

datatype snapshot = SnapRow "pyval option" "stamp option" | SnapObject pyval "stamp option"
  | SnapBare pyval

definition snapshot_equity_and_time :: "snapshot \<Rightarrow> paper_error + (decimal \<times> stamp option)" where
  "snapshot_equity_and_time s =
     (case s of
        SnapRow e taken \<Rightarrow>
          (case e of None \<Rightarrow> Inl InvalidQuantity | Some v \<Rightarrow> bnd (to_decimal v) (\<lambda>d. Inr (d, taken)))
      | SnapObject v taken \<Rightarrow> bnd (to_decimal v) (\<lambda>d. Inr (d, taken))
      | SnapBare v \<Rightarrow> bnd (to_decimal v) (\<lambda>d. Inr (d, None)))"

text \<open>The reading loop, over the previous time.\<close>

fun read_equities :: "stamp option \<Rightarrow> snapshot list \<Rightarrow> paper_error + decimal list" where
  "read_equities previous [] = Inr []"
| "read_equities previous (s # ss) =
     bnd (snapshot_equity_and_time s) (\<lambda>(equity, taken_at).
       if (case (taken_at, previous) of (Some t, Some t') \<Rightarrow> t < t' | _ \<Rightarrow> False)
       then Inl SnapshotOrderError
       else
         bnd (read_equities (if taken_at \<noteq> None then taken_at else previous) ss) (\<lambda>es.
           Inr (equity # es)))"

text \<open>One iteration over \<open>(peak, amount, peak_at_trough)\<close>.\<close>

definition drawdown_step :: "decimal \<Rightarrow> decimal \<times> decimal \<times> decimal \<Rightarrow> decimal \<times> decimal \<times> decimal" where
  "drawdown_step equity st =
     (case st of (peak, amount, peak_at_trough) \<Rightarrow>
       let peak' = (if dec_lt peak equity then equity else peak);
           decline = dec_sub DECIMAL_PRECISION peak' equity
       in if dec_lt amount decline then (peak', decline, peak')
          else (peak', amount, peak_at_trough))"

definition drawdown_fraction :: "rounding \<Rightarrow> decimal \<Rightarrow> decimal \<Rightarrow> paper_error + decimal" where
  "drawdown_fraction m amount peak_at_trough =
     (case dec_div DECIMAL_PRECISION amount peak_at_trough of
        None \<Rightarrow> Inl PaperDecimalSignal
      | Some q \<Rightarrow>
          bnd (quantize_dec m (dexp FRACTION_QUANTUM) q) (\<lambda>f. Inr (dec_min f (dec_of_int 1))))"

definition drawdown_of :: "rounding \<Rightarrow> decimal list \<Rightarrow> paper_error + drawdown" where
  "drawdown_of m equities =
     (case equities of
        [] \<Rightarrow> Inr \<lparr>dd_amount = dec_zero, dd_fraction = dec_zero\<rparr>
      | e # es \<Rightarrow>
          (case fold drawdown_step es (e, dec_zero, e) of (_, amount, peak_at_trough) \<Rightarrow>
             if dec_le amount dec_zero then Inr \<lparr>dd_amount = dec_zero, dd_fraction = dec_zero\<rparr>
             else if dec_le peak_at_trough dec_zero then
               Inr \<lparr>dd_amount = amount, dd_fraction = dec_zero\<rparr>
             else
               bnd (drawdown_fraction m amount peak_at_trough) (\<lambda>f.
                 Inr \<lparr>dd_amount = amount, dd_fraction = f\<rparr>)))"

definition max_drawdown :: "snapshot list \<Rightarrow> paper_error + drawdown" where
  "max_drawdown series =
     (if length series < 2 then Inr \<lparr>dd_amount = dec_zero, dd_fraction = dec_zero\<rparr>
      else bnd (read_equities None series) (drawdown_of DEFAULT_ROUNDING_MODE))"

section \<open>Win rate and margin\<close>

text \<open>A closed trade is read through its attributes: its \<open>realized_pnl\<close> may be missing.\<close>

definition count_trade :: "nat \<times> nat \<Rightarrow> (string \<rightharpoonup> pyval) \<Rightarrow> paper_error + (nat \<times> nat)" where
  "count_trade st trade =
     (case st of (trades, wins) \<Rightarrow>
       bnd (bnd (py_attr trade ''realized_pnl'') to_decimal) (\<lambda>realized.
         Inr (Suc trades, if dec_lt dec_zero realized then Suc wins else wins)))"

definition win_rate :: "(string \<rightharpoonup> pyval) list \<Rightarrow> pyval \<Rightarrow> paper_error + decimal option" where
  "win_rate closed_trades mode =
     bnd (foldm count_trade (0, 0) closed_trades) (\<lambda>(trades, wins).
       if trades = 0 then Inr None
       else
         (case dec_div DECIMAL_PRECISION (dec_of_int (int wins)) (dec_of_int (int trades)) of
            None \<Rightarrow> Inl PaperDecimalSignal
          | Some q \<Rightarrow>
              bnd (resolve_rounding mode) (\<lambda>m.
              bnd (quantize_dec m (dexp WIN_RATE_QUANTUM) q) (\<lambda>r. Inr (Some r)))))"

definition margin_of ::
  "(string \<rightharpoonup> pyval) \<Rightarrow> accounting_config \<Rightarrow> position \<Rightarrow> paper_error + decimal" where
  "margin_of prices cfg p =
     bnd (price_for (pos_symbol p) prices) (\<lambda>price.
       cfg_money cfg (D (dec_mul DECIMAL_PRECISION (pos_size p) price)))"

definition margin_usage ::
  "position list \<Rightarrow> (string \<rightharpoonup> pyval) \<Rightarrow> accounting_config \<Rightarrow> paper_error + decimal option" where
  "margin_usage positions prices cfg =
     (if \<not> supports_margin cfg then Inr None
      else bnd (foldm (add_open (margin_of prices cfg)) dec_zero positions) (\<lambda>t. Inr (Some t)))"

section \<open>The metrics row\<close>

record session_metrics =
  sm_realized_pnl :: decimal
  sm_unrealized_pnl :: decimal
  sm_total_equity :: decimal
  sm_market_value :: decimal
  sm_drawdown_amount :: decimal
  sm_drawdown_fraction :: decimal
  sm_closed_trade_count :: nat
  sm_total_return_pct :: "decimal option"
  sm_win_rate :: "decimal option"
  sm_margin_usage :: "decimal option"
  sm_stale :: bool
  sm_price_at :: "stamp option"

definition return_pct :: "decimal \<Rightarrow> pyval \<Rightarrow> accounting_config \<Rightarrow> paper_error + decimal option" where
  "return_pct equity initial_capital cfg =
     (if initial_capital = PyNone then Inr None
      else
        bnd (to_decimal initial_capital) (\<lambda>capital.
          if \<not> dec_lt dec_zero capital then Inr None
          else
            (case dec_div DECIMAL_PRECISION (dec_sub DECIMAL_PRECISION equity capital) capital of
               None \<Rightarrow> Inl PaperDecimalSignal
             | Some q \<Rightarrow>
                 bnd (quantize_dec (cfg_rounding_mode cfg) (dexp FRACTION_QUANTUM)
                        (dec_mul DECIMAL_PRECISION q (dec_of_int 100))) (\<lambda>r. Inr (Some r)))))"

definition compute_metrics ::
  "account \<Rightarrow> book \<Rightarrow> (string \<rightharpoonup> pyval) \<Rightarrow> snapshot list \<Rightarrow> (string \<rightharpoonup> pyval) list \<Rightarrow>
    accounting_config \<Rightarrow> pyval \<Rightarrow> bool \<Rightarrow> stamp option \<Rightarrow> paper_error + session_metrics" where
  "compute_metrics a positions prices snapshots closed_trades cfg initial_capital stale price_at =
     bnd (position_market_value (dvalues positions) prices (Some cfg)) (\<lambda>market_value.
     bnd (unrealized_pnl (dvalues positions) prices (Some cfg)) (\<lambda>open_pnl.
     bnd (max_drawdown snapshots) (\<lambda>dd.
     bnd (return_pct (acc_total_equity a) initial_capital cfg) (\<lambda>pct.
     bnd (win_rate closed_trades (PyStr (rounding_name (cfg_rounding_mode cfg)))) (\<lambda>wr.
     bnd (margin_usage (dvalues positions) prices cfg) (\<lambda>margin.
       Inr \<lparr>sm_realized_pnl = acc_realized a, sm_unrealized_pnl = open_pnl,
            sm_total_equity = acc_total_equity a, sm_market_value = market_value,
            sm_drawdown_amount = dd_amount dd, sm_drawdown_fraction = dd_fraction dd,
            sm_closed_trade_count = length closed_trades, sm_total_return_pct = pct,
            sm_win_rate = wr, sm_margin_usage = margin, sm_stale = stale,
            sm_price_at = (if price_at \<noteq> None then price_at
                           else latest_price_at (dvalues positions))\<rparr>))))))"

text \<open>\<open>SessionMetrics.to_row\<close>: the row's entries in order; an absent figure has no key.\<close>

datatype cell = CellDec decimal | CellNat nat | CellBool bool | CellTime stamp

definition optional_cell :: "string \<Rightarrow> ('a \<Rightarrow> cell) \<Rightarrow> 'a option \<Rightarrow> (string \<times> cell) list" where
  "optional_cell k f v = (case v of None \<Rightarrow> [] | Some x \<Rightarrow> [(k, f x)])"

definition to_row :: "session_metrics \<Rightarrow> (string, cell) dict" where
  "to_row m =
     [(''realized_pnl'', CellDec (sm_realized_pnl m)),
      (''unrealized_pnl'', CellDec (sm_unrealized_pnl m)),
      (''total_equity'', CellDec (sm_total_equity m)),
      (''position_market_value'', CellDec (sm_market_value m)),
      (''max_drawdown_amount'', CellDec (sm_drawdown_amount m)),
      (''max_drawdown_fraction'', CellDec (sm_drawdown_fraction m)),
      (''closed_trade_count'', CellNat (sm_closed_trade_count m)),
      (''stale'', CellBool (sm_stale m))] @
     optional_cell ''total_return_pct'' CellDec (sm_total_return_pct m) @
     optional_cell ''win_rate'' CellDec (sm_win_rate m) @
     optional_cell ''margin_usage'' CellDec (sm_margin_usage m) @
     optional_cell ''price_at'' CellTime (sm_price_at m)"


section \<open>The drawdown is the largest decline\<close>

lemma read_equities_length: "read_equities prev ss = Inr es \<Longrightarrow> length es = length ss"
  by (induction ss arbitrary: prev es) (auto simp: result_simps split: if_splits)

text \<open>The state of the loop after the equities \<open>xs\<close>, read on a grid.\<close>

definition drawdown_inv :: "int \<Rightarrow> decimal list \<Rightarrow> decimal \<times> decimal \<times> decimal \<Rightarrow> bool" where
  "drawdown_inv g xs st \<longleftrightarrow>
     (case st of (peak, amount, peak_at_trough) \<Rightarrow>
       peak \<in> set xs \<and> (\<forall>x \<in> set xs. coeff_at x g \<le> coeff_at peak g) \<and>
       on_grid g amount \<and> 0 \<le> coeff_at amount g \<and>
       (\<forall>i j. i \<le> j \<longrightarrow> j < length xs \<longrightarrow> coeff_at (xs ! i) g - coeff_at (xs ! j) g \<le> coeff_at amount g) \<and>
       (coeff_at amount g = 0 \<or>
        (\<exists>i j. i < j \<and> j < length xs \<and> coeff_at amount g = coeff_at (xs ! i) g - coeff_at (xs ! j) g \<and>
           peak_at_trough = xs ! i)))"

lemma drawdown_invI:
  assumes "peak \<in> set xs" and "\<forall>x \<in> set xs. coeff_at x g \<le> coeff_at peak g"
    and "on_grid g amount" and "0 \<le> coeff_at amount g"
    and "\<forall>i j. i \<le> j \<longrightarrow> j < length xs \<longrightarrow> coeff_at (xs ! i) g - coeff_at (xs ! j) g \<le> coeff_at amount g"
    and "coeff_at amount g = 0 \<or>
      (\<exists>i j. i < j \<and> j < length xs \<and> coeff_at amount g = coeff_at (xs ! i) g - coeff_at (xs ! j) g \<and>
         pt = xs ! i)"
  shows "drawdown_inv g xs (peak, amount, pt)"
  unfolding drawdown_inv_def prod.case by (intro conjI assms)

definition on_bounded_grid :: "int \<Rightarrow> decimal list \<Rightarrow> bool" where
  "on_bounded_grid g xs \<longleftrightarrow> g \<le> 0 \<and> (\<forall>x \<in> set xs. on_grid g x \<and> \<bar>coeff_at x g\<bar> < CASH_LIMIT)"

lemma drawdown_step_inv:
  assumes inv: "drawdown_inv g xs (peak, amount, pt)" and grid: "on_bounded_grid g (xs @ [x])"
  shows "drawdown_inv g (xs @ [x]) (drawdown_step x (peak, amount, pt))"
proof -
  define u where "u = (\<lambda>d. coeff_at d g)"
  have pin: "peak \<in> set xs" and le: "\<forall>y \<in> set xs. u y \<le> u peak"
    and ag: "on_grid g amount" and nn: "0 \<le> u amount"
    and pairs: "\<forall>i j. i \<le> j \<longrightarrow> j < length xs \<longrightarrow> u (xs ! i) - u (xs ! j) \<le> u amount"
    and att: "u amount = 0 \<or> (\<exists>i j. i < j \<and> j < length xs \<and>
      u amount = u (xs ! i) - u (xs ! j) \<and> pt = xs ! i)"
    using inv unfolding drawdown_inv_def prod.case u_def by blast+
  have bound: "on_grid g y \<and> \<bar>u y\<bar> < CASH_LIMIT" if "y \<in> set (xs @ [x])" for y
    using grid that by (auto simp: on_bounded_grid_def u_def)
  define pk where "pk = (if dec_lt peak x then x else peak)"
  have pk: "pk \<in> set (xs @ [x])" using pin by (auto simp: pk_def)
  have peak: "on_grid g peak" "on_grid g x" using bound pin by simp_all
  have pku: "u pk = max (u peak) (u x)" using grid_lt [OF peak] by (simp add: pk_def u_def)
  have top: "\<forall>y \<in> set (xs @ [x]). u y \<le> u pk" using le pku by (auto simp: max_def)
  have f: "fits DECIMAL_PRECISION (coeff_at pk g - coeff_at x g)"
    by (rule fits_cash) (use bound [OF pk] bound [of x] in \<open>simp add: u_def\<close>, linarith)
  have pkg: "on_grid g pk" using bound [OF pk] by simp
  define dc where "dc = dec_sub DECIMAL_PRECISION pk x"
  have dc: "on_grid g dc" "u dc = u pk - u x"
    using grid_sub [OF prec_pos pkg peak(2) f] by (simp_all add: dc_def u_def)
  have step: "drawdown_step x (peak, amount, pt) =
      (if u amount < u dc then (pk, dc, pk) else (pk, amount, pt))"
    using grid_lt [OF ag dc(1)]
    by (simp add: drawdown_step_def Let_def pk_def [symmetric] dc_def [symmetric] u_def)
  have at: "(xs @ [x]) ! i = (if i = length xs then x else xs ! i)" if "i \<le> length xs" for i
    using that by (auto simp: nth_append)
  have new: "u ((xs @ [x]) ! i) - u ((xs @ [x]) ! j) \<le> max (u amount) (u dc)"
    if "i \<le> j" "j < length (xs @ [x])" for i j
  proof (cases "j = length xs")
    case True
    have "(xs @ [x]) ! i \<in> set (xs @ [x])" using that by (intro nth_mem) simp
    then have "u ((xs @ [x]) ! i) \<le> u pk" using top by blast
    then show ?thesis using True dc(2) by (simp add: max_def)
  next
    case False
    then have j: "j < length xs" using that by simp
    then have "u (xs ! i) - u (xs ! j) \<le> u amount" using pairs that(1) by blast
    then show ?thesis using j that(1) by (simp add: nth_append)
  qed
  show ?thesis
  proof (cases "u amount < u dc")
    case True
    have "u dc \<noteq> 0" using True nn by linarith
    then have "u x < u pk" using dc(2) top by force
    then have pp: "pk = peak" "u x < u peak" using pku by (auto simp: pk_def grid_lt [OF peak] u_def)
    then obtain i where i: "i < length xs" "peak = xs ! i" using pin by (metis in_set_conv_nth)
    have wit: "i < length xs \<and> length xs < length (xs @ [x]) \<and>
        u dc = u ((xs @ [x]) ! i) - u ((xs @ [x]) ! length xs) \<and> pk = (xs @ [x]) ! i"
      using i pp dc(2) by (simp add: nth_append)
    have nn: "0 \<le> u dc" using True nn by linarith
    have "\<forall>i j. i \<le> j \<longrightarrow> j < length (xs @ [x]) \<longrightarrow> u ((xs @ [x]) ! i) - u ((xs @ [x]) ! j) \<le> u dc"
      using new True by (metis max.absorb2 less_imp_le)
    note all = this
    have "u dc = 0 \<or> (\<exists>i j. i < j \<and> j < length (xs @ [x]) \<and>
        u dc = u ((xs @ [x]) ! i) - u ((xs @ [x]) ! j) \<and> pk = (xs @ [x]) ! i)"
      using wit by blast
    note att' = this
    show ?thesis unfolding step if_P [OF True]
      by (rule drawdown_invI [OF pk top [unfolded u_def] dc(1) nn [unfolded u_def]
            all [unfolded u_def] att' [unfolded u_def]])
  next
    case False
    have "\<forall>i j. i \<le> j \<longrightarrow> j < length (xs @ [x]) \<longrightarrow> u ((xs @ [x]) ! i) - u ((xs @ [x]) ! j) \<le> u amount"
      using new False by (metis max.absorb1 not_less)
    note all = this
    have "u amount = 0 \<or> (\<exists>i j. i < j \<and> j < length (xs @ [x]) \<and>
        u amount = u ((xs @ [x]) ! i) - u ((xs @ [x]) ! j) \<and> pt = (xs @ [x]) ! i)"
    proof (cases "u amount = 0")
      case False
      then obtain i j where "i < j" "j < length xs" "u amount = u (xs ! i) - u (xs ! j)" "pt = xs ! i"
        using att by blast
      then show ?thesis by (intro disjI2 exI [of _ i] exI [of _ j]) (simp add: nth_append)
    qed simp
    note att' = this
    show ?thesis unfolding step if_not_P [OF False]
      by (rule drawdown_invI [OF pk top [unfolded u_def] ag nn [unfolded u_def]
            all [unfolded u_def] att' [unfolded u_def]])
  qed
qed

lemma drawdown_fold_inv:
  "on_bounded_grid g (e # es) \<Longrightarrow> drawdown_inv g (e # es) (fold drawdown_step es (e, dec_zero, e))"
proof (induction es rule: rev_induct)
  case Nil
  then show ?case by (simp add: drawdown_inv_def on_bounded_grid_def)
next
  case (snoc x es)
  obtain pk am pt where st: "fold drawdown_step es (e, dec_zero, e) = (pk, am, pt)"
    using prod_cases3 by blast
  have "on_bounded_grid g (e # es)" using snoc.prems by (simp add: on_bounded_grid_def)
  then have "drawdown_inv g (e # es) (pk, am, pt)" using snoc.IH st by simp
  then show ?case using drawdown_step_inv [of g "e # es" pk am pt x] snoc.prems st by simp
qed

text \<open>The reported fraction is one, whatever was rounded on the way.\<close>

lemma drawdown_fraction_bounds:
  assumes "drawdown_fraction m amount peak = Inr f" and "0 < dcoeff amount" "0 < dcoeff peak"
  shows "0 \<le> dval f \<and> dval f \<le> 1"
proof -
  from assms(1) obtain q r where q: "dec_div DECIMAL_PRECISION amount peak = Some q"
    and r: "quantize_dec m (dexp FRACTION_QUANTUM) q = Inr r" and f: "f = dec_min r (dec_of_int 1)"
    by (auto simp: drawdown_fraction_def result_simps split: option.splits)
  have "0 \<le> dval amount / dval peak"
    using assms dval_pos_iff [of amount] dval_pos_iff [of peak] by simp
  then have "0 \<le> dval q"
    using dec_div_ge [OF prec_pos _ assms(3) q, of dec_zero] assms(2)
    by (simp add: dec_zero_def dval_Dec)
  then have "0 \<le> dval r"
    using r rescale_nonneg [of q m] by (auto simp: quantize_dec_Inr dval_Dec)
  moreover have "dval (dec_of_int 1) = 1" by (simp add: dec_of_int_def dval_Dec)
  ultimately show ?thesis by (simp add: f dec_min_val)
qed

lemma drawdown_of_fraction:
  assumes "drawdown_of m es = Inr dd"
  shows "0 \<le> dval (dd_fraction dd) \<and> dval (dd_fraction dd) \<le> 1"
proof (cases es)
  case Nil
  then show ?thesis using assms by (auto simp: drawdown_of_def)
next
  case (Cons e xs)
  obtain pk am pt where "fold drawdown_step xs (e, dec_zero, e) = (pk, am, pt)"
    using prod_cases3 by blast
  then show ?thesis using assms Cons drawdown_fraction_bounds
    by (fastforce simp: drawdown_of_def result_simps not_le split: if_splits)
qed

text \<open>
  C32: the reported maximum drawdown is the largest decline from an equity to
  a later one: no decline in the series exceeds it, and it is zero or the decline between two of
  its snapshots. Its fraction lies in the unit interval. The equities are multiples of one power
  of ten of bounded magnitude, as the persisted ones are.
\<close>

theorem max_drawdown_correct:
  assumes run: "max_drawdown series = Inr dd" and es: "read_equities None series = Inr es"
    and grid: "on_bounded_grid g es"
  shows "(\<forall>i j. i \<le> j \<and> j < length es \<longrightarrow> dval (es ! i) - dval (es ! j) \<le> dval (dd_amount dd)) \<and>
    (dval (dd_amount dd) = 0 \<or>
      (\<exists>i j. i < j \<and> j < length es \<and> dval (dd_amount dd) = dval (es ! i) - dval (es ! j))) \<and>
    0 \<le> dval (dd_fraction dd) \<and> dval (dd_fraction dd) \<le> 1"
proof (cases "length series < 2")
  case True
  then have short: "i = j" if "i \<le> j" "j < length es" for i j
    using that read_equities_length [OF es] by linarith
  have "dd = \<lparr>dd_amount = dec_zero, dd_fraction = dec_zero\<rparr>"
    using run True by (simp add: max_drawdown_def)
  then show ?thesis using short by fastforce
next
  case False
  have dd: "drawdown_of DEFAULT_ROUNDING_MODE es = Inr dd"
    using run es False by (simp add: max_drawdown_def)
  have frac: "0 \<le> dval (dd_fraction dd) \<and> dval (dd_fraction dd) \<le> 1"
    by (rule drawdown_of_fraction [OF dd])
  obtain e xs where xs: "es = e # xs" using False read_equities_length [OF es] by (cases es) auto
  obtain pk am pt where st: "fold drawdown_step xs (e, dec_zero, e) = (pk, am, pt)"
    using prod_cases3 by blast
  have inv: "drawdown_inv g es (pk, am, pt)"
    using drawdown_fold_inv [of g e xs] grid st by (simp add: xs)
  then have ag: "on_grid g am" and nn: "0 \<le> coeff_at am g" by (simp_all add: drawdown_inv_def)
  have amount: "dval (dd_amount dd) = dval am"
    using dd nn coeff_at_sign(1) [of am g] dval_0_iff [of am]
    by (auto simp: drawdown_of_def xs st result_simps split: if_splits)
  have val: "dval (es ! i) = of_int (coeff_at (es ! i) g) * 10 powi g" if "i < length es" for i
    using grid that grid_val [of g "es ! i"] by (simp add: on_bounded_grid_def)
  have diff: "dval (es ! i) - dval (es ! j) = of_int (coeff_at (es ! i) g - coeff_at (es ! j) g) * 10 powi g"
    if "i \<le> j" "j < length es" for i j
    using val [of i] val [of j] that by (simp add: left_diff_distrib)
  have le: "dval (es ! i) - dval (es ! j) \<le> dval am" if "i \<le> j" "j < length es" for i j
  proof -
    have "coeff_at (es ! i) g - coeff_at (es ! j) g \<le> coeff_at am g"
      using inv that by (auto simp: drawdown_inv_def)
    then have "(of_int (coeff_at (es ! i) g - coeff_at (es ! j) g) :: rat) \<le> of_int (coeff_at am g)"
      by (simp only: of_int_le_iff)
    then show ?thesis unfolding diff [OF that] grid_val [OF ag]
      by (rule mult_right_mono) (simp add: less_imp_le)
  qed
  have att: "dval am = 0 \<or> (\<exists>i j. i < j \<and> j < length es \<and> dval am = dval (es ! i) - dval (es ! j))"
  proof (cases "coeff_at am g = 0")
    case True
    then show ?thesis by (simp add: grid_val [OF ag])
  next
    case False
    then obtain i j where ij: "i < j" "j < length es"
      "coeff_at am g = coeff_at (es ! i) g - coeff_at (es ! j) g"
      using inv by (auto simp: drawdown_inv_def)
    then have "dval am = dval (es ! i) - dval (es ! j)"
      using diff [of i j] by (simp add: grid_val [OF ag])
    then show ?thesis using ij by blast
  qed
  show ?thesis using le att frac by (simp add: amount)
qed


section \<open>Win rate\<close>

definition is_winning :: "(string \<rightharpoonup> pyval) \<Rightarrow> bool" where
  "is_winning trade =
     (case bnd (py_attr trade ''realized_pnl'') to_decimal of
        Inl _ \<Rightarrow> False
      | Inr realized \<Rightarrow> dec_lt dec_zero realized)"

lemma count_trades:
  "foldm count_trade (n, w) ts = Inr (n', w') \<Longrightarrow>
    n' = n + length ts \<and> w' = w + length (filter is_winning ts)"
proof (induction ts arbitrary: n w)
  case (Cons t ts)
  then show ?case
    by (auto simp: count_trade_def is_winning_def result_simps split: if_splits) fastforce+
qed simp

text \<open>A quotient of two counts, rounded, stays between the bounds it had.\<close>

lemma rate_bounds:
  assumes n: "0 < n" and w: "w \<le> n"
    and q: "dec_div DECIMAL_PRECISION (dec_of_int (int w)) (dec_of_int (int n)) = Some q"
    and r: "quantize_dec m (dexp WIN_RATE_QUANTUM) q = Inr r"
  shows "0 \<le> dval r \<and> dval r \<le> 1 \<and> (w = n \<longrightarrow> dval r = 1) \<and> (w = 0 \<longrightarrow> dval r = 0)"
proof -
  let ?a = "dec_of_int (int w)" and ?b = "dec_of_int (int n)"
  have val: "dval ?a / dval ?b = of_nat w / of_nat n" by (simp add: dec_of_int_def dval_Dec)
  have sgn: "0 \<le> dcoeff ?a" "0 < dcoeff ?b" using n by (simp_all add: dec_of_int_def)
  have one: "fits DECIMAL_PRECISION (dcoeff (dec_of_int 1))"
    and zero: "fits DECIMAL_PRECISION (dcoeff dec_zero)"
    by (simp_all add: fits_def dec_of_int_def dec_zero_def DECIMAL_PRECISION_def)
  have d1: "dval (dec_of_int 1) = 1" by (simp add: dec_of_int_def dval_Dec)
  have le: "dval q \<le> 1"
    using dec_div_le [OF prec_pos sgn q one] w n by (simp add: val d1)
  have ge: "0 \<le> dval q"
    using dec_div_ge [OF prec_pos sgn q zero] by (simp add: val)
  have top: "1 \<le> dval q" if "w = n"
  proof -
    have "dval ?a / dval ?b = 1" unfolding val using that n by simp
    then show ?thesis using dec_div_ge [OF prec_pos sgn q one] by (simp add: d1)
  qed
  have bot: "dval q \<le> 0" if "w = 0"
  proof -
    have "dval ?a / dval ?b \<le> dval dec_zero" unfolding val using that by simp
    then have "dval q \<le> dval dec_zero" by (rule dec_div_le [OF prec_pos sgn q zero])
    then show ?thesis by simp
  qed
  have e: "(10::rat) powi (- 5) = 1 / 100000" by (simp add: power_int_def power_divide)
  have rv: "dval r = of_int (rescale m q (- 5)) / 100000"
    using r by (auto simp: quantize_dec_Inr WIN_RATE_QUANTUM_def dval_Dec e)
  have r1: "rescale m q (- 5) \<le> 100000" using rescale_le [of q 100000 "- 5" m] le by (simp add: e)
  have r0: "0 \<le> rescale m q (- 5)" by (rule rescale_nonneg [OF ge])
  have "w = n \<Longrightarrow> 100000 \<le> rescale m q (- 5)"
    using rescale_ge [of 100000 "- 5" q m] top by (simp add: e)
  moreover have "w = 0 \<Longrightarrow> rescale m q (- 5) \<le> 0"
    using rescale_le [of q 0 "- 5" m] bot by simp
  ultimately show ?thesis using r0 r1 by (auto simp: rv)
qed

text \<open>
  The win rate is absent exactly when no trade closed; otherwise it lies in
  the unit interval under every rounding mode, is one when every closed trade made money, and is
  zero when none did.
\<close>

theorem win_rate_correct:
  assumes run: "win_rate trades mode = Inr w"
  shows "(w = None \<longleftrightarrow> trades = []) \<and>
    (\<forall>r. w = Some r \<longrightarrow> 0 \<le> dval r \<and> dval r \<le> 1 \<and>
      ((\<forall>t \<in> set trades. is_winning t) \<longrightarrow> dval r = 1) \<and>
      ((\<forall>t \<in> set trades. \<not> is_winning t) \<longrightarrow> dval r = 0))"
proof -
  from run obtain n k where fold: "foldm count_trade (0, 0) trades = Inr (n, k)"
    and rest: "(if n = 0 then Inr None
       else
         (case dec_div DECIMAL_PRECISION (dec_of_int (int k)) (dec_of_int (int n)) of
            None \<Rightarrow> Inl PaperDecimalSignal
          | Some q \<Rightarrow>
              bnd (resolve_rounding mode) (\<lambda>m.
              bnd (quantize_dec m (dexp WIN_RATE_QUANTUM) q) (\<lambda>r. Inr (Some r))))) = Inr w"
    unfolding win_rate_def bnd_Inr_iff split_paired_Ex prod.case by blast
  have n: "n = length trades" and k: "k = length (filter is_winning trades)"
    using count_trades [OF fold] by simp_all
  show ?thesis
  proof (cases "trades = []")
    case True
    then show ?thesis using rest n by simp
  next
    case False
    then have pos: "0 < n" by (simp add: n)
    from rest pos obtain q m r where
      q: "dec_div DECIMAL_PRECISION (dec_of_int (int k)) (dec_of_int (int n)) = Some q" and
      r: "quantize_dec m (dexp WIN_RATE_QUANTUM) q = Inr r" and w: "w = Some r"
      by (auto simp: result_simps split: option.splits)
    have "k \<le> n" by (simp add: n k)
    note b = rate_bounds [OF pos this q r]
    have "k = n" if "\<forall>t \<in> set trades. is_winning t" using that by (simp add: n k)
    moreover have "k = 0" if "\<forall>t \<in> set trades. \<not> is_winning t" using that by (simp add: k filter_False)
    ultimately show ?thesis using b w False by auto
  qed
qed

section \<open>The row\<close>

lemma dget_optional [simp]:
  "dget (optional_cell k f v @ d) k' =
     (if k = k' \<and> v \<noteq> None then map_option f v else dget d k')"
  "dget (optional_cell k f v) k' = (if k = k' then map_option f v else None)"
  by (cases v; simp add: optional_cell_def)+

lemma keys_optional [simp]: "map fst (optional_cell k f v) = (if v = None then [] else [k])"
  by (cases v) (simp_all add: optional_cell_def)

lemma to_row_get:
  "dget (to_row m) ''win_rate'' = map_option CellDec (sm_win_rate m)"
  "dget (to_row m) ''margin_usage'' = map_option CellDec (sm_margin_usage m)"
  "dget (to_row m) ''total_return_pct'' = map_option CellDec (sm_total_return_pct m)"
  "dget (to_row m) ''total_equity'' = Some (CellDec (sm_total_equity m))"
  by (simp_all add: to_row_def map_add_def split: option.splits)

lemma to_row_ok: "dict_ok (to_row m)"
  by (simp add: to_row_def)

text \<open>
  The assembled row has no key for a figure that does not exist, and never a
  zero in its place: no win rate without a closed trade, no margin usage on a market without
  margin, no return without positive initial capital. Every key occurs once.
\<close>

theorem absent_figures:
  assumes run: "compute_metrics a b prices snaps trades cfg capital stale t = Inr m"
  shows "dict_ok (to_row m) \<and>
    (dget (to_row m) ''win_rate'' = None \<longleftrightarrow> trades = []) \<and>
    (dget (to_row m) ''margin_usage'' = None \<longleftrightarrow> \<not> supports_margin cfg) \<and>
    (dget (to_row m) ''total_return_pct'' = None \<longleftrightarrow>
      capital = PyNone \<or> (\<exists>c. to_decimal capital = Inr c \<and> dval c \<le> 0)) \<and>
    dget (to_row m) ''total_equity'' = Some (CellDec (acc_total_equity a))"
proof -
  from run obtain dd where
    pct: "return_pct (acc_total_equity a) capital cfg = Inr (sm_total_return_pct m)" and
    wr: "win_rate trades (PyStr (rounding_name (cfg_rounding_mode cfg))) = Inr (sm_win_rate m)" and
    mg: "margin_usage (dvalues b) prices cfg = Inr (sm_margin_usage m)" and
    eq: "sm_total_equity m = acc_total_equity a"
    by (auto simp: compute_metrics_def result_simps)
  have w: "sm_win_rate m = None \<longleftrightarrow> trades = []"
    using wr by (auto simp: win_rate_def result_simps dest: count_trades split: if_splits option.splits)
  have g: "sm_margin_usage m = None \<longleftrightarrow> \<not> supports_margin cfg"
    using mg by (auto simp: margin_usage_def bnd_Inr_iff dest: sym split: if_splits)
  have c: "sm_total_return_pct m = None \<longleftrightarrow>
      capital = PyNone \<or> (\<exists>c. to_decimal capital = Inr c \<and> dval c \<le> 0)"
    using pct by (auto simp: return_pct_def result_simps to_decimal_def dec_lt_val
        split: if_splits option.splits)
  show ?thesis using w g c by (simp add: to_row_get to_row_ok eq)
qed

end
