(* ===== verification/Transition_Table.thy ===== *)
theory Transition_Table
  imports Py_Values
begin

text \<open>
  What the program's transition-table state machines share: the depth-first closure the code
  computes over a table, paths through a table, writes guarded by a transition gate, and the
  contract (a gate, a terminal test and a table that agree) as a locale with its consequences.
\<close>

section \<open>The closure of a table\<close>

text \<open>
  \<open>_reachable_from\<close> of \<open>paper_order_state.py\<close>: a stack of states to expand (its top is the head
  here) and the dictionary of the states seen. \<open>visit\<close> is the inner loop over one state's
  targets.
\<close>

fun visit :: "'s list \<Rightarrow> 's list \<Rightarrow> 's list \<Rightarrow> 's list \<times> 's list" where
  "visit seen fr [] = (seen, fr)"
| "visit seen fr (t # ts) =
     (if t \<in> set seen then visit seen fr ts else visit (seen @ [t]) (t # fr) ts)"

lemma visit_seen: "set (fst (visit seen fr ts)) = set seen \<union> set ts"
  by (induction seen fr ts rule: visit.induct) auto

lemma visit_frontier: "set (snd (visit seen fr ts)) = set fr \<union> (set ts - set seen)"
  by (induction seen fr ts rule: visit.induct) auto

lemma visit_known: "set ts \<subseteq> set seen \<Longrightarrow> visit seen fr ts = (seen, fr)"
  by (induction seen fr ts rule: visit.induct) auto

function reach_loop :: "('s::finite \<Rightarrow> 's list) \<Rightarrow> 's list \<Rightarrow> 's list \<Rightarrow> 's list" where
  "reach_loop tg seen [] = seen"
| "reach_loop tg seen (s # fr) = (let (seen', fr') = visit seen fr (tg s) in reach_loop tg seen' fr')"
  by pat_completeness auto
termination
proof (relation "measures [\<lambda>(tg, seen, fr). card (UNIV - set seen), \<lambda>(tg, seen, fr). length fr]")
  show "wf (measures [\<lambda>(tg, seen, fr). card (UNIV - set seen :: 's::finite set),
      \<lambda>(tg, seen, fr). length fr])" by simp
next
  fix tg :: "'s::finite \<Rightarrow> 's list" and seen s fr x seen' fr'
  assume x: "x = visit seen fr (tg s)" and p: "(seen', fr') = x"
  have sn: "set seen' = set seen \<union> set (tg s)"
    using visit_seen [of seen fr "tg s"] x p by (metis fst_conv)
  show "((tg, seen', fr'), tg, seen, s # fr) \<in>
      measures [\<lambda>(tg, seen, fr). card (UNIV - set seen), \<lambda>(tg, seen, fr). length fr]"
  proof (cases "set (tg s) \<subseteq> set seen")
    case True
    then show ?thesis using visit_known [OF True, of fr] x p by simp
  next
    case False
    then have "card (UNIV - set seen') < card (UNIV - set seen)"
      using sn by (intro psubset_card_mono) auto
    then show ?thesis by simp
  qed
qed

definition reachable_from :: "('s::finite \<Rightarrow> 's list) \<Rightarrow> 's \<Rightarrow> 's list" where
  "reachable_from tg origin = reach_loop tg [origin] [origin]"

abbreviation edge :: "('s \<Rightarrow> 's list) \<Rightarrow> 's \<Rightarrow> 's \<Rightarrow> bool" where
  "edge tg a b \<equiv> b \<in> set (tg a)"

lemma reach_loop_sound:
  assumes "\<forall>s \<in> set seen. (edge tg)\<^sup>*\<^sup>* o0 s" and "set fr \<subseteq> set seen"
  shows "\<forall>s \<in> set (reach_loop tg seen fr). (edge tg)\<^sup>*\<^sup>* o0 s"
  using assms
proof (induction tg seen fr rule: reach_loop.induct)
  case (1 tg seen)
  then show ?case by simp
next
  case (2 tg seen s fr)
  obtain seen' fr' where v: "visit seen fr (tg s) = (seen', fr')" by (cases "visit seen fr (tg s)")
  note sets = visit_seen [of seen fr "tg s", unfolded v fst_conv]
    visit_frontier [of seen fr "tg s", unfolded v snd_conv]
  have "\<forall>x \<in> set seen'. (edge tg)\<^sup>*\<^sup>* o0 x"
    using 2(2,3) by (auto simp: sets intro: rtranclp.rtrancl_into_rtrancl)
  moreover have "set fr' \<subseteq> set seen'"
    using 2(3) by (auto simp: sets)
  ultimately show ?case using "2.IH" [OF refl v [symmetric]] by (simp add: v)
qed

lemma reach_loop_closed:
  assumes "\<forall>s \<in> set seen - set fr. set (tg s) \<subseteq> set seen" and "set fr \<subseteq> set seen"
  shows "set seen \<subseteq> set (reach_loop tg seen fr) \<and>
    (\<forall>s \<in> set (reach_loop tg seen fr). set (tg s) \<subseteq> set (reach_loop tg seen fr))"
  using assms
proof (induction tg seen fr rule: reach_loop.induct)
  case (1 tg seen)
  then show ?case by simp
next
  case (2 tg seen s fr)
  obtain seen' fr' where v: "visit seen fr (tg s) = (seen', fr')" by (cases "visit seen fr (tg s)")
  note sets = visit_seen [of seen fr "tg s", unfolded v fst_conv]
    visit_frontier [of seen fr "tg s", unfolded v snd_conv]
  have "\<forall>x \<in> set seen' - set fr'. set (tg x) \<subseteq> set seen'"
    using 2(2,3) by (auto simp: sets)
  moreover have "set fr' \<subseteq> set seen'"
    using 2(3) by (auto simp: sets)
  ultimately show ?case using "2.IH" [OF refl v [symmetric]] sets(1) by (simp add: v)
qed

lemma reachable_from_iff: "t \<in> set (reachable_from tg s) \<longleftrightarrow> (edge tg)\<^sup>*\<^sup>* s t"
proof
  assume "t \<in> set (reachable_from tg s)"
  then show "(edge tg)\<^sup>*\<^sup>* s t"
    using reach_loop_sound [of "[s]" tg s "[s]"] unfolding reachable_from_def
    by (simp del: reach_loop.simps)
next
  have cl: "s \<in> set (reachable_from tg s)"
    "\<And>x. x \<in> set (reachable_from tg s) \<Longrightarrow> set (tg x) \<subseteq> set (reachable_from tg s)"
    using reach_loop_closed [of "[s]" "[s]" tg] unfolding reachable_from_def by (simp del: reach_loop.simps)+
  assume "(edge tg)\<^sup>*\<^sup>* s t"
  then show "t \<in> set (reachable_from tg s)"
    by (induction rule: rtranclp_induct) (use cl in blast)+
qed

section \<open>Paths\<close>

fun path :: "('s \<Rightarrow> 's \<Rightarrow> bool) \<Rightarrow> 's \<Rightarrow> 's list \<Rightarrow> bool" where
  "path can s [] = True"
| "path can s (t # ts) = (can s t \<and> path can t ts)"

lemma path_reaches: "path can s ts \<Longrightarrow> can\<^sup>*\<^sup>* s (last (s # ts))"
  by (induction ts arbitrary: s) (auto intro: converse_rtranclp_into_rtranclp)

text \<open>
  A cut: when the closure of the table without the edges into \<open>a\<close> does not hold \<open>b\<close>, every path
  to \<open>b\<close> passes \<open>a\<close>.
\<close>

definition avoiding :: "'s \<Rightarrow> ('s \<Rightarrow> 's list) \<Rightarrow> 's \<Rightarrow> 's list" where
  "avoiding a tg s = filter (\<lambda>t. t \<noteq> a) (tg s)"

lemma path_avoiding: "path (edge tg) s ts \<Longrightarrow> a \<notin> set ts \<Longrightarrow> path (edge (avoiding a tg)) s ts"
  by (induction ts arbitrary: s) (auto simp: avoiding_def)

lemma path_through_cut:
  assumes "b \<notin> set (reachable_from (avoiding a tg) s)" and "path (edge tg) s ts" and "last (s # ts) = b"
  shows "a \<in> set ts"
proof (rule ccontr)
  assume "a \<notin> set ts"
  then have "(edge (avoiding a tg))\<^sup>*\<^sup>* s (last (s # ts))"
    by (intro path_reaches path_avoiding assms(2))
  then show False using assms(1,3) by (simp add: reachable_from_iff)
qed

section \<open>The contract of a table-driven state machine\<close>

text \<open>A stored state changed only through the gate: a refused write leaves it as it was.\<close>

fun guarded_run :: "('s \<Rightarrow> 's \<Rightarrow> bool) \<Rightarrow> 's \<Rightarrow> 's list \<Rightarrow> 's" where
  "guarded_run can s [] = s"
| "guarded_run can s (t # ts) = guarded_run can (if can s t then t else s) ts"

locale lifecycle =
  fixes tg :: "'s::finite \<Rightarrow> 's list"
    and can :: "'s \<Rightarrow> 's \<Rightarrow> bool"
    and terminal :: "'s \<Rightarrow> bool"
  assumes can_iff: "can a b \<longleftrightarrow> b \<in> set (tg a)"
    and terminal_iff: "terminal a \<longleftrightarrow> tg a = []"
begin

lemma can_edge: "can = edge tg"
  by (simp add: can_iff fun_eq_iff)

lemma terminal_stuck: "terminal a \<Longrightarrow> \<not> can a b"
  by (simp add: can_iff terminal_iff)

lemma run_terminal: "terminal s \<Longrightarrow> guarded_run can s ts = s"
  by (induction ts) (simp_all add: terminal_stuck)

lemma run_reachable: "guarded_run can s ts \<in> set (reachable_from tg s)"
proof -
  have "can\<^sup>*\<^sup>* s (guarded_run can s ts)"
    by (induction ts arbitrary: s) (auto intro: converse_rtranclp_into_rtranclp)
  then show ?thesis by (simp add: can_edge reachable_from_iff)
qed

lemma run_append: "guarded_run can s (ts @ us) = guarded_run can (guarded_run can s ts) us"
  by (induction ts arbitrary: s) simp_all

lemma run_after_terminal:
  "terminal (guarded_run can s ts) \<Longrightarrow> guarded_run can s (ts @ us) = guarded_run can s ts"
  by (simp add: run_append run_terminal)

lemma cut: "b \<notin> set (reachable_from (avoiding a tg) s) \<Longrightarrow> path can s ts \<Longrightarrow> last (s # ts) = b \<Longrightarrow> a \<in> set ts"
  unfolding can_edge by (rule path_through_cut)

end

end
