(* ===== verification/Paper_Order_State.thy ===== *)
theory Paper_Order_State
  imports Transition_Table
begin

text \<open>
  \<open>backend/paper/paper_order_state.py\<close>: the six paper order states, their transition table, the
  terminal set and the retained legacy spellings. \<open>PaperOrderState\<close> is a \<open>str\<close> enum, so the
  predicates take any string: a member and its spelling hash and compare alike.
\<close>

datatype paper_order_state = PO_CREATED | PO_ACCEPTED | PO_PARTIALLY_FILLED | PO_FILLED
  | PO_CANCELLED | PO_REJECTED

lemma paper_order_state_UNIV:
  "(UNIV :: paper_order_state set) =
    {PO_CREATED, PO_ACCEPTED, PO_PARTIALLY_FILLED, PO_FILLED, PO_CANCELLED, PO_REJECTED}"
  using paper_order_state.exhaust by blast

instantiation paper_order_state :: finite
begin

instance
  by standard (simp add: paper_order_state_UNIV)

end

fun paper_order_value :: "paper_order_state \<Rightarrow> string" where
  "paper_order_value PO_CREATED = ''CREATED''"
| "paper_order_value PO_ACCEPTED = ''ACCEPTED''"
| "paper_order_value PO_PARTIALLY_FILLED = ''PARTIALLY_FILLED''"
| "paper_order_value PO_FILLED = ''FILLED''"
| "paper_order_value PO_CANCELLED = ''CANCELLED''"
| "paper_order_value PO_REJECTED = ''REJECTED''"

definition paper_order_members :: "paper_order_state list" where
  "paper_order_members =
     [PO_CREATED, PO_ACCEPTED, PO_PARTIALLY_FILLED, PO_FILLED, PO_CANCELLED, PO_REJECTED]"

text \<open>\<open>PaperOrderState(s)\<close>: the member with value \<open>s\<close>, or a \<open>ValueError\<close>.\<close>

definition PaperOrderState :: "string \<Rightarrow> py_exc + paper_order_state" where
  "PaperOrderState s =
     (case filter (\<lambda>m. paper_order_value m = s) paper_order_members of
        [] \<Rightarrow> Inl ValueError
      | m # _ \<Rightarrow> Inr m)"

fun PAPER_ORDER_TRANSITIONS :: "paper_order_state \<Rightarrow> paper_order_state list" where
  "PAPER_ORDER_TRANSITIONS PO_CREATED = [PO_ACCEPTED, PO_REJECTED]"
| "PAPER_ORDER_TRANSITIONS PO_ACCEPTED =
     [PO_PARTIALLY_FILLED, PO_FILLED, PO_CANCELLED, PO_REJECTED]"
| "PAPER_ORDER_TRANSITIONS PO_PARTIALLY_FILLED = [PO_PARTIALLY_FILLED, PO_FILLED, PO_CANCELLED]"
| "PAPER_ORDER_TRANSITIONS PO_FILLED = []"
| "PAPER_ORDER_TRANSITIONS PO_CANCELLED = []"
| "PAPER_ORDER_TRANSITIONS PO_REJECTED = []"

definition PAPER_ORDER_TERMINAL :: "paper_order_state list" where
  "PAPER_ORDER_TERMINAL = [PO_FILLED, PO_CANCELLED, PO_REJECTED]"

fun LEGACY_STATUS_FOR_STATE :: "paper_order_state \<Rightarrow> string" where
  "LEGACY_STATUS_FOR_STATE PO_CREATED = ''NEW''"
| "LEGACY_STATUS_FOR_STATE PO_ACCEPTED = ''OPEN''"
| "LEGACY_STATUS_FOR_STATE PO_PARTIALLY_FILLED = ''OPEN''"
| "LEGACY_STATUS_FOR_STATE PO_FILLED = ''FILLED''"
| "LEGACY_STATUS_FOR_STATE PO_CANCELLED = ''CANCELLED''"
| "LEGACY_STATUS_FOR_STATE PO_REJECTED = ''REJECTED''"

text \<open>The table lookup \<open>PAPER_ORDER_TRANSITIONS.get(current, ())\<close> and the membership of \<open>target\<close>.\<close>

definition paper_can_transition :: "string \<Rightarrow> string \<Rightarrow> bool" where
  "paper_can_transition current target =
     (case PaperOrderState current of
        Inl _ \<Rightarrow> False
      | Inr a \<Rightarrow> target \<in> paper_order_value ` set (PAPER_ORDER_TRANSITIONS a))"

definition paper_is_terminal :: "string \<Rightarrow> bool" where
  "paper_is_terminal s = (s \<in> paper_order_value ` set PAPER_ORDER_TERMINAL)"

definition legacy_status_for :: "string \<Rightarrow> py_exc + string" where
  "legacy_status_for s = bnd (PaperOrderState s) (\<lambda>m. Inr (LEGACY_STATUS_FOR_STATE m))"

definition paper_reachable_from :: "paper_order_state \<Rightarrow> paper_order_state list" where
  "paper_reachable_from origin = reachable_from PAPER_ORDER_TRANSITIONS origin"

definition REACHABLE_FROM_CREATED :: "paper_order_state list" where
  "REACHABLE_FROM_CREATED = paper_reachable_from PO_CREATED"

section \<open>The gate over members\<close>

lemma paper_order_value_inject [simp]: "paper_order_value a = paper_order_value b \<longleftrightarrow> a = b"
  by (cases a; cases b) simp_all

lemma PaperOrderState_value [simp]: "PaperOrderState (paper_order_value a) = Inr a"
  by (cases a) (simp_all add: PaperOrderState_def paper_order_members_def)

lemma PaperOrderState_Inr: "PaperOrderState s = Inr a \<longleftrightarrow> s = paper_order_value a"
proof
  assume "PaperOrderState s = Inr a"
  then show "s = paper_order_value a"
    by (auto simp: PaperOrderState_def split: list.splits dest!: filter_eq_ConsD)
qed simp

lemma PaperOrderState_Inl: "PaperOrderState s = Inl e \<longleftrightarrow> e = ValueError \<and> s \<notin> range paper_order_value"
proof (cases "PaperOrderState s")
  case (Inl x)
  then have "x = ValueError" by (simp add: PaperOrderState_def split: list.splits)
  moreover have "s \<notin> range paper_order_value" using Inl by auto
  ultimately show ?thesis using Inl by auto
next
  case (Inr a)
  then show ?thesis by (auto simp: PaperOrderState_Inr)
qed

definition paper_gate :: "paper_order_state \<Rightarrow> paper_order_state \<Rightarrow> bool" where
  "paper_gate a b = paper_can_transition (paper_order_value a) (paper_order_value b)"

definition paper_terminal_state :: "paper_order_state \<Rightarrow> bool" where
  "paper_terminal_state a = paper_is_terminal (paper_order_value a)"

lemma paper_gate_edge: "paper_gate a b \<longleftrightarrow> b \<in> set (PAPER_ORDER_TRANSITIONS a)"
  by (auto simp: paper_gate_def paper_can_transition_def)

lemma paper_terminal_state_iff: "paper_terminal_state a \<longleftrightarrow> PAPER_ORDER_TRANSITIONS a = []"
  by (cases a) (auto simp: paper_terminal_state_def paper_is_terminal_def PAPER_ORDER_TERMINAL_def)

interpretation po: lifecycle PAPER_ORDER_TRANSITIONS paper_gate paper_terminal_state
  by unfold_locales (simp_all add: paper_gate_edge paper_terminal_state_iff)

lemma paper_order_live_on_book:
  "legacy_status_for (paper_order_value a) = Inr ''OPEN'' \<longleftrightarrow> a \<in> {PO_ACCEPTED, PO_PARTIALLY_FILLED}"
  unfolding legacy_status_for_def PaperOrderState_value by (cases a) simp_all

section \<open>Properties\<close>

text \<open>
  From \<open>CREATED\<close> the table reaches all six states and nothing else, a
  stored state changed only through the gate stays among them, and once it is terminal no
  further request changes it.
\<close>

theorem paper_order_lifecycle:
  "set REACHABLE_FROM_CREATED = UNIV \<and>
    guarded_run paper_gate PO_CREATED ts \<in> set REACHABLE_FROM_CREATED \<and>
    (paper_is_terminal (paper_order_value (guarded_run paper_gate PO_CREATED ts)) \<longrightarrow>
      guarded_run paper_gate PO_CREATED (ts @ us) = guarded_run paper_gate PO_CREATED ts)"
proof (intro conjI impI)
  show all: "set REACHABLE_FROM_CREATED = UNIV"
    by (simp add: REACHABLE_FROM_CREATED_def paper_reachable_from_def reachable_from_def
        paper_order_state_UNIV insert_commute)
  show "guarded_run paper_gate PO_CREATED ts \<in> set REACHABLE_FROM_CREATED" by (simp add: all)
  assume "paper_is_terminal (paper_order_value (guarded_run paper_gate PO_CREATED ts))"
  then show "guarded_run paper_gate PO_CREATED (ts @ us) = guarded_run paper_gate PO_CREATED ts"
    by (intro po.run_after_terminal) (simp add: paper_terminal_state_def)
qed

theorem paper_order_lifecycle_witness:
  "guarded_run paper_gate PO_CREATED ([PO_ACCEPTED, PO_PARTIALLY_FILLED, PO_FILLED] @ [PO_CANCELLED]) =
    PO_FILLED"
proof -
  have run: "guarded_run paper_gate PO_CREATED [PO_ACCEPTED, PO_PARTIALLY_FILLED, PO_FILLED] = PO_FILLED"
    by (simp add: paper_gate_edge)
  have "paper_is_terminal (paper_order_value PO_FILLED)"
    by (simp add: paper_is_terminal_def PAPER_ORDER_TERMINAL_def)
  then show ?thesis
    using paper_order_lifecycle [of "[PO_ACCEPTED, PO_PARTIALLY_FILLED, PO_FILLED]" "[PO_CANCELLED]"]
    by (simp only: run)
qed

text \<open>
  The legacy status of a text that names no state is a \<open>ValueError\<close>,
  never a \<open>KeyError\<close>: the conversion to a member raises before the lookup.
\<close>

theorem legacy_status_unknown:
  "legacy_status_for s = Inl x \<longleftrightarrow> x = ValueError \<and> s \<notin> range paper_order_value"
  by (auto simp: legacy_status_for_def bnd_Inl_iff PaperOrderState_Inl)

end
