(* ===== verification/Reference_Ledger.thy ===== *)
theory Reference_Ledger
  imports Paper_Metrics Paper_Order_State
begin

text \<open>
  \<open>ReferenceLedger\<close> of \<open>backend/paper/paper_replay.py\<close>: the independent, naive ledger the simulator
  is checked against. It is an object that its methods change, so a method is a function from
  the ledger to the ledger it leaves and its outcome: a raise keeps whatever was written
  before it. Some methods compute outside the 34-digit \<open>localcontext\<close>; they take the precision
  \<open>amb\<close> of the ambient context as an argument (Python's default is 28). \<open>RefPosition\<close> and
  \<open>RefClosedTrade\<close> have the fields of \<open>Position\<close> and \<open>ClosedTrade\<close> and share their records here.
\<close>

datatype ref_error = ReferenceStalePrice string | ReferenceInvariantViolation string
  | ReferenceOverFill | ReferenceBadValue | ReferenceBadTransition | ReferenceKeyError
  | ReferenceDecimalSignal

definition PRECISION :: nat where
  "PRECISION = 34"

section \<open>Exact decimals\<close>

definition ref_to_decimal :: "pyval \<Rightarrow> ref_error + decimal" where
  "ref_to_decimal v =
     (case v of
        PyDec (Fin d) \<Rightarrow> Inr d
      | PyInt n \<Rightarrow> Inr (dec_of_int n)
      | PyStr s \<Rightarrow>
          (case parse_decimal (py_strip s) of
             Some (Fin d) \<Rightarrow> Inr d
           | _ \<Rightarrow> Inl ReferenceBadValue)
      | _ \<Rightarrow> Inl ReferenceBadValue)"

definition ref_quantum :: "pyval \<Rightarrow> ref_error + decimal" where
  "ref_quantum v =
     (case v of
        PyDec (Fin d) \<Rightarrow> if dec_le d dec_zero then Inl ReferenceBadValue else Inr d
      | PyInt n \<Rightarrow> if n < 0 then Inl ReferenceBadValue else Inr (dec_scaleb PRECISION (dec_of_int 1) (- n))
      | _ \<Rightarrow> Inl ReferenceBadValue)"

definition ref_quantize :: "rounding \<Rightarrow> decimal \<Rightarrow> decimal \<Rightarrow> ref_error + decimal" where
  "ref_quantize m quantum d =
     (case dec_quantize PRECISION m (dexp quantum) d of
        None \<Rightarrow> Inl ReferenceDecimalSignal
      | Some q \<Rightarrow> Inr q)"

section \<open>Orders\<close>

text \<open>The transition table, spelled over the strings.\<close>

definition ORDER_TRANSITIONS :: "(string \<times> string list) list" where
  "ORDER_TRANSITIONS =
     [(''CREATED'', [''ACCEPTED'', ''REJECTED'']),
      (''ACCEPTED'', [''PARTIALLY_FILLED'', ''FILLED'', ''CANCELLED'', ''REJECTED'']),
      (''PARTIALLY_FILLED'', [''PARTIALLY_FILLED'', ''FILLED'', ''CANCELLED'']),
      (''FILLED'', []), (''CANCELLED'', []), (''REJECTED'', [])]"

definition TERMINAL_ORDER_STATES :: "string list" where
  "TERMINAL_ORDER_STATES = [''FILLED'', ''CANCELLED'', ''REJECTED'']"

record ref_order =
  ro_id :: string
  ro_symbol :: string
  ro_side :: string
  ro_type :: string
  ro_quantity :: decimal
  ro_limit_price :: "decimal option"
  ro_filled :: decimal
  ro_state :: string
  ro_rejection :: "string option"
  ro_key :: "string option"
  ro_created_at :: "stamp option"

record ref_fill =
  rf_applied :: bool
  rf_duplicate :: bool
  rf_symbol :: string
  rf_quantity :: decimal
  rf_price :: decimal
  rf_fee :: decimal
  rf_realized_pnl :: decimal
  rf_available_delta :: decimal
  rf_locked_delta :: decimal
  rf_equity_delta :: decimal
  rf_position :: "position option"
  rf_closed_trade :: "closed_trade option"
  rf_order_state :: "string option"
  rf_event_id :: "string option"
  rf_filled_at :: "stamp option"

section \<open>The ledger\<close>

record equity_row =
  er_index :: nat
  er_total_equity :: decimal
  er_available :: decimal
  er_locked :: decimal
  er_market_value :: decimal
  er_stale :: bool
  er_cause :: string
  er_taken_at :: "stamp option"

record ref_ledger =
  lg_fee_rate :: decimal
  lg_slippage_rate :: decimal
  lg_mode :: rounding
  lg_money_quantum :: decimal
  lg_qty_quantum :: decimal
  lg_price_quantum :: decimal
  lg_minor :: int
  lg_market :: "string option"
  lg_initial :: pyval
  lg_available :: decimal
  lg_locked :: decimal
  lg_realized :: decimal
  lg_positions :: book
  lg_trades :: "closed_trade list"
  lg_orders :: "(string, ref_order) dict"
  lg_fills :: "ref_fill list"
  lg_series :: "equity_row list"
  lg_seen :: "string list"
  lg_stale :: bool
  lg_sequence :: nat
  lg_by_key :: "(string, string) dict"

type_synonym 'a ref_op = "ref_ledger \<Rightarrow> ref_ledger \<times> (ref_error + 'a)"

text \<open>A step of a method that may raise: on a raise the ledger stays as it is at that point.\<close>

definition attempt :: "ref_error + 'a \<Rightarrow> ('a \<Rightarrow> 'b ref_op) \<Rightarrow> 'b ref_op" where
  "attempt r k L = (case r of Inl e \<Rightarrow> (L, Inl e) | Inr x \<Rightarrow> k x L)"

lemma attempt_Inr [simp]: "attempt (Inr x) k L = k x L"
  by (simp add: attempt_def)

lemma attempt_Inl [simp]: "attempt (Inl e) k L = (L, Inl e)"
  by (simp add: attempt_def)

lemma attempt_returns [result_simps]:
  "attempt r k L = (L', Inr y) \<longleftrightarrow> (\<exists>x. r = Inr x \<and> k x L = (L', Inr y))"
  by (cases r) simp_all

lemma attempt_raises [result_simps]:
  "attempt r k L = (L', Inl e) \<longleftrightarrow> r = Inl e \<and> L' = L \<or> (\<exists>x. r = Inr x \<and> k x L = (L', Inl e))"
  by (cases r) auto

lemma attempt_case [code_unfold]:
  "attempt r k L = (case r of Inl e \<Rightarrow> (L, Inl e) | Inr x \<Rightarrow> k x L)"
  by (simp add: attempt_def)

text \<open>A call of a method by another: its raise is passed on with the ledger it left.\<close>

definition proceed :: "ref_ledger \<times> (ref_error + 'a) \<Rightarrow> ('a \<Rightarrow> 'b ref_op) \<Rightarrow> ref_ledger \<times> (ref_error + 'b)" where
  "proceed r k = (case r of (L, Inl e) \<Rightarrow> (L, Inl e) | (L, Inr x) \<Rightarrow> k x L)"

lemma proceed_case [code_unfold]:
  "proceed r k = (case r of (L, q) \<Rightarrow> (case q of Inl e \<Rightarrow> (L, Inl e) | Inr x \<Rightarrow> k x L))"
  by (simp add: proceed_def split: prod.splits)

lemma proceed_pair [simp]: "proceed (L, Inl e) k = (L, Inl e)" "proceed (L, Inr x) k = k x L"
  by (simp_all add: proceed_def)

lemma proceed_returns [result_simps]:
  "proceed r k = (L', Inr y) \<longleftrightarrow> (\<exists>L x. r = (L, Inr x) \<and> k x L = (L', Inr y))"
  by (auto simp: proceed_def split: prod.splits sum.splits)

lemma proceed_raises [result_simps]:
  "proceed r k = (L', Inl e) \<longleftrightarrow> r = (L', Inl e) \<or> (\<exists>L x. r = (L, Inr x) \<and> k x L = (L', Inl e))"
  by (auto simp: proceed_def split: prod.splits sum.splits)

definition ref_money :: "ref_ledger \<Rightarrow> pyval \<Rightarrow> ref_error + decimal" where
  "ref_money L v = bnd (ref_to_decimal v) (ref_quantize (lg_mode L) (lg_money_quantum L))"

definition ref_qty :: "ref_ledger \<Rightarrow> pyval \<Rightarrow> ref_error + decimal" where
  "ref_qty L v = bnd (ref_to_decimal v) (ref_quantize (lg_mode L) (lg_qty_quantum L))"

definition ref_price :: "ref_ledger \<Rightarrow> pyval \<Rightarrow> ref_error + decimal" where
  "ref_price L v = bnd (ref_to_decimal v) (ref_quantize (lg_mode L) (lg_price_quantum L))"

definition fee_from_minor :: "ref_ledger \<Rightarrow> pyval \<Rightarrow> ref_error + decimal" where
  "fee_from_minor L v =
     (case v of
        PyInt n \<Rightarrow> ref_money L (D (dec_scaleb PRECISION (dec_of_int n) (- lg_minor L)))
      | _ \<Rightarrow> Inl ReferenceBadValue)"

section \<open>Valuation\<close>

text \<open>\<open>prices\<close> is \<open>None\<close> when the caller gives none.\<close>

definition ref_price_for :: "ref_ledger \<Rightarrow> position \<Rightarrow> (string \<rightharpoonup> pyval) option \<Rightarrow> ref_error + decimal" where
  "ref_price_for L p prices =
     (let recorded = (case pos_current_price p of
            Some c \<Rightarrow> Inr c | None \<Rightarrow> Inl (ReferenceStalePrice (pos_symbol p))) in
      case prices of
        None \<Rightarrow> recorded
      | Some m \<Rightarrow>
          (case m (pos_symbol p) of
             None \<Rightarrow> recorded
           | Some v \<Rightarrow> if v = PyNone then recorded else ref_price L v))"

definition ref_position_value :: "ref_ledger \<Rightarrow> position \<Rightarrow> pyval \<Rightarrow> ref_error + decimal" where
  "ref_position_value L p price =
     bnd (ref_to_decimal price) (\<lambda>current.
       if pos_side p = LONG then ref_money L (D (dec_mul PRECISION (pos_size p) current))
       else if pos_side p = SHORT then
         ref_money L (D (dec_mul PRECISION (pos_size p)
           (dec_sub PRECISION (dec_mul PRECISION (dec_of_int 2) (pos_entry_price p)) current)))
       else Inl (ReferenceInvariantViolation ''position_side''))"

definition ref_position_pnl :: "ref_ledger \<Rightarrow> position \<Rightarrow> pyval \<Rightarrow> ref_error + decimal" where
  "ref_position_pnl L p price =
     bnd (ref_to_decimal price) (\<lambda>current.
       if pos_side p = LONG then
         ref_money L (D (dec_mul PRECISION (dec_sub PRECISION current (pos_entry_price p)) (pos_size p)))
       else
         ref_money L (D (dec_mul PRECISION (dec_sub PRECISION (pos_entry_price p) current) (pos_size p))))"

definition ref_sum_open ::
  "(position \<Rightarrow> ref_error + decimal) \<Rightarrow> decimal \<Rightarrow> position \<Rightarrow> ref_error + decimal" where
  "ref_sum_open f acc p =
     (if pos_is_open p then bnd (f p) (\<lambda>v. Inr (dec_add PRECISION acc v)) else Inr acc)"

definition ref_market_value :: "ref_ledger \<Rightarrow> (string \<rightharpoonup> pyval) option \<Rightarrow> ref_error + decimal" where
  "ref_market_value L prices =
     foldm (ref_sum_open (\<lambda>p. bnd (ref_price_for L p prices) (\<lambda>c. ref_position_value L p (D c))))
       dec_zero (dvalues (lg_positions L))"

definition ref_unrealized_pnl :: "ref_ledger \<Rightarrow> (string \<rightharpoonup> pyval) option \<Rightarrow> ref_error + decimal" where
  "ref_unrealized_pnl L prices =
     foldm (ref_sum_open (\<lambda>p. bnd (ref_price_for L p prices) (\<lambda>c. ref_position_pnl L p (D c))))
       dec_zero (dvalues (lg_positions L))"

definition ref_total_equity :: "ref_ledger \<Rightarrow> (string \<rightharpoonup> pyval) option \<Rightarrow> ref_error + decimal" where
  "ref_total_equity L prices =
     bnd (ref_market_value L prices) (\<lambda>mv.
       Inr (dec_add PRECISION (dec_add PRECISION (lg_available L) (lg_locked L)) mv))"

definition ref_latest_price_at :: "ref_ledger \<Rightarrow> stamp option" where
  "ref_latest_price_at L =
     (case List.map_filter pos_price_at (dvalues (lg_positions L)) of
        [] \<Rightarrow> None
      | s # ss \<Rightarrow> Some (fold max ss s))"

definition ref_last_validated_prices :: "ref_ledger \<Rightarrow> (string \<rightharpoonup> decimal)" where
  "ref_last_validated_prices L =
     fold (\<lambda>(s, p) m. case pos_current_price p of None \<Rightarrow> m | Some c \<Rightarrow> m(s \<mapsto> c)) (lg_positions L)
       Map.empty"

text \<open>The right-hand side of the identity is summed in the ambient context.\<close>

definition ref_violated_invariant ::
  "nat \<Rightarrow> ref_ledger \<Rightarrow> (string \<rightharpoonup> pyval) option \<Rightarrow> ref_error + string option" where
  "ref_violated_invariant amb L prices =
     (case bad_position (dvalues (lg_positions L)) of
        Some n \<Rightarrow> Inr (Some n)
      | None \<Rightarrow>
          if dec_lt (lg_available L) dec_zero then Inr (Some ''available_balance'')
          else if dec_lt (lg_locked L) dec_zero then Inr (Some ''locked_balance'')
          else
            bnd (ref_total_equity L prices) (\<lambda>equity.
            bnd (ref_market_value L prices) (\<lambda>mv.
              if \<not> dec_eq equity (dec_add amb (dec_add amb (lg_available L) (lg_locked L)) mv)
              then Inr (Some ''total_equity'') else Inr None)))"

definition ref_invariants_hold ::
  "nat \<Rightarrow> ref_ledger \<Rightarrow> (string \<rightharpoonup> pyval) option \<Rightarrow> ref_error + bool" where
  "ref_invariants_hold amb L prices = bnd (ref_violated_invariant amb L prices) (\<lambda>v. Inr (v = None))"

section \<open>Funds\<close>

definition ref_required_funds :: "ref_ledger \<Rightarrow> pyval \<Rightarrow> pyval \<Rightarrow> ref_error + decimal" where
  "ref_required_funds L quantity reference_price =
     bnd (ref_to_decimal quantity) (\<lambda>q.
     bnd (ref_to_decimal reference_price) (\<lambda>p.
       ref_money L (D (dec_mul PRECISION (dec_mul PRECISION q p)
         (dec_add PRECISION (dec_add PRECISION (dec_of_int 1) (lg_fee_rate L))
           (lg_slippage_rate L))))))"

definition ref_lock :: "nat \<Rightarrow> pyval \<Rightarrow> decimal ref_op" where
  "ref_lock amb amount L =
     attempt (ref_money L amount) (\<lambda>q L.
       if dec_lt q dec_zero then (L, Inl ReferenceBadValue)
       else if dec_lt (lg_available L) q then
         (L, Inl (ReferenceInvariantViolation ''available_balance''))
       else
         (L\<lparr>lg_available := dec_sub amb (lg_available L) q,
            lg_locked := dec_add amb (lg_locked L) q\<rparr>, Inr q)) L"

definition ref_unlock :: "nat \<Rightarrow> pyval \<Rightarrow> decimal ref_op" where
  "ref_unlock amb amount L =
     attempt (ref_money L amount) (\<lambda>q L.
       if dec_lt q dec_zero then (L, Inl ReferenceBadValue)
       else if dec_lt (lg_locked L) q then
         (L, Inl (ReferenceInvariantViolation ''locked_balance''))
       else
         (L\<lparr>lg_locked := dec_sub amb (lg_locked L) q,
            lg_available := dec_add amb (lg_available L) q\<rparr>, Inr q)) L"

section \<open>Snapshots\<close>

definition ref_snapshot :: "nat \<Rightarrow> string \<Rightarrow> stamp option \<Rightarrow> equity_row ref_op" where
  "ref_snapshot amb cause taken L =
     attempt (ref_market_value L None) (\<lambda>mv L.
       let row = \<lparr>er_index = length (lg_series L),
                  er_total_equity = dec_add amb (dec_add amb (lg_available L) (lg_locked L)) mv,
                  er_available = lg_available L, er_locked = lg_locked L, er_market_value = mv,
                  er_stale = lg_stale L, er_cause = cause, er_taken_at = taken\<rparr>
       in (L\<lparr>lg_series := lg_series L @ [row]\<rparr>, Inr row)) L"

definition cfg_value :: "(string \<rightharpoonup> pyval) \<Rightarrow> string \<Rightarrow> pyval \<Rightarrow> pyval" where
  "cfg_value config k dflt = (case config k of None \<Rightarrow> dflt | Some v \<Rightarrow> v)"

definition int_of_value :: "pyval \<Rightarrow> int" where
  "int_of_value v = (case v of PyInt n \<Rightarrow> n | PyDec (Fin d) \<Rightarrow> dec_to_int d | _ \<Rightarrow> 0)"

definition mode_of :: "pyval \<Rightarrow> ref_error + rounding" where
  "mode_of v =
     (case v of
        PyStr s \<Rightarrow>
          (case map_of (map (\<lambda>m. (rounding_name m, m)) ROUNDING_MODES) s of
             None \<Rightarrow> Inl ReferenceBadValue
           | Some m \<Rightarrow> Inr m)
      | _ \<Rightarrow> Inl ReferenceBadValue)"

text \<open>The constructor, \<open>__post_init__\<close>. A market type that is no string names no market type.\<close>

definition ref_init ::
  "nat \<Rightarrow> (string \<rightharpoonup> pyval) \<Rightarrow> pyval \<Rightarrow> stamp option \<Rightarrow> ref_error + ref_ledger" where
  "ref_init amb config initial started_at =
     bnd (ref_to_decimal (cfg_value config ''fee_rate'' (PyStr ''0''))) (\<lambda>fee_rate.
     bnd (ref_to_decimal (cfg_value config ''slippage_rate'' (PyStr ''0''))) (\<lambda>slip.
     if cfg_value config ''cost_basis'' (PyStr WEIGHTED_AVERAGE) \<noteq> PyStr WEIGHTED_AVERAGE
     then Inl ReferenceBadValue
     else
     bnd (mode_of (cfg_value config ''rounding_mode'' (PyStr ''ROUND_HALF_EVEN''))) (\<lambda>m.
     bnd (ref_quantum (cfg_value config ''minor_unit_exponent'' (PyInt 2))) (\<lambda>mq.
     bnd (ref_quantum (cfg_value config ''quantity_precision'' (PyInt 8))) (\<lambda>qq.
     bnd (ref_quantum (cfg_value config ''price_precision'' (PyInt 2))) (\<lambda>pq.
     let L = \<lparr>lg_fee_rate = fee_rate, lg_slippage_rate = slip, lg_mode = m,
              lg_money_quantum = mq, lg_qty_quantum = qq, lg_price_quantum = pq,
              lg_minor = int_of_value (cfg_value config ''minor_unit_exponent'' (PyInt 2)),
              lg_market = market_text (cfg_value config ''market_type'' PyNone),
              lg_initial = initial, lg_available = dec_zero, lg_locked = dec_zero,
              lg_realized = dec_zero, lg_positions = [], lg_trades = [], lg_orders = [],
              lg_fills = [], lg_series = [], lg_seen = [], lg_stale = False, lg_sequence = 0,
              lg_by_key = []\<rparr> in
     bnd (ref_money L initial) (\<lambda>available.
     if dec_lt available dec_zero then Inl (ReferenceInvariantViolation ''available_balance'')
     else
     bnd (ref_money L (D dec_zero)) (\<lambda>zero.
       (case ref_snapshot amb ''SESSION_START'' started_at
               (L\<lparr>lg_available := available, lg_locked := zero, lg_realized := zero\<rparr>) of
          (_, Inl e) \<Rightarrow> Inl e
        | (L', Inr _) \<Rightarrow> Inr L')))))))))"

end
