(* ===== verification/Reference_Fill.thy ===== *)
theory Reference_Fill
  imports Reference_Ledger
begin

text \<open>
  The second half of \<open>ReferenceLedger\<close>: the order bookkeeping, the fill with its case analysis,
  the standalone fee, revaluation, session stop and the metrics.
\<close>

section \<open>Orders\<close>

record ref_intent =
  in_symbol :: "string option"
  in_side :: "string option"
  in_type :: "string option"
  in_quantity :: "pyval option"
  in_limit_price :: "pyval option"
  in_key :: "string option"
  in_created_at :: "stamp option"

definition required :: "'a option \<Rightarrow> ref_error + 'a" where
  "required v = (case v of None \<Rightarrow> Inl ReferenceKeyError | Some x \<Rightarrow> Inr x)"

definition optional_price :: "ref_ledger \<Rightarrow> pyval option \<Rightarrow> ref_error + decimal option" where
  "optional_price L v =
     (case v of
        None \<Rightarrow> Inr None
      | Some x \<Rightarrow> if x = PyNone then Inr None else bnd (ref_price L x) (\<lambda>p. Inr (Some p)))"

text \<open>A repeated key returns the order it created. The sequence number is taken before the
  intent is read.\<close>

definition ref_submit :: "ref_intent \<Rightarrow> ref_order ref_op" where
  "ref_submit i L =
     (case (case in_key i of None \<Rightarrow> None | Some k \<Rightarrow> dget (lg_by_key L) k) of
        Some oid \<Rightarrow> attempt (required (dget (lg_orders L) oid)) (\<lambda>ord L. (L, Inr ord)) L
      | None \<Rightarrow>
          let L1 = L\<lparr>lg_sequence := Suc (lg_sequence L)\<rparr>;
              oid = ''ref-order-'' @ int_digits (int (lg_sequence L1)) in
          attempt (required (in_symbol i)) (\<lambda>symbol.
          attempt (required (in_side i)) (\<lambda>side.
          attempt (bnd (required (in_quantity i)) (ref_qty L1)) (\<lambda>qty.
          attempt (optional_price L1 (in_limit_price i)) (\<lambda>limit.
          attempt (ref_qty L1 (D dec_zero)) (\<lambda>zero L1.
            let ord = \<lparr>ro_id = oid, ro_symbol = symbol, ro_side = side,
                   ro_type = (case in_type i of None \<Rightarrow> ''market'' | Some t \<Rightarrow> t),
                   ro_quantity = qty, ro_limit_price = limit, ro_filled = zero,
                   ro_state = ''CREATED'', ro_rejection = None, ro_key = in_key i,
                   ro_created_at = in_created_at i\<rparr> in
            (L1\<lparr>lg_orders := dset oid ord (lg_orders L1),
                lg_by_key := (case in_key i of None \<Rightarrow> lg_by_key L1
                              | Some k \<Rightarrow> dset k oid (lg_by_key L1))\<rparr>, Inr ord)))))) L1)"

definition ref_transition :: "ref_order \<Rightarrow> string \<Rightarrow> ref_error + ref_order" where
  "ref_transition ord target =
     (if target \<in> set (case map_of ORDER_TRANSITIONS (ro_state ord) of None \<Rightarrow> [] | Some ts \<Rightarrow> ts)
      then Inr (ord\<lparr>ro_state := target\<rparr>) else Inl ReferenceBadTransition)"

definition put_order :: "string \<Rightarrow> ref_order \<Rightarrow> ref_ledger \<Rightarrow> ref_ledger" where
  "put_order oid ord L = L\<lparr>lg_orders := dset oid ord (lg_orders L)\<rparr>"

definition ref_accept :: "string \<Rightarrow> ref_order ref_op" where
  "ref_accept oid L =
     attempt (bnd (required (dget (lg_orders L) oid)) (\<lambda>ord. ref_transition ord ''ACCEPTED''))
       (\<lambda>ord L. (put_order oid ord L, Inr ord)) L"

definition ref_reject :: "string \<Rightarrow> string \<Rightarrow> ref_order ref_op" where
  "ref_reject oid reason L =
     attempt (bnd (required (dget (lg_orders L) oid)) (\<lambda>ord. ref_transition ord ''REJECTED''))
       (\<lambda>ord L. let ord' = ord\<lparr>ro_rejection := Some reason\<rparr> in (put_order oid ord' L, Inr ord')) L"

definition ref_cancel :: "string \<Rightarrow> ref_order ref_op" where
  "ref_cancel oid L =
     attempt (bnd (required (dget (lg_orders L) oid)) (\<lambda>ord. ref_transition ord ''CANCELLED''))
       (\<lambda>ord L. (put_order oid ord L, Inr ord)) L"

section \<open>The fill\<close>

definition ref_direction :: "pyval \<Rightarrow> ref_error + string" where
  "ref_direction v =
     (case v of
        PyStr s \<Rightarrow>
          (let normalised = py_strip s in
           if py_upper normalised \<in> set SIDES then Inr (py_upper normalised)
           else if py_lower normalised = ''buy'' then Inr LONG
           else if py_lower normalised = ''sell'' then Inr SHORT
           else Inl ReferenceBadValue)
      | _ \<Rightarrow> Inl ReferenceBadValue)"

text \<open>The result of an absorbed fill: every delta zero, nothing recorded.\<close>

definition ref_no_op_fill ::
  "ref_ledger \<Rightarrow> string \<Rightarrow> decimal \<Rightarrow> decimal \<Rightarrow> string option \<Rightarrow> stamp option \<Rightarrow> string option \<Rightarrow>
    bool \<Rightarrow> ref_error + ref_fill" where
  "ref_no_op_fill L symbol quantity price event filled_at order_state dup =
     bnd (ref_money L (D dec_zero)) (\<lambda>zero.
       Inr \<lparr>rf_applied = False, rf_duplicate = dup, rf_symbol = symbol, rf_quantity = quantity,
            rf_price = price, rf_fee = zero, rf_realized_pnl = zero, rf_available_delta = zero,
            rf_locked_delta = zero, rf_equity_delta = zero,
            rf_position = dget (lg_positions L) symbol, rf_closed_trade = None,
            rf_order_state = order_state, rf_event_id = event, rf_filled_at = filled_at\<rparr>)"

record ref_fill_args =
  ra_symbol :: string
  ra_side :: string
  ra_qty :: decimal
  ra_price :: decimal
  ra_fee :: decimal
  ra_release :: decimal

text \<open>The quantized arguments and their checks; \<open>fee_minor\<close> replaces \<open>fee\<close> when it is given.\<close>

definition ref_fill_inputs ::
  "ref_ledger \<Rightarrow> string \<Rightarrow> pyval \<Rightarrow> pyval \<Rightarrow> pyval \<Rightarrow> pyval \<Rightarrow> pyval \<Rightarrow> pyval \<Rightarrow>
    ref_error + ref_fill_args" where
  "ref_fill_inputs L symbol side quantity price fee fee_minor release_from_locked =
     bnd (ref_qty L quantity) (\<lambda>fill_qty.
     bnd (ref_price L price) (\<lambda>fill_price.
     bnd (if fee_minor \<noteq> PyNone then fee_from_minor L fee_minor else ref_money L fee) (\<lambda>fill_fee.
     bnd (ref_money L release_from_locked) (\<lambda>release.
     bnd (ref_direction side) (\<lambda>incoming.
       if dec_le fill_qty dec_zero then Inl ReferenceBadValue
       else if dec_le fill_price dec_zero then Inl ReferenceBadValue
       else if dec_lt fill_fee dec_zero then Inl ReferenceBadValue
       else if dec_lt release dec_zero then Inl ReferenceBadValue
       else Inr \<lparr>ra_symbol = symbol, ra_side = incoming, ra_qty = fill_qty, ra_price = fill_price,
                 ra_fee = fill_fee, ra_release = release\<rparr>)))))"

definition ref_new_position :: "ref_fill_args \<Rightarrow> decimal \<Rightarrow> stamp option \<Rightarrow> position" where
  "ref_new_position args qty filled_at =
     \<lparr>pos_symbol = ra_symbol args, pos_side = ra_side args, pos_size = qty,
      pos_entry_price = ra_price args, pos_current_price = None, pos_unrealized_pnl = None,
      pos_price_at = None, pos_opened_at = filled_at, pos_closed_at = None\<rparr>"

definition ref_accumulate ::
  "ref_ledger \<Rightarrow> position \<Rightarrow> ref_fill_args \<Rightarrow> ref_error + position" where
  "ref_accumulate L p args =
     bnd (ref_qty L (D (dec_add PRECISION (pos_size p) (ra_qty args)))) (\<lambda>new_size.
       case dec_div PRECISION
              (dec_add PRECISION (dec_mul PRECISION (pos_size p) (pos_entry_price p))
                (dec_mul PRECISION (ra_qty args) (ra_price args))) new_size of
         None \<Rightarrow> Inl ReferenceDecimalSignal
       | Some q \<Rightarrow>
           bnd (ref_price L (D q)) (\<lambda>entry.
             Inr (p\<lparr>pos_size := new_size, pos_entry_price := entry, pos_closed_at := None\<rparr>)))"

definition ref_close ::
  "ref_ledger \<Rightarrow> position \<Rightarrow> ref_fill_args \<Rightarrow> stamp option \<Rightarrow>
    ref_error + (position \<times> decimal \<times> closed_trade option)" where
  "ref_close L p args filled_at =
     (let closing_qty = dec_min (ra_qty args) (pos_size p) in
      bnd (ref_money L (D (if pos_side p = LONG then
              dec_mul PRECISION (dec_sub PRECISION (ra_price args) (pos_entry_price p)) closing_qty
            else
              dec_mul PRECISION (dec_sub PRECISION (pos_entry_price p) (ra_price args)) closing_qty)))
        (\<lambda>realized.
      bnd (ref_qty L (D (dec_sub PRECISION (pos_size p) closing_qty))) (\<lambda>remaining.
      let trade =
            (if dec_eq remaining dec_zero then
               Some \<lparr>tr_symbol = ra_symbol args, tr_side = pos_side p, tr_quantity = closing_qty,
                 tr_entry_price = pos_entry_price p, tr_exit_price = ra_price args,
                 tr_realized_pnl = realized, tr_fee = ra_fee args, tr_opened_at = pos_opened_at p,
                 tr_closed_at = filled_at\<rparr>
             else None) in
      if dec_lt (pos_size p) (ra_qty args) then
        bnd (ref_qty L (D (dec_sub PRECISION (ra_qty args) (pos_size p)))) (\<lambda>surplus.
          Inr (ref_new_position args surplus filled_at, realized, trade))
      else
        Inr (p\<lparr>pos_size := remaining,
               pos_closed_at := if dec_eq remaining dec_zero then filled_at else None\<rparr>,
             realized, trade))))"

definition ref_fill_position ::
  "ref_ledger \<Rightarrow> position option \<Rightarrow> ref_fill_args \<Rightarrow> stamp option \<Rightarrow>
    ref_error + (position \<times> decimal \<times> closed_trade option)" where
  "ref_fill_position L open_pos args filled_at =
     (case open_pos of
        None \<Rightarrow> Inr (ref_new_position args (ra_qty args) filled_at, dec_zero, None)
      | Some p \<Rightarrow>
          if pos_side p = ra_side args then
            bnd (ref_accumulate L p args) (\<lambda>q. Inr (q, dec_zero, None))
          else ref_close L p args filled_at)"

text \<open>The cash rule, and the two refusals.\<close>

definition ref_fill_cash ::
  "ref_ledger \<Rightarrow> position option \<Rightarrow> position \<Rightarrow> ref_fill_args \<Rightarrow> ref_error + (decimal \<times> decimal)" where
  "ref_fill_cash L open_pos new_position args =
     bnd (case open_pos of None \<Rightarrow> Inr dec_zero
          | Some p \<Rightarrow> ref_position_value L p (D (ra_price args))) (\<lambda>old_value.
     bnd (if pos_is_open new_position then ref_position_value L new_position (D (ra_price args))
          else Inr dec_zero) (\<lambda>new_value.
       let cash = dec_sub PRECISION old_value new_value;
           available_after = dec_sub PRECISION
             (dec_add PRECISION (dec_add PRECISION (lg_available L) (ra_release args)) cash)
             (ra_fee args);
           locked_after = dec_sub PRECISION (lg_locked L) (ra_release args)
       in if dec_lt locked_after dec_zero then Inl (ReferenceInvariantViolation ''locked_balance'')
          else if dec_lt available_after dec_zero then
            Inl (ReferenceInvariantViolation ''available_balance'')
          else Inr (available_after, locked_after)))"

text \<open>The commit: the writes in their order, each kept when a later step raises.\<close>

definition ref_commit ::
  "nat \<Rightarrow> ref_fill_args \<Rightarrow> string option \<Rightarrow> stamp option \<Rightarrow> position \<Rightarrow> decimal \<Rightarrow>
    closed_trade option \<Rightarrow> decimal \<Rightarrow> decimal \<Rightarrow> decimal \<Rightarrow> ref_fill ref_op" where
  "ref_commit amb args event filled_at new_position realized trade available_after locked_after
     equity_before L =
     attempt (ref_position_pnl L new_position (D (ra_price args))) (\<lambda>pnl L.
       let p = new_position\<lparr>pos_current_price := Some (ra_price args), pos_price_at := filled_at,
                 pos_unrealized_pnl := Some pnl\<rparr>;
           available_before = lg_available L;
           locked_before = lg_locked L;
           L1 = L\<lparr>lg_positions := dset (ra_symbol args) p (lg_positions L),
                  lg_available := available_after, lg_locked := locked_after\<rparr>
       in
       attempt (ref_money L1 (D (dec_add amb (lg_realized L1) realized))) (\<lambda>total_realized L1.
         let L2 = L1\<lparr>lg_realized := total_realized,
                     lg_trades := lg_trades L1 @ (case trade of None \<Rightarrow> [] | Some t \<Rightarrow> [t]),
                     lg_seen := (case event of None \<Rightarrow> lg_seen L1
                                 | Some e \<Rightarrow> List.insert e (lg_seen L1))\<rparr>
         in
         proceed (ref_snapshot amb ''FILL'' filled_at L2) (\<lambda>_ L3.
              attempt (ref_total_equity L3 None) (\<lambda>equity L3.
                let r = \<lparr>rf_applied = True, rf_duplicate = False, rf_symbol = ra_symbol args,
                         rf_quantity = ra_qty args, rf_price = ra_price args, rf_fee = ra_fee args,
                         rf_realized_pnl = realized,
                         rf_available_delta = dec_sub amb (lg_available L3) available_before,
                         rf_locked_delta = dec_sub amb (lg_locked L3) locked_before,
                         rf_equity_delta = dec_sub amb equity equity_before,
                         rf_position = Some p, rf_closed_trade = trade, rf_order_state = None,
                         rf_event_id = event, rf_filled_at = filled_at\<rparr>
                in (L3\<lparr>lg_fills := lg_fills L3 @ [r]\<rparr>, Inr r)) L3)) L1) L"

definition ref_apply_fill ::
  "nat \<Rightarrow> string \<Rightarrow> pyval \<Rightarrow> pyval \<Rightarrow> pyval \<Rightarrow> pyval \<Rightarrow> pyval \<Rightarrow> string option \<Rightarrow> stamp option \<Rightarrow>
    pyval \<Rightarrow> ref_fill ref_op" where
  "ref_apply_fill amb symbol side quantity price fee fee_minor event filled_at release_from_locked L =
     attempt (ref_fill_inputs L symbol side quantity price fee fee_minor release_from_locked)
       (\<lambda>args L.
       if (case event of None \<Rightarrow> False | Some e \<Rightarrow> e \<in> set (lg_seen L)) then
         attempt (ref_no_op_fill L symbol (ra_qty args) (ra_price args) event filled_at None True)
           (\<lambda>r L. (L, Inr r)) L
       else
         attempt (ref_total_equity L (Some [symbol \<mapsto> D (ra_price args)])) (\<lambda>equity_before L.
           let open_pos = (case dget (lg_positions L) symbol of
                 None \<Rightarrow> None | Some p \<Rightarrow> if pos_is_open p then Some p else None) in
           attempt (ref_fill_position L open_pos args filled_at) (\<lambda>(new_position, realized, trade) L.
           attempt (ref_fill_cash L open_pos new_position args) (\<lambda>(available_after, locked_after).
             ref_commit amb args event filled_at new_position realized trade available_after
               locked_after equity_before) L) L) L) L"

text \<open>The last part of \<open>fill_order\<close>: over-fill check, ledger movement, state transition.\<close>

definition ref_fill_and_move ::
  "nat \<Rightarrow> string \<Rightarrow> ref_order \<Rightarrow> decimal \<Rightarrow> pyval \<Rightarrow> pyval \<Rightarrow> pyval \<Rightarrow> string option \<Rightarrow>
    stamp option \<Rightarrow> pyval \<Rightarrow> ref_fill ref_op" where
  "ref_fill_and_move amb oid ord fill_qty price fee fee_minor event filled_at release_from_locked L =
     attempt (ref_qty L (D (dec_add amb (ro_filled ord) fill_qty))) (\<lambda>filled L.
       if dec_lt (ro_quantity ord) filled then (L, Inl ReferenceOverFill)
       else
         proceed (ref_apply_fill amb (ro_symbol ord) (PyStr (ro_side ord)) (D fill_qty) price fee
             fee_minor event filled_at release_from_locked L) (\<lambda>r L1.
           attempt (ref_transition (ord\<lparr>ro_filled := filled\<rparr>)
               (if dec_eq filled (ro_quantity ord) then ''FILLED'' else ''PARTIALLY_FILLED''))
             (\<lambda>ord' L2.
               let r' = r\<lparr>rf_order_state := Some (ro_state ord')\<rparr> in
               ((put_order oid ord' L2)\<lparr>lg_fills := butlast (lg_fills L2) @ [r']\<rparr>, Inr r'))
             (put_order oid (ord\<lparr>ro_filled := filled\<rparr>) L1))) L"

text \<open>A fill of a tracked order: absorbed when the order is terminal or the event is known.\<close>

definition ref_fill_order ::
  "nat \<Rightarrow> string \<Rightarrow> pyval \<Rightarrow> pyval \<Rightarrow> pyval \<Rightarrow> pyval \<Rightarrow> string option \<Rightarrow> stamp option \<Rightarrow> pyval \<Rightarrow>
    ref_fill ref_op" where
  "ref_fill_order amb oid quantity price fee fee_minor event filled_at release_from_locked L =
     attempt (required (dget (lg_orders L) oid)) (\<lambda>ord L.
     attempt (ref_qty L quantity) (\<lambda>fill_qty L.
       if ro_state ord \<in> set TERMINAL_ORDER_STATES then
         attempt (bnd (ref_price L price) (\<lambda>p. ref_no_op_fill L (ro_symbol ord) fill_qty p event
           filled_at (Some (ro_state ord)) False)) (\<lambda>r L. (L, Inr r)) L
       else if (case event of None \<Rightarrow> False | Some e \<Rightarrow> e \<in> set (lg_seen L)) then
         attempt (bnd (ref_price L price) (\<lambda>p. ref_no_op_fill L (ro_symbol ord) fill_qty p event
           filled_at (Some (ro_state ord)) True)) (\<lambda>r L. (L, Inr r)) L
       else ref_fill_and_move amb oid ord fill_qty price fee fee_minor event filled_at
         release_from_locked L) L) L"

section \<open>A fee on its own\<close>

definition ref_apply_fee :: "nat \<Rightarrow> pyval \<Rightarrow> pyval \<Rightarrow> stamp option \<Rightarrow> decimal ref_op" where
  "ref_apply_fee amb amount fee_minor charged_at L =
     attempt (if fee_minor \<noteq> PyNone then fee_from_minor L fee_minor else ref_money L amount) (\<lambda>fee L.
       if dec_lt fee dec_zero then (L, Inl ReferenceBadValue)
       else if dec_lt (lg_available L) fee then
         (L, Inl (ReferenceInvariantViolation ''available_balance''))
       else
         proceed (ref_snapshot amb ''FEE'' charged_at
             (L\<lparr>lg_available := dec_sub amb (lg_available L) fee\<rparr>)) (\<lambda>_ L. (L, Inr fee))) L"

section \<open>Revaluation and stop\<close>

text \<open>The loop over the rows, by key, with the flag \<open>missing\<close>; a row already written stays so.\<close>

fun ref_revalue_loop ::
  "(string \<rightharpoonup> pyval) \<Rightarrow> stamp option \<Rightarrow> string list \<Rightarrow> bool \<Rightarrow> bool ref_op" where
  "ref_revalue_loop prices price_at [] missing L = (L, Inr missing)"
| "ref_revalue_loop prices price_at (k # ks) missing L =
     attempt (required (dget (lg_positions L) k)) (\<lambda>p L.
       if \<not> pos_is_open p then
         attempt (ref_money L (D dec_zero)) (\<lambda>zero L.
           ref_revalue_loop prices price_at ks missing
             (L\<lparr>lg_positions := dset k (p\<lparr>pos_unrealized_pnl := Some zero\<rparr>) (lg_positions L)\<rparr>)) L
       else
         attempt (ref_price_for L p (Some prices)) (\<lambda>current L.
           let q = p\<lparr>pos_current_price := Some current\<rparr>;
               L1 = L\<lparr>lg_positions := dset k q (lg_positions L)\<rparr>;
               absent = (prices (pos_symbol p) = None \<or> prices (pos_symbol p) = Some PyNone) in
           attempt (ref_position_pnl L1 q (D current)) (\<lambda>pnl L1.
             ref_revalue_loop prices price_at ks (missing \<or> absent)
               (L1\<lparr>lg_positions := dset k (q\<lparr>pos_unrealized_pnl := Some pnl,
                   pos_price_at := (if \<not> absent \<and> price_at \<noteq> None then price_at
                                    else pos_price_at q)\<rparr>) (lg_positions L1)\<rparr>)) L1) L) L"

definition ref_revalue ::
  "nat \<Rightarrow> (string \<rightharpoonup> pyval) \<Rightarrow> stamp option \<Rightarrow> string \<Rightarrow> decimal ref_op" where
  "ref_revalue amb prices price_at cause L =
     proceed (ref_revalue_loop prices price_at (map fst (lg_positions L)) False L) (\<lambda>missing L1.
       let L2 = L1\<lparr>lg_stale := missing\<rparr> in
       attempt (ref_total_equity L2 None) (\<lambda>equity L2.
         proceed (ref_snapshot amb cause price_at L2) (\<lambda>_ L3. (L3, Inr equity))) L2)"

definition ref_stop :: "nat \<Rightarrow> stamp option \<Rightarrow> decimal ref_op" where
  "ref_stop amb stopped_at L =
     proceed (ref_snapshot amb ''SESSION_STOP'' stopped_at L) (\<lambda>row L1. (L1, Inr (er_total_equity row)))"

section \<open>Metrics\<close>

definition ref_drawdown_step ::
  "decimal \<Rightarrow> decimal \<times> decimal \<times> decimal \<Rightarrow> decimal \<times> decimal \<times> decimal" where
  "ref_drawdown_step equity st =
     (case st of (peak, amount, peak_at_trough) \<Rightarrow>
       let peak' = (if dec_lt peak equity then equity else peak) in
       if dec_lt amount (dec_sub PRECISION peak' equity)
       then (peak', dec_sub PRECISION peak' equity, peak')
       else (peak', amount, peak_at_trough))"

text \<open>Over the ledger's own series. Unlike the engine, the fraction is rounded in the session's
  mode.\<close>

definition ref_max_drawdown :: "ref_ledger \<Rightarrow> ref_error + drawdown" where
  "ref_max_drawdown L =
     (case map er_total_equity (lg_series L) of
        [] \<Rightarrow> Inr \<lparr>dd_amount = dec_zero, dd_fraction = dec_zero\<rparr>
      | [_] \<Rightarrow> Inr \<lparr>dd_amount = dec_zero, dd_fraction = dec_zero\<rparr>
      | e # es \<Rightarrow>
          (case fold ref_drawdown_step es (e, dec_zero, e) of (_, amount, peak_at_trough) \<Rightarrow>
             if dec_le amount dec_zero then Inr \<lparr>dd_amount = dec_zero, dd_fraction = dec_zero\<rparr>
             else if dec_le peak_at_trough dec_zero then
               Inr \<lparr>dd_amount = amount, dd_fraction = dec_zero\<rparr>
             else
               (case dec_div PRECISION amount peak_at_trough of
                  None \<Rightarrow> Inl ReferenceDecimalSignal
                | Some q \<Rightarrow>
                    bnd (ref_quantize (lg_mode L) FRACTION_QUANTUM q) (\<lambda>f.
                      Inr \<lparr>dd_amount = amount, dd_fraction = dec_min f (dec_of_int 1)\<rparr>))))"

definition ref_win_rate :: "ref_ledger \<Rightarrow> ref_error + decimal option" where
  "ref_win_rate L =
     (let n = length (lg_trades L); wins = length (filter tr_is_win (lg_trades L)) in
      if n = 0 then Inr None
      else
        (case dec_div PRECISION (dec_of_int (int wins)) (dec_of_int (int n)) of
           None \<Rightarrow> Inl ReferenceDecimalSignal
         | Some q \<Rightarrow> bnd (ref_quantize (lg_mode L) FRACTION_QUANTUM q) (\<lambda>r. Inr (Some r))))"

definition ref_margin_usage ::
  "ref_ledger \<Rightarrow> (string \<rightharpoonup> pyval) option \<Rightarrow> ref_error + decimal option" where
  "ref_margin_usage L prices =
     (if \<not> (case lg_market L of None \<Rightarrow> False | Some m \<Rightarrow> m \<in> set MARGIN_MARKET_TYPES) then Inr None
      else
        bnd (foldm (ref_sum_open (\<lambda>p. bnd (ref_price_for L p prices) (\<lambda>c.
               ref_money L (D (dec_mul PRECISION (pos_size p) c))))) dec_zero
               (dvalues (lg_positions L))) (\<lambda>t. Inr (Some t)))"

definition ref_total_return_pct :: "ref_ledger \<Rightarrow> ref_error + decimal option" where
  "ref_total_return_pct L =
     bnd (ref_to_decimal (lg_initial L)) (\<lambda>capital.
       if dec_le capital dec_zero then Inr None
       else
         bnd (ref_total_equity L None) (\<lambda>equity.
           case dec_div PRECISION (dec_sub PRECISION equity capital) capital of
             None \<Rightarrow> Inl ReferenceDecimalSignal
           | Some q \<Rightarrow>
               bnd (ref_quantize (lg_mode L) FRACTION_QUANTUM (dec_mul PRECISION q (dec_of_int 100)))
                 (\<lambda>r. Inr (Some r))))"

text \<open>The projection that is compared with the simulator's stored state.\<close>

record ref_projection =
  rp_available :: decimal
  rp_locked :: decimal
  rp_realized :: decimal
  rp_total_equity :: decimal
  rp_positions :: book
  rp_trades :: "closed_trade list"
  rp_orders :: "(string, ref_order) dict"
  rp_series :: "equity_row list"
  rp_stale :: bool

definition ref_state :: "ref_ledger \<Rightarrow> ref_error + ref_projection" where
  "ref_state L =
     bnd (ref_total_equity L None) (\<lambda>equity.
       Inr \<lparr>rp_available = lg_available L, rp_locked = lg_locked L, rp_realized = lg_realized L,
            rp_total_equity = equity, rp_positions = lg_positions L, rp_trades = lg_trades L,
            rp_orders = lg_orders L, rp_series = lg_series L, rp_stale = lg_stale L\<rparr>)"

end
