(* ===== verification/Ledger_Refinement.thy ===== *)
theory Ledger_Refinement
  imports Reference_Fill
begin

text \<open>
  The reference ledger and the engine, compared: the same configuration gives the same
  quantizers, the same valuation, the same position after a fill and the same cash, so a fill
  the engine applies is applied by the reference ledger with the same result.
\<close>

section \<open>The same quantizers\<close>

lemma precision_eq [simp]: "PRECISION = DECIMAL_PRECISION"
  by (simp add: PRECISION_def DECIMAL_PRECISION_def)

lemma ref_to_decimal_Inr: "ref_to_decimal v = Inr d \<longleftrightarrow> to_decimal v = Inr d"
  by (auto simp: ref_to_decimal_def to_decimal_def split: pyval.splits pydec.splits option.splits)

lemma ref_quantize_Inr: "ref_quantize m u d = Inr q \<longleftrightarrow>
    q = Dec (rescale m d (dexp u)) (dexp u) \<and> fits DECIMAL_PRECISION (rescale m d (dexp u))"
  by (auto simp: ref_quantize_def dec_quantize_Some split: option.splits)
    (simp add: dec_quantize_def Let_def fits_ndigits split: if_splits)

lemma ref_quantizer_bnd:
  "bnd (ref_to_decimal v) (ref_quantize m u) = Inr q \<longleftrightarrow>
    (\<exists>d. to_decimal v = Inr d \<and> q = Dec (rescale m d (dexp u)) (dexp u) \<and>
       fits DECIMAL_PRECISION (rescale m d (dexp u)))"
  by (auto simp: result_simps ref_quantize_Inr ref_to_decimal_Inr)

interpretation ref_money: scale_quantizer "ref_money L" "lg_mode L" "dexp (lg_money_quantum L)" for L
  by unfold_locales (simp add: ref_money_def ref_quantizer_bnd)

interpretation ref_qty: scale_quantizer "ref_qty L" "lg_mode L" "dexp (lg_qty_quantum L)" for L
  by unfold_locales (simp add: ref_qty_def ref_quantizer_bnd)

interpretation ref_price: scale_quantizer "ref_price L" "lg_mode L" "dexp (lg_price_quantum L)" for L
  by unfold_locales (simp add: ref_price_def ref_quantizer_bnd)

text \<open>A ledger running on a configuration.\<close>

definition same_config :: "accounting_config \<Rightarrow> ref_ledger \<Rightarrow> bool" where
  "same_config cfg L \<longleftrightarrow>
     lg_mode L = cfg_rounding_mode cfg \<and> dexp (lg_money_quantum L) = - int (cfg_minor_unit_exponent cfg) \<and>
     dexp (lg_qty_quantum L) = - int (cfg_quantity_precision cfg) \<and>
     dexp (lg_price_quantum L) = - int (cfg_price_precision cfg) \<and>
     lg_fee_rate L = cfg_fee_rate cfg \<and> lg_slippage_rate L = cfg_slippage_rate cfg"

lemma ref_quantizers_agree:
  assumes "same_config cfg L"
  shows "ref_money L v = Inr q \<longleftrightarrow> cfg_money cfg v = Inr q"
    and "ref_qty L v = Inr q \<longleftrightarrow> cfg_qty cfg v = Inr q"
    and "ref_price L v = Inr q \<longleftrightarrow> cfg_price cfg v = Inr q"
  using assms
  by (simp_all add: same_config_def ref_money.quant_iff money.quant_iff ref_qty.quant_iff qty.quant_iff
      ref_price.quant_iff price.quant_iff)

section \<open>The same valuation\<close>

lemma ref_sum_open_cases [simp]:
  "pos_is_open p \<Longrightarrow> ref_sum_open f acc p = bnd (f p) (\<lambda>v. Inr (dec_add DECIMAL_PRECISION acc v))"
  "\<not> pos_is_open p \<Longrightarrow> ref_sum_open f acc p = Inr acc"
  by (simp_all add: ref_sum_open_def)

text \<open>Two loops over the open positions whose steps return the same return the same.\<close>

lemma ref_foldm_agree:
  assumes "\<And>p q. p \<in> set ps \<Longrightarrow> pos_is_open p \<Longrightarrow> f p = Inr q \<longleftrightarrow> g p = Inr q"
  shows "foldm (ref_sum_open f) acc ps = Inr t \<longleftrightarrow> foldm (add_open g) acc ps = Inr t"
  using assms
proof (induction ps arbitrary: acc)
  case (Cons p ps)
  have IH: "foldm (ref_sum_open f) a ps = Inr t \<longleftrightarrow> foldm (add_open g) a ps = Inr t" for a
    using Cons.prems by (intro Cons.IH) simp
  show ?case
  proof (cases "pos_is_open p")
    case True
    then show ?thesis using Cons.prems [of p] by (auto simp: bnd_Inr_iff IH)
  next
    case False
    then show ?thesis by (simp add: IH)
  qed
qed simp

lemma ref_value_agree:
  assumes c: "same_config cfg L" and side: "pos_side p \<in> set SIDES"
  shows "ref_position_value L p (D x) = Inr v \<longleftrightarrow>
      bnd (position_value p (D x)) (\<lambda>w. cfg_money cfg (D w)) = Inr v"
    and "ref_position_pnl L p (D x) = Inr v \<longleftrightarrow>
      bnd (position_unrealized_pnl p (D x)) (\<lambda>w. cfg_money cfg (D w)) = Inr v"
  using side ref_to_decimal_Inr [of "D x" x]
  by (auto simp: ref_position_value_def position_value_def ref_position_pnl_def
      position_unrealized_pnl_def ref_quantizers_agree [OF c] SIDES_def)

text \<open>At prices the book records, or at one price for one symbol.\<close>

lemma ref_mark_agree:
  assumes c: "same_config cfg L" and side: "pos_side p \<in> set SIDES"
    and price: "ref_price_for L p prices = Inr x" and P: "P (pos_symbol p) = Some (D x)"
  shows "bnd (ref_price_for L p prices) (\<lambda>c. ref_position_value L p (D c)) = Inr v \<longleftrightarrow>
    mark P (Some cfg) p = Inr v"
  using ref_value_agree(1) [OF c side] by (simp add: price mark_at_price [of P p x] P)

lemma ref_market_value_agree:
  assumes c: "same_config cfg L" and b: "book_ok cfg (lg_positions L)"
    and P: "\<And>s p. (s, p) \<in> set (lg_positions L) \<Longrightarrow>
      \<exists>x. ref_price_for L p prices = Inr x \<and> P s = Some (D x)"
  shows "ref_market_value L prices = Inr mv \<longleftrightarrow>
    position_market_value (dvalues (lg_positions L)) P (Some cfg) = Inr mv"
  unfolding ref_market_value_def position_market_value_def add_market_value_open
proof (rule ref_foldm_agree)
  fix p q
  assume "p \<in> set (dvalues (lg_positions L))"
  then obtain s where s: "(s, p) \<in> set (lg_positions L)" by auto
  then have ok: "position_ok cfg s p" using b by (auto simp: book_ok_def)
  obtain x where x: "ref_price_for L p prices = Inr x" "P s = Some (D x)" using P [OF s] by blast
  show "bnd (ref_price_for L p prices) (\<lambda>c. ref_position_value L p (D c)) = Inr q \<longleftrightarrow>
      mark P (Some cfg) p = Inr q"
    using ok x by (intro ref_mark_agree [OF c]) (simp_all add: position_ok_def)
qed

lemma ref_value_recorded:
  assumes c: "same_config cfg L" and b: "book_ok cfg (lg_positions L)"
  shows "ref_market_value L None = Inr mv \<longleftrightarrow>
    position_market_value (dvalues (lg_positions L)) (book_prices (lg_positions L)) (Some cfg) = Inr mv"
proof (rule ref_market_value_agree [OF c b])
  fix s p
  assume "(s, p) \<in> set (lg_positions L)"
  then have d: "dget (lg_positions L) s = Some p" using b by (simp add: book_ok_def map_of_eq_Some_iff)
  then have ok: "position_ok cfg s p" by (rule book_ok_dget [OF b])
  then obtain x where x: "pos_current_price p = Some x" by (auto simp: position_ok_def)
  then show "\<exists>x. ref_price_for L p None = Inr x \<and> book_prices (lg_positions L) s = Some (D x)"
    by (simp add: ref_price_for_def book_prices_def as_prices_def last_validated_dget [OF b] d)
qed

section \<open>The same fill\<close>

text \<open>A length, and the letters a case conversion can reach, separate the two vocabularies.\<close>

lemma case_length: "length (py_lower s) = length s" "length (py_upper s) = length s"
  by (simp_all add: py_lower_def py_upper_def)

lemma sell_not_side: "py_lower s = ''sell'' \<Longrightarrow> py_upper s \<noteq> ''LONG''"
proof
  assume l: "py_lower s = ''sell''" and u: "py_upper s = ''LONG''"
  then obtain c r where s: "s = c # r" by (cases s) (auto simp: py_lower_def)
  have "lower_char c = CHR ''s''" "upper_char c = CHR ''L''"
    using l u by (simp_all add: s py_lower_def py_upper_def)
  moreover have "char_of (108::int) \<noteq> CHR ''s''" "char_of (83::int) \<noteq> CHR ''L''" by code_simp+
  ultimately show False by (auto simp: lower_char_def upper_char_def chr_code_def split: if_splits)
qed

lemma direction_agrees:
  assumes "side_for_order v = Inr x"
  shows "ref_direction v = Inr x"
proof -
  from assms obtain s where v: "v = PyStr s"
    and s: "py_lower (py_strip s) = ''buy'' \<and> x = LONG \<or> py_lower (py_strip s) = ''sell'' \<and> x = SHORT"
    by (auto simp: side_for_order_def Let_def split: pyval.splits if_splits)
  have n: "length (py_strip s) = length (py_lower (py_strip s))" by (simp add: case_length)
  have "py_upper (py_strip s) \<notin> set SIDES"
  proof
    assume "py_upper (py_strip s) \<in> set SIDES"
    then have "py_upper (py_strip s) = ''LONG'' \<or> py_upper (py_strip s) = ''SHORT''"
      by (simp add: SIDES_def LONG_def SHORT_def)
    then have len: "length (py_strip s) = 4 \<and> py_upper (py_strip s) = ''LONG'' \<or>
        length (py_strip s) = 5" using case_length(2) [of "py_strip s"] by auto
    then show False using s n sell_not_side [of "py_strip s"] by auto
  qed
  then show ?thesis using s by (auto simp: v ref_direction_def Let_def)
qed

definition ref_args :: "string \<Rightarrow> fill_args \<Rightarrow> ref_fill_args" where
  "ref_args s args = \<lparr>ra_symbol = s, ra_side = fa_side args, ra_qty = fa_qty args,
     ra_price = fa_price args, ra_fee = fa_fee args, ra_release = fa_release args\<rparr>"

lemma ref_inputs_agree:
  assumes c: "same_config cfg L"
    and inp: "fill_inputs order quantity price fee cfg rel = Inr args"
    and side: "order ''side'' = Some v"
  shows "ref_fill_inputs L s v quantity price fee PyNone rel = Inr (ref_args s args)"
proof -
  from inp have sd: "side_for_order v = Inr (fa_side args)"
    and q: "cfg_qty cfg quantity = Inr (fa_qty args)" "cfg_price cfg price = Inr (fa_price args)"
      "cfg_money cfg fee = Inr (fa_fee args)" "cfg_money cfg rel = Inr (fa_release args)"
    and ok: "\<not> dec_le (fa_qty args) dec_zero" "\<not> dec_le (fa_price args) dec_zero"
      "\<not> dec_lt (fa_fee args) dec_zero" "\<not> dec_lt (fa_release args) dec_zero"
    using side by (auto simp: fill_inputs_def py_attr_def result_simps simp del: dec_cmp_zero
        split: option.splits if_splits)
  note r = q [unfolded ref_quantizers_agree [OF c, symmetric]]
  show ?thesis
    using direction_agrees [OF sd] ok by (simp add: ref_fill_inputs_def r ref_args_def)
qed

text \<open>The two positions differ only in what the commit writes.\<close>

definition committed :: "decimal \<Rightarrow> stamp option \<Rightarrow> decimal \<Rightarrow> position \<Rightarrow> position" where
  "committed price t pnl p =
     p\<lparr>pos_current_price := Some price, pos_price_at := t, pos_unrealized_pnl := Some pnl\<rparr>"

lemma ref_accumulate_agrees:
  assumes c: "same_config cfg L" and run: "accumulated_position p args cfg t = Inr q"
    and x: "pos_size p = Dec x (qty_exp cfg)" "0 \<le> x" "x < QTY_LIMIT"
    and y: "fa_qty args = Dec y (qty_exp cfg)" "0 \<le> y" "y < QTY_LIMIT"
  shows "\<exists>q'. ref_accumulate L p (ref_args s args) = Inr q' \<and>
    (\<forall>u. committed (fa_price args) t u q' = q\<lparr>pos_unrealized_pnl := Some u\<rparr>) \<and>
    pos_size q' = pos_size q \<and> pos_side q' = pos_side q \<and> pos_entry_price q' = pos_entry_price q"
proof -
  have fit: "fits DECIMAL_PRECISION (x + y)"
    using x y by (simp add: fits_def QTY_LIMIT_def DECIMAL_PRECISION_def)
  have add: "dec_add DECIMAL_PRECISION (pos_size p) (fa_qty args) = Dec (x + y) (qty_exp cfg)"
    by (simp add: x(1) y(1) dec_add_same fit)
  have quant: "cfg_qty cfg (D (Dec (x + y) (qty_exp cfg))) = Inr (Dec (x + y) (qty_exp cfg))"
    unfolding qty_exp_def by (rule qty.exact [OF fit])
  show ?thesis
    using run [unfolded accumulated_position_def weighted_average_entry_def add quant Let_def]
    by (auto simp: ref_accumulate_def ref_args_def add ref_quantizers_agree [OF c, THEN iffD2] quant
        result_simps mk_position_Inr committed_def split: if_splits option.splits)
qed

lemma ref_close_agrees:
  assumes c: "same_config cfg L" and sym: "fa_symbol args = PyStr s" 
    and run: "closing_position p args cfg t = Inr (q, realized, trade)"
  shows "\<exists>q'. ref_close L p (ref_args s args) t = Inr (q', realized, trade) \<and>
    (\<forall>u. committed (fa_price args) t u q' = q\<lparr>pos_unrealized_pnl := Some u\<rparr>) \<and>
    pos_size q' = pos_size q \<and> pos_side q' = pos_side q \<and> pos_entry_price q' = pos_entry_price q"
proof -
  have lt: "dec_lt a b \<longleftrightarrow> \<not> dec_le b a" for a b by (simp add: dec_order_val not_le)
  have rz: "(if pos_side p = LONG then
       dec_mul DECIMAL_PRECISION (dec_sub DECIMAL_PRECISION (fa_price args) (pos_entry_price p)) k
     else dec_mul DECIMAL_PRECISION (dec_sub DECIMAL_PRECISION (pos_entry_price p) (fa_price args)) k) =
     realized_on_close (pos_side p) (pos_entry_price p) (fa_price args) k" for k
    by (simp add: realized_on_close_def)
  define k where "k = dec_min (fa_qty args) (pos_size p)"
  from run obtain remaining where
    real: "cfg_money cfg (D (realized_on_close (pos_side p) (pos_entry_price p) (fa_price args) k)) =
      Inr realized" and
    rem: "cfg_qty cfg (D (dec_sub DECIMAL_PRECISION (pos_size p) k)) = Inr remaining" and
    pos: "(if dec_le (fa_qty args) (pos_size p) then
             mk_position (p\<lparr>pos_size := remaining, pos_current_price := Some (fa_price args),
               pos_unrealized_pnl := None, pos_price_at := t,
               pos_closed_at := if dec_eq remaining dec_zero then t else None\<rparr>)
           else
             bnd (cfg_qty cfg (D (dec_sub DECIMAL_PRECISION (fa_qty args) (pos_size p))))
               (\<lambda>surplus. opened_position (fa_symbol args) (fa_side args) surplus (fa_price args) t))
        = Inr q" and
    tr: "trade = (if dec_eq remaining dec_zero then
            Some \<lparr>tr_symbol = s, tr_side = pos_side p, tr_quantity = k,
              tr_entry_price = pos_entry_price p, tr_exit_price = fa_price args,
              tr_realized_pnl = realized, tr_fee = fa_fee args,
              tr_opened_at = pos_opened_at p, tr_closed_at = t\<rparr> else None)"
    unfolding closing_position_def Let_def k_def [symmetric] bnd_Inr_iff sym pyval.case
    by (auto simp del: dec_cmp_zero)
  note real' = real [unfolded ref_quantizers_agree(1) [OF c, symmetric]]
    and rem' = rem [unfolded ref_quantizers_agree(2) [OF c, symmetric]]
  show ?thesis
  proof (cases "dec_le (fa_qty args) (pos_size p)")
    case True
    then have q: "q = p\<lparr>pos_size := remaining, pos_current_price := Some (fa_price args),
               pos_unrealized_pnl := None, pos_price_at := t,
               pos_closed_at := if dec_eq remaining dec_zero then t else None\<rparr>"
      using pos by (simp only: if_True mk_position_Inr)
    define q' where "q' = p\<lparr>pos_size := remaining,
          pos_closed_at := if dec_eq remaining dec_zero then t else None\<rparr>"
    have "ref_close L p (ref_args s args) t = Inr (q', realized, trade)"
      unfolding q'_def
      unfolding ref_close_def ref_args_def Let_def ref_fill_args.select_convs precision_eq
        k_def [symmetric] rz real' bnd.simps rem' lt
      using True by (simp add: tr del: dec_cmp_zero)
    then show ?thesis
      by (intro exI [of _ q']) (simp add: q q'_def committed_def del: dec_cmp_zero)
  next
    case False
    then obtain sur where sur: "cfg_qty cfg (D (dec_sub DECIMAL_PRECISION (fa_qty args) (pos_size p))) = Inr sur"
      and op: "opened_position (PyStr s) (fa_side args) sur (fa_price args) t = Inr q"
      using pos by (auto simp: bnd_Inr_iff sym)
    have "ref_close L p (ref_args s args) t =
        Inr (ref_new_position (ref_args s args) sur t, realized, trade)"
      unfolding ref_close_def ref_args_def Let_def ref_fill_args.select_convs precision_eq
        k_def [symmetric] rz real' bnd.simps rem' lt
      using False sur [unfolded ref_quantizers_agree(2) [OF c, symmetric]]
      by (simp add: tr del: dec_cmp_zero)
    then show ?thesis using op
      by (intro exI [of _ "ref_new_position (ref_args s args) sur t"]) (auto simp: ref_new_position_def ref_args_def opened_position_Inr committed_def)
  qed
qed


lemma ref_fill_position_agrees:
  assumes c: "same_config cfg L" and b: "book_ok cfg b"
    and inp: "fill_inputs order quantity price fee cfg rel = Inr args"
    and sym: "fa_symbol args = PyStr s"
    and run: "fill_position (open_position b (PyStr s)) args cfg t = Inr (q, realized, trade)"
    and lim: "dcoeff (fa_qty args) < QTY_LIMIT"
      "\<And>p. open_position b (PyStr s) = Some p \<Longrightarrow> dcoeff (pos_size p) < QTY_LIMIT"
  shows "\<exists>q'. ref_fill_position L (open_position b (PyStr s)) (ref_args s args) t =
      Inr (q', realized, trade) \<and>
    (\<forall>u. committed (fa_price args) t u q' = q\<lparr>pos_unrealized_pnl := Some u\<rparr>) \<and>
    pos_size q' = pos_size q \<and> pos_side q' = pos_side q \<and> pos_entry_price q' = pos_entry_price q"
proof (cases "open_position b (PyStr s)")
  case None
  then show ?thesis using run
    by (auto simp: fill_position_def ref_fill_position_def result_simps opened_position_Inr sym
        ref_new_position_def ref_args_def committed_def)
next
  case (Some p)
  note sz = open_size [OF b Some]
  have y: "fa_qty args = Dec (dcoeff (fa_qty args)) (qty_exp cfg)" "0 \<le> dcoeff (fa_qty args)"
    using fill_inputs_Inr(2,3) [OF inp] by (cases "fa_qty args"; simp)+
  show ?thesis
  proof (cases "pos_side p = fa_side args")
    case True
    then have "accumulated_position p args cfg t = Inr q" and r: "realized = dec_zero" "trade = None"
      using run Some by (auto simp: fill_position_def result_simps)
    from ref_accumulate_agrees [OF c this(1) sz(1) less_imp_le [OF sz(2)] lim(2) [OF Some] y lim(1), of s]
    obtain q' where "ref_accumulate L p (ref_args s args) = Inr q'"
      "\<forall>u. committed (fa_price args) t u q' = q\<lparr>pos_unrealized_pnl := Some u\<rparr>"
      "pos_size q' = pos_size q" "pos_side q' = pos_side q" "pos_entry_price q' = pos_entry_price q"
      by blast
    moreover from this(1) have "ref_fill_position L (Some p) (ref_args s args) t = Inr (q', realized, trade)"
      using True r by (simp add: ref_fill_position_def ref_args_def)
    ultimately show ?thesis using Some by auto
  next
    case False
    then have "closing_position p args cfg t = Inr (q, realized, trade)"
      using run Some by (simp add: fill_position_def)
    from ref_close_agrees [OF c sym this] show ?thesis
      using False Some by (simp add: ref_fill_position_def ref_args_def)
  qed
qed

text \<open>The cash: the two expressions agree in minor units.\<close>

lemma ref_cash_units:
  assumes g: "on_grid e av" "on_grid e rel" "on_grid e ov" "on_grid e nv" "on_grid e fee"
    and lim: "\<bar>coeff_at av e\<bar> < CASH_LIMIT" "\<bar>coeff_at rel e\<bar> < CASH_LIMIT"
      "\<bar>coeff_at ov e\<bar> < CASH_LIMIT" "\<bar>coeff_at nv e\<bar> < CASH_LIMIT" "\<bar>coeff_at fee e\<bar> < CASH_LIMIT"
  defines "r \<equiv> dec_sub DECIMAL_PRECISION (dec_add DECIMAL_PRECISION
    (dec_add DECIMAL_PRECISION av rel) (dec_sub DECIMAL_PRECISION ov nv)) fee"
  shows "on_grid e r"
    and "coeff_at r e = coeff_at av e + coeff_at rel e + (coeff_at ov e - coeff_at nv e) - coeff_at fee e"
proof -
  have f1: "fits DECIMAL_PRECISION (coeff_at av e + coeff_at rel e)"
    by (rule fits_cash) (use lim in linarith)
  note g1 = grid_add [OF prec_pos g(1,2) f1]
  have f2: "fits DECIMAL_PRECISION (coeff_at ov e - coeff_at nv e)"
    by (rule fits_cash) (use lim in linarith)
  note g2 = grid_sub [OF prec_pos g(3,4) f2]
  have f3: "fits DECIMAL_PRECISION (coeff_at (dec_add DECIMAL_PRECISION av rel) e +
      coeff_at (dec_sub DECIMAL_PRECISION ov nv) e)"
    by (rule fits_cash) (simp add: g1(2) g2(2), use lim in linarith)
  note g3 = grid_add [OF prec_pos g1(1) g2(1) f3]
  have f4: "fits DECIMAL_PRECISION (coeff_at (dec_add DECIMAL_PRECISION
      (dec_add DECIMAL_PRECISION av rel) (dec_sub DECIMAL_PRECISION ov nv)) e - coeff_at fee e)"
    by (rule fits_cash) (simp add: g3(2) g1(2) g2(2), use lim in linarith)
  note g4 = grid_sub [OF prec_pos g3(1) g(5) f4]
  show "on_grid e r" unfolding r_def by (rule g4(1))
  show "coeff_at r e = coeff_at av e + coeff_at rel e + (coeff_at ov e - coeff_at nv e) - coeff_at fee e"
    unfolding r_def by (simp add: g4(2) g3(2) g2(2) g1(2))
qed

definition same_ledger :: "accounting_config \<Rightarrow> ref_ledger \<Rightarrow> account \<Rightarrow> book \<Rightarrow> bool" where
  "same_ledger cfg L a b \<longleftrightarrow>
     same_config cfg L \<and> lg_positions L = b \<and>
     on_grid (cash_exp cfg) (lg_available L) \<and> on_grid (cash_exp cfg) (lg_locked L) \<and>
     on_grid (cash_exp cfg) (lg_realized L) \<and> on_grid (cash_exp cfg) (acc_realized a) \<and>
     dval (lg_available L) = dval (acc_available a) \<and> dval (lg_locked L) = dval (acc_locked a) \<and>
     dval (lg_realized L) = dval (acc_realized a)"

lemma grid_coeff_eq: "on_grid e a \<Longrightarrow> on_grid e b \<Longrightarrow> dval a = dval b \<longleftrightarrow> coeff_at a e = coeff_at b e"
  by (simp add: grid_val)

lemma realized_grid:
  assumes "fill_position op args cfg t = Inr (q, realized, trade)"
  shows "on_grid (cash_exp cfg) realized"
  using assms
  by (auto simp: fill_position_def closing_position_def Let_def bnd_Inr_iff
      intro: cfg_money_on_grid split: option.splits if_splits)

lemma ref_fill_cash_agrees:
  assumes same: "same_ledger cfg L a b" and b: "book_ok cfg b" and ok: "cash_ok cfg a"
    and f: "fill_trace_of a b order quantity price fee cfg t rel r f"
    and ex0: "exposure cfg (book_prices (fr_positions r)) (dvalues b) < CASH_LIMIT"
    and ex1: "exposure cfg (book_prices (fr_positions r)) (dvalues (fr_positions r)) < CASH_LIMIT"
    and fee: "dcoeff (fr_fee r) < CASH_LIMIT"
    and q: "pos_size q' = pos_size (ft_position f)" "pos_side q' = pos_side (ft_position f)"
      "pos_entry_price q' = pos_entry_price (ft_position f)"
  shows "\<exists>av lk. ref_fill_cash L (open_position b (PyStr (ft_symbol f))) q'
      (ref_args (ft_symbol f) (ft_args f)) = Inr (av, lk) \<and>
    on_grid (cash_exp cfg) av \<and> on_grid (cash_exp cfg) lk \<and>
    dval av = dval (acc_available (fr_account r)) \<and> dval lk = dval (acc_locked (fr_account r))"
proof -
  let ?e = "cash_exp cfg" and ?op = "open_position b (PyStr (ft_symbol f))" and ?args = "ft_args f"
  note ft = f [unfolded fill_trace_of_def]
  note lm = fill_limits [OF b f ex0 ex1] and u = fill_units [OF b ok f ex0 ex1 fee]
    and fg = fee_grid [OF f] and d = cash_okD [OF ok]
  have c: "same_config cfg L" and lg: "on_grid ?e (lg_available L)" "on_grid ?e (lg_locked L)"
    and eq: "dval (lg_available L) = dval (acc_available a)" "dval (lg_locked L) = dval (acc_locked a)"
    using same by (simp_all add: same_ledger_def)
  have units: "coeff_at (lg_available L) ?e = avail_units cfg a"
    "coeff_at (lg_locked L) ?e = locked_units cfg a"
    using eq grid_coeff_eq [OF lg(1) d(1)] grid_coeff_eq [OF lg(2) d(2)]
    by (simp_all add: avail_units_def locked_units_def)
  have old: "(case ?op of None \<Rightarrow> Inr dec_zero | Some p \<Rightarrow> ref_position_value L p (D (fa_price ?args))) =
      Inr (ft_old_value f)"
  proof (cases ?op)
    case None
    then show ?thesis using ft by (simp add: old_position_value_def)
  next
    case (Some p)
    then show ?thesis using ft ref_value_agree(1) [OF c open_size(3) [OF b Some]]
      by (simp add: old_position_value_def)
  qed
  have pv: "position_value q' v = position_value (ft_position f) v" for v
    using q by (simp add: position_value_def cong: if_cong)
  have side: "pos_side q' \<in> set SIDES" using ft q by (simp add: position_ok_def)
  define nv where "nv = (if pos_is_open q' then ft_new_value f else dec_zero)"
  have new: "(if pos_is_open q' then ref_position_value L q' (D (fa_price ?args)) else Inr dec_zero) = Inr nv"
  proof (cases "pos_is_open q'")
    case True
    have "bnd (position_value q' (D (fa_price ?args))) (\<lambda>v. cfg_money cfg (D v)) = Inr (ft_new_value f)"
      using ft by (simp add: pv)
    then show ?thesis using ref_value_agree(1) [OF c side] True by (simp add: nv_def)
  qed (simp add: nv_def)
  have nvg: "on_grid ?e nv" and nvu: "coeff_at nv ?e = coeff_at (ft_new_value f) ?e"
  proof -
    show "on_grid ?e nv" using fill_facts(4) [OF b f] by (simp add: nv_def)
    have closed: "\<not> pos_is_open q' \<Longrightarrow> dcoeff (pos_size (ft_position f)) = 0"
      using ft q by (auto simp: pos_is_open_def position_ok_def)
    have v: "bnd (position_value (ft_position f) (D (fa_price ?args))) (\<lambda>v. cfg_money cfg (D v)) =
        Inr (ft_new_value f)" using ft by blast
    show "coeff_at nv ?e = coeff_at (ft_new_value f) ?e"
      using closed_value_zero [OF closed v] by (simp add: nv_def)
  qed
  have lim: "\<bar>coeff_at (lg_available L) ?e\<bar> < CASH_LIMIT" "\<bar>coeff_at (fa_release ?args) ?e\<bar> < CASH_LIMIT"
    "\<bar>coeff_at (ft_old_value f) ?e\<bar> < CASH_LIMIT" "\<bar>coeff_at nv ?e\<bar> < CASH_LIMIT"
    "\<bar>coeff_at (fa_fee ?args) ?e\<bar> < CASH_LIMIT"
    using units d u(5) fg lm(4,5) fee nvu by simp_all
  note av = ref_cash_units [OF lg(1) fg(2) lm(1) nvg fg(1) lim]
  have f5: "fits DECIMAL_PRECISION (coeff_at (lg_locked L) ?e - coeff_at (fa_release ?args) ?e)"
    by (rule fits_cash) (use units d u(5) fg(5) in simp)
  note lk = grid_sub [OF prec_pos lg(2) fg(2) f5]
  let ?av = "dec_sub DECIMAL_PRECISION (dec_add DECIMAL_PRECISION
    (dec_add DECIMAL_PRECISION (lg_available L) (fa_release ?args))
    (dec_sub DECIMAL_PRECISION (ft_old_value f) nv)) (fa_fee ?args)"
  let ?lk = "dec_sub DECIMAL_PRECISION (lg_locked L) (fa_release ?args)"
  have cu: "coeff_at ?av ?e = avail_units cfg (fr_account r)"
    "coeff_at ?lk ?e = locked_units cfg (fr_account r)"
    using av(2) lk(2) units u(3,4) nvu fg(3) by simp_all
  have val: "dval ?av = dval (acc_available (fr_account r))" "dval ?lk = dval (acc_locked (fr_account r))"
    using cu grid_coeff_eq [OF av(1) u(1)] grid_coeff_eq [OF lk(1) u(2)]
    by (simp_all add: avail_units_def locked_units_def)
  have "fill_cash a ?args (ft_old_value f) (ft_new_value f) =
      Inr (acc_available (fr_account r), acc_locked (fr_account r))" using ft by blast
  note nn = fill_cash_nonneg [OF this]
  have "\<not> dec_lt ?av dec_zero" "\<not> dec_lt ?lk dec_zero"
    using nn dval_neg_iff [of ?av] dval_neg_iff [of ?lk] val
      dval_neg_iff [of "acc_available (fr_account r)"] dval_neg_iff [of "acc_locked (fr_account r)"]
    by simp_all
  then have "ref_fill_cash L ?op q' (ref_args (ft_symbol f) ?args) = Inr (?av, ?lk)"
    unfolding ref_fill_cash_def ref_args_def ref_fill_args.select_convs precision_eq old new
      bnd.simps Let_def by (simp only: if_False)
  then show ?thesis using av(1) lk(1) val by blast
qed


text \<open>The commit returns, and leaves the engine's state.\<close>

lemma same_config_update [simp]:
  "same_config cfg (L\<lparr>lg_positions := x1\<rparr>) = same_config cfg L"
  "same_config cfg (L\<lparr>lg_available := x2\<rparr>) = same_config cfg L"
  "same_config cfg (L\<lparr>lg_locked := x2\<rparr>) = same_config cfg L"
  "same_config cfg (L\<lparr>lg_realized := x2\<rparr>) = same_config cfg L"
  "same_config cfg (L\<lparr>lg_trades := x3\<rparr>) = same_config cfg L"
  "same_config cfg (L\<lparr>lg_seen := x4\<rparr>) = same_config cfg L"
  "same_config cfg (L\<lparr>lg_series := x5\<rparr>) = same_config cfg L"
  "same_config cfg (L\<lparr>lg_fills := x6\<rparr>) = same_config cfg L"
  "same_config cfg (L\<lparr>lg_stale := x7\<rparr>) = same_config cfg L"
  "same_config cfg (L\<lparr>lg_orders := x8\<rparr>) = same_config cfg L"
  by (simp_all add: same_config_def)

lemma ref_realized_sum:
  assumes c: "same_config cfg L" and g: "on_grid (cash_exp cfg) x" "on_grid (cash_exp cfg) y"
    and amb: "0 < amb" "fits amb (coeff_at x (cash_exp cfg) + coeff_at y (cash_exp cfg))"
      "fits DECIMAL_PRECISION (coeff_at x (cash_exp cfg) + coeff_at y (cash_exp cfg))"
  shows "ref_money L (D (dec_add amb x y)) =
    Inr (Dec (coeff_at x (cash_exp cfg) + coeff_at y (cash_exp cfg)) (cash_exp cfg))"
proof -
  note s = grid_add [OF amb(1) g amb(2)]
  have "rescale m (dec_add amb x y) (cash_exp cfg) = coeff_at (dec_add amb x y) (cash_exp cfg)" for m
    using s(1) by (simp add: rescale_def on_grid_def)
  then show ?thesis
    using c s(2) amb(3) by (simp add: ref_money.quant_iff same_config_def cash_exp_def)
qed

lemma ref_commit_returns:
  assumes c: "same_config cfg L"
    and pnl: "ref_position_pnl L q (D (ra_price args)) = Inr pnl"
    and real: "\<And>L'. same_config cfg L' \<Longrightarrow> ref_money L' (D (dec_add amb (lg_realized L) realized)) = Inr rz"
    and mv: "\<And>L'. same_config cfg L' \<Longrightarrow> lg_positions L' =
        dset (ra_symbol args) (committed (ra_price args) t pnl q) (lg_positions L) \<Longrightarrow>
      ref_market_value L' None = Inr m"
  obtains L' f where
    "ref_commit amb args event t q realized trade av lk before L = (L', Inr f)"
    "same_config cfg L'" "lg_available L' = av" "lg_locked L' = lk" "lg_realized L' = rz"
    "lg_positions L' = dset (ra_symbol args) (committed (ra_price args) t pnl q) (lg_positions L)"
    "lg_trades L' = lg_trades L @ (case trade of None \<Rightarrow> [] | Some x \<Rightarrow> [x])"
    "rf_applied f" "rf_realized_pnl f = realized" "rf_closed_trade f = trade"
    "rf_equity_delta f = dec_sub amb (dec_add DECIMAL_PRECISION (dec_add DECIMAL_PRECISION av lk) m) before"
proof -
  define p where "p = committed (ra_price args) t pnl q"
  define L1 where "L1 = L\<lparr>lg_positions := dset (ra_symbol args) p (lg_positions L),
    lg_available := av, lg_locked := lk\<rparr>"
  define L2 where "L2 = L1\<lparr>lg_realized := rz,
    lg_trades := lg_trades L1 @ (case trade of None \<Rightarrow> [] | Some t \<Rightarrow> [t]),
    lg_seen := (case event of None \<Rightarrow> lg_seen L1 | Some e \<Rightarrow> List.insert e (lg_seen L1))\<rparr>"
  define row where "row = \<lparr>er_index = length (lg_series L2),
    er_total_equity = dec_add amb (dec_add amb av lk) m, er_available = av, er_locked = lk,
    er_market_value = m, er_stale = lg_stale L2, er_cause = ''FILL'', er_taken_at = t\<rparr>"
  define L3 where "L3 = L2\<lparr>lg_series := lg_series L2 @ [row]\<rparr>"
  have c1: "same_config cfg L1" and r1: "lg_realized L1 = lg_realized L" using c by (simp_all add: L1_def)
  have c2: "same_config cfg L2" using c1 by (simp add: L2_def)
  have c3: "same_config cfg L3" using c2 by (simp add: L3_def)
  have pos: "lg_positions L2 = dset (ra_symbol args) p (lg_positions L)"
    "lg_positions L3 = dset (ra_symbol args) p (lg_positions L)"
    by (simp_all add: L3_def L2_def L1_def)
  have bal: "lg_available L2 = av" "lg_locked L2 = lk" "lg_available L3 = av" "lg_locked L3 = lk"
    by (simp_all add: L3_def L2_def L1_def)
  have snap: "ref_snapshot amb ''FILL'' t L2 = (L3, Inr row)"
    using mv [OF c2] pos bal by (simp add: ref_snapshot_def p_def L3_def row_def Let_def)
  have eq: "ref_total_equity L3 None =
      Inr (dec_add DECIMAL_PRECISION (dec_add DECIMAL_PRECISION av lk) m)"
    using mv [OF c3] pos bal by (simp add: ref_total_equity_def p_def)
  define f where "f = \<lparr>rf_applied = True, rf_duplicate = False, rf_symbol = ra_symbol args,
    rf_quantity = ra_qty args, rf_price = ra_price args, rf_fee = ra_fee args,
    rf_realized_pnl = realized, rf_available_delta = dec_sub amb av (lg_available L),
    rf_locked_delta = dec_sub amb lk (lg_locked L),
    rf_equity_delta = dec_sub amb (dec_add DECIMAL_PRECISION (dec_add DECIMAL_PRECISION av lk) m) before,
    rf_position = Some p, rf_closed_trade = trade, rf_order_state = None,
    rf_event_id = event, rf_filled_at = t\<rparr>"
  have run: "ref_commit amb args event t q realized trade av lk before L =
      (L3\<lparr>lg_fills := lg_fills L3 @ [f]\<rparr>, Inr f)"
    unfolding ref_commit_def pnl attempt_Inr Let_def committed_def [symmetric] p_def [symmetric]
      L1_def [symmetric] r1 real [OF c1] L2_def [symmetric] snap proceed_pair eq bal f_def ..
  show thesis
    by (rule that [OF run]) (use c3 in \<open>simp_all add: L3_def L2_def L1_def f_def p_def\<close>)
qed

section \<open>The refinement\<close>

text \<open>The equity before the fill, at the fill's price for its symbol.\<close>

lemma ref_equity_before:
  assumes same: "same_ledger cfg L a b" and b: "book_ok cfg b"
    and f: "fill_trace_of a b order quantity price fee cfg t rel r f"
    and m: "position_market_value (dvalues b) (book_prices (fr_positions r)) (Some cfg) = Inr m"
  shows "ref_market_value L (Some [ft_symbol f \<mapsto> D (fa_price (ft_args f))]) = Inr m"
proof -
  let ?s = "ft_symbol f" and ?x = "fa_price (ft_args f)" and ?P = "book_prices (fr_positions r)"
  have c: "same_config cfg L" and L: "lg_positions L = b" using same by (simp_all add: same_ledger_def)
  note facts = fill_facts [OF b f] and q = fill_traceD [OF f]
  have inp: "fill_inputs order quantity price fee cfg rel = Inr (ft_args f)"
    using f by (simp add: fill_trace_of_def)
  have px: "ref_price L (D ?x) = Inr ?x"
    using price.idem [OF fill_inputs_args(2) [OF inp]] ref_quantizers_agree(3) [OF c] by blast
  have "ref_market_value L (Some [?s \<mapsto> D ?x]) = Inr m \<longleftrightarrow>
      position_market_value (dvalues (lg_positions L)) ?P (Some cfg) = Inr m"
  proof (rule ref_market_value_agree [OF c])
    show "book_ok cfg (lg_positions L)" using b L by simp
    fix k p
    assume "(k, p) \<in> set (lg_positions L)"
    then have d: "dget b k = Some p" using b L by (simp add: book_ok_def map_of_eq_Some_iff)
    have ok: "position_ok cfg k p" by (rule book_ok_dget [OF b d])
    then obtain x where x: "pos_current_price p = Some x" and k: "pos_symbol p = k"
      by (auto simp: position_ok_def)
    show "\<exists>x. ref_price_for L p (Some [?s \<mapsto> D ?x]) = Inr x \<and> ?P k = Some (D x)"
    proof (cases "k = ?s")
      case True
      then show ?thesis using facts(1) px k by (simp add: ref_price_for_def)
    next
      case False
      have "?P k = Some (D x)"
        using fill_book_ok [OF b f] False d x
        by (simp add: book_prices_def as_prices_def last_validated_dget q(2) dict_simps)
      then show ?thesis using False x k by (simp add: ref_price_for_def)
    qed
  qed
  then show ?thesis using m L by simp
qed

text \<open>
  C2: a fill that the engine applies is applied by the reference ledger
  from the same state, and leaves the same state: the same balances and realized profit by
  value, the same positions field by field, and the same closed trade. The equity change the
  reference ledger measures is exactly minus the fee.
\<close>

theorem reference_refines_fill:
  assumes same: "same_ledger cfg L a b" and b: "book_ok cfg b" and ok: "cash_ok cfg a"
    and run: "apply_fill a b order quantity price fee cfg t rel = Inr r"
    and sym: "order ''symbol'' = Some (PyStr s)" and side: "order ''side'' = Some v"
    and fresh: "\<And>e. event = Some e \<Longrightarrow> e \<notin> set (lg_seen L)"
    and ex0: "exposure cfg (book_prices (fr_positions r)) (dvalues b) < CASH_LIMIT"
    and ex1: "exposure cfg (book_prices (fr_positions r)) (dvalues (fr_positions r)) < CASH_LIMIT"
    and fee: "dcoeff (fr_fee r) < 10 ^ 28"
    and real: "\<bar>coeff_at (acc_realized a) (cash_exp cfg) +
      coeff_at (fr_realized_pnl r) (cash_exp cfg)\<bar> < 10 ^ 28" and amb: "28 \<le> amb"
    and q: "cfg_qty cfg quantity = Inr q" "dcoeff q < QTY_LIMIT"
    and lim: "\<And>p. open_position b (PyStr s) = Some p \<Longrightarrow> dcoeff (pos_size p) < QTY_LIMIT"
  shows "\<exists>L' f. ref_apply_fill amb s v quantity price fee PyNone event t rel L = (L', Inr f) \<and>
    same_ledger cfg L' (fr_account r) (fr_positions r) \<and>
    rf_applied f \<and> rf_realized_pnl f = fr_realized_pnl r \<and> rf_closed_trade f = fr_closed_trade r \<and>
    lg_trades L' = lg_trades L @ (case fr_closed_trade r of None \<Rightarrow> [] | Some x \<Rightarrow> [x]) \<and>
    dval (rf_equity_delta f) = - dval (fr_fee r)"
proof -
  let ?e = "cash_exp cfg" and ?P = "book_prices (fr_positions r)"
  obtain f where f: "fill_trace_of a b order quantity price fee cfg t rel r f"
    using apply_fill_trace [OF b run] .
  note ft = f [unfolded fill_trace_of_def]
  let ?args = "ft_args f"
  have inp: "fill_inputs order quantity price fee cfg rel = Inr ?args" using ft by blast
  have s: "ft_symbol f = s" using fill_inputs_symbol [OF inp] ft sym by simp
  have sy: "fa_symbol ?args = PyStr s" using ft s by simp
  have qa: "fa_qty ?args = q" using fill_inputs_args(1) [OF inp] q(1) by simp
  have c: "same_config cfg L" and L: "lg_positions L = b"
    and gr: "on_grid ?e (lg_realized L)" "on_grid ?e (acc_realized a)"
    and gb: "on_grid ?e (lg_available L)" "on_grid ?e (lg_locked L)"
    and ev: "dval (lg_available L) = dval (acc_available a)" "dval (lg_locked L) = dval (acc_locked a)"
      "dval (lg_realized L) = dval (acc_realized a)"
    using same by (simp_all add: same_ledger_def)
  have big: "(10::int) ^ 28 \<le> 10 ^ amb" using amb by (intro power_increasing) simp_all
  have fee': "dcoeff (fr_fee r) < CASH_LIMIT" using fee by (simp add: CASH_LIMIT_def)
  note u = fill_units [OF b ok f ex0 ex1 fee'] and d = cash_okD [OF ok] and fg = fee_grid [OF f]
  have fp: "fill_position (open_position b (PyStr s)) ?args cfg t =
      Inr (ft_position f, fr_realized_pnl r, fr_closed_trade r)" using ft s by blast
  have ql: "dcoeff (fa_qty ?args) < QTY_LIMIT" using qa q(2) by simp
  obtain q' where q': "ref_fill_position L (open_position b (PyStr s)) (ref_args s ?args) t =
      Inr (q', fr_realized_pnl r, fr_closed_trade r)"
    and com: "\<And>u. committed (fa_price ?args) t u q' = (ft_position f)\<lparr>pos_unrealized_pnl := Some u\<rparr>"
    and qs: "pos_size q' = pos_size (ft_position f)" "pos_side q' = pos_side (ft_position f)"
      "pos_entry_price q' = pos_entry_price (ft_position f)"
    using ref_fill_position_agrees [OF c b inp sy fp ql lim] by blast
  obtain av lk where cash: "ref_fill_cash L (open_position b (PyStr s)) q' (ref_args s ?args) = Inr (av, lk)"
    and cg: "on_grid ?e av" "on_grid ?e lk"
    and cv: "dval av = dval (acc_available (fr_account r))" "dval lk = dval (acc_locked (fr_account r))"
    using ref_fill_cash_agrees [OF same b ok f ex0 ex1 fee' qs] s by auto
  obtain m where m: "position_market_value (dvalues b) ?P (Some cfg) = Inr m"
    using fill_facts(2) [OF b f] by blast
  let ?before = "dec_add DECIMAL_PRECISION (dec_add DECIMAL_PRECISION (lg_available L) (lg_locked L)) m"
  have before: "ref_total_equity L (Some [s \<mapsto> D (fa_price ?args)]) = Inr ?before"
    using ref_equity_before [OF same b f m] s by (simp add: ref_total_equity_def)
  have side': "pos_side q' \<in> set SIDES" using ft qs by (simp add: position_ok_def)
  have "position_unrealized_pnl q' w = position_unrealized_pnl (ft_position f) w" for w
    using qs by (simp add: position_unrealized_pnl_def cong: if_cong)
  then have pnl: "ref_position_pnl L q' (D (ra_price (ref_args s ?args))) = Inr (ft_pnl f)"
    using ref_value_agree(2) [OF c side'] ft by (simp add: ref_args_def)
  have rg: "on_grid ?e (fr_realized_pnl r)" by (rule realized_grid [OF fp])
  let ?z = "coeff_at (lg_realized L) ?e + coeff_at (fr_realized_pnl r) ?e"
  have zc: "coeff_at (lg_realized L) ?e = coeff_at (acc_realized a) ?e"
    using ev(3) grid_coeff_eq [OF gr] by blast
  have z: "fits amb ?z" "fits DECIMAL_PRECISION ?z"
    using real big by (simp_all add: zc fits_def DECIMAL_PRECISION_def)
  have a0: "0 < amb" using amb by simp
  have rz: "ref_money L' (D (dec_add amb (lg_realized L) (fr_realized_pnl r))) = Inr (Dec ?z ?e)"
    if "same_config cfg L'" for L'
    by (rule ref_realized_sum [OF that gr(1) rg a0 z])
  have pos: "dset (ra_symbol (ref_args s ?args))
      (committed (ra_price (ref_args s ?args)) t (ft_pnl f) q') (lg_positions L) = fr_positions r"
    using ft com s L by (simp add: ref_args_def)
  have mv: "ref_market_value L' None = Inr (fr_market_value r)"
    if "same_config cfg L'" "lg_positions L' = dset (ra_symbol (ref_args s ?args))
      (committed (ra_price (ref_args s ?args)) t (ft_pnl f) q') (lg_positions L)" for L'
    using ref_value_recorded [OF that(1)] that(2) pos fill_book_ok [OF b f] fill_market_value [OF b f]
    by simp
  obtain L' g where
    cm: "ref_commit amb (ref_args s ?args) event t q' (fr_realized_pnl r) (fr_closed_trade r) av lk
      ?before L = (L', Inr g)"
    and L': "same_config cfg L'" "lg_available L' = av" "lg_locked L' = lk" "lg_realized L' = Dec ?z ?e"
      "lg_positions L' = fr_positions r"
      "lg_trades L' = lg_trades L @ (case fr_closed_trade r of None \<Rightarrow> [] | Some x \<Rightarrow> [x])"
    and g: "rf_applied g" "rf_realized_pnl g = fr_realized_pnl r" "rf_closed_trade g = fr_closed_trade r"
      "rf_equity_delta g = dec_sub amb
        (dec_add DECIMAL_PRECISION (dec_add DECIMAL_PRECISION av lk) (fr_market_value r)) ?before"
    using ref_commit_returns [where event = event and trade = "fr_closed_trade r" and av = av and lk = lk
          and before = ?before and t = t, OF c pnl rz mv, unfolded pos] .
  have run': "ref_apply_fill amb s v quantity price fee PyNone event t rel L = (L', Inr g)"
  proof -
    have seen: "(case event of None \<Rightarrow> False | Some e \<Rightarrow> e \<in> set (lg_seen L)) = False"
      using fresh by (simp split: option.splits)
    have op: "(case dget (lg_positions L) s of None \<Rightarrow> None | Some p \<Rightarrow> if pos_is_open p then Some p else None) =
        open_position b (PyStr s)" by (simp add: open_position_def L)
    have pr: "ra_price (ref_args s ?args) = fa_price ?args" by (simp add: ref_args_def)
    show ?thesis
      unfolding ref_apply_fill_def ref_inputs_agree [OF c inp side] attempt_Inr seen if_False Let_def op
        pr before q' cash prod.case cm ..
  qed
  have real_val: "dval (Dec ?z ?e) = dval (acc_realized (fr_account r))"
    and real_grid: "on_grid ?e (acc_realized (fr_account r))"
  proof -
    have ar: "acc_realized (fr_account r) = dec_add DECIMAL_PRECISION (acc_realized a) (fr_realized_pnl r)"
      using ft by blast
    note h = grid_add [OF prec_pos gr(2) rg z(2) [unfolded zc]]
    show "on_grid ?e (acc_realized (fr_account r))" using h(1) ar by simp
    show "dval (Dec ?z ?e) = dval (acc_realized (fr_account r))"
      using grid_val [OF h(1)] h(2) zc by (simp add: ar dval_Dec)
  qed
  have same': "same_ledger cfg L' (fr_account r) (fr_positions r)"
    using L' cg cv real_val real_grid by (simp add: same_ledger_def)
  have units: "coeff_at av ?e = avail_units cfg (fr_account r)" "coeff_at lk ?e = locked_units cfg (fr_account r)"
    "coeff_at (lg_available L) ?e = avail_units cfg a" "coeff_at (lg_locked L) ?e = locked_units cfg a"
    using cv ev grid_coeff_eq [OF cg(1) u(1)] grid_coeff_eq [OF cg(2) u(2)]
      grid_coeff_eq [OF gb(1) d(1)] grid_coeff_eq [OF gb(2) d(2)]
    by (simp_all add: avail_units_def locked_units_def)
  have l1: "\<bar>coeff_at av ?e\<bar> + \<bar>coeff_at lk ?e\<bar> < 10 * CASH_LIMIT"
    and l0: "\<bar>coeff_at (lg_available L) ?e\<bar> + \<bar>coeff_at (lg_locked L) ?e\<bar> < 10 * CASH_LIMIT"
    using units u(7) d by (simp_all add: CASH_LIMIT_def)
  note e1 = equity_exact [OF cg l1 fill_market_value [OF b f] ex1]
    and e0 = equity_exact [OF gb l0 m ex0]
  have diff: "coeff_at (dec_add DECIMAL_PRECISION (dec_add DECIMAL_PRECISION av lk) (fr_market_value r)) ?e -
      coeff_at ?before ?e = - dcoeff (fr_fee r)"
    using e1(2) e0(2) units u(6) by simp
  have ffee: "fits amb (- dcoeff (fr_fee r))" using fee fg(4) big by (simp add: fits_def)
  note dl = grid_sub [OF a0 e1(1) e0(1), unfolded diff, OF ffee]
  have "dval (rf_equity_delta g) = - dval (fr_fee r)"
    using grid_val [OF dl(1)] dl(2) grid_val [OF fg(1)] fg(3) ft by (simp add: g(4))
  then show ?thesis using run' same' g(1-3) L'(6) by blast
qed

end
