(* ===== verification/Reference_Laws.thy ===== *)
theory Reference_Laws
  imports Ledger_Refinement
begin

text \<open>
  What the reference ledger promises on its own: a refused or repeated fill changes nothing, an
  order is never filled beyond its quantity, its transition table is the production table. It
  also shows the two places where it departs from that: a fill of an order that was never
  accepted, and the rounding of the drawdown fraction.
\<close>

section \<open>Errors of the valuation\<close>

lemma foldm_raises: "foldm f acc xs = Inl e \<Longrightarrow> \<exists>a. \<exists>x \<in> set xs. f a x = Inl e"
proof (induction xs arbitrary: acc)
  case (Cons x xs)
  then show ?case by (auto simp: bnd_Inl_iff) blast+
qed simp

lemma ref_money_raises: "ref_money L (D d) = Inl e \<Longrightarrow> e = ReferenceDecimalSignal"
  by (auto simp: ref_money_def ref_to_decimal_def ref_quantize_def split: option.splits)

definition valuation_error :: "ref_error \<Rightarrow> bool" where
  "valuation_error e \<longleftrightarrow> e = ReferenceDecimalSignal \<or> (\<exists>s. e = ReferenceStalePrice s) \<or>
     e = ReferenceInvariantViolation ''position_side''"

lemma ref_position_value_raises: "ref_position_value L p (D d) = Inl e \<Longrightarrow> valuation_error e"
  by (auto simp: ref_position_value_def ref_to_decimal_def valuation_error_def
      dest: ref_money_raises split: if_splits)

lemma ref_market_value_raises:
  assumes "ref_market_value L None = Inl e"
  shows "valuation_error e"
proof -
  from foldm_raises [OF assms [unfolded ref_market_value_def]] obtain a p where
    "ref_sum_open (\<lambda>p. bnd (ref_price_for L p None) (\<lambda>c. ref_position_value L p (D c))) a p = Inl e"
    by blast
  then have "bnd (ref_price_for L p None) (\<lambda>c. ref_position_value L p (D c)) = Inl e"
    by (cases "pos_is_open p") (auto simp: bnd_Inl_iff)
  then show ?thesis
    by (auto simp: bnd_Inl_iff ref_price_for_def valuation_error_def split: option.splits
        dest!: ref_position_value_raises)
qed

lemma ref_snapshot_raises: "ref_snapshot amb cause t L = (L', Inl e) \<Longrightarrow> valuation_error e"
  by (auto simp: ref_snapshot_def result_simps Let_def dest: ref_market_value_raises)

lemma ref_total_equity_raises: "ref_total_equity L None = Inl e \<Longrightarrow> valuation_error e"
  by (auto simp: ref_total_equity_def bnd_Inl_iff dest: ref_market_value_raises)

section \<open>Refused and repeated fills\<close>

lemma ref_commit_raises:
  assumes "ref_commit amb args event t q realized trade av lk before L = (L', Inl e)"
    and "\<not> valuation_error e"
  shows "L' = L"
  using assms
  by (auto simp: ref_commit_def result_simps Let_def valuation_error_def
      dest!: ref_money_raises ref_snapshot_raises ref_total_equity_raises)

text \<open>
  When the reference ledger refuses a fill for a bad argument or
  because a balance would go negative, it is left exactly as it was: no balance, no position,
  no trade, no snapshot and no remembered event.
\<close>

theorem refused_fill_changes_nothing:
  assumes run: "ref_apply_fill amb s side quantity price fee fee_minor event t rel L = (L', Inl e)"
    and e: "e = ReferenceBadValue \<or> e = ReferenceInvariantViolation ''available_balance'' \<or>
      e = ReferenceInvariantViolation ''locked_balance''"
  shows "L' = L"
proof -
  have n: "\<not> valuation_error e" using e by (auto simp: valuation_error_def)
  show ?thesis using run ref_commit_raises [OF _ n]
    by (auto simp: ref_apply_fill_def result_simps Let_def split: if_splits prod.splits)
qed

lemma ref_commit_seen:
  assumes "ref_commit amb args (Some ev) t q realized trade av lk before L = (L', Inr r)"
  shows "ev \<in> set (lg_seen L')"
  using assms
  by (auto simp: ref_commit_def ref_snapshot_def result_simps Let_def split: prod.splits)

lemma ref_fill_seen:
  assumes "ref_apply_fill amb s side quantity price fee fee_minor (Some ev) t rel L = (L', Inr r)"
  shows "ev \<in> set (lg_seen L')"
  using assms
  by (auto simp: ref_apply_fill_def result_simps Let_def dest: ref_commit_seen
      split: if_splits prod.splits)

lemma ref_fill_repeated:
  assumes "ev \<in> set (lg_seen L)"
  shows "fst (ref_apply_fill amb s side quantity price fee fee_minor (Some ev) t rel L) = L"
  using assms
  by (auto simp: ref_apply_fill_def attempt_def ref_no_op_fill_def split: sum.splits)

text \<open>
  Once a fill with an event identifier has been applied, another fill
  with the same identifier changes nothing, whatever it says.
\<close>

theorem repeated_fill_absorbed:
  assumes "ref_apply_fill amb s side quantity price fee fee_minor (Some ev) t rel L = (L1, Inr r)"
  shows "fst (ref_apply_fill amb2 s2 side2 quantity2 price2 fee2 fee_minor2 (Some ev) t2 rel2 L1) = L1"
  by (rule ref_fill_repeated [OF ref_fill_seen [OF assms]])

section \<open>Orders\<close>

lemma reference_table_row:
  "map_of ORDER_TRANSITIONS (paper_order_value a) = Some (map paper_order_value (PAPER_ORDER_TRANSITIONS a))"
  by (cases a) (simp_all add: ORDER_TRANSITIONS_def)

lemma reference_table_none:
  assumes "current \<notin> range paper_order_value"
  shows "map_of ORDER_TRANSITIONS current = None"
proof -
  have ne: "current \<noteq> paper_order_value a" for a using assms by blast
  show ?thesis
    using ne [of PO_CREATED] ne [of PO_ACCEPTED] ne [of PO_PARTIALLY_FILLED] ne [of PO_FILLED]
      ne [of PO_CANCELLED] ne [of PO_REJECTED] by (simp add: ORDER_TRANSITIONS_def)
qed

lemma ref_table_gate:
  "target \<in> set (case map_of ORDER_TRANSITIONS current of None \<Rightarrow> [] | Some ts \<Rightarrow> ts) \<longleftrightarrow>
    paper_can_transition current target"
proof (cases "PaperOrderState current")
  case (Inl e)
  then have "map_of ORDER_TRANSITIONS current = None"
    by (intro reference_table_none) (simp add: PaperOrderState_Inl)
  then show ?thesis using Inl by (simp add: paper_can_transition_def)
next
  case (Inr a)
  then have "current = paper_order_value a" by (simp add: PaperOrderState_Inr)
  then show ?thesis by (simp add: paper_can_transition_def reference_table_row)
qed

lemma ref_terminal: "s \<in> set TERMINAL_ORDER_STATES \<longleftrightarrow> paper_is_terminal s"
  by (auto simp: TERMINAL_ORDER_STATES_def paper_is_terminal_def PAPER_ORDER_TERMINAL_def)

lemma ref_transition_Inr: "ref_transition ord target = Inr ord' \<longleftrightarrow>
    ord' = ord\<lparr>ro_state := target\<rparr> \<and> paper_can_transition (ro_state ord) target"
  unfolding ref_transition_def ref_table_gate by auto

text \<open>
  The transition table of the reference ledger, written out again over
  strings, permits exactly the transitions the production table permits, and its terminal
  states are the production ones.
\<close>

theorem reference_table:
  "(ref_transition ord target = Inr (ord\<lparr>ro_state := target\<rparr>) \<longleftrightarrow>
      paper_can_transition (ro_state ord) target) \<and>
    (ro_state ord \<in> set TERMINAL_ORDER_STATES \<longleftrightarrow> paper_is_terminal (ro_state ord))"
  by (simp add: ref_transition_Inr ref_terminal)

lemma ref_fill_and_move_returns:
  assumes "ref_fill_and_move amb oid ord fill_qty price fee fee_minor event t rel L = (L', Inr r)"
  shows "\<exists>filled orders ord'. \<not> dec_lt (ro_quantity ord) filled \<and>
    ref_transition (ord\<lparr>ro_filled := filled\<rparr>)
      (if dec_eq filled (ro_quantity ord) then ''FILLED'' else ''PARTIALLY_FILLED'') = Inr ord' \<and>
    lg_orders L' = dset oid ord' orders"
proof -
  from assms obtain filled L1 r1 ord' where
    "\<not> dec_lt (ro_quantity ord) filled"
    "ref_transition (ord\<lparr>ro_filled := filled\<rparr>)
      (if dec_eq filled (ro_quantity ord) then ''FILLED'' else ''PARTIALLY_FILLED'') = Inr ord'"
    "lg_orders L' = dset oid ord' (lg_orders (put_order oid (ord\<lparr>ro_filled := filled\<rparr>) L1))"
    unfolding ref_fill_and_move_def attempt_returns
    by (auto simp: result_simps Let_def put_order_def split: if_split_asm)
  then show ?thesis by (intro exI conjI) assumption+
qed

lemma ref_fill_order_applied:
  assumes ord: "dget (lg_orders L) oid = Some ord"
    and run: "ref_fill_order amb oid quantity price fee fee_minor event t rel L = (L', Inr r)"
    and applied: "rf_applied r"
  shows "\<exists>fill_qty. ref_fill_and_move amb oid ord fill_qty price fee fee_minor event t rel L = (L', Inr r)"
  using run applied
  by (auto simp: ref_fill_order_def required_def ord result_simps ref_no_op_fill_def split: if_split_asm)


text \<open>
  A fill of an order that was never accepted is not refused before the
  ledger moves. The money and the position change and stay changed, and only then the call
  raises because the order's transition is illegal.
\<close>

theorem fill_of_created_order:
  assumes ord: "dget (lg_orders L) oid = Some ord" "ro_state ord = ''CREATED''"
    and fresh: "\<And>e. event = Some e \<Longrightarrow> e \<notin> set (lg_seen L)"
    and q: "ref_qty L quantity = Inr fill_qty"
      "ref_qty L (D (dec_add amb (ro_filled ord) fill_qty)) = Inr filled"
      "\<not> dec_lt (ro_quantity ord) filled"
    and run: "ref_apply_fill amb (ro_symbol ord) (PyStr (ro_side ord)) (D fill_qty) price fee fee_minor
      event t rel L = (L1, Inr r)"
  shows "ref_fill_order amb oid quantity price fee fee_minor event t rel L =
    (put_order oid (ord\<lparr>ro_filled := filled\<rparr>) L1, Inl ReferenceBadTransition)"
proof -
  have tr: "ref_transition (ord\<lparr>ro_filled := filled\<rparr>) target = Inl ReferenceBadTransition"
    if "target = ''FILLED'' \<or> target = ''PARTIALLY_FILLED''" for target
    using ord(2) that by (auto simp: ref_transition_def ORDER_TRANSITIONS_def)
  have "''CREATED'' \<notin> set TERMINAL_ORDER_STATES" by (simp add: TERMINAL_ORDER_STATES_def)
  moreover have "(case event of None \<Rightarrow> False | Some e \<Rightarrow> e \<in> set (lg_seen L)) = False"
    using fresh by (simp split: option.splits)
  ultimately show ?thesis
    using ord q run tr
    by (simp add: ref_fill_order_def ref_fill_and_move_def required_def)
qed

section \<open>The drawdown fraction\<close>

lemma ref_drawdown_step_eq: "ref_drawdown_step = drawdown_step"
  by (intro ext) (simp add: ref_drawdown_step_def drawdown_step_def Let_def split: prod.splits)

definition series_snapshots :: "ref_ledger \<Rightarrow> snapshot list" where
  "series_snapshots L = map (\<lambda>r. SnapRow (Some (D (er_total_equity r))) None) (lg_series L)"

lemma read_series: "read_equities None (map (\<lambda>r. SnapRow (Some (D (f r))) None) rows) = Inr (map f rows)"
  by (induction rows) (simp_all add: snapshot_equity_and_time_def)

text \<open>The engine's computation with a mode, over the reference ledger's series.\<close>

lemma ref_drawdown_engine:
  "ref_max_drawdown L = Inr d \<longleftrightarrow>
    (if length (lg_series L) < 2 then d = \<lparr>dd_amount = dec_zero, dd_fraction = dec_zero\<rparr>
     else drawdown_of (lg_mode L) (map er_total_equity (lg_series L)) = Inr d)"
proof (cases "lg_series L")
  case Nil
  then show ?thesis by (auto simp: ref_max_drawdown_def)
next
  case (Cons x xs)
  note x = Cons
  show ?thesis
  proof (cases xs)
    case Nil
    then show ?thesis by (auto simp: x ref_max_drawdown_def)
  next
    case (Cons y ys)
    obtain pk am pt where st: "fold drawdown_step (er_total_equity y # map er_total_equity ys)
        (er_total_equity x, dec_zero, er_total_equity x) = (pk, am, pt)"
      using prod_cases3 by blast
    have quant: "bnd (ref_quantize (lg_mode L) FRACTION_QUANTUM q) (\<lambda>f. Inr \<lparr>dd_amount = am,
          dd_fraction = dec_min f (dec_of_int 1)\<rparr>) = Inr d \<longleftrightarrow>
        bnd (quantize_dec (lg_mode L) (dexp FRACTION_QUANTUM) q) (\<lambda>f. Inr \<lparr>dd_amount = am,
          dd_fraction = dec_min f (dec_of_int 1)\<rparr>) = Inr d" for q
      by (auto simp: bnd_Inr_iff ref_quantize_Inr quantize_dec_Inr)
    show ?thesis
      using st by (auto simp: x Cons ref_max_drawdown_def drawdown_of_def ref_drawdown_step_eq
          drawdown_fraction_def bnd_assoc quant split: option.splits)
  qed
qed

text \<open>
  Over its own series the reference ledger computes the engine's maximum
  drawdown when the session rounds half to even. The engine always rounds the fraction half to
  even, the reference ledger in the session's mode, so under another mode the two differ: equity
  falling from 3.00 to 2.00 is reported as 0.33333 and as 0.33334 when the session rounds up.
\<close>

theorem reference_drawdown:
  "(lg_mode L = DEFAULT_ROUNDING_MODE \<longrightarrow>
      (ref_max_drawdown L = Inr d \<longleftrightarrow> max_drawdown (series_snapshots L) = Inr d)) \<and>
    (lg_mode L = ROUND_UP \<and> map er_total_equity (lg_series L) = [Dec 300 (- 2), Dec 200 (- 2)] \<longrightarrow>
      ref_max_drawdown L = Inr \<lparr>dd_amount = Dec 100 (- 2), dd_fraction = Dec 33334 (- 5)\<rparr> \<and>
      max_drawdown (series_snapshots L) =
        Inr \<lparr>dd_amount = Dec 100 (- 2), dd_fraction = Dec 33333 (- 5)\<rparr>)"
proof (intro conjI impI)
  assume "lg_mode L = DEFAULT_ROUNDING_MODE"
  then show "ref_max_drawdown L = Inr d \<longleftrightarrow> max_drawdown (series_snapshots L) = Inr d"
    by (auto simp: ref_drawdown_engine max_drawdown_def series_snapshots_def read_series)
next
  assume a: "lg_mode L = ROUND_UP \<and> map er_total_equity (lg_series L) = [Dec 300 (- 2), Dec 200 (- 2)]"
  then have len: "length (lg_series L) = 2"
    by (metis One_nat_def Suc_1 length_Cons length_map list.size(3))
  have up: "drawdown_of ROUND_UP [Dec 300 (- 2), Dec 200 (- 2)] =
      Inr \<lparr>dd_amount = Dec 100 (- 2), dd_fraction = Dec 33334 (- 5)\<rparr>"
    and even: "drawdown_of DEFAULT_ROUNDING_MODE [Dec 300 (- 2), Dec 200 (- 2)] =
      Inr \<lparr>dd_amount = Dec 100 (- 2), dd_fraction = Dec 33333 (- 5)\<rparr>"
    by code_simp+
  show "ref_max_drawdown L = Inr \<lparr>dd_amount = Dec 100 (- 2), dd_fraction = Dec 33334 (- 5)\<rparr>"
    using a len up by (simp add: ref_drawdown_engine)
  show "max_drawdown (series_snapshots L) =
      Inr \<lparr>dd_amount = Dec 100 (- 2), dd_fraction = Dec 33333 (- 5)\<rparr>"
    using a len even by (simp add: max_drawdown_def series_snapshots_def read_series)
qed

end
