(* ===== verification/Worked_Example.thy ===== *)
theory Worked_Example
  imports Paper_Laws Paper_Metrics Reference_Laws
begin

text \<open>
  One session, evaluated: a spot session in dollars with two open positions, and a sale that
  takes one of them through zero. The theorems about the engine and about the reference ledger
  are applied to it, each hypothesis discharged by evaluation.
\<close>

section \<open>The session\<close>

definition demo_cfg :: accounting_config where
  "demo_cfg = \<lparr>cfg_fee_rate = Dec 1 (- 3), cfg_slippage_rate = Dec 5 (- 4),
     cfg_rounding_mode = ROUND_HALF_EVEN, cfg_cost_basis = WEIGHTED_AVERAGE,
     cfg_price_precision = 2, cfg_quantity_precision = 4, cfg_minor_unit_exponent = 2,
     cfg_market_type = Some ''spot''\<rparr>"

definition demo_payload :: "string \<rightharpoonup> pyval" where
  "demo_payload = [''fee_rate'' \<mapsto> PyStr ''0.001'', ''slippage_rate'' \<mapsto> PyStr ''0.0005'',
     ''rounding_mode'' \<mapsto> PyStr ''ROUND_HALF_EVEN'', ''cost_basis'' \<mapsto> PyStr ''WEIGHTED_AVERAGE'',
     ''price_precision'' \<mapsto> PyInt 2, ''quantity_precision'' \<mapsto> PyInt 4,
     ''minor_unit_exponent'' \<mapsto> PyInt 2, ''market_type'' \<mapsto> PyStr '' Spot '']"

definition demo_account :: account where
  "demo_account = \<lparr>acc_available = Dec 1000000 (- 2), acc_locked = Dec 50000 (- 2),
     acc_realized = Dec 0 (- 2), acc_total_equity = Dec 1059110 (- 2), acc_currency = ''USD''\<rparr>"

definition demo_eth :: position where
  "demo_eth = \<lparr>pos_symbol = ''ETH'', pos_side = SHORT, pos_size = Dec 20000 (- 4),
     pos_entry_price = Dec 2000 (- 2), pos_current_price = Some (Dec 1950 (- 2)),
     pos_unrealized_pnl = Some (Dec 100 (- 2)), pos_price_at = Some 1, pos_opened_at = Some 1,
     pos_closed_at = None\<rparr>"

definition demo_btc :: position where
  "demo_btc = \<lparr>pos_symbol = ''BTC'', pos_side = LONG, pos_size = Dec 5000 (- 4),
     pos_entry_price = Dec 10010 (- 2), pos_current_price = Some (Dec 10010 (- 2)),
     pos_unrealized_pnl = Some (Dec 0 (- 2)), pos_price_at = Some 1, pos_opened_at = Some 1,
     pos_closed_at = None\<rparr>"

definition demo_book :: book where
  "demo_book = [(''ETH'', demo_eth), (''BTC'', demo_btc)]"

text \<open>A sale of 0.8 against the open 0.5: the position is closed and reopened on the other side.\<close>

definition demo_order :: "string \<rightharpoonup> pyval" where
  "demo_order = [''symbol'' \<mapsto> PyStr ''BTC'', ''side'' \<mapsto> PyStr ''Sell'']"

definition demo_fill :: "paper_error + fill_result" where
  "demo_fill = apply_fill demo_account demo_book demo_order (PyStr ''0.8'') (PyStr ''90.333'')
     (PyStr ''0.07'') demo_cfg (Some 2) (PyInt 0)"

definition demo_short :: position where
  "demo_short = \<lparr>pos_symbol = ''BTC'', pos_side = SHORT, pos_size = Dec 3000 (- 4),
     pos_entry_price = Dec 9033 (- 2), pos_current_price = Some (Dec 9033 (- 2)),
     pos_unrealized_pnl = Some (Dec 0 (- 2)), pos_price_at = Some 2, pos_opened_at = Some 2,
     pos_closed_at = None\<rparr>"

definition demo_trade :: closed_trade where
  "demo_trade = \<lparr>tr_symbol = ''BTC'', tr_side = LONG, tr_quantity = Dec 5000 (- 4),
     tr_entry_price = Dec 10010 (- 2), tr_exit_price = Dec 9033 (- 2),
     tr_realized_pnl = Dec (- 488) (- 2), tr_fee = Dec 7 (- 2), tr_opened_at = Some 1,
     tr_closed_at = Some 2\<rparr>"

definition demo_result :: fill_result where
  "demo_result = \<lparr>fr_account = \<lparr>acc_available = Dec 1001799 (- 2), acc_locked = Dec 50000 (- 2),
       acc_realized = Dec (- 488) (- 2), acc_total_equity = Dec 1058609 (- 2), acc_currency = ''USD''\<rparr>,
     fr_positions = [(''ETH'', demo_eth), (''BTC'', demo_short)], fr_position = demo_short,
     fr_realized_pnl = Dec (- 488) (- 2), fr_fee = Dec 7 (- 2), fr_available_delta = Dec 1799 (- 2),
     fr_locked_delta = Dec 0 (- 2), fr_realized_delta = Dec (- 488) (- 2),
     fr_total_equity_delta = Dec (- 7) (- 2), fr_market_value = Dec 6810 (- 2),
     fr_closed_trade = Some demo_trade\<rparr>"

lemma demo_fill_run: "apply_fill demo_account demo_book demo_order (PyStr ''0.8'')
    (PyStr ''90.333'') (PyStr ''0.07'') demo_cfg (Some 2) (PyInt 0) = Inr demo_result"
  by code_simp

lemma demo_book_ok: "book_ok demo_cfg demo_book"
  by code_simp

lemma demo_cash_ok: "cash_ok demo_cfg demo_account"
  by code_simp

lemma demo_exposure:
  "exposure demo_cfg (book_prices (fr_positions demo_result)) (dvalues demo_book) < CASH_LIMIT"
  "exposure demo_cfg (book_prices (fr_positions demo_result)) (dvalues (fr_positions demo_result)) < CASH_LIMIT"
  by code_simp+

lemma demo_fee: "dcoeff (fr_fee demo_result) < CASH_LIMIT"
  by code_simp

lemma demo_quantity: "cfg_qty demo_cfg (PyStr ''0.8'') = Inr (Dec 8000 (- 4))" "dcoeff (Dec 8000 (- 4)) < QTY_LIMIT"
  by code_simp+

lemma demo_open: "open_position demo_book (PyStr ''BTC'') = Some demo_btc"
  by code_simp

lemma demo_open_size: "open_position demo_book (PyStr ''BTC'') = Some p \<Longrightarrow> dcoeff (pos_size p) < QTY_LIMIT"
  by (simp add: demo_open) code_simp

lemma demo_order_is: "demo_order ''symbol'' = Some (PyStr ''BTC'')" "demo_order ''side'' = Some (PyStr ''Sell'')"
  "side_for_order (PyStr ''Sell'') = Inr SHORT"
  by code_simp+

section \<open>The engine\<close>

lemma cfg_money_sound_witness:
  "\<bar>dval (Dec 100 (- 2)) - dval (Dec 1005 (- 3))\<bar> \<le> 10 powi (- int (cfg_minor_unit_exponent demo_cfg)) \<and>
    cfg_money demo_cfg (D (Dec 100 (- 2))) = Inr (Dec 100 (- 2)) \<and>
    dval (Dec 100 (- 2)) \<le> dval (Dec 102 (- 2))"
proof -
  have q: "cfg_money demo_cfg (PyStr ''1.005'') = Inr (Dec 100 (- 2))"
    "cfg_money demo_cfg (PyStr ''1.015'') = Inr (Dec 102 (- 2))"
    and d: "to_decimal (PyStr ''1.005'') = Inr (Dec 1005 (- 3))"
    "to_decimal (PyStr ''1.015'') = Inr (Dec 1015 (- 3))"
    by code_simp+
  have "dval (Dec 1005 (- 3)) \<le> dval (Dec 1015 (- 3))" by (simp add: dval_Dec)
  then show ?thesis using cfg_money_sound [OF q d] by blast
qed

lemma config_complete_witness:
  "from_session_config (Some demo_payload) = Inr demo_cfg \<and>
    map_option to_decimal (demo_payload ''fee_rate'') = Some (Inr (Dec 1 (- 3)))"
proof
  show run: "from_session_config (Some demo_payload) = Inr demo_cfg" by code_simp
  show "map_option to_decimal (demo_payload ''fee_rate'') = Some (Inr (Dec 1 (- 3)))"
    using config_complete [OF run] by (simp add: demo_cfg_def)
qed

lemma demo_lock: "cfg_money demo_cfg (PyStr ''250.004'') = Inr (Dec 25000 (- 2))"
  by code_simp

lemma lock_reserves_witness:
  "lock demo_account (PyStr ''250.004'') demo_cfg = Inr (demo_account
      \<lparr>acc_available := Dec 975000 (- 2), acc_locked := Dec 75000 (- 2)\<rparr>) \<and>
    dval (Dec 975000 (- 2)) = dval (Dec 1000000 (- 2)) - dval (Dec 25000 (- 2))"
proof
  show run: "lock demo_account (PyStr ''250.004'') demo_cfg = Inr (demo_account
      \<lparr>acc_available := Dec 975000 (- 2), acc_locked := Dec 75000 (- 2)\<rparr>)" by code_simp
  show "dval (Dec 975000 (- 2)) = dval (Dec 1000000 (- 2)) - dval (Dec 25000 (- 2))"
    using lock_reserves [OF demo_cash_ok demo_lock] by (simp add: run) (simp add: demo_account_def)
qed

lemma unlock_releases_witness:
  "unlock demo_account (PyStr ''250.004'') demo_cfg = Inr (demo_account
      \<lparr>acc_available := Dec 1025000 (- 2), acc_locked := Dec 25000 (- 2)\<rparr>) \<and>
    dval (Dec 25000 (- 2)) \<le> dval (acc_locked demo_account)"
proof
  show run: "unlock demo_account (PyStr ''250.004'') demo_cfg = Inr (demo_account
      \<lparr>acc_available := Dec 1025000 (- 2), acc_locked := Dec 25000 (- 2)\<rparr>)" by code_simp
  show "dval (Dec 25000 (- 2)) \<le> dval (acc_locked demo_account)"
    using unlock_releases [OF demo_cash_ok demo_lock] by (simp add: run)
qed

text \<open>Only the short position has a price, and the long one stops the valuation.\<close>

definition demo_prices :: "string \<rightharpoonup> pyval" where
  "demo_prices = [''ETH'' \<mapsto> PyStr ''18.5'', ''BTC'' \<mapsto> PyNone]"

lemma market_value_complete_witness:
  "position_market_value (dvalues demo_book) demo_prices (Some demo_cfg) = Inl (StalePrice ''BTC'')"
proof -
  have ex: "exposure demo_cfg demo_prices (dvalues demo_book) < CASH_LIMIT" by code_simp
  have split: "dvalues demo_book = [demo_eth] @ demo_btc # []" by (simp add: demo_book_def)
  have t: "position_market_value [demo_eth] demo_prices (Some demo_cfg) = Inr (Dec 4300 (- 2))"
    by code_simp
  have "pos_is_open demo_btc \<and> \<not> priced demo_prices demo_btc \<and> pos_symbol demo_btc = ''BTC''"
    by code_simp
  then show ?thesis using market_value_complete [OF ex] split t by metis
qed

lemma entry_price_between_witness:
  "min (dval (Dec 10010 (- 2))) (dval (Dec 9033 (- 2))) \<le> dval (Dec 9409 (- 2)) \<and>
    dval (Dec 9409 (- 2)) \<le> max (dval (Dec 10010 (- 2))) (dval (Dec 9033 (- 2))) \<and>
    dexp (Dec 9409 (- 2)) = dexp (Dec 10010 (- 2))"
proof (rule entry_price_between)
  show "weighted_average_entry (Dec 5000 (- 4)) (Dec 10010 (- 2)) (Dec 8000 (- 4)) (Dec 9033 (- 2)) demo_cfg
    = Inr (Dec 9409 (- 2))" by code_simp
qed (simp_all add: demo_cfg_def DECIMAL_PRECISION_def)

section \<open>The fill\<close>

lemma apply_fill_invariants_witness:
  "violated_invariant (fr_account demo_result) (dvalues (fr_positions demo_result))
    (book_prices (fr_positions demo_result)) (Some demo_cfg) = Inr None"
  by (rule apply_fill_invariants [OF demo_book_ok demo_fill_run])

lemma apply_fill_book_witness:
  "book_ok demo_cfg (fr_positions demo_result) \<and> dget (fr_positions demo_result) ''ETH'' = Some demo_eth"
proof -
  obtain s where "book_ok demo_cfg (fr_positions demo_result)" and s: "demo_order ''symbol'' = Some (PyStr s)"
    and q: "dget (fr_positions demo_result) = (dget demo_book)(s \<mapsto> fr_position demo_result)"
    using apply_fill_book [OF demo_book_ok demo_fill_run] by blast
  moreover have "s = ''BTC''" using s by (simp add: demo_order_is)
  ultimately show ?thesis by (simp add: demo_book_def)
qed

lemma apply_fill_equity_witness:
  "\<exists>before. total_equity demo_account (dvalues demo_book) (book_prices (fr_positions demo_result))
      (Some demo_cfg) = Inr before \<and>
    dval (acc_total_equity (fr_account demo_result)) = dval before - dval (fr_fee demo_result)"
  by (rule apply_fill_equity [OF demo_book_ok demo_cash_ok demo_fill_run demo_exposure demo_fee])

lemma apply_fill_size_witness:
  "signed_size demo_short = signed_size demo_btc - dval (Dec 8000 (- 4))"
  using apply_fill_size [OF demo_book_ok demo_fill_run demo_order_is demo_quantity demo_open_size]
  by (simp add: demo_open) (simp add: demo_result_def)


definition demo_valuation :: valuation where
  "demo_valuation = \<lparr>val_account = demo_account\<lparr>acc_total_equity := Dec 1059300 (- 2)\<rparr>,
     val_positions = [(''ETH'', demo_eth\<lparr>pos_current_price := Some (Dec 185 (- 1)),
         pos_unrealized_pnl := Some (Dec 300 (- 2)), pos_price_at := Some 3\<rparr>),
       (''BTC'', demo_btc\<lparr>pos_current_price := Some (Dec 100 0),
         pos_unrealized_pnl := Some (Dec (- 5) (- 2)), pos_price_at := Some 3\<rparr>)],
     val_market_value = Dec 9300 (- 2), val_unrealized_pnl = Dec 295 (- 2), val_price_at = Some 3\<rparr>"

definition demo_marks :: "string \<rightharpoonup> pyval" where
  "demo_marks = [''ETH'' \<mapsto> PyStr ''18.5'', ''BTC'' \<mapsto> PyInt 100]"

lemma recalculate_sound_witness:
  "violated_invariant (val_account demo_valuation) (dvalues (val_positions demo_valuation)) demo_marks
      (Some demo_cfg) = Inr None \<and>
    unrealized_pnl (dvalues demo_book) demo_marks (Some demo_cfg) = Inr (Dec 295 (- 2))"
proof -
  have run: "recalculate demo_account demo_book demo_marks demo_cfg (Some 3) = Inr demo_valuation"
    by code_simp
  have nn: "0 \<le> dcoeff (acc_available demo_account)" "0 \<le> dcoeff (acc_locked demo_account)"
    by (simp_all add: demo_account_def)
  show ?thesis
    using recalculate_sound [OF demo_book_ok run nn] by (simp add: demo_valuation_def)
qed

section \<open>The metrics\<close>

text \<open>Equity rises to 120.00, falls to 90.00 and recovers.\<close>

definition demo_series :: "snapshot list" where
  "demo_series = [SnapRow (Some (PyStr ''100.00'')) (Some 1), SnapObject (PyStr ''120.00'') (Some 2),
     SnapBare (PyStr ''90.00''), SnapRow (Some (PyStr ''110.00'')) (Some 4)]"

definition demo_equities :: "decimal list" where
  "demo_equities = [Dec 10000 (- 2), Dec 12000 (- 2), Dec 9000 (- 2), Dec 11000 (- 2)]"

lemma max_drawdown_correct_witness:
  "dval (demo_equities ! 0) - dval (demo_equities ! 2) \<le> dval (Dec 3000 (- 2)) \<and>
    dval (demo_equities ! 1) - dval (demo_equities ! 3) \<le> dval (Dec 3000 (- 2)) \<and>
    dval (Dec 25000 (- 5)) \<le> 1 \<and>
    max_drawdown demo_series = Inr \<lparr>dd_amount = Dec 3000 (- 2), dd_fraction = Dec 25000 (- 5)\<rparr>"
proof -
  have run: "max_drawdown demo_series = Inr \<lparr>dd_amount = Dec 3000 (- 2), dd_fraction = Dec 25000 (- 5)\<rparr>"
    and es: "read_equities None demo_series = Inr demo_equities"
    and grid: "on_bounded_grid (- 2) demo_equities"
    by code_simp+
  have len: "length demo_equities = 4" by (simp add: demo_equities_def)
  note c = max_drawdown_correct [OF run es grid, unfolded len]
  have "dval (demo_equities ! 0) - dval (demo_equities ! 2) \<le> dval (Dec 3000 (- 2))"
    "dval (demo_equities ! 1) - dval (demo_equities ! 3) \<le> dval (Dec 3000 (- 2))"
    using conjunct1 [OF c, rule_format, of 0 2] conjunct1 [OF c, rule_format, of 1 3] by simp_all
  then show ?thesis using c run by simp
qed

definition demo_trades :: "(string \<rightharpoonup> pyval) list" where
  "demo_trades = [[''realized_pnl'' \<mapsto> PyStr ''3.50''], [''realized_pnl'' \<mapsto> PyStr ''-4.88''],
     [''realized_pnl'' \<mapsto> PyInt 0]]"

lemma win_rate_correct_witness:
  "win_rate demo_trades (PyStr ''ROUND_HALF_EVEN'') = Inr (Some (Dec 33333 (- 5))) \<and>
    0 \<le> dval (Dec 33333 (- 5)) \<and> dval (Dec 33333 (- 5)) \<le> 1"
proof -
  have run: "win_rate demo_trades (PyStr ''ROUND_HALF_EVEN'') = Inr (Some (Dec 33333 (- 5)))"
    by code_simp
  show ?thesis using win_rate_correct [OF run] run by simp
qed

definition demo_metrics :: session_metrics where
  "demo_metrics = \<lparr>sm_realized_pnl = Dec 0 (- 2), sm_unrealized_pnl = Dec 295 (- 2),
     sm_total_equity = Dec 1059110 (- 2), sm_market_value = Dec 9300 (- 2),
     sm_drawdown_amount = Dec 3000 (- 2), sm_drawdown_fraction = Dec 25000 (- 5),
     sm_closed_trade_count = 0, sm_total_return_pct = None, sm_win_rate = None,
     sm_margin_usage = None, sm_stale = False, sm_price_at = Some 1\<rparr>"

lemma absent_figures_witness:
  "dget (to_row demo_metrics) ''win_rate'' = None \<and>
    dget (to_row demo_metrics) ''total_return_pct'' = None \<and>
    dget (to_row demo_metrics) ''total_equity'' = Some (CellDec (Dec 1059110 (- 2)))"
proof -
  have run: "compute_metrics demo_account demo_book demo_marks demo_series [] demo_cfg PyNone False None
    = Inr demo_metrics" by code_simp
  show ?thesis using absent_figures [OF run] by (simp add: demo_account_def)
qed

section \<open>The reference ledger\<close>

text \<open>The same session in the reference ledger, with an accepted order for 0.8 and one that was
  never accepted.\<close>

definition demo_ref_order :: ref_order where
  "demo_ref_order = \<lparr>ro_id = ''ref-order-1'', ro_symbol = ''BTC'', ro_side = ''sell'',
     ro_type = ''market'', ro_quantity = Dec 8000 (- 4), ro_limit_price = None, ro_filled = Dec 0 (- 4),
     ro_state = ''ACCEPTED'', ro_rejection = None, ro_key = None, ro_created_at = Some 1\<rparr>"

definition demo_new_order :: ref_order where
  "demo_new_order = demo_ref_order\<lparr>ro_id := ''ref-order-2'', ro_state := ''CREATED''\<rparr>"

definition demo_ledger :: ref_ledger where
  "demo_ledger = \<lparr>lg_fee_rate = Dec 1 (- 3), lg_slippage_rate = Dec 5 (- 4), lg_mode = ROUND_HALF_EVEN,
     lg_money_quantum = Dec 1 (- 2), lg_qty_quantum = Dec 1 (- 4), lg_price_quantum = Dec 1 (- 2),
     lg_minor = 2, lg_market = Some ''spot'', lg_initial = PyStr ''10500'',
     lg_available = Dec 1000000 (- 2), lg_locked = Dec 50000 (- 2), lg_realized = Dec 0 (- 2),
     lg_positions = demo_book, lg_trades = [],
     lg_orders = [(''ref-order-1'', demo_ref_order), (''ref-order-2'', demo_new_order)], lg_fills = [],
     lg_series = [\<lparr>er_index = 0, er_total_equity = Dec 300 (- 2), er_available = Dec 300 (- 2),
         er_locked = Dec 0 (- 2), er_market_value = Dec 0 0, er_stale = False,
         er_cause = ''SESSION_START'', er_taken_at = None\<rparr>,
       \<lparr>er_index = 1, er_total_equity = Dec 200 (- 2), er_available = Dec 200 (- 2),
         er_locked = Dec 0 (- 2), er_market_value = Dec 0 0, er_stale = False,
         er_cause = ''FEE'', er_taken_at = None\<rparr>],
     lg_seen = [''e0''], lg_stale = False, lg_sequence = 2, lg_by_key = []\<rparr>"

lemma demo_same: "same_ledger demo_cfg demo_ledger demo_account demo_book"
  unfolding same_ledger_def same_config_def
  by (simp add: demo_ledger_def demo_cfg_def demo_account_def cash_exp_def)

lemma demo_fresh: "(Some ''e1'' = Some e) \<Longrightarrow> e \<notin> set (lg_seen demo_ledger)"
  by (auto simp: demo_ledger_def)

lemma reference_refines_fill_witness:
  "\<exists>L' f. ref_apply_fill 28 ''BTC'' (PyStr ''Sell'') (PyStr ''0.8'') (PyStr ''90.333'') (PyStr ''0.07'')
      PyNone (Some ''e1'') (Some 2) (PyInt 0) demo_ledger = (L', Inr f) \<and>
    same_ledger demo_cfg L' (fr_account demo_result) (fr_positions demo_result) \<and>
    rf_closed_trade f = Some demo_trade \<and> dval (rf_equity_delta f) = - dval (Dec 7 (- 2))"
proof -
  have fee: "dcoeff (fr_fee demo_result) < 10 ^ 28" by (simp add: demo_result_def)
  have real: "\<bar>coeff_at (acc_realized demo_account) (cash_exp demo_cfg) +
      coeff_at (fr_realized_pnl demo_result) (cash_exp demo_cfg)\<bar> < 10 ^ 28" by code_simp
  have amb: "28 \<le> (28::nat)" by simp
  show ?thesis
    using reference_refines_fill [where event = "Some ''e1''", OF demo_same demo_book_ok demo_cash_ok
        demo_fill_run demo_order_is(1,2) demo_fresh demo_exposure fee real amb demo_quantity demo_open_size]
    by (auto simp: demo_result_def)
qed

lemma refused_fill_changes_nothing_witness:
  "ref_apply_fill 28 ''BTC'' (PyStr ''buy'') (PyInt 1) (PyInt 90000) (PyStr ''0.07'') PyNone (Some ''e1'')
    (Some 2) (PyInt 0) demo_ledger = (demo_ledger, Inl (ReferenceInvariantViolation ''available_balance''))"
proof -
  let ?r = "ref_apply_fill 28 ''BTC'' (PyStr ''buy'') (PyInt 1) (PyInt 90000) (PyStr ''0.07'') PyNone
    (Some ''e1'') (Some 2) (PyInt 0) demo_ledger"
  have "snd ?r = Inl (ReferenceInvariantViolation ''available_balance'')" by code_simp
  then have run: "?r = (fst ?r, Inl (ReferenceInvariantViolation ''available_balance''))"
    by (simp add: prod_eq_iff)
  then show ?thesis using refused_fill_changes_nothing [OF run] by simp
qed

text \<open>A call whose outcome is known, named by its two components.\<close>

lemma outcome: "snd r = q \<Longrightarrow> r = (fst r, q)"
  by (simp add: prod_eq_iff)

definition demo_applied :: "ref_ledger \<times> (ref_error + ref_fill)" where
  "demo_applied = ref_apply_fill 28 ''BTC'' (PyStr ''sell'') (D (Dec 8000 (- 4))) (PyStr ''90.333'')
     (PyStr ''0.07'') PyNone (Some ''e1'') (Some 2) (PyInt 0) demo_ledger"

lemma demo_applied_returns: "\<exists>r. snd demo_applied = Inr r"
proof -
  have "\<not> isl (snd demo_applied)" by code_simp
  then show ?thesis by (cases "snd demo_applied") simp_all
qed

lemma repeated_fill_absorbed_witness:
  "fst (ref_apply_fill 28 ''ETH'' (PyStr ''buy'') (PyInt 3) (PyInt 5) (PyInt 0) PyNone (Some ''e1'') None
    (PyInt 0) (fst demo_applied)) = fst demo_applied"
proof -
  obtain r where "snd demo_applied = Inr r" using demo_applied_returns by blast
  then have "demo_applied = (fst demo_applied, Inr r)" by (rule outcome)
  from repeated_fill_absorbed [OF this [unfolded demo_applied_def]]
  show ?thesis unfolding demo_applied_def .
qed

lemma fill_of_created_order_witness:
  "ref_fill_order 28 ''ref-order-2'' (PyStr ''0.8'') (PyStr ''90.333'') (PyStr ''0.07'') PyNone
      (Some ''e1'') (Some 2) (PyInt 0) demo_ledger =
    (put_order ''ref-order-2'' (demo_new_order\<lparr>ro_filled := Dec 8000 (- 4)\<rparr>) (fst demo_applied),
     Inl ReferenceBadTransition)"
proof -
  have ord: "dget (lg_orders demo_ledger) ''ref-order-2'' = Some demo_new_order"
    "ro_state demo_new_order = ''CREATED''"
    by (simp_all add: demo_ledger_def demo_new_order_def)
  have q: "ref_qty demo_ledger (PyStr ''0.8'') = Inr (Dec 8000 (- 4))"
    "ref_qty demo_ledger (D (dec_add 28 (ro_filled demo_new_order) (Dec 8000 (- 4)))) = Inr (Dec 8000 (- 4))"
    "\<not> dec_lt (ro_quantity demo_new_order) (Dec 8000 (- 4))"
    by code_simp+
  obtain r where "snd demo_applied = Inr r" using demo_applied_returns by blast
  from outcome [OF this]
  have run: "ref_apply_fill 28 (ro_symbol demo_new_order) (PyStr (ro_side demo_new_order))
      (D (Dec 8000 (- 4))) (PyStr ''90.333'') (PyStr ''0.07'') PyNone (Some ''e1'') (Some 2) (PyInt 0)
      demo_ledger = (fst demo_applied, Inr r)"
    by (simp add: demo_applied_def demo_new_order_def demo_ref_order_def)
  show ?thesis
    using fill_of_created_order [where event = "Some ''e1''", OF ord demo_fresh q run] .
qed

definition demo_filled :: "ref_ledger \<times> (ref_error + ref_fill)" where
  "demo_filled = ref_fill_order 28 ''ref-order-1'' (PyStr ''0.5'') (PyStr ''90.333'') (PyStr ''0.07'')
     PyNone (Some ''e1'') (Some 2) (PyInt 0) demo_ledger"


lemma reference_drawdown_witness:
  "ref_max_drawdown demo_ledger = Inr \<lparr>dd_amount = Dec 100 (- 2), dd_fraction = Dec 33333 (- 5)\<rparr> \<and>
    ref_max_drawdown (demo_ledger\<lparr>lg_mode := ROUND_UP\<rparr>) =
      Inr \<lparr>dd_amount = Dec 100 (- 2), dd_fraction = Dec 33334 (- 5)\<rparr>"
proof
  have "max_drawdown (series_snapshots demo_ledger) =
      Inr \<lparr>dd_amount = Dec 100 (- 2), dd_fraction = Dec 33333 (- 5)\<rparr>" by code_simp
  moreover have "lg_mode demo_ledger = DEFAULT_ROUNDING_MODE"
    by (simp add: demo_ledger_def DEFAULT_ROUNDING_MODE_def)
  ultimately show "ref_max_drawdown demo_ledger =
      Inr \<lparr>dd_amount = Dec 100 (- 2), dd_fraction = Dec 33333 (- 5)\<rparr>"
    using reference_drawdown [of demo_ledger] by blast
  show "ref_max_drawdown (demo_ledger\<lparr>lg_mode := ROUND_UP\<rparr>) =
      Inr \<lparr>dd_amount = Dec 100 (- 2), dd_fraction = Dec 33334 (- 5)\<rparr>"
    using reference_drawdown [of "demo_ledger\<lparr>lg_mode := ROUND_UP\<rparr>"] by (simp add: demo_ledger_def)
qed

end
