(* ===== verification/Graph_Search.thy ===== *)
theory Graph_Search
  imports Prelude
begin

text \<open>
  The graph walks of \<open>backend/strategy_dag/validator.py\<close>, over the adjacency dictionary they all
  share: a key per node with successors, its successors in order. \<open>_reachable_from\<close> keeps a stack
  of nodes to visit; \<open>find_cycle\<close> keeps a stack of half-scanned successor lists beside three
  colours and the current path. A stack is a list with its top first.
\<close>

section \<open>Adjacency\<close>

text \<open>\<open>adjacency.get(n, ())\<close>.\<close>

definition targets :: "('v, 'w list) dict \<Rightarrow> 'v \<Rightarrow> 'w list" where
  "targets adj n = (case dget adj n of None \<Rightarrow> [] | Some ts \<Rightarrow> ts)"

definition arcs :: "('v, 'v list) dict \<Rightarrow> ('v \<times> 'v) set" where
  "arcs adj = {(a, b). b \<in> set (targets adj a)}"

definition all_targets :: "('v, 'v list) dict \<Rightarrow> 'v set" where
  "all_targets adj = (\<Union>(n, ts) \<in> set adj. set ts)"

lemma arcs_iff [simp]: "(a, b) \<in> arcs adj \<longleftrightarrow> b \<in> set (targets adj a)"
  by (simp add: arcs_def)

lemma finite_all_targets [simp]: "finite (all_targets adj)"
  by (auto simp: all_targets_def)

lemma targets_Some: "b \<in> set (targets adj a) \<Longrightarrow> \<exists>ts. (a, ts) \<in> set adj \<and> b \<in> set ts"
  by (cases "dget adj a") (auto simp: targets_def dest: map_of_SomeD)

lemma targets_subset: "set (targets adj n) \<subseteq> all_targets adj"
  by (auto simp: all_targets_def dest: targets_Some)

lemma finite_arcs [simp]: "finite (arcs adj)"
proof (rule finite_subset)
  show "arcs adj \<subseteq> fst ` set adj \<times> all_targets adj"
  proof (clarify)
    fix a b assume "(a, b) \<in> arcs adj"
    then obtain ts where "(a, ts) \<in> set adj" "b \<in> set ts" using targets_Some [of b adj a] by auto
    then show "a \<in> fst ` set adj \<and> b \<in> all_targets adj" by (force simp: all_targets_def)
  qed
qed simp

section \<open>Reachability\<close>

text \<open>\<open>_reachable_from\<close>: pop, skip a node that was seen, otherwise push its unseen successors, the
  last one on top.\<close>

function reach_visit :: "('v, 'v list) dict \<Rightarrow> 'v list \<Rightarrow> 'v list \<Rightarrow> 'v list" where
  "reach_visit adj seen [] = seen"
| "reach_visit adj seen (c # stack) =
     (if c \<in> set seen then reach_visit adj seen stack
      else reach_visit adj (c # seen)
             (rev (filter (\<lambda>t. t \<notin> set (c # seen)) (targets adj c)) @ stack))"
  by pat_completeness auto
termination
proof (relation "measures [\<lambda>(adj, seen, st). card ((all_targets adj \<union> set st) - set seen),
    \<lambda>(adj, seen, st). length st]")
  show "wf (measures [\<lambda>(adj, seen, st). card ((all_targets adj \<union> set st) - set seen),
    \<lambda>(adj, seen, st :: 'v list). length st])" by simp
next
  fix adj :: "('v, 'v list) dict" and seen stack :: "'v list" and c
  assume "c \<in> set seen"
  then have "(all_targets adj \<union> set (c # stack)) - set seen = (all_targets adj \<union> set stack) - set seen"
    by auto
  then show "((adj, seen, stack), adj, seen, c # stack) \<in>
      measures [\<lambda>(adj, seen, st). card ((all_targets adj \<union> set st) - set seen),
        \<lambda>(adj, seen, st). length st]" by simp
next
  fix adj :: "('v, 'v list) dict" and seen stack :: "'v list" and c
  assume c: "c \<notin> set seen"
  let ?st = "rev (filter (\<lambda>t. t \<notin> set (c # seen)) (targets adj c)) @ stack"
  have "card ((all_targets adj \<union> set ?st) - set (c # seen)) <
      card ((all_targets adj \<union> set (c # stack)) - set seen)"
  proof (rule psubset_card_mono)
    show "(all_targets adj \<union> set ?st) - set (c # seen) \<subset> (all_targets adj \<union> set (c # stack)) - set seen"
      using c targets_subset [of adj c] by auto
  qed simp
  then show "((adj, c # seen, ?st), adj, seen, c # stack) \<in>
      measures [\<lambda>(adj, seen, st). card ((all_targets adj \<union> set st) - set seen),
        \<lambda>(adj, seen, st). length st]" by simp
qed

definition reachable_ids :: "('v, 'v list) dict \<Rightarrow> 'v list \<Rightarrow> 'v list" where
  "reachable_ids adj roots = reach_visit adj [] (rev roots)"

lemma reach_visit_grows: "set seen \<union> set st \<subseteq> set (reach_visit adj seen st)"
  by (induction adj seen st rule: reach_visit.induct) auto

lemma reach_visit_within: "set (reach_visit adj seen st) \<subseteq> set seen \<union> (arcs adj)\<^sup>* `` set st"
proof (induction adj seen st rule: reach_visit.induct)
  case (2 adj seen c stack)
  show ?case
  proof (cases "c \<in> set seen")
    case True
    then show ?thesis using "2.IH"(1) by auto
  next
    case False
    have step: "(arcs adj)\<^sup>* `` set (targets adj c) \<subseteq> (arcs adj)\<^sup>* `` {c}"
      by (auto intro: converse_rtrancl_into_rtrancl)
    have "set (reach_visit adj seen (c # stack)) \<subseteq>
        set (c # seen) \<union> (arcs adj)\<^sup>* `` (set (targets adj c) \<union> set stack)"
      using "2.IH"(2) [OF False] False by (simp, blast)
    moreover have "(arcs adj)\<^sup>* `` set (c # stack) = (arcs adj)\<^sup>* `` {c} \<union> (arcs adj)\<^sup>* `` set stack"
      by auto
    moreover have "c \<in> (arcs adj)\<^sup>* `` {c}" by simp
    ultimately show ?thesis using step unfolding Image_Un set_simps by blast
  qed
qed simp

lemma reach_visit_closed:
  assumes "\<And>a b. a \<in> set seen \<Longrightarrow> b \<in> set (targets adj a) \<Longrightarrow> b \<in> set seen \<union> set st"
    and "a \<in> set (reach_visit adj seen st)" and "b \<in> set (targets adj a)"
  shows "b \<in> set (reach_visit adj seen st)"
  using assms
proof (induction adj seen st arbitrary: a b rule: reach_visit.induct)
  case (2 adj seen c stack)
  show ?case
  proof (cases "c \<in> set seen")
    case True
    then show ?thesis using "2.IH"(1) [of a b] "2.prems" by auto
  next
    case False
    then show ?thesis using "2.IH"(2) [of a b] "2.prems" by auto
  qed
qed auto

theorem reachable_ids_correct: "set (reachable_ids adj roots) = (arcs adj)\<^sup>* `` set roots"
proof
  show "set (reachable_ids adj roots) \<subseteq> (arcs adj)\<^sup>* `` set roots"
    using reach_visit_within [of adj "[]" "rev roots"] by (simp add: reachable_ids_def)
  have closed: "arcs adj `` set (reachable_ids adj roots) \<subseteq> set (reachable_ids adj roots)"
    using reach_visit_closed [of "[]" adj "rev roots"] by (auto simp: reachable_ids_def)
  have "set roots \<subseteq> set (reachable_ids adj roots)"
    using reach_visit_grows [of "[]" "rev roots" adj] by (simp add: reachable_ids_def)
  then show "(arcs adj)\<^sup>* `` set roots \<subseteq> set (reachable_ids adj roots)"
    using Image_closed_trancl [OF closed] by blast
qed

section \<open>Cycle detection\<close>

datatype colour = WHITE | GREY | BLACK

text \<open>
  The inner loop of \<open>find_cycle\<close> over the colours, the current path and the stack of frames: a
  frame is a node with the successors its iterator has not yet given. \<open>Inl\<close> is the returned
  cycle, the part of the path from the grey successor on; \<open>Inr\<close> the colours when the stack is
  empty.
\<close>

function dfs_frames ::
  "('v, 'v list) dict \<Rightarrow> ('v \<Rightarrow> colour) \<Rightarrow> 'v list \<Rightarrow> ('v \<times> 'v list) list \<Rightarrow> 'v list + ('v \<Rightarrow> colour)"
  where
  "dfs_frames adj st path [] = Inr st"
| "dfs_frames adj st path ((cur, []) # stack) = dfs_frames adj (st(cur := BLACK)) (butlast path) stack"
| "dfs_frames adj st path ((cur, nxt # rest) # stack) =
     (case st nxt of
        GREY \<Rightarrow> Inl (dropWhile (\<lambda>x. x \<noteq> nxt) path @ [nxt])
      | WHITE \<Rightarrow> dfs_frames adj (st(nxt := GREY)) (path @ [nxt])
                  ((nxt, targets adj nxt) # (cur, rest) # stack)
      | BLACK \<Rightarrow> dfs_frames adj st path ((cur, rest) # stack))"
  by pat_completeness auto

definition white_left :: "('v, 'v list) dict \<Rightarrow> ('v \<Rightarrow> colour) \<Rightarrow> ('v \<times> 'v list) list \<Rightarrow> 'v set" where
  "white_left adj st stack =
     {n \<in> all_targets adj \<union> (\<Union>(c, ns) \<in> set stack. set ns). st n = WHITE}"

lemma finite_white_left [simp]: "finite (white_left adj st stack)"
  by (auto simp: white_left_def)

termination dfs_frames
proof (relation "measures [\<lambda>(adj, st, path, stack). card (white_left adj st stack),
    \<lambda>(adj, st, path, stack). (\<Sum>(c, ns)\<leftarrow>stack. Suc (length ns))]")
  show "wf (measures [\<lambda>(adj, st, path :: 'v list, stack). card (white_left adj st stack),
    \<lambda>(adj, st, path, stack). (\<Sum>(c, ns)\<leftarrow>stack. Suc (length ns))])" by simp
next
  fix adj :: "('v, 'v list) dict" and st :: "'v \<Rightarrow> colour" and path cur stack
  have "card (white_left adj (st(cur := BLACK)) stack) \<le> card (white_left adj st ((cur, []) # stack))"
    by (rule card_mono) (auto simp: white_left_def split: if_splits)
  then show "((adj, st(cur := BLACK), butlast path, stack), adj, st, path, (cur, []) # stack) \<in>
    measures [\<lambda>(adj, st, path :: 'v list, stack). card (white_left adj st stack),
      \<lambda>(adj, st, path, stack). (\<Sum>(c, ns)\<leftarrow>stack. Suc (length ns))]" by (simp, linarith?)
next
  fix adj :: "('v, 'v list) dict" and st :: "'v \<Rightarrow> colour" and path cur nxt rest stack
  assume w: "st nxt = WHITE"
  have "white_left adj (st(nxt := GREY)) ((nxt, targets adj nxt) # (cur, rest) # stack) \<subset>
      white_left adj st ((cur, nxt # rest) # stack)"
  proof (rule psubsetI)
    show "white_left adj (st(nxt := GREY)) ((nxt, targets adj nxt) # (cur, rest) # stack) \<subseteq>
        white_left adj st ((cur, nxt # rest) # stack)"
      using targets_subset [of adj nxt] by (auto simp: white_left_def split: if_splits)
    have "nxt \<in> white_left adj st ((cur, nxt # rest) # stack)" using w by (simp add: white_left_def)
    then show "white_left adj (st(nxt := GREY)) ((nxt, targets adj nxt) # (cur, rest) # stack) \<noteq>
        white_left adj st ((cur, nxt # rest) # stack)" by (auto simp: white_left_def)
  qed
  then have "card (white_left adj (st(nxt := GREY)) ((nxt, targets adj nxt) # (cur, rest) # stack)) <
      card (white_left adj st ((cur, nxt # rest) # stack))"
    by (rule psubset_card_mono [rotated]) simp
  then show "((adj, st(nxt := GREY), path @ [nxt], (nxt, targets adj nxt) # (cur, rest) # stack),
      adj, st, path, (cur, nxt # rest) # stack) \<in>
    measures [\<lambda>(adj, st, path :: 'v list, stack). card (white_left adj st stack),
      \<lambda>(adj, st, path, stack). (\<Sum>(c, ns)\<leftarrow>stack. Suc (length ns))]" by (simp, linarith?)
next
  fix adj :: "('v, 'v list) dict" and st :: "'v \<Rightarrow> colour" and path cur nxt rest stack
  have "card (white_left adj st ((cur, rest) # stack)) \<le> card (white_left adj st ((cur, nxt # rest) # stack))"
    by (rule card_mono) (auto simp: white_left_def)
  then show "((adj, st, path, (cur, rest) # stack), adj, st, path, (cur, nxt # rest) # stack) \<in>
    measures [\<lambda>(adj, st, path :: 'v list, stack). card (white_left adj st stack),
      \<lambda>(adj, st, path, stack). (\<Sum>(c, ns)\<leftarrow>stack. Suc (length ns))]" by (simp, linarith?)
qed

text \<open>The outer loop over the roots, and the function: \<open>[]\<close> means no cycle.\<close>

fun find_from :: "('v, 'v list) dict \<Rightarrow> ('v \<Rightarrow> colour) \<Rightarrow> 'v list \<Rightarrow> 'v list" where
  "find_from adj st [] = []"
| "find_from adj st (start # starts) =
     (if st start \<noteq> WHITE then find_from adj st starts
      else case dfs_frames adj (st(start := GREY)) [start] [(start, targets adj start)] of
             Inl cycle \<Rightarrow> cycle
           | Inr st' \<Rightarrow> find_from adj st' starts)"

text \<open>A cycle as the code reports it: consecutive nodes joined by arcs, the first node repeated last.\<close>

definition is_cycle :: "('v, 'v list) dict \<Rightarrow> 'v list \<Rightarrow> bool" where
  "is_cycle adj c \<longleftrightarrow> 2 \<le> length c \<and> hd c = last c \<and> successively (\<lambda>a b. (a, b) \<in> arcs adj) c"

text \<open>A node is settled when no infinite walk starts from it.\<close>

abbreviation settled :: "('v, 'v list) dict \<Rightarrow> 'v set" where
  "settled adj \<equiv> Wellfounded.acc ((arcs adj)\<inverse>)"

lemma settledI: "(\<And>t. t \<in> set (targets adj n) \<Longrightarrow> t \<in> settled adj) \<Longrightarrow> n \<in> settled adj"
  by (rule acc.accI) simp

text \<open>
  The frames below the top: each still has a suffix of its successors to scan, and every successor
  it has scanned is black or is the node of the frame above.
\<close>

fun frames_ok ::
  "('v, 'v list) dict \<Rightarrow> ('v \<Rightarrow> colour) \<Rightarrow> 'v option \<Rightarrow> ('v \<times> 'v list) list \<Rightarrow> bool" where
  "frames_ok adj st up [] = True"
| "frames_ok adj st up ((c, ns) # stack) =
     (set ns \<subseteq> set (targets adj c) \<and>
      (\<forall>t \<in> set (targets adj c). t \<in> set ns \<or> st t = BLACK \<or> up = Some t) \<and>
      (\<forall>a. up = Some a \<longrightarrow> a \<in> set (targets adj c)) \<and> frames_ok adj st (Some c) stack)"

lemma frames_ok_blacker:
  assumes "frames_ok adj st up stack" and "\<And>t. st t = BLACK \<Longrightarrow> st' t = BLACK"
  shows "frames_ok adj st' up stack"
  using assms(1)
proof (induction stack arbitrary: up)
  case (Cons f stack)
  then show ?case using assms(2) by (cases f) auto
qed simp

lemma frames_ok_pop:
  "frames_ok adj st (Some c) stack \<Longrightarrow> frames_ok adj (st(c := BLACK)) None stack"
  by (cases "(adj, st, Some c, stack)" rule: frames_ok.cases)
    (auto intro: frames_ok_blacker)

text \<open>The whole state of the loop.\<close>

definition dfs_ok ::
  "('v, 'v list) dict \<Rightarrow> ('v \<Rightarrow> colour) \<Rightarrow> 'v list \<Rightarrow> ('v \<times> 'v list) list \<Rightarrow> bool" where
  "dfs_ok adj st path stack \<longleftrightarrow>
     path = rev (map fst stack) \<and> distinct path \<and> (\<forall>n. st n = GREY \<longleftrightarrow> n \<in> set path) \<and>
     (\<forall>n. st n = BLACK \<longrightarrow> n \<in> settled adj) \<and> frames_ok adj st None stack"

lemma frames_walk:
  "frames_ok adj st up stack \<Longrightarrow>
    successively (\<lambda>a b. (a, b) \<in> arcs adj)
      (rev (map fst stack) @ (case up of None \<Rightarrow> [] | Some a \<Rightarrow> if stack = [] then [] else [a]))"
proof (induction adj st up stack rule: frames_ok.induct)
  case (2 adj st up c ns stack)
  then show ?case
    by (cases stack) (auto simp: successively_append_iff split: option.splits)
qed (simp split: option.splits)

lemma dfs_okD:
  assumes "dfs_ok adj st path stack"
  shows "path = rev (map fst stack)" "distinct path" "\<And>n. st n = GREY \<longleftrightarrow> n \<in> set path"
    "\<And>n. st n = BLACK \<Longrightarrow> n \<in> settled adj" "frames_ok adj st None stack"
  using assms unfolding dfs_ok_def by blast+

lemma dfs_okI:
  assumes "path = rev (map fst stack)" "distinct path" "\<And>n. st n = GREY \<longleftrightarrow> n \<in> set path"
    "\<And>n. st n = BLACK \<Longrightarrow> n \<in> settled adj" "frames_ok adj st None stack"
  shows "dfs_ok adj st path stack"
  unfolding dfs_ok_def using assms by blast

lemma dfs_ok_pop:
  assumes ok: "dfs_ok adj st path ((cur, []) # stack)"
  shows "dfs_ok adj (st(cur := BLACK)) (butlast path) stack"
proof (rule dfs_okI)
  note d = dfs_okD [OF ok]
  have p: "path = rev (map fst stack) @ [cur]" using d(1) by simp
  show "butlast path = rev (map fst stack)" "distinct (butlast path)"
    using d(2) by (simp_all add: p)
  show "(st(cur := BLACK)) n = GREY \<longleftrightarrow> n \<in> set (butlast path)" for n
    using d(2) d(3) [of n] by (auto simp: p)
  have black: "\<forall>t \<in> set (targets adj cur). st t = BLACK" using d(5) by simp
  have "cur \<in> settled adj" by (rule settledI) (use d(4) black in blast)
  then show "(st(cur := BLACK)) n = BLACK \<Longrightarrow> n \<in> settled adj" for n
    using d(4) [of n] by (simp split: if_splits)
  show "frames_ok adj (st(cur := BLACK)) None stack" using d(5) by (simp add: frames_ok_pop)
qed

lemma dfs_ok_push:
  assumes ok: "dfs_ok adj st path ((cur, nxt # rest) # stack)" and w: "st nxt = WHITE"
  shows "dfs_ok adj (st(nxt := GREY)) (path @ [nxt]) ((nxt, targets adj nxt) # (cur, rest) # stack)"
proof (rule dfs_okI)
  note d = dfs_okD [OF ok]
  have n: "nxt \<notin> set path" using d(3) [of nxt] w by simp
  show "path @ [nxt] = rev (map fst ((nxt, targets adj nxt) # (cur, rest) # stack))"
    "distinct (path @ [nxt])"
    using d(1,2) n by auto
  show "(st(nxt := GREY)) m = GREY \<longleftrightarrow> m \<in> set (path @ [nxt])" for m using d(3) [of m] by simp
  show "(st(nxt := GREY)) m = BLACK \<Longrightarrow> m \<in> settled adj" for m
    using d(4) [of m] by (simp split: if_splits)
  have "frames_ok adj (st(nxt := GREY)) (Some cur) stack"
    by (rule frames_ok_blacker [of adj st]) (use d(5) w in auto)
  then show "frames_ok adj (st(nxt := GREY)) None ((nxt, targets adj nxt) # (cur, rest) # stack)"
    using d(5) w by auto
qed

lemma dfs_ok_skip:
  assumes ok: "dfs_ok adj st path ((cur, nxt # rest) # stack)" and b: "st nxt = BLACK"
  shows "dfs_ok adj st path ((cur, rest) # stack)"
proof (rule dfs_okI)
  note d = dfs_okD [OF ok]
  show "path = rev (map fst ((cur, rest) # stack))" using d(1) by simp
  show "frames_ok adj st None ((cur, rest) # stack)" using d(5) b by auto
qed (use dfs_okD [OF ok] in blast)+

text \<open>A walk that can step back to one of its nodes closes a cycle from there.\<close>

lemma close_walk:
  assumes "successively R path" and "x \<in> set path" and "R (last path) x"
  shows "2 \<le> length (dropWhile (\<lambda>y. y \<noteq> x) path @ [x]) \<and>
    hd (dropWhile (\<lambda>y. y \<noteq> x) path @ [x]) = x \<and> successively R (dropWhile (\<lambda>y. y \<noteq> x) path @ [x])"
proof -
  obtain us vs where path: "path = us @ x # vs" "x \<notin> set us" using assms(2) by (metis split_list_first)
  have "\<forall>y \<in> set us. y \<noteq> x" using path(2) by blast
  then have drop: "dropWhile (\<lambda>y. y \<noteq> x) path = x # vs" by (simp add: path(1) dropWhile_append3)
  have "successively R (x # vs)" and "last path = last (x # vs)"
    using assms(1) by (auto simp: path(1) successively_append_iff)
  then show ?thesis
    using assms(3) unfolding drop by (simp add: successively_append_iff [of _ "x # vs" "[x]", simplified])
qed

lemma dfs_ok_cycle:
  assumes ok: "dfs_ok adj st path ((cur, nxt # rest) # stack)" and g: "st nxt = GREY"
  shows "is_cycle adj (dropWhile (\<lambda>x. x \<noteq> nxt) path @ [nxt])"
proof -
  note d = dfs_okD [OF ok]
  have "nxt \<in> set path" using d(3) g by blast
  moreover have "successively (\<lambda>a b. (a, b) \<in> arcs adj) path" and "last path = cur"
    using frames_walk [OF d(5)] d(1) by simp_all
  moreover have "(cur, nxt) \<in> arcs adj" using d(5) by simp
  ultimately show ?thesis
    using close_walk [of "\<lambda>a b. (a, b) \<in> arcs adj" path nxt] by (simp add: is_cycle_def)
qed

lemma later_colours:
  assumes "case r of Inl c \<Rightarrow> P c | Inr st' \<Rightarrow> Q st' \<and> (\<forall>n. st2 n \<noteq> WHITE \<longrightarrow> st' n \<noteq> WHITE)"
    and "\<And>n. st n \<noteq> WHITE \<Longrightarrow> st2 n \<noteq> WHITE"
  shows "case r of Inl c \<Rightarrow> P c | Inr st' \<Rightarrow> Q st' \<and> (\<forall>n. st n \<noteq> WHITE \<longrightarrow> st' n \<noteq> WHITE)"
  using assms by (cases r) auto

lemma dfs_frames_correct:
  assumes "dfs_ok adj st path stack"
  shows "case dfs_frames adj st path stack of
      Inl c \<Rightarrow> is_cycle adj c
    | Inr st' \<Rightarrow> dfs_ok adj st' [] [] \<and> (\<forall>n. st n \<noteq> WHITE \<longrightarrow> st' n \<noteq> WHITE)"
  using assms
proof (induction adj st path stack rule: dfs_frames.induct)
  case (1 adj st path)
  then show ?case using dfs_okD(1) [OF 1] by simp
next
  case (2 adj st path cur stack)
  show ?case unfolding dfs_frames.simps
    by (rule later_colours [OF "2.IH" [OF dfs_ok_pop [OF "2.prems"]]]) simp
next
  case (3 adj st path cur nxt rest stack)
  show ?case
  proof (cases "st nxt")
    case WHITE
    then show ?thesis unfolding dfs_frames.simps WHITE colour.case
      by (intro later_colours [OF "3.IH"(1) [OF WHITE dfs_ok_push [OF "3.prems" WHITE]]]) simp
  next
    case GREY
    then show ?thesis using dfs_ok_cycle [OF "3.prems" GREY] by simp
  next
    case BLACK
    from "3.IH"(2) [OF BLACK dfs_ok_skip [OF "3.prems" BLACK]] show ?thesis
      using BLACK by simp
  qed
qed

lemma find_from_correct:
  assumes "dfs_ok adj st [] []"
  shows "(find_from adj st rs \<noteq> [] \<longrightarrow> is_cycle adj (find_from adj st rs)) \<and>
    (find_from adj st rs = [] \<longrightarrow> (\<forall>r \<in> set rs. r \<in> settled adj) \<and> (\<forall>n. st n \<noteq> WHITE \<longrightarrow> n \<in> settled adj))"
  using assms
proof (induction rs arbitrary: st)
  case Nil
  then show ?case using dfs_okD(3,4) [OF Nil] by (metis colour.exhaust empty_iff empty_set find_from.simps(1))
next
  case (Cons r rs)
  have nw: "n \<in> settled adj" if "st n \<noteq> WHITE" for n
    using that dfs_okD(3,4) [OF Cons.prems] by (metis colour.exhaust empty_iff empty_set)
  show ?case
  proof (cases "st r = WHITE")
    case False
    then show ?thesis using Cons.IH [OF Cons.prems] nw by simp
  next
    case True
    have "dfs_ok adj (st(r := GREY)) [r] [(r, targets adj r)]"
      by (rule dfs_okI) (use dfs_okD(3,4) [OF Cons.prems] in \<open>auto split: if_splits\<close>)
    note res = dfs_frames_correct [OF this]
    show ?thesis
    proof (cases "dfs_frames adj (st(r := GREY)) [r] [(r, targets adj r)]")
      case (Inl c)
      then have "is_cycle adj c" using res by simp
      then show ?thesis using True Inl by (auto simp: is_cycle_def)
    next
      case (Inr st')
      then have ok: "dfs_ok adj st' [] []" and w: "\<And>n. (st(r := GREY)) n \<noteq> WHITE \<Longrightarrow> st' n \<noteq> WHITE"
        using res by simp_all
      have "st' r \<noteq> WHITE" "\<And>n. st n \<noteq> WHITE \<Longrightarrow> st' n \<noteq> WHITE"
        using w [of r] w by (auto split: if_splits)
      then show ?thesis using Cons.IH [OF ok] True Inr by auto
    qed
  qed
qed

text \<open>A node on a cycle is not settled, and without a cycle every node is.\<close>

lemma walk_trancl:
  "successively (\<lambda>a b. (a, b) \<in> r) (x # xs) \<Longrightarrow> xs \<noteq> [] \<Longrightarrow> (x, last xs) \<in> r\<^sup>+"
proof (induction xs arbitrary: x)
  case (Cons y xs)
  then show ?case by (cases "xs = []") (auto intro: trancl_into_trancl2)
qed simp

lemma trancl_walk:
  assumes "(x, y) \<in> r\<^sup>+"
  shows "\<exists>c. 2 \<le> length c \<and> hd c = x \<and> last c = y \<and> successively (\<lambda>a b. (a, b) \<in> r) c"
  using assms
proof (induction rule: trancl_induct)
  case (base y)
  then show ?case by (intro exI [of _ "[x, y]"]) simp
next
  case (step y z)
  then obtain c where c: "2 \<le> length c" "hd c = x" "last c = y" "successively (\<lambda>a b. (a, b) \<in> r) c"
    by blast
  then have "c \<noteq> []" by auto
  then show ?case
    using c step.hyps(2) by (intro exI [of _ "c @ [z]"]) (auto simp: successively_append_iff)
qed

lemma cyclic_iff: "\<not> acyclic (arcs adj) \<longleftrightarrow> (\<exists>c. is_cycle adj c)"
proof
  assume "\<not> acyclic (arcs adj)"
  then obtain x where "(x, x) \<in> (arcs adj)\<^sup>+" by (auto simp: acyclic_def)
  from trancl_walk [OF this] show "\<exists>c. is_cycle adj c" unfolding is_cycle_def by metis
next
  assume "\<exists>c. is_cycle adj c"
  then obtain c where c: "2 \<le> length c" "hd c = last c" "successively (\<lambda>a b. (a, b) \<in> arcs adj) c"
    by (auto simp: is_cycle_def)
  then obtain x y xs where "c = x # y # xs" by (cases c; cases "tl c") auto
  then have "(x, x) \<in> (arcs adj)\<^sup>+" using walk_trancl [of "arcs adj" x "y # xs"] c by simp
  then show "\<not> acyclic (arcs adj)" by (auto simp: acyclic_def)
qed

lemma settled_acyclic:
  assumes "\<And>n. targets adj n \<noteq> [] \<Longrightarrow> n \<in> settled adj"
  shows "acyclic (arcs adj)"
proof -
  have "n \<in> settled adj" for n
  proof (cases "targets adj n = []")
    case True
    show ?thesis by (rule settledI) (simp add: True)
  qed (rule assms)
  then have "wf ((arcs adj)\<inverse>)" by (blast intro: acc_wfI)
  then show ?thesis using wf_acyclic by fastforce
qed

text \<open>\<open>find_cycle\<close> from all nodes finds a cycle exactly when there is one.\<close>

definition cycle_of :: "('v, 'v list) dict \<Rightarrow> 'v list \<Rightarrow> 'v list" where
  "cycle_of adj ids = find_from adj (\<lambda>_. WHITE) ids"

theorem cycle_of_correct:
  assumes "\<And>n. targets adj n \<noteq> [] \<Longrightarrow> n \<in> set ids"
  shows "if acyclic (arcs adj) then cycle_of adj ids = [] else is_cycle adj (cycle_of adj ids)"
proof -
  have "dfs_ok adj (\<lambda>_. WHITE) [] []" by (rule dfs_okI) simp_all
  note f = find_from_correct [OF this, of ids, folded cycle_of_def]
  show ?thesis
  proof (cases "cycle_of adj ids = []")
    case True
    then show ?thesis using f assms settled_acyclic by metis
  next
    case False
    then show ?thesis using f cyclic_iff by auto
  qed
qed

end
