(* ===== verification/Topological_Order.thy ===== *)
theory Topological_Order
  imports Graph_Search
begin

text \<open>
  Kahn's algorithm as \<open>topological_order\<close> of \<open>backend/strategy_dag/validator.py\<close> runs it: level by
  level, each level sorted. The in-degrees are a map from node to integer; the nodes made ready by
  a level are collected in a set that is sorted before the next one.
\<close>

section \<open>The algorithm\<close>

text \<open>\<open>in_degree[target] += 1\<close> for every entry of the adjacency.\<close>

definition in_degrees :: "('v, 'v list) dict \<Rightarrow> 'v \<Rightarrow> int" where
  "in_degrees adj = fold (\<lambda>(s, ts). fold (\<lambda>t d. d(t := d t + 1)) ts) adj (\<lambda>_. 0)"

text \<open>One level: every successor of its nodes loses one, and is ready when it reaches zero.\<close>

fun drop_degrees :: "('v \<Rightarrow> int) \<Rightarrow> 'v list \<Rightarrow> 'v list \<Rightarrow> ('v \<Rightarrow> int) \<times> 'v list" where
  "drop_degrees deg next_ready [] = (deg, next_ready)"
| "drop_degrees deg next_ready (t # ts) =
     drop_degrees (deg(t := deg t - 1))
       (if deg t - 1 = 0 then List.insert t next_ready else next_ready) ts"

definition level_targets :: "('v, 'v list) dict \<Rightarrow> 'v list \<Rightarrow> 'v list" where
  "level_targets adj level = concat (map (targets adj) level)"

lemma drop_degrees_deg: "fst (drop_degrees deg nr ts) t = deg t - int (count_list ts t)"
  by (induction ts arbitrary: deg nr) simp_all

lemma drop_degrees_ready:
  "set (snd (drop_degrees deg nr ts)) = set nr \<union> {t. 0 < deg t \<and> deg t \<le> int (count_list ts t)}"
proof (induction ts arbitrary: deg nr)
  case (Cons t ts)
  have "u \<in> set (snd (drop_degrees deg nr (t # ts))) \<longleftrightarrow>
      u \<in> set nr \<or> 0 < deg u \<and> deg u \<le> int (count_list (t # ts) u)" for u
    by (cases "u = t") (auto simp: Cons.IH)
  then show ?case by blast
qed auto

lemma drop_degrees_distinct: "distinct nr \<Longrightarrow> distinct (snd (drop_degrees deg nr ts))"
  by (induction ts arbitrary: deg nr) auto

text \<open>The nodes still to become ready, which every round reduces.\<close>

definition waiting :: "('v, 'v list) dict \<Rightarrow> ('v \<Rightarrow> int) \<Rightarrow> 'v set" where
  "waiting adj deg = {t \<in> all_targets adj. 0 < deg t}"

lemma finite_waiting [simp]: "finite (waiting adj deg)"
  by (simp add: waiting_def)

lemma level_targets_within: "set (level_targets adj level) \<subseteq> all_targets adj"
  using targets_subset [of adj] by (auto simp: level_targets_def)

lemma waiting_drops:
  assumes "snd (drop_degrees deg [] (level_targets adj level)) \<noteq> []"
  shows "card (waiting adj (fst (drop_degrees deg [] (level_targets adj level)))) < card (waiting adj deg)"
proof (rule psubset_card_mono)
  let ?ts = "level_targets adj level"
  have "set (snd (drop_degrees deg [] ?ts)) \<noteq> {}" using assms by simp
  then obtain t where t: "0 < deg t" "deg t \<le> int (count_list ?ts t)"
    unfolding drop_degrees_ready by auto
  then have "t \<in> set ?ts" using count_list_0_iff [of ?ts t] by (cases "t \<in> set ?ts") auto
  then have "t \<in> waiting adj deg - waiting adj (fst (drop_degrees deg [] ?ts))"
    using level_targets_within [of adj level] t by (auto simp: waiting_def drop_degrees_deg)
  moreover have "waiting adj (fst (drop_degrees deg [] ?ts)) \<subseteq> waiting adj deg"
    by (auto simp: waiting_def drop_degrees_deg)
  ultimately show "waiting adj (fst (drop_degrees deg [] ?ts)) \<subset> waiting adj deg" by blast
qed simp

text \<open>The main loop.\<close>

function kahn ::
  "('v::linorder, 'v list) dict \<Rightarrow> ('v \<Rightarrow> int) \<Rightarrow> 'v list \<Rightarrow> 'v list \<Rightarrow> 'v list list \<Rightarrow>
    'v list \<times> 'v list list" where
  "kahn adj deg ready order levels =
     (if ready = [] then (order, levels)
      else let (deg', next_ready) = drop_degrees deg [] (level_targets adj ready)
           in kahn adj deg' (sort next_ready) (order @ ready) (levels @ [ready]))"
  by pat_completeness auto
termination
proof (relation "measures [\<lambda>(adj, deg, ready, order, levels). card (waiting adj deg),
    \<lambda>(adj, deg, ready, order, levels). length ready]")
  fix adj :: "('v::linorder, 'v list) dict" and deg ready order levels x deg' next_ready
  assume r: "ready \<noteq> []" and x: "x = drop_degrees deg [] (level_targets adj ready)"
    and p: "(deg', next_ready) = x"
  show "((adj, deg', sort next_ready, order @ ready, levels @ [ready]), adj, deg, ready, order, levels) \<in>
    measures [\<lambda>(adj, deg, ready, order, levels). card (waiting adj deg),
      \<lambda>(adj, deg, ready, order, levels). length ready]"
  proof (cases "next_ready = []")
    case False
    have eq: "deg' = fst (drop_degrees deg [] (level_targets adj ready))"
      "next_ready = snd (drop_degrees deg [] (level_targets adj ready))"
      by (simp_all flip: x p)
    show ?thesis using waiting_drops [of deg adj ready] False by (simp add: eq)
  next
    case True
    have "waiting adj deg' \<subseteq> waiting adj deg"
    proof -
      have "deg' = fst (drop_degrees deg [] (level_targets adj ready))" by (simp flip: x p)
      then show ?thesis by (auto simp: waiting_def drop_degrees_deg)
    qed
    then have "card (waiting adj deg') \<le> card (waiting adj deg)" by (simp add: card_mono)
    then show ?thesis using True r by (simp add: order_le_less)
  qed
qed simp

declare kahn.simps [simp del]

text \<open>The whole function over the distinct node ids: \<open>None\<close> for a cyclic graph.\<close>

definition kahn_order :: "('v::linorder, 'v list) dict \<Rightarrow> 'v list \<Rightarrow> ('v list \<times> 'v list list) option" where
  "kahn_order adj ids =
     (case kahn adj (in_degrees adj) (sort (filter (\<lambda>n. in_degrees adj n = 0) ids)) [] [] of
        (order, levels) \<Rightarrow> if length order \<noteq> length ids then None else Some (order, levels))"

section \<open>In-degrees\<close>

text \<open>The adjacency over the ids \<open>ids\<close>: one key per node, each successor once, all of them known.\<close>

definition adjacency_ok :: "('v, 'v list) dict \<Rightarrow> 'v list \<Rightarrow> bool" where
  "adjacency_ok adj ids \<longleftrightarrow> distinct ids \<and> dict_ok adj \<and>
     (\<forall>(s, ts) \<in> set adj. distinct ts \<and> s \<in> set ids \<and> set ts \<subseteq> set ids)"

definition preds :: "('v, 'v list) dict \<Rightarrow> 'v \<Rightarrow> 'v set" where
  "preds adj t = {s. t \<in> set (targets adj s)}"

lemma preds_iff [simp]: "s \<in> preds adj t \<longleftrightarrow> t \<in> set (targets adj s)"
  by (simp add: preds_def)

lemma adjacency_okD:
  assumes "adjacency_ok adj ids"
  shows "distinct ids" "dict_ok adj" "distinct (targets adj s)"
    "t \<in> set (targets adj s) \<Longrightarrow> s \<in> set ids \<and> t \<in> set ids"
proof -
  show "distinct ids" "dict_ok adj" using assms by (simp_all add: adjacency_ok_def)
  show "distinct (targets adj s)"
    using assms by (cases "dget adj s") (auto simp: adjacency_ok_def targets_def dest: map_of_SomeD)
  show "t \<in> set (targets adj s) \<Longrightarrow> s \<in> set ids \<and> t \<in> set ids"
    using assms targets_Some [of t adj s] by (auto simp: adjacency_ok_def)
qed

lemma preds_within: "adjacency_ok adj ids \<Longrightarrow> preds adj t \<subseteq> set ids"
  using adjacency_okD(4) by (force simp: preds_def)

lemma finite_preds: "adjacency_ok adj ids \<Longrightarrow> finite (preds adj t)"
  by (rule finite_subset [OF preds_within]) simp_all

lemma count_list_distinct: "distinct xs \<Longrightarrow> count_list xs x = (if x \<in> set xs then 1 else 0)"
  by (induction xs) auto

lemma count_up: "fold (\<lambda>t d. d(t := d t + 1)) ts d u = d u + int (count_list ts u)"
  by (induction ts arbitrary: d) auto

lemma in_degrees_sum:
  "fold (\<lambda>(s, ts). fold (\<lambda>t d. d(t := d t + 1)) ts) adj d u =
    d u + (\<Sum>(s, ts)\<leftarrow>adj. int (count_list ts u))"
  by (induction adj arbitrary: d) (auto simp: count_up)

lemma in_degrees_card:
  assumes "adjacency_ok adj ids"
  shows "in_degrees adj u = int (card (preds adj u))"
proof -
  have "(\<Sum>(s, ts)\<leftarrow>adj. int (count_list ts u)) = int (card (preds adj u)) \<and> finite (preds adj u)"
    if "dict_ok adj" "\<forall>(s, ts) \<in> set adj. distinct ts" for adj :: "('a, 'a list) dict"
    using that
  proof (induction adj)
    case Nil
    have "preds [] u = {}" by (auto simp: targets_def)
    then show ?case by simp
  next
    case (Cons e adj)
    obtain s ts where e: "e = (s, ts)" by (cases e)
    have none: "targets adj s = []"
      using Cons.prems(1) by (auto simp: e targets_def map_of_eq_None_iff [symmetric])
    have "targets (e # adj) x = (if x = s then ts else targets adj x)" for x
      by (simp add: e targets_def)
    then have "preds (e # adj) u = (if u \<in> set ts then {s} else {}) \<union> preds adj u" "s \<notin> preds adj u"
      using none by (auto split: if_splits)
    then show ?case using Cons by (auto simp: e count_list_distinct)
  qed
  then show ?thesis
    using assms unfolding in_degrees_def in_degrees_sum by (auto simp: adjacency_ok_def)
qed

lemma level_count:
  assumes ok: "adjacency_ok adj ids" and "distinct level"
  shows "count_list (level_targets adj level) t = card (preds adj t \<inter> set level)"
  using assms(2)
proof (induction level)
  case (Cons n level)
  have "preds adj t \<inter> set (n # level) =
      (if t \<in> set (targets adj n) then {n} else {}) \<union> (preds adj t \<inter> set level)" by auto
  then show ?case
    using Cons adjacency_okD(3) [OF ok, of n] by (auto simp: level_targets_def count_list_distinct)
qed (simp add: level_targets_def)

section \<open>Correctness\<close>

text \<open>Every node of a level has all its predecessors in earlier levels, and one in the last of them.\<close>

definition levels_ok :: "('v, 'v list) dict \<Rightarrow> 'v list list \<Rightarrow> bool" where
  "levels_ok adj ls \<longleftrightarrow> (\<forall>us l vs. ls = us @ l # vs \<longrightarrow>
     (\<forall>b \<in> set l. preds adj b \<subseteq> set (concat us) \<and> (us \<noteq> [] \<longrightarrow> preds adj b \<inter> set (last us) \<noteq> {})))"

lemma levels_ok_Nil [simp]: "levels_ok adj []"
  by (simp add: levels_ok_def)

lemma levels_ok_snoc:
  "levels_ok adj (ls @ [l]) \<longleftrightarrow> levels_ok adj ls \<and>
    (\<forall>b \<in> set l. preds adj b \<subseteq> set (concat ls) \<and> (ls \<noteq> [] \<longrightarrow> preds adj b \<inter> set (last ls) \<noteq> {}))"
    (is "?lhs \<longleftrightarrow> ?rhs")
proof
  assume ?lhs
  then have a: "ls @ [l] = us @ m # vs \<Longrightarrow> b \<in> set m \<Longrightarrow>
      preds adj b \<subseteq> set (concat us) \<and> (us \<noteq> [] \<longrightarrow> preds adj b \<inter> set (last us) \<noteq> {})" for us m vs b
    by (auto simp: levels_ok_def)
  have "levels_ok adj ls" unfolding levels_ok_def using a by (metis append.assoc append_Cons)
  then show ?rhs using a [of ls l "[]"] by simp
next
  assume r: ?rhs
  show ?lhs unfolding levels_ok_def
  proof (intro allI impI ballI)
    fix us m vs b assume eq: "ls @ [l] = us @ m # vs" and b: "b \<in> set m"
    show "preds adj b \<subseteq> set (concat us) \<and> (us \<noteq> [] \<longrightarrow> preds adj b \<inter> set (last us) \<noteq> {})"
    proof (cases vs rule: rev_cases)
      case Nil
      then show ?thesis using eq b r by simp
    next
      case (snoc vs' v)
      then have "ls = us @ m # vs'" using eq by simp
      then show ?thesis using r b unfolding levels_ok_def by blast
    qed
  qed
qed

lemma levels_ok_closed:
  assumes "levels_ok adj ls" and "b \<in> set (concat ls)"
  shows "preds adj b \<subseteq> set (concat ls)"
proof -
  obtain l where "l \<in> set ls" "b \<in> set l" using assms(2) by auto
  moreover from this(1) obtain us vs where "ls = us @ l # vs" by (auto simp: in_set_conv_decomp)
  ultimately show ?thesis using assms(1) unfolding levels_ok_def by fastforce
qed

definition kahn_ok ::
  "('v::linorder, 'v list) dict \<Rightarrow> 'v list \<Rightarrow> ('v \<Rightarrow> int) \<Rightarrow> 'v list \<Rightarrow> 'v list \<Rightarrow> 'v list list \<Rightarrow> bool" where
  "kahn_ok adj ids deg ready order levels \<longleftrightarrow>
     (\<forall>t. deg t = int (card (preds adj t - set order))) \<and>
     set ready = {n \<in> set ids - set order. deg n = 0} \<and> sorted ready \<and> distinct ready \<and>
     distinct order \<and> set order \<subseteq> set ids \<and> concat levels = order \<and> levels_ok adj levels \<and>
     (\<forall>l \<in> set levels. sorted l \<and> l \<noteq> []) \<and>
     (levels \<noteq> [] \<longrightarrow> (\<forall>b \<in> set ready. preds adj b \<inter> set (last levels) \<noteq> {}))"

lemma kahn_ok_start:
  assumes ok: "adjacency_ok adj ids"
  shows "kahn_ok adj ids (in_degrees adj) (sort (filter (\<lambda>n. in_degrees adj n = 0) ids)) [] []"
  using adjacency_okD(1) [OF ok] by (simp add: kahn_ok_def in_degrees_card [OF ok])

lemma kahn_ok_step:
  assumes ok: "adjacency_ok adj ids" and k: "kahn_ok adj ids deg ready order levels"
    and ne: "ready \<noteq> []" and step: "drop_degrees deg [] (level_targets adj ready) = (deg', nr)"
  shows "kahn_ok adj ids deg' (sort nr) (order @ ready) (levels @ [ready])"
proof -
  note kk = k [unfolded kahn_ok_def]
  have deg: "\<And>t. deg t = int (card (preds adj t - set order))"
    and ready: "\<And>n. n \<in> set ready \<longleftrightarrow> n \<in> set ids \<and> n \<notin> set order \<and> deg n = 0"
    and dr: "distinct ready" using kk by auto
  note fp = finite_preds [OF ok]
  have count: "int (count_list (level_targets adj ready) t) = int (card (preds adj t \<inter> set ready))" for t
    using level_count [OF ok dr] by simp
  have split: "preds adj t - set order = (preds adj t - set (order @ ready)) \<union> (preds adj t \<inter> set ready)"
    "(preds adj t - set (order @ ready)) \<inter> (preds adj t \<inter> set ready) = {}" for t
    using ready by auto
  have card: "card (preds adj t - set order) =
      card (preds adj t - set (order @ ready)) + card (preds adj t \<inter> set ready)" for t
    by (subst split(1), rule card_Un_disjoint) (use fp split(2) in auto)
  have deg': "deg' t = int (card (preds adj t - set (order @ ready)))" for t
    using drop_degrees_deg [of deg "[]" "level_targets adj ready" t] step card [of t]
    by (simp add: deg count)
  have nr: "set nr = {t. 0 < deg t \<and> deg' t = 0}"
    using drop_degrees_ready [of deg "[]" "level_targets adj ready"] step
    by (auto simp: deg deg' count card simp del: set_append)
  have zero: "deg t = 0 \<longleftrightarrow> preds adj t \<subseteq> set order" for t
    using fp [of t] by (auto simp: deg)
  have zero': "deg' t = 0 \<longleftrightarrow> preds adj t \<subseteq> set (order @ ready)" for t
    using fp [of t] by (auto simp: deg' simp del: set_append)
  have "set nr = {n \<in> set ids - set (order @ ready). deg' n = 0}"
  proof (intro set_eqI iffI)
    fix n assume "n \<in> set nr"
    then have n: "deg n \<noteq> 0" "deg' n = 0" using nr by auto
    then obtain s where "s \<in> preds adj n" "s \<notin> set order" using zero by blast
    moreover have "n \<notin> set order"
      using levels_ok_closed [of adj levels n] kk zero n(1) by auto
    ultimately show "n \<in> {n \<in> set ids - set (order @ ready). deg' n = 0}"
      using n ready adjacency_okD(4) [OF ok] by auto
  next
    fix n assume "n \<in> {n \<in> set ids - set (order @ ready). deg' n = 0}"
    then show "n \<in> set nr" using ready [of n] by (auto simp: nr deg)
  qed
  moreover have "distinct nr" using drop_degrees_distinct [of "[]" deg "level_targets adj ready"] step by simp
  moreover have "preds adj b \<subseteq> set (concat levels)" if "b \<in> set ready" for b
    using that ready zero kk by auto
  moreover have "preds adj b \<inter> set ready \<noteq> {}" if "b \<in> set nr" for b
  proof -
    have "deg b \<noteq> 0" "deg' b = 0" using that nr by auto
    then show ?thesis using zero [of b] zero' [of b] by auto
  qed
  ultimately show ?thesis
    unfolding kahn_ok_def levels_ok_snoc using kk ne deg' ready by (auto simp del: set_concat)
qed

lemma kahn_keeps:
  assumes "adjacency_ok adj ids" and "kahn_ok adj ids deg ready order levels"
    and "kahn adj deg ready order levels = (order', levels')"
  shows "\<exists>deg'. kahn_ok adj ids deg' [] order' levels'"
  using assms
proof (induction adj deg ready order levels rule: kahn.induct)
  case (1 adj deg ready order levels)
  show ?case
  proof (cases "ready = []")
    case True
    then show ?thesis using "1.prems" by (auto simp: kahn.simps)
  next
    case False
    obtain deg' nr where step: "drop_degrees deg [] (level_targets adj ready) = (deg', nr)" by fastforce
    show ?thesis
    proof (rule "1.IH" [OF False step [symmetric] refl])
      show "kahn_ok adj ids deg' (sort nr) (order @ ready) (levels @ [ready])"
        by (rule kahn_ok_step [OF "1.prems"(1,2) False step])
      show "kahn adj deg' (sort nr) (order @ ready) (levels @ [ready]) = (order', levels')"
        using "1.prems"(3) False step by (simp add: kahn.simps)
    qed (rule "1.prems")
  qed
qed

text \<open>When the loop ends, a node that is left has a predecessor that is left.\<close>

lemma kahn_stuck:
  assumes ok: "adjacency_ok adj ids" and k: "kahn_ok adj ids deg [] order levels"
    and n: "n \<in> set ids - set order"
  shows "\<exists>p \<in> set ids - set order. n \<in> set (targets adj p)"
proof -
  have "deg n \<noteq> 0" using k n by (auto simp: kahn_ok_def)
  moreover have "deg n = int (card (preds adj n - set order))" using k by (simp add: kahn_ok_def)
  ultimately have "preds adj n - set order \<noteq> {}" by (metis card.empty of_nat_0)
  then show ?thesis using adjacency_okD(4) [OF ok] by auto
qed

lemma length_takeWhile_less: "\<exists>x \<in> set xs. \<not> P x \<Longrightarrow> length (takeWhile P xs) < length xs"
  by (induction xs) auto

lemma kahn_complete_iff:
  assumes ok: "adjacency_ok adj ids" and k: "kahn_ok adj ids deg [] order levels"
  shows "set order = set ids \<longleftrightarrow> acyclic (arcs adj)"
proof
  assume ac: "acyclic (arcs adj)"
  have "wf (arcs adj)" using ac by (simp add: finite_acyclic_wf)
  have "n \<notin> set ids - set order" for n
    using \<open>wf (arcs adj)\<close>
  proof (induction n rule: wf_induct_rule)
    case (less n)
    then show ?case using kahn_stuck [OF ok k, of n] by auto
  qed
  then show "set order = set ids" using k by (auto simp: kahn_ok_def)
next
  assume all: "set order = set ids"
  define rank where "rank n = length (takeWhile (\<lambda>l. n \<notin> set l) levels)" for n
  have less: "rank a < rank b" if arc: "b \<in> set (targets adj a)" for a b
  proof -
    have "b \<in> set (concat levels)" using adjacency_okD(4) [OF ok arc] all k by (simp add: kahn_ok_def)
    then have "\<exists>l \<in> set levels. b \<in> set l" by auto
    then obtain us l vs where l: "levels = us @ l # vs" "b \<in> set l" "\<forall>m \<in> set us. b \<notin> set m"
      using split_list_first_prop [of levels "\<lambda>l. b \<in> set l"] by blast
    have "levels_ok adj levels" using k by (simp add: kahn_ok_def)
    then have "preds adj b \<subseteq> set (concat us)" using l(1,2) unfolding levels_ok_def by blast
    then have "a \<in> set (concat us)" using arc by auto
    then have "length (takeWhile (\<lambda>l. a \<notin> set l) us) < length us"
      by (intro length_takeWhile_less) auto
    moreover have "rank b = length us" by (simp add: rank_def l takeWhile_append)
    moreover have "rank a = length (takeWhile (\<lambda>l. a \<notin> set l) us)"
      using \<open>a \<in> set (concat us)\<close> by (auto simp: rank_def l(1) takeWhile_append)
    ultimately show ?thesis by simp
  qed
  have "arcs adj \<subseteq> measure rank" using less by auto
  then have "wf (arcs adj)" by (rule wf_subset [OF wf_measure])
  then show "acyclic (arcs adj)" by (rule wf_acyclic)
qed

theorem kahn_order_correct:
  assumes ok: "adjacency_ok adj ids"
  shows "case kahn_order adj ids of
      None \<Rightarrow> \<not> acyclic (arcs adj)
    | Some (order, levels) \<Rightarrow> acyclic (arcs adj) \<and> distinct order \<and> set order = set ids \<and>
        concat levels = order \<and> levels_ok adj levels \<and> (\<forall>l \<in> set levels. sorted l \<and> l \<noteq> [])"
proof -
  obtain order levels where run: "kahn adj (in_degrees adj)
      (sort (filter (\<lambda>n. in_degrees adj n = 0) ids)) [] [] = (order, levels)" by fastforce
  obtain deg where k: "kahn_ok adj ids deg [] order levels"
    using kahn_keeps [OF ok kahn_ok_start [OF ok] run] by blast
  have d: "distinct order" "set order \<subseteq> set ids" "distinct ids"
    using k adjacency_okD(1) [OF ok] by (simp_all add: kahn_ok_def)
  have "length order = length ids \<longleftrightarrow> set order = set ids"
    using d by (metis List.finite_set card_subset_eq distinct_card)
  then show ?thesis
    using k kahn_complete_iff [OF ok k] by (auto simp: kahn_order_def run kahn_ok_def)
qed

end
