(* ===== verification/Strategy_Graph.thy ===== *)
theory Strategy_Graph
  imports Topological_Order Py_Values "HOL-Library.List_Lexorder" "HOL-Library.Char_ord"
begin

text \<open>
  Strategy graphs: the records of \<open>backend/strategy_dag/schema.py\<close> and the graph functions of
  \<open>backend/strategy_dag/validator.py\<close> over them. Identifiers are strings, ordered as Python
  orders them, character by character.
\<close>

section \<open>The graph\<close>

datatype port_type = OHLCV_FRAME | PRICE_SERIES | SCALAR_SERIES | BOOLEAN_SERIES | FEATURE_MATRIX
  | PREDICTION | SIGNAL | TRADE_INTENT | SCALAR

datatype block_category = DATA | INDICATOR | MATH | LOGIC | FEATURE_ENGINEERING | ML_DL | ACTION

datatype validation_state = UNVALIDATED | VALID | INVALID

text \<open>
  A parameter is a JSON value. A finite float is a rational number; the parser also accepts the
  infinities and NaN.
\<close>

datatype py_float = Finite rat | Infinite bool | NotANumber

datatype param_value = PNull | PBool bool | PInt int | PFloat py_float | PText string
  | PList "param_value list" | PObject "(string \<times> param_value) list"

record port =
  port_name :: string
  port_kind :: port_type
  port_required :: bool
  port_variadic :: bool
  port_description :: string

record node_spec =
  n_id :: string
  n_block_id :: string
  n_category :: block_category
  n_params :: "(string, param_value) dict"
  n_inputs :: "port list"
  n_outputs :: "port list"

record edge_spec =
  e_id :: string
  e_source :: string
  e_source_port :: string
  e_target :: string
  e_target_port :: string
  e_type :: "port_type option"

text \<open>The name, the version, the owner and the metadata of a graph do not reach any function below.\<close>

record strategy_graph =
  g_schema_version :: int
  g_nodes :: "node_spec list"
  g_edges :: "edge_spec list"
  g_state :: validation_state

definition node_ids :: "strategy_graph \<Rightarrow> string list" where
  "node_ids g = map n_id (g_nodes g)"

text \<open>\<open>graph.node\<close> scans for the first node with the id; \<open>graph.node_index\<close> keeps the last.\<close>

definition graph_node :: "strategy_graph \<Rightarrow> string \<Rightarrow> node_spec option" where
  "graph_node g s = find (\<lambda>n. n_id n = s) (g_nodes g)"

definition node_index :: "strategy_graph \<Rightarrow> (string, node_spec) dict" where
  "node_index g = fold (\<lambda>n d. dset (n_id n) n d) (g_nodes g) []"

section \<open>Adjacency\<close>

text \<open>\<open>setdefault(key, []).append(item)\<close>.\<close>

definition dict_append :: "'k \<Rightarrow> 'a \<Rightarrow> ('k, 'a list) dict \<Rightarrow> ('k, 'a list) dict" where
  "dict_append k x d = dset k (targets d k @ [x]) d"

definition endpoints_known :: "string list option \<Rightarrow> edge_spec \<Rightarrow> bool" where
  "endpoints_known known e =
     (case known of None \<Rightarrow> True | Some ids \<Rightarrow> e_source e \<in> set ids \<and> e_target e \<in> set ids)"

text \<open>One iteration of \<open>_build_adjacency\<close> over \<open>(seen, out)\<close>.\<close>

definition add_adjacency ::
  "string list option \<Rightarrow> edge_spec \<Rightarrow> (string \<times> string) list \<times> (string, string list) dict \<Rightarrow>
    (string \<times> string) list \<times> (string, string list) dict" where
  "add_adjacency known e st =
     (case st of (seen, out) \<Rightarrow>
        if \<not> endpoints_known known e then (seen, out)
        else if (e_source e, e_target e) \<in> set seen then (seen, out)
        else ((e_source e, e_target e) # seen, dict_append (e_source e) (e_target e) out))"

definition build_adjacency :: "edge_spec list \<Rightarrow> string list option \<Rightarrow> (string, string list) dict" where
  "build_adjacency edges known = snd (fold (add_adjacency known) edges ([], []))"

lemma targets_dset: "targets (dset k xs d) n = (if n = k then xs else targets d n)"
  by (simp add: targets_def dict_simps)

lemma targets_dict_append [simp]:
  "targets (dict_append k x d) n = targets d n @ (if n = k then [x] else [])"
  by (simp add: dict_append_def targets_dset)

lemma dict_ok_append [simp]: "dict_ok d \<Longrightarrow> dict_ok (dict_append k x d)"
  by (simp add: dict_append_def dict_ok_dset)

lemma targets_empty [simp]: "targets [] a = []"
  by (simp add: targets_def)

lemma add_adjacency_pair:
  "add_adjacency known e (seen, out) =
    (if endpoints_known known e \<and> (e_source e, e_target e) \<notin> set seen
     then ((e_source e, e_target e) # seen, dict_append (e_source e) (e_target e) out)
     else (seen, out))"
  by (simp add: add_adjacency_def)

lemma adjacency_fold:
  assumes "fold (add_adjacency known) edges (seen, out) = (seen', out')"
    and "dict_ok out" and "\<And>a b. b \<in> set (targets out a) \<longleftrightarrow> (a, b) \<in> set seen"
    and "\<And>a. distinct (targets out a)"
  shows "dict_ok out' \<and> (\<forall>a. distinct (targets out' a)) \<and>
    (\<forall>a b. b \<in> set (targets out' a) \<longleftrightarrow>
      (a, b) \<in> set seen \<or> (\<exists>e \<in> set edges. e_source e = a \<and> e_target e = b \<and> endpoints_known known e))"
  using assms
proof (induction edges arbitrary: seen out)
  case (Cons e edges)
  show ?case
  proof (cases "endpoints_known known e \<and> (e_source e, e_target e) \<notin> set seen")
    case True
    then have "fold (add_adjacency known) edges ((e_source e, e_target e) # seen,
        dict_append (e_source e) (e_target e) out) = (seen', out')"
      using Cons.prems(1) by (simp add: add_adjacency_pair)
    moreover have "dict_ok (dict_append (e_source e) (e_target e) out)" using Cons.prems(2) by simp
    moreover have "b \<in> set (targets (dict_append (e_source e) (e_target e) out) a) \<longleftrightarrow>
        (a, b) \<in> set ((e_source e, e_target e) # seen)" for a b
      using Cons.prems(3) by auto
    moreover have "distinct (targets (dict_append (e_source e) (e_target e) out) a)" for a
      using Cons.prems(3,4) True by auto
    ultimately have "dict_ok out' \<and> (\<forall>a. distinct (targets out' a)) \<and>
        (\<forall>a b. b \<in> set (targets out' a) \<longleftrightarrow> (a, b) \<in> set ((e_source e, e_target e) # seen) \<or>
          (\<exists>e \<in> set edges. e_source e = a \<and> e_target e = b \<and> endpoints_known known e))"
      by (rule Cons.IH)
    then show ?thesis using True by auto
  next
    case False
    then have "fold (add_adjacency known) edges (seen, out) = (seen', out')"
      using Cons.prems(1) by (simp only: fold_simps add_adjacency_pair if_False)
    from Cons.IH [OF this Cons.prems(2-4)] show ?thesis using False by auto
  qed
qed auto

lemma build_adjacency_spec:
  shows "dict_ok (build_adjacency edges known)"
    and "distinct (targets (build_adjacency edges known) a)"
    and "b \<in> set (targets (build_adjacency edges known) a) \<longleftrightarrow>
      (\<exists>e \<in> set edges. e_source e = a \<and> e_target e = b \<and> endpoints_known known e)"
proof -
  obtain seen out where run: "fold (add_adjacency known) edges ([], []) = (seen, out)" by fastforce
  have "dict_ok out \<and> (\<forall>a. distinct (targets out a)) \<and> (\<forall>a b. b \<in> set (targets out a) \<longleftrightarrow>
      (\<exists>e \<in> set edges. e_source e = a \<and> e_target e = b \<and> endpoints_known known e))"
    using adjacency_fold [OF run] by simp
  then show "dict_ok (build_adjacency edges known)" "distinct (targets (build_adjacency edges known) a)"
    "b \<in> set (targets (build_adjacency edges known) a) \<longleftrightarrow>
      (\<exists>e \<in> set edges. e_source e = a \<and> e_target e = b \<and> endpoints_known known e)"
    by (auto simp: build_adjacency_def run)
qed

text \<open>The arcs of a graph: an edge counts when both its ends are nodes.\<close>

definition graph_arcs :: "strategy_graph \<Rightarrow> (string \<times> string) set" where
  "graph_arcs g = {(e_source e, e_target e) | e. e \<in> set (g_edges g) \<and>
     e_source e \<in> set (node_ids g) \<and> e_target e \<in> set (node_ids g)}"

definition graph_adjacency :: "strategy_graph \<Rightarrow> (string, string list) dict" where
  "graph_adjacency g = build_adjacency (g_edges g) (Some (node_ids g))"

lemma graph_adjacency_arcs: "arcs (graph_adjacency g) = graph_arcs g"
  by (auto simp: graph_adjacency_def build_adjacency_spec(3) graph_arcs_def endpoints_known_def)

lemma adjacency_keys_nonempty:
  assumes "dget (snd (fold (add_adjacency known) edges st)) a = Some ts"
    and "\<And>a ts. dget (snd st) a = Some ts \<Longrightarrow> ts \<noteq> []"
  shows "ts \<noteq> []"
  using assms
proof (induction edges arbitrary: st)
  case (Cons e edges)
  have "ts \<noteq> []" if "dget (snd (add_adjacency known e st)) a = Some ts" for a ts
    using that Cons.prems(2)
    by (auto simp: add_adjacency_def dict_append_def dict_simps split: if_splits prod.splits)
  then show ?case using Cons.IH Cons.prems(1) by simp
qed auto

lemma graph_adjacency_ok: "adjacency_ok (graph_adjacency g) (remdups (node_ids g))"
proof -
  have "distinct ts \<and> s \<in> set (node_ids g) \<and> set ts \<subseteq> set (node_ids g)"
    if e: "(s, ts) \<in> set (graph_adjacency g)" for s ts
  proof -
    have get: "dget (graph_adjacency g) s = Some ts"
      using e build_adjacency_spec(1) by (simp add: graph_adjacency_def)
    then have t: "targets (graph_adjacency g) s = ts" by (simp add: targets_def)
    have "ts \<noteq> []"
      using adjacency_keys_nonempty [of "Some (node_ids g)" "g_edges g" "([], [])" s ts] get
      by (simp add: graph_adjacency_def build_adjacency_def)
    then obtain b where "b \<in> set ts" by (cases ts) auto
    moreover have "b \<in> set ts \<Longrightarrow> s \<in> set (node_ids g) \<and> b \<in> set (node_ids g)" for b
      using build_adjacency_spec(3) [of b "g_edges g" "Some (node_ids g)" s] t
      by (auto simp: graph_adjacency_def endpoints_known_def)
    ultimately show ?thesis
      using build_adjacency_spec(2) [of "g_edges g" "Some (node_ids g)" s] t
      by (auto simp: graph_adjacency_def)
  qed
  then show ?thesis
    using build_adjacency_spec(1) by (auto simp: adjacency_ok_def graph_adjacency_def)
qed

section \<open>Cycles\<close>

definition find_cycle :: "string list \<Rightarrow> edge_spec list \<Rightarrow> string list" where
  "find_cycle ids edges = cycle_of (build_adjacency edges (Some ids)) ids"

definition add_edge :: "strategy_graph \<Rightarrow> edge_spec \<Rightarrow> strategy_graph" where
  "add_edge g e = g\<lparr>g_edges := g_edges g @ [e]\<rparr>"

definition creates_cycle :: "strategy_graph \<Rightarrow> edge_spec \<Rightarrow> bool" where
  "creates_cycle g e =
     (if e_source e = e_target e then True
      else e_source e \<in> set (reachable_ids
             (build_adjacency (g_edges g @ [e]) (Some (node_ids g))) [e_target e]))"

definition cycle_path_with_edge :: "strategy_graph \<Rightarrow> edge_spec \<Rightarrow> string list" where
  "cycle_path_with_edge g e =
     find_cycle (node_ids g)
       (if \<forall>existing \<in> set (g_edges g). e_id existing \<noteq> e_id e then g_edges g @ [e] else g_edges g)"

lemma graph_targets_known: "targets (graph_adjacency g) n \<noteq> [] \<Longrightarrow> n \<in> set (node_ids g)"
proof -
  assume "targets (graph_adjacency g) n \<noteq> []"
  then have "hd (targets (graph_adjacency g) n) \<in> set (targets (graph_adjacency g) n)" by simp
  from adjacency_okD(4) [OF graph_adjacency_ok this] show "n \<in> set (node_ids g)" by simp
qed

lemma find_cycle_graph: "find_cycle (node_ids g) (g_edges g) = cycle_of (graph_adjacency g) (node_ids g)"
  by (simp add: find_cycle_def graph_adjacency_def)

lemma find_cycle_verdict:
  "if acyclic (graph_arcs g) then find_cycle (node_ids g) (g_edges g) = []
   else 2 \<le> length (find_cycle (node_ids g) (g_edges g)) \<and>
     hd (find_cycle (node_ids g) (g_edges g)) = last (find_cycle (node_ids g) (g_edges g)) \<and>
     successively (\<lambda>a b. (a, b) \<in> graph_arcs g) (find_cycle (node_ids g) (g_edges g))"
  using cycle_of_correct [of "graph_adjacency g" "node_ids g", OF graph_targets_known]
  unfolding find_cycle_graph is_cycle_def graph_adjacency_arcs .

text \<open>
  C24: for every graph, \<open>find_cycle\<close> returns nothing when the graph is acyclic and otherwise a
  real cycle: consecutive nodes joined by edges of the graph, the first node repeated at the end.
\<close>

theorem find_cycle_correct:
  "if acyclic (graph_arcs g) then find_cycle (node_ids g) (g_edges g) = []
   else 2 \<le> length (find_cycle (node_ids g) (g_edges g)) \<and>
     hd (find_cycle (node_ids g) (g_edges g)) = last (find_cycle (node_ids g) (g_edges g)) \<and>
     successively (\<lambda>a b. (a, b) \<in> graph_arcs g) (find_cycle (node_ids g) (g_edges g))"
  by (rule find_cycle_verdict)

lemma find_cycle_Nil_iff: "find_cycle (node_ids g) (g_edges g) = [] \<longleftrightarrow> acyclic (graph_arcs g)"
  using find_cycle_verdict [of g] by (auto split: if_splits)

subsection \<open>One more edge\<close>

lemma node_ids_add_edge [simp]: "node_ids (add_edge g e) = node_ids g"
  by (simp add: add_edge_def node_ids_def)

lemma edges_add_edge [simp]: "g_edges (add_edge g e) = g_edges g @ [e]"
  by (simp add: add_edge_def)

lemma nodes_add_edge [simp]: "g_nodes (add_edge g e) = g_nodes g"
  by (simp add: add_edge_def)

lemma graph_arcs_add_edge:
  "graph_arcs (add_edge g e) = graph_arcs g \<union>
    (if e_source e \<in> set (node_ids g) \<and> e_target e \<in> set (node_ids g)
     then {(e_source e, e_target e)} else {})"
  by (auto simp: graph_arcs_def)

lemma creates_cycle_reach:
  "creates_cycle g e \<longleftrightarrow> (e_target e, e_source e) \<in> (graph_arcs (add_edge g e))\<^sup>*"
proof -
  have "build_adjacency (g_edges g @ [e]) (Some (node_ids g)) = graph_adjacency (add_edge g e)"
    by (simp add: graph_adjacency_def)
  then have "set (reachable_ids (build_adjacency (g_edges g @ [e]) (Some (node_ids g))) [e_target e]) =
      (graph_arcs (add_edge g e))\<^sup>* `` {e_target e}"
    by (simp add: reachable_ids_correct graph_adjacency_arcs)
  then show ?thesis by (auto simp: creates_cycle_def)
qed

lemma acyclic_insert_arc:
  assumes "acyclic r"
  shows "acyclic (insert (a, b) r) \<longleftrightarrow> (b, a) \<notin> (insert (a, b) r)\<^sup>*"
proof
  assume "acyclic (insert (a, b) r)"
  then show "(b, a) \<notin> (insert (a, b) r)\<^sup>*"
    by (metis acyclic_def insertI1 rtrancl_into_trancl2)
next
  assume "(b, a) \<notin> (insert (a, b) r)\<^sup>*"
  then have "(b, a) \<notin> r\<^sup>*" by (meson rtrancl_mono subsetD subset_insertI)
  then show "acyclic (insert (a, b) r)" using assms by (simp add: acyclic_insert)
qed

text \<open>
  On an acyclic graph, \<open>creates_cycle\<close> answers whether the graph with the edge
  added has a cycle, for every edge between known nodes.
\<close>

theorem creates_cycle_correct:
  assumes "acyclic (graph_arcs g)"
    and "e_source e \<in> set (node_ids g)" and "e_target e \<in> set (node_ids g)"
  shows "creates_cycle g e \<longleftrightarrow> \<not> acyclic (graph_arcs (add_edge g e))"
  using acyclic_insert_arc [OF assms(1)] assms(2,3)
  by (simp add: creates_cycle_reach graph_arcs_add_edge)

lemma creates_cycle_cyclic:
  assumes "creates_cycle g e" and "e_source e \<in> set (node_ids g)" and "e_target e \<in> set (node_ids g)"
  shows "\<not> acyclic (graph_arcs (add_edge g e))"
proof -
  have "(e_source e, e_target e) \<in> graph_arcs (add_edge g e)" using assms(2,3) by (simp add: graph_arcs_add_edge)
  then show ?thesis using assms(1) unfolding creates_cycle_reach acyclic_def
    by (meson rtrancl_into_trancl2)
qed

text \<open>The loop reported for a refused edge is a cycle of the graph with that edge.\<close>

lemma cycle_path_with_edge_real:
  assumes "creates_cycle g e" and "e_source e \<in> set (node_ids g)" and "e_target e \<in> set (node_ids g)"
    and "\<And>x. x \<in> set (g_edges g) \<Longrightarrow> e_id x = e_id e \<Longrightarrow> x = e"
  shows "2 \<le> length (cycle_path_with_edge g e) \<and>
    hd (cycle_path_with_edge g e) = last (cycle_path_with_edge g e) \<and>
    successively (\<lambda>a b. (a, b) \<in> graph_arcs (add_edge g e)) (cycle_path_with_edge g e)"
proof (cases "\<forall>x \<in> set (g_edges g). e_id x \<noteq> e_id e")
  case True
  then have "cycle_path_with_edge g e = find_cycle (node_ids (add_edge g e)) (g_edges (add_edge g e))"
    by (simp add: cycle_path_with_edge_def)
  then show ?thesis
    using find_cycle_verdict [of "add_edge g e"] creates_cycle_cyclic [OF assms(1-3)] by simp
next
  case False
  then have "e \<in> set (g_edges g)" using assms(4) by blast
  then have "graph_arcs (add_edge g e) = graph_arcs g"
    by (auto simp: graph_arcs_def)
  moreover have "cycle_path_with_edge g e = find_cycle (node_ids g) (g_edges g)"
    unfolding cycle_path_with_edge_def using False by (simp only: if_False)
  ultimately show ?thesis
    using find_cycle_verdict [of g] creates_cycle_cyclic [OF assms(1-3)] by simp
qed

section \<open>Topological order\<close>

definition topological_order :: "strategy_graph \<Rightarrow> (string list \<times> string list list) option" where
  "topological_order g = kahn_order (graph_adjacency g) (remdups (node_ids g))"

lemma topological_order_verdict:
  "case topological_order g of
     None \<Rightarrow> \<not> acyclic (graph_arcs g)
   | Some (order, levels) \<Rightarrow> acyclic (graph_arcs g) \<and> distinct order \<and> set order = set (node_ids g) \<and>
       concat levels = order \<and> levels_ok (graph_adjacency g) levels \<and>
       list_all (\<lambda>l. sorted l \<and> l \<noteq> []) levels"
  using kahn_order_correct [OF graph_adjacency_ok [of g]]
  unfolding topological_order_def graph_adjacency_arcs list_all_iff
  by (auto split: option.splits)

text \<open>
  C27: the order exists exactly for an acyclic graph. It then lists every node once,
  is the concatenation of the levels, each level is sorted, and every predecessor of a node lies in
  an earlier level, one of them in the level just before.
\<close>

theorem topological_order_correct:
  "case topological_order g of
     None \<Rightarrow> \<not> acyclic (graph_arcs g)
   | Some (order, levels) \<Rightarrow> acyclic (graph_arcs g) \<and> distinct order \<and> set order = set (node_ids g) \<and>
       concat levels = order \<and> levels_ok (graph_adjacency g) levels \<and>
       list_all (\<lambda>l. sorted l \<and> l \<noteq> []) levels"
  by (rule topological_order_verdict)

text \<open>The same as an index: a source stands before its target.\<close>

lemma levels_precede:
  assumes "levels_ok adj ls" and "distinct (concat ls)" and "b \<in> set (targets adj a)"
    and "b \<in> set (concat ls)"
  shows "\<exists>us vs. concat ls = us @ b # vs \<and> a \<in> set us"
proof -
  obtain l where "l \<in> set ls" "b \<in> set l" using assms(4) by auto
  moreover from this(1) obtain xs ys where ls: "ls = xs @ l # ys" by (auto simp: in_set_conv_decomp)
  ultimately have a: "a \<in> set (concat xs)" using assms(1,3) unfolding levels_ok_def by fastforce
  obtain ps qs where l: "l = ps @ b # qs" using \<open>b \<in> set l\<close> by (auto simp: in_set_conv_decomp)
  show ?thesis
    by (rule exI [of _ "concat xs @ ps"], rule exI [of _ "qs @ concat ys"]) (use a in \<open>simp add: ls l\<close>)
qed

lemma topological_order_precedes:
  assumes "topological_order g = Some (order, levels)" and "(a, b) \<in> graph_arcs g"
  shows "\<exists>us vs. order = us @ b # vs \<and> a \<in> set us"
proof -
  have c: "concat levels = order" "distinct order" "set order = set (node_ids g)"
    "levels_ok (graph_adjacency g) levels"
    using topological_order_verdict [of g] assms(1) by simp_all
  have "b \<in> set (targets (graph_adjacency g) a)" using assms(2) graph_adjacency_arcs by (metis arcs_iff)
  moreover have "b \<in> set (node_ids g)" using assms(2) by (auto simp: graph_arcs_def)
  ultimately show ?thesis using levels_precede [of "graph_adjacency g" levels b a] c by simp
qed

lemma topological_order_exists: "(\<exists>p. topological_order g = Some p) \<longleftrightarrow> acyclic (graph_arcs g)"
  using topological_order_verdict [of g] by (auto split: option.splits)

end
