(* ===== verification/Edge_Rules.thy ===== *)
theory Edge_Rules
  imports Strategy_Graph
begin

text \<open>
  Block descriptors (\<open>backend/strategy_dag/registry.py\<close>) and the eight rules an edge must pass
  (\<open>is_edge_legal\<close> of \<open>validator.py\<close>). The registry is its \<open>get\<close>: a function from block ids to
  descriptors. An issue keeps its code, its severity, the node, edge and field it names and the
  loop it reports; its message, its hint and the values quoted in them are left out.
\<close>

section \<open>Descriptors\<close>

datatype execution_semantics = SERIES_MAP | WINDOWED | STATEFUL | TERMINAL

datatype leakage_risk = RISK_NONE | RISK_LOW | REVIEW_REQUIRED

record param_spec =
  ps_key :: string
  ps_default :: param_value

record block_descriptor =
  bd_category :: block_category
  bd_inputs :: "port list"
  bd_outputs :: "port list"
  bd_params :: "param_spec list"
  bd_warmup_fn :: "(string, param_value) dict \<Rightarrow> py_exc + int"
  bd_successors :: "block_category list"
  bd_semantics :: execution_semantics
  bd_leakage :: leakage_risk
  bd_flags :: "string list"
  bd_operator :: string
  bd_leaky_outputs :: "string list"
  bd_global_statistic :: bool

type_synonym registry = "string \<Rightarrow> block_descriptor option"

definition bd_terminal :: "block_descriptor \<Rightarrow> bool" where
  "bd_terminal d \<longleftrightarrow> bd_semantics d = TERMINAL"

definition input_port :: "block_descriptor \<Rightarrow> string \<Rightarrow> port option" where
  "input_port d name = find (\<lambda>p. port_name p = name) (bd_inputs d)"

definition output_port :: "block_descriptor \<Rightarrow> string \<Rightarrow> port option" where
  "output_port d name = find (\<lambda>p. port_name p = name) (bd_outputs d)"

definition bd_defaults :: "block_descriptor \<Rightarrow> (string, param_value) dict" where
  "bd_defaults d = fold (\<lambda>p acc. dset (ps_key p) (ps_default p) acc) (bd_params d) []"

definition resolved_params ::
  "block_descriptor \<Rightarrow> (string, param_value) dict \<Rightarrow> (string, param_value) dict" where
  "resolved_params d params =
     fold (\<lambda>(k, v) acc. if v = PNull then acc else dset k v acc) params (bd_defaults d)"

definition bd_warmup :: "block_descriptor \<Rightarrow> (string, param_value) dict \<Rightarrow> py_exc + int" where
  "bd_warmup d params = bd_warmup_fn d (resolved_params d params)"

definition COMPATIBILITY_MATRIX :: "port_type \<Rightarrow> port_type list" where
  "COMPATIBILITY_MATRIX source =
     (case source of
        OHLCV_FRAME \<Rightarrow> [OHLCV_FRAME, PRICE_SERIES]
      | PRICE_SERIES \<Rightarrow> [PRICE_SERIES, SCALAR_SERIES]
      | SCALAR_SERIES \<Rightarrow> [SCALAR_SERIES]
      | BOOLEAN_SERIES \<Rightarrow> [BOOLEAN_SERIES, SIGNAL]
      | FEATURE_MATRIX \<Rightarrow> [FEATURE_MATRIX]
      | PREDICTION \<Rightarrow> [PREDICTION, SCALAR_SERIES]
      | SIGNAL \<Rightarrow> [SIGNAL, TRADE_INTENT]
      | TRADE_INTENT \<Rightarrow> []
      | SCALAR \<Rightarrow> [SCALAR, SCALAR_SERIES])"

definition compatible :: "port_type \<Rightarrow> port_type \<Rightarrow> bool" where
  "compatible source target \<longleftrightarrow> target \<in> set (COMPATIBILITY_MATRIX source)"

section \<open>Issues\<close>

datatype issue_code =
    EMPTY_GRAPH | DUPLICATE_NODE_ID | DUPLICATE_EDGE_ID | UNSUPPORTED_SCHEMA_VERSION
  | NODE_LIMIT_EXCEEDED | EDGE_LIMIT_EXCEEDED | ML_NODE_LIMIT_EXCEEDED | FEATURE_NODE_LIMIT_EXCEEDED
  | FEATURE_COLUMN_LIMIT_EXCEEDED | PORT_FAN_IN_LIMIT_EXCEEDED | UNRESOLVED_BLOCK
  | PARAM_REQUIRED_MISSING | PARAM_OUT_OF_RANGE | PARAM_NOT_IN_OPTIONS | PARAM_TYPE_INVALID
  | PARAM_INVALID | PARAM_UNKNOWN | PARAM_CROSS_FIELD
  | EDGE_ENDPOINT_UNKNOWN | SELF_LOOP | UNKNOWN_SOURCE_PORT | UNKNOWN_TARGET_PORT | TYPE_MISMATCH
  | ILLEGAL_CATEGORY_FLOW | TERMINAL_HAS_NO_OUTPUT | PORT_ALREADY_CONNECTED | CYCLE
  | REQUIRED_INPUT_MISSING | ORPHAN_NODE | MISSING_REQUIRED_CATEGORY | ACTION_UNREACHABLE_FROM_DATA
  | ACTION_INPUT_PROVENANCE | MULTI_SYMBOL_ACTION_PATH | WARMUP_EXCEEDS_HISTORY
  | LOOKAHEAD_SHIFT | LEAKY_FEATURE_INTO_MODEL | GLOBAL_STATISTIC_LEAK
  | PORT_CONTRACT_RECOMPUTED | CATEGORY_REMAPPED | EDGE_TYPE_RECOMPUTED | VALIDATION_STATE_RECOMPUTED
  | ML_READINESS string

datatype severity = SEVERITY_ERROR | SEVERITY_WARNING

record issue =
  i_code :: issue_code
  i_severity :: severity
  i_node :: "string option"
  i_edge :: "string option"
  i_field :: "string option"
  i_loop :: "string list"

definition make_issue ::
  "issue_code \<Rightarrow> severity \<Rightarrow> string option \<Rightarrow> string option \<Rightarrow> string option \<Rightarrow> issue" where
  "make_issue code sev node edge field =
     \<lparr>i_code = code, i_severity = sev, i_node = node, i_edge = edge, i_field = field, i_loop = []\<rparr>"

definition category_of :: "node_spec \<Rightarrow> block_descriptor option \<Rightarrow> block_category" where
  "category_of n d = (case d of Some bd \<Rightarrow> bd_category bd | None \<Rightarrow> n_category n)"

definition port_label :: "string \<Rightarrow> string \<Rightarrow> string" where
  "port_label node_id name = node_id @ ''.'' @ name"

section \<open>The rules\<close>

type_synonym inbound = "(string, (string, edge_spec list) dict) dict"

definition build_inbound :: "edge_spec list \<Rightarrow> inbound" where
  "build_inbound edges =
     fold (\<lambda>e out. dset (e_target e)
        (dict_append (e_target_port e) e (case dget out (e_target e) of None \<Rightarrow> [] | Some ports \<Rightarrow> ports)) out)
       edges []"

text \<open>\<open>inbound.get(node, {}).get(port, ())\<close>.\<close>

definition inbound_at :: "inbound \<Rightarrow> string \<Rightarrow> string \<Rightarrow> edge_spec list" where
  "inbound_at inb node_id port =
     (case dget inb node_id of None \<Rightarrow> [] | Some ports \<Rightarrow> targets ports port)"

definition descriptor_for ::
  "registry \<Rightarrow> (string, block_descriptor option) dict option \<Rightarrow> node_spec \<Rightarrow> block_descriptor option" where
  "descriptor_for reg descs n =
     (case descs of
        None \<Rightarrow> reg (n_block_id n)
      | Some ds \<Rightarrow> (case dget ds (n_id n) of Some d \<Rightarrow> d | None \<Rightarrow> reg (n_block_id n)))"

text \<open>R7 and R8, once the ports are known.\<close>

definition occupied_port ::
  "inbound option \<Rightarrow> strategy_graph \<Rightarrow> edge_spec \<Rightarrow> node_spec \<Rightarrow> string list" where
  "occupied_port inb g e dst =
     map e_id (filter (\<lambda>c. e_id c \<noteq> e_id e)
       (case inb of
          Some i \<Rightarrow> inbound_at i (n_id dst) (e_target_port e)
        | None \<Rightarrow> filter (\<lambda>c. e_target c = n_id dst \<and> e_target_port c = e_target_port e) (g_edges g)))"

definition edge_port_rules ::
  "bool \<Rightarrow> inbound option \<Rightarrow> strategy_graph \<Rightarrow> edge_spec \<Rightarrow> node_spec \<Rightarrow> node_spec \<Rightarrow> port \<Rightarrow> port \<Rightarrow>
    issue option" where
  "edge_port_rules check_cycle inb g e src dst out_port in_port =
     (if \<not> compatible (port_kind out_port) (port_kind in_port)
      then Some (make_issue TYPE_MISMATCH SEVERITY_ERROR (Some (n_id dst)) (Some (e_id e))
                  (Some (port_label (n_id dst) (port_name in_port))))
      else if \<not> port_variadic in_port \<and> occupied_port inb g e dst \<noteq> []
      then Some (make_issue PORT_ALREADY_CONNECTED SEVERITY_ERROR (Some (n_id dst)) (Some (e_id e))
                  (Some (port_label (n_id dst) (e_target_port e))))
      else if check_cycle \<and> creates_cycle g e
      then Some ((make_issue CYCLE SEVERITY_ERROR (Some (n_id src)) (Some (e_id e)) None)
                  \<lparr>i_loop := cycle_path_with_edge g e\<rparr>)
      else None)"

text \<open>R6, R5 and R3, in the order of the code.\<close>

definition edge_block_rules ::
  "bool \<Rightarrow> inbound option \<Rightarrow> strategy_graph \<Rightarrow> edge_spec \<Rightarrow> node_spec \<Rightarrow> node_spec \<Rightarrow>
    block_descriptor option \<Rightarrow> block_descriptor option \<Rightarrow> issue option" where
  "edge_block_rules check_cycle inb g e src dst src_d dst_d =
     (if (case src_d of Some d \<Rightarrow> bd_terminal d | None \<Rightarrow> False)
      then Some (make_issue TERMINAL_HAS_NO_OUTPUT SEVERITY_ERROR (Some (n_id src)) (Some (e_id e)) None)
      else if (case src_d of Some d \<Rightarrow> category_of dst dst_d \<notin> set (bd_successors d) | None \<Rightarrow> False)
      then Some (make_issue ILLEGAL_CATEGORY_FLOW SEVERITY_ERROR (Some (n_id dst)) (Some (e_id e))
                  (Some (port_label (n_id dst) (e_target_port e))))
      else case Option.bind src_d (\<lambda>d. output_port d (e_source_port e)) of
        None \<Rightarrow> Some (make_issue UNKNOWN_SOURCE_PORT SEVERITY_ERROR (Some (n_id src)) (Some (e_id e))
                  (Some (port_label (n_id src) (e_source_port e))))
      | Some out_port \<Rightarrow>
         (case Option.bind dst_d (\<lambda>d. input_port d (e_target_port e)) of
            None \<Rightarrow> Some (make_issue UNKNOWN_TARGET_PORT SEVERITY_ERROR (Some (n_id dst)) (Some (e_id e))
                      (Some (port_label (n_id dst) (e_target_port e))))
          | Some in_port \<Rightarrow> edge_port_rules check_cycle inb g e src dst out_port in_port))"

definition is_edge_legal ::
  "registry \<Rightarrow> bool \<Rightarrow> inbound option \<Rightarrow> (string, block_descriptor option) dict option \<Rightarrow>
    strategy_graph \<Rightarrow> edge_spec \<Rightarrow> issue option" where
  "is_edge_legal reg check_cycle inb descs g e =
     (case (graph_node g (e_source e), graph_node g (e_target e)) of
        (Some src, Some dst) \<Rightarrow>
          if n_id src = n_id dst
          then Some (make_issue SELF_LOOP SEVERITY_ERROR (Some (n_id src)) (Some (e_id e)) None)
          else edge_block_rules check_cycle inb g e src dst
                 (descriptor_for reg descs src) (descriptor_for reg descs dst)
      | _ \<Rightarrow> Some (make_issue EDGE_ENDPOINT_UNKNOWN SEVERITY_ERROR None (Some (e_id e)) None))"

definition validate_edge :: "registry \<Rightarrow> strategy_graph \<Rightarrow> edge_spec \<Rightarrow> issue option" where
  "validate_edge reg g e = is_edge_legal reg True None None g e"

section \<open>What a legal edge is\<close>

lemma graph_node_id: "graph_node g s = Some n \<Longrightarrow> n_id n = s \<and> n \<in> set (g_nodes g)"
  by (auto simp: graph_node_def find_Some_iff)

lemma graph_node_iff: "(\<exists>n. graph_node g s = Some n) \<longleftrightarrow> s \<in> set (node_ids g)"
proof -
  have "graph_node g s = None \<longleftrightarrow> s \<notin> set (node_ids g)"
    by (auto simp: graph_node_def find_None_iff node_ids_def)
  then show ?thesis by (cases "graph_node g s") auto
qed

lemma graph_node_add_edge [simp]: "graph_node (add_edge g e) s = graph_node g s"
  by (simp add: graph_node_def)

text \<open>The rules that look at the blocks and the ports alone: R2 to R6.\<close>

definition ports_match :: "registry \<Rightarrow> strategy_graph \<Rightarrow> edge_spec \<Rightarrow> bool \<Rightarrow> bool" where
  "ports_match reg g e variadic \<longleftrightarrow>
     (\<exists>src dst sd dd out_port in_port.
        graph_node g (e_source e) = Some src \<and> graph_node g (e_target e) = Some dst \<and>
        e_source e \<noteq> e_target e \<and> reg (n_block_id src) = Some sd \<and> reg (n_block_id dst) = Some dd \<and>
        \<not> bd_terminal sd \<and> bd_category dd \<in> set (bd_successors sd) \<and>
        output_port sd (e_source_port e) = Some out_port \<and> input_port dd (e_target_port e) = Some in_port \<and>
        compatible (port_kind out_port) (port_kind in_port) \<and> port_variadic in_port = variadic)"

text \<open>Another edge of the graph ends at the same port.\<close>

definition port_taken :: "strategy_graph \<Rightarrow> edge_spec \<Rightarrow> bool" where
  "port_taken g e \<longleftrightarrow>
     (\<exists>c \<in> set (g_edges g). e_target c = e_target e \<and> e_target_port c = e_target_port e \<and> e_id c \<noteq> e_id e)"

lemma occupied_None: "graph_node g (e_target e) = Some dst \<Longrightarrow>
    occupied_port None g e dst \<noteq> [] \<longleftrightarrow> port_taken g e"
  using graph_node_id [of g "e_target e" dst]
  by (auto simp: occupied_port_def port_taken_def filter_empty_conv)

lemma is_edge_legal_None_iff:
  "is_edge_legal reg check None None g e = None \<longleftrightarrow>
    (\<exists>variadic. ports_match reg g e variadic \<and> (variadic \<or> \<not> port_taken g e)) \<and>
    \<not> (check \<and> creates_cycle g e)" (is "?lhs \<longleftrightarrow> ?rhs")
proof (cases "graph_node g (e_source e)")
  case None
  then show ?thesis by (simp add: is_edge_legal_def ports_match_def)
next
  case src: (Some src)
  show ?thesis
  proof (cases "graph_node g (e_target e)")
    case None
    then show ?thesis using src by (simp add: is_edge_legal_def ports_match_def)
  next
    case dst: (Some dst)
    note ids = graph_node_id [OF src] graph_node_id [OF dst]
    show ?thesis
      using src dst ids occupied_None [OF dst]
      by (auto simp: is_edge_legal_def ports_match_def edge_block_rules_def edge_port_rules_def
          descriptor_for_def category_of_def bind_eq_None_conv
          split: option.splits if_splits bind_split_asm)
  qed
qed


lemma ports_match_ends: "ports_match reg g e v \<Longrightarrow>
    e_source e \<in> set (node_ids g) \<and> e_target e \<in> set (node_ids g) \<and> e_source e \<noteq> e_target e"
  using graph_node_iff [of g] by (force simp: ports_match_def)

text \<open>
  C25: a candidate edge is accepted exactly when its ends are two different blocks the
  registry publishes, the source is not terminal and may feed the category of the target, both
  ports exist, their types are compatible, a port for one connection is free, and the target does
  not already lead to the source.
\<close>

theorem validate_edge_accepts:
  "validate_edge reg g e = None \<longleftrightarrow>
    (\<exists>variadic. ports_match reg g e variadic \<and> (variadic \<or> \<not> port_taken g e)) \<and>
    (e_target e, e_source e) \<notin> (graph_arcs (add_edge g e))\<^sup>*"
  by (simp add: validate_edge_def is_edge_legal_None_iff creates_cycle_reach)

section \<open>Drawing a graph\<close>

text \<open>Every edge of a graph passes every rule.\<close>

definition all_edges_legal :: "registry \<Rightarrow> strategy_graph \<Rightarrow> bool" where
  "all_edges_legal reg g \<longleftrightarrow>
     list_all (\<lambda>e. is_edge_legal reg True None None g e = None) (g_edges g)"

lemma ports_match_add_edge [simp]: "ports_match reg (add_edge g e') e v \<longleftrightarrow> ports_match reg g e v"
  by (simp add: ports_match_def)

lemma all_edges_legal_acyclic:
  assumes "all_edges_legal reg g"
  shows "acyclic (graph_arcs g)"
proof (rule ccontr)
  assume "\<not> acyclic (graph_arcs g)"
  then obtain x where "(x, x) \<in> (graph_arcs g)\<^sup>+" by (auto simp: acyclic_def)
  then obtain y where xy: "(x, y) \<in> graph_arcs g" and loop: "(y, x) \<in> (graph_arcs g)\<^sup>*"
    by (meson tranclD)
  then obtain e where e: "e \<in> set (g_edges g)" "x = e_source e" "y = e_target e"
    by (auto simp: graph_arcs_def)
  have "graph_arcs (add_edge g e) = graph_arcs g" using e(1) by (auto simp: graph_arcs_def)
  then have "creates_cycle g e" using loop e by (simp add: creates_cycle_reach)
  then show False using assms e(1) by (auto simp: all_edges_legal_def list_all_iff is_edge_legal_None_iff)
qed

text \<open>
  C26: adding an accepted edge with a fresh identifier to a graph all of whose edges are legal
  leaves every edge legal, the old ones included.
\<close>

theorem connect_keeps_legal:
  assumes "all_edges_legal reg g" and "validate_edge reg g e = None"
    and "e_id e \<notin> e_id ` set (g_edges g)"
  shows "all_edges_legal reg (add_edge g e)"
proof -
  obtain v where new: "ports_match reg g e v" "v \<or> \<not> port_taken g e"
    and open_loop: "\<not> creates_cycle g e"
    using assms(2) by (auto simp: validate_edge_def is_edge_legal_None_iff)
  note ends = ports_match_ends [OF new(1)]
  have acyc: "acyclic (graph_arcs (add_edge g e))"
    using creates_cycle_correct [OF all_edges_legal_acyclic [OF assms(1)]] ends open_loop by blast
  have "is_edge_legal reg True None None (add_edge g e) c = None" if c: "c \<in> set (g_edges g @ [e])" for c
  proof -
    have "graph_arcs (add_edge (add_edge g e) c) = graph_arcs (add_edge g e)"
      using c by (auto simp: graph_arcs_def)
    moreover have "\<not> creates_cycle (add_edge g e) c" if m: "ports_match reg g c w" for w
    proof -
      have "(e_source c, e_target c) \<in> graph_arcs (add_edge g e)"
        using c ports_match_ends [OF m] by (auto simp: graph_arcs_def)
      then show ?thesis
        using acyc calculation unfolding creates_cycle_reach acyclic_def
        by (metis rtrancl_into_trancl2)
    qed
    moreover have "\<exists>w. ports_match reg g c w \<and> (w \<or> \<not> port_taken (add_edge g e) c)"
    proof (cases "c = e")
      case True
      then show ?thesis using new by (auto simp: port_taken_def)
    next
      case False
      then have cg: "c \<in> set (g_edges g)" using c by simp
      then obtain w where w: "ports_match reg g c w" "w \<or> \<not> port_taken g c"
        using assms(1) by (auto simp: all_edges_legal_def list_all_iff is_edge_legal_None_iff)
      have "v = w" if "e_target c = e_target e" "e_target_port c = e_target_port e"
        using that w(1) new(1) by (auto simp: ports_match_def)
      moreover have "port_taken g e" if "e_target c = e_target e" "e_target_port c = e_target_port e"
      proof -
        have "e_id c \<noteq> e_id e" using cg assms(3) by (metis imageI)
        then show ?thesis unfolding port_taken_def using that cg by blast
      qed
      ultimately have "w \<or> \<not> port_taken (add_edge g e) c"
        using w(2) new(2) by (auto simp: port_taken_def)
      then show ?thesis using w(1) by blast
    qed
    ultimately show ?thesis by (auto simp: is_edge_legal_None_iff)
  qed
  then show ?thesis by (simp add: all_edges_legal_def list_all_iff)
qed

end
