(* ===== verification/Graph_Plan.thy ===== *)
theory Graph_Plan
  imports Edge_Rules "HOL-Library.Product_Lexorder"
begin

text \<open>
  The views of a graph and the warmup walk of \<open>backend/strategy_dag/plan.py\<close>: predecessors,
  successors and inbound edges in one order of edges, and \<open>_effective_warmups\<close>, a post-order walk
  with an explicit stack that is told a node twice, before and after its predecessors.
\<close>

section \<open>Views\<close>

definition sorted_edges :: "strategy_graph \<Rightarrow> edge_spec list" where
  "sorted_edges g =
     sort_key (\<lambda>e. (e_source e, e_source_port e, e_target e, e_target_port e)) (g_edges g)"

text \<open>The loop of \<open>predecessor_map\<close> and \<open>successor_map\<close>: a bucket per node, no duplicates.\<close>

definition collect_ends ::
  "(edge_spec \<Rightarrow> string) \<Rightarrow> (edge_spec \<Rightarrow> string) \<Rightarrow> edge_spec list \<Rightarrow> (string, string list) dict \<Rightarrow>
    (string, string list) dict" where
  "collect_ends at_end other edges start =
     fold (\<lambda>e d. let bucket = targets d (at_end e) in
            dset (at_end e) (if other e \<in> set bucket then bucket else bucket @ [other e]) d)
       edges start"

definition empty_buckets :: "strategy_graph \<Rightarrow> (string, 'a list) dict" where
  "empty_buckets g = fold (\<lambda>n d. dset (n_id n) [] d) (g_nodes g) []"

definition predecessor_map :: "strategy_graph \<Rightarrow> (string, string list) dict" where
  "predecessor_map g =
     map (\<lambda>(n, sources). (n, sort sources))
       (collect_ends e_target e_source (sorted_edges g) (empty_buckets g))"

definition successor_map :: "strategy_graph \<Rightarrow> (string, string list) dict" where
  "successor_map g =
     map (\<lambda>(n, ts). (n, sort ts))
       (collect_ends e_source e_target (sorted_edges g) (empty_buckets g))"

definition inbound_map :: "strategy_graph \<Rightarrow> inbound" where
  "inbound_map g =
     fold (\<lambda>e out. dset (e_target e)
        (dict_append (e_target_port e) e (case dget out (e_target e) of None \<Rightarrow> [] | Some ports \<Rightarrow> ports)) out)
       (sorted_edges g) (empty_buckets g)"

lemma set_sorted_edges [simp]: "set (sorted_edges g) = set (g_edges g)"
  by (simp add: sorted_edges_def)

lemma collect_ends_targets:
  "set (targets (collect_ends f h edges d) n) = set (targets d n) \<union> {h e | e. e \<in> set edges \<and> f e = n}"
  unfolding collect_ends_def
  by (induction edges arbitrary: d) (auto simp: targets_dset Let_def)

lemma collect_ends_distinct:
  "(\<And>n. distinct (targets d n)) \<Longrightarrow> distinct (targets (collect_ends f h edges d) n)"
  unfolding collect_ends_def
  by (induction edges arbitrary: d) (auto simp: targets_dset Let_def)

lemma fill_buckets_targets:
  "(\<And>n. targets d n = []) \<Longrightarrow> targets (fold (\<lambda>n d. dset (n_id n) [] d) ns d) n = []"
  by (induction ns arbitrary: d) (auto simp: targets_dset)

lemma empty_buckets_targets [simp]: "targets (empty_buckets g) n = []"
  by (simp add: empty_buckets_def fill_buckets_targets)

lemma targets_map_sort: "targets (map (\<lambda>(n, xs). (n, sort xs)) d) n = sort (targets d n)"
  by (induction d) (auto simp: targets_def)

text \<open>Every node has exactly the sources of its edges, once and in order.\<close>

lemma predecessor_map_spec:
  "set (targets (predecessor_map g) n) = {e_source e | e. e \<in> set (g_edges g) \<and> e_target e = n}"
  "sorted (targets (predecessor_map g) n)" "distinct (targets (predecessor_map g) n)"
  by (simp_all add: predecessor_map_def targets_map_sort collect_ends_targets collect_ends_distinct)

lemma successor_map_spec:
  "set (targets (successor_map g) n) = {e_target e | e. e \<in> set (g_edges g) \<and> e_source e = n}"
  "sorted (targets (successor_map g) n)" "distinct (targets (successor_map g) n)"
  by (simp_all add: successor_map_def targets_map_sort collect_ends_targets collect_ends_distinct)

lemma inbound_at_fold:
  "inbound_at (fold (\<lambda>e out. dset (e_target e) (dict_append (e_target_port e) e
      (case dget out (e_target e) of None \<Rightarrow> [] | Some ports \<Rightarrow> ports)) out) edges out) n p =
    inbound_at out n p @ filter (\<lambda>e. e_target e = n \<and> e_target_port e = p) edges"
proof (induction edges arbitrary: out)
  case (Cons e edges)
  have "inbound_at (dset (e_target e) (dict_append (e_target_port e) e
      (case dget out (e_target e) of None \<Rightarrow> [] | Some ports \<Rightarrow> ports)) out) n p =
    inbound_at out n p @ (if e_target e = n \<and> e_target_port e = p then [e] else [])"
    by (auto simp: inbound_at_def dict_simps split: option.splits)
  then show ?case by (simp add: Cons.IH)
qed simp

lemma build_inbound_at: "inbound_at (build_inbound edges) n p =
    filter (\<lambda>e. e_target e = n \<and> e_target_port e = p) edges"
  by (simp add: build_inbound_def inbound_at_fold) (simp add: inbound_at_def)

text \<open>No edge of a variadic port is lost, and their order is a function of the set of edges.\<close>

lemma inbound_map_at: "inbound_at (inbound_map g) n p =
    filter (\<lambda>e. e_target e = n \<and> e_target_port e = p) (sorted_edges g)"
proof -
  have "inbound_at (empty_buckets g) n p = []"
    using empty_buckets_targets [of g n, where ?'a = "string \<times> edge_spec list"]
    by (auto simp: inbound_at_def targets_def split: option.splits)
  then show ?thesis by (simp add: inbound_map_def inbound_at_fold)
qed

section \<open>The warmup walk\<close>

datatype plan_error = UnresolvedBlock string string | WarmupFailed string string
  | GraphCycle "string list" | MissingNode string
  | ActionSymbolUnresolved string "string list" | AmbiguousActionSymbol string "string list"

definition own_warmup :: "registry \<Rightarrow> node_spec \<Rightarrow> plan_error + int" where
  "own_warmup reg n =
     (case reg (n_block_id n) of
        None \<Rightarrow> Inl (UnresolvedBlock (n_id n) (n_block_id n))
      | Some d \<Rightarrow> (case bd_warmup d (n_params n) of
            Inl _ \<Rightarrow> Inl (WarmupFailed (n_id n) (n_block_id n))
          | Inr own \<Rightarrow> Inr (max 0 own)))"

text \<open>The loop over the predecessors that are in the memo.\<close>

definition upstream_warmup :: "(string, int) dict \<Rightarrow> string list \<Rightarrow> int" where
  "upstream_warmup memo ps =
     fold (\<lambda>p up. case dget memo p of Some w \<Rightarrow> (if w > up then w else up) | None \<Rightarrow> up) ps 0"

definition finalise ::
  "(node_spec \<Rightarrow> plan_error + int) \<Rightarrow> (string, node_spec) dict \<Rightarrow> (string, string list) dict \<Rightarrow>
    string \<Rightarrow> (string, int) dict \<Rightarrow> plan_error + (string, int) dict" where
  "finalise own nodes ps x memo =
     (case dget nodes x of
        None \<Rightarrow> Inl (MissingNode x)
      | Some n \<Rightarrow> bnd (own n) (\<lambda>w. Inr (dset x (w + upstream_warmup memo (targets ps x)) memo)))"

text \<open>
  The inner loop. The stack has its top first; an entry is a node and whether its predecessors
  have been pushed. \<open>on_path\<close> is the set of the members of \<open>path\<close>.
\<close>

function warm_walk ::
  "(node_spec \<Rightarrow> plan_error + int) \<Rightarrow> (string, node_spec) dict \<Rightarrow> (string, string list) dict \<Rightarrow>
    (string, int) dict \<Rightarrow> string list \<Rightarrow> (string \<times> bool) list \<Rightarrow>
    plan_error + ((string, int) dict \<times> string list)" where
  "warm_walk own nodes ps memo path [] = Inr (memo, path)"
| "warm_walk own nodes ps memo path ((x, True) # stack) =
     (if dget memo x \<noteq> None then warm_walk own nodes ps memo (remove1 x path) stack
      else case finalise own nodes ps x memo of
             Inl err \<Rightarrow> Inl err
           | Inr memo' \<Rightarrow> warm_walk own nodes ps memo' (remove1 x path) stack)"
| "warm_walk own nodes ps memo path ((x, False) # stack) =
     (if dget memo x \<noteq> None then warm_walk own nodes ps memo path stack
      else if x \<in> set path then Inl (GraphCycle (dropWhile (\<lambda>y. y \<noteq> x) path @ [x]))
      else warm_walk own nodes ps memo (path @ [x])
             (rev (map (\<lambda>p. (p, False))
                (filter (\<lambda>p. dget memo p = None \<and> dget nodes p \<noteq> None) (targets ps x)))
              @ (x, True) # stack))"
  by pat_completeness auto

text \<open>Every expansion uses up a node that was neither on the path nor in the memo.\<close>

definition fresh_nodes ::
  "(string, node_spec) dict \<Rightarrow> (string, int) dict \<Rightarrow> string list \<Rightarrow> (string \<times> bool) list \<Rightarrow> string set" where
  "fresh_nodes nodes memo path stack =
     (dom (dget nodes) \<union> fst ` set stack) - dom (dget memo) - set path"

lemma finite_fresh [simp]: "finite (fresh_nodes nodes memo path stack)"
  by (simp add: fresh_nodes_def finite_dom_map_of)

lemma finalise_dom: "finalise own nodes ps x memo = Inr memo' \<Longrightarrow> dget memo' = (dget memo)(x \<mapsto> the (dget memo' x))"
  by (auto simp: finalise_def dict_simps result_simps fun_eq_iff split: option.splits)

lemma dom_finalise: "finalise own nodes ps x memo = Inr memo' \<Longrightarrow> dom (dget memo') = insert x (dom (dget memo))"
  by (metis dom_fun_upd finalise_dom option.distinct(1))

lemma fresh_pop:
  "x \<in> dom (dget memo') \<Longrightarrow> dom (dget memo) \<subseteq> dom (dget memo') \<Longrightarrow>
    fresh_nodes nodes memo' (remove1 x path) stack \<subseteq> fresh_nodes nodes memo path ((x, b) # stack)"
proof -
  assume x: "x \<in> dom (dget memo')" and d: "dom (dget memo) \<subseteq> dom (dget memo')"
  have "set path \<subseteq> insert x (set (remove1 x path))" by (induction path) auto
  then show ?thesis using x d unfolding fresh_nodes_def by (auto simp del: not_None_eq)
qed

lemma fresh_skip:
  "dom (dget memo) \<subseteq> dom (dget memo') \<Longrightarrow>
    fresh_nodes nodes memo' path stack \<subseteq> fresh_nodes nodes memo path (e # stack)"
  unfolding fresh_nodes_def by auto

lemma fresh_expand:
  assumes "dget memo x = None" and "x \<notin> set path"
    and "\<And>e. e \<in> set new \<Longrightarrow> fst e \<in> dom (dget nodes)"
  shows "fresh_nodes nodes memo (path @ [x]) (new @ (x, True) # stack) \<subset>
    fresh_nodes nodes memo path ((x, False) # stack)"
proof
  show "fresh_nodes nodes memo (path @ [x]) (new @ (x, True) # stack) \<subseteq>
      fresh_nodes nodes memo path ((x, False) # stack)"
    using assms(3) unfolding fresh_nodes_def by auto
  have "x \<in> fresh_nodes nodes memo path ((x, False) # stack)"
    using assms(1,2) by (auto simp: fresh_nodes_def)
  then show "fresh_nodes nodes memo (path @ [x]) (new @ (x, True) # stack) \<noteq>
      fresh_nodes nodes memo path ((x, False) # stack)" by (auto simp: fresh_nodes_def)
qed

abbreviation walk_order where
  "walk_order \<equiv> measures
     [\<lambda>(own :: node_spec \<Rightarrow> plan_error + int, nodes, ps :: (string, string list) dict, memo, path, stack).
        card (fresh_nodes nodes memo path stack),
      \<lambda>(own, nodes, ps, memo, path, stack). length stack]"

lemma walk_order_shrink:
  "fresh_nodes nodes memo' path' stack' \<subseteq> fresh_nodes nodes memo path stack \<Longrightarrow>
    length stack' < length stack \<Longrightarrow>
    ((own, nodes, ps, memo', path', stack'), (own, nodes, ps, memo, path, stack)) \<in> walk_order"
  by (drule card_mono [OF finite_fresh]) auto

lemma walk_order_expand:
  "fresh_nodes nodes memo' path' stack' \<subset> fresh_nodes nodes memo path stack \<Longrightarrow>
    ((own, nodes, ps, memo', path', stack'), (own, nodes, ps, memo, path, stack)) \<in> walk_order"
  by (drule psubset_card_mono [OF finite_fresh]) auto

termination warm_walk
proof (relation walk_order)
  show "wf walk_order" by simp
next
  fix own :: "node_spec \<Rightarrow> plan_error + int" and nodes and ps :: "(string, string list) dict"
    and memo :: "(string, int) dict" and path x stack
  assume "dget memo x \<noteq> None"
  then show "((own, nodes, ps, memo, remove1 x path, stack), own, nodes, ps, memo, path, (x, True) # stack)
      \<in> walk_order"
    by (intro walk_order_shrink fresh_pop) auto
next
  fix own :: "node_spec \<Rightarrow> plan_error + int" and nodes and ps :: "(string, string list) dict"
    and memo memo' :: "(string, int) dict" and path x stack
  assume "finalise own nodes ps x memo = Inr memo'"
  from dom_finalise [OF this]
  show "((own, nodes, ps, memo', remove1 x path, stack), own, nodes, ps, memo, path, (x, True) # stack)
      \<in> walk_order"
    by (intro walk_order_shrink fresh_pop) auto
next
  fix own :: "node_spec \<Rightarrow> plan_error + int" and nodes and ps :: "(string, string list) dict"
    and memo :: "(string, int) dict" and path x stack
  show "((own, nodes, ps, memo, path, stack), own, nodes, ps, memo, path, (x, False) # stack) \<in> walk_order"
    by (intro walk_order_shrink fresh_skip) auto
next
  fix own :: "node_spec \<Rightarrow> plan_error + int" and nodes and ps :: "(string, string list) dict"
    and memo :: "(string, int) dict" and path x stack
  assume "\<not> dget memo x \<noteq> None" and "x \<notin> set path"
  then show "((own, nodes, ps, memo, path @ [x],
      rev (map (\<lambda>p. (p, False)) (filter (\<lambda>p. dget memo p = None \<and> dget nodes p \<noteq> None) (targets ps x)))
        @ (x, True) # stack), own, nodes, ps, memo, path, (x, False) # stack) \<in> walk_order"
    by (intro walk_order_expand fresh_expand) auto
qed

end
