(* ===== verification/Graph_Warmup.thy ===== *)
theory Graph_Warmup
  imports Graph_Plan
begin

text \<open>
  The two compositions of warmups: \<open>compute_node_warmups\<close> of \<open>plan.py\<close> over the walk of
  \<open>Graph_Plan\<close>, and \<open>compose_warmup\<close> of \<open>validator.py\<close> along the topological order.
\<close>

section \<open>The plan's warmups\<close>

definition effective_warmups ::
  "(node_spec \<Rightarrow> plan_error + int) \<Rightarrow> (string, node_spec) dict \<Rightarrow> (string, string list) dict \<Rightarrow>
    plan_error + (string, int) dict" where
  "effective_warmups own nodes ps =
     bnd (foldm (\<lambda>(memo, path) start.
            if dget memo start \<noteq> None then Inr (memo, path)
            else warm_walk own nodes ps memo path [(start, False)]) ([], []) (sort (map fst nodes)))
       (\<lambda>(memo, path). Inr memo)"

definition compute_node_warmups :: "registry \<Rightarrow> strategy_graph \<Rightarrow> plan_error + (string, int) dict" where
  "compute_node_warmups reg g = effective_warmups (own_warmup reg) (node_index g) (predecessor_map g)"

definition sink_ids :: "strategy_graph \<Rightarrow> string list" where
  "sink_ids g = filter (\<lambda>s. targets (successor_map g) s = []) (node_ids g)"

definition max_or_zero :: "int list \<Rightarrow> int" where
  "max_or_zero xs = (case xs of [] \<Rightarrow> 0 | x # rest \<Rightarrow> fold max rest x)"

text \<open>\<open>compute_warmup\<close>; \<open>selected\<close> is the caller's choice of nodes.\<close>

definition compute_warmup :: "registry \<Rightarrow> strategy_graph \<Rightarrow> string list option \<Rightarrow> plan_error + int" where
  "compute_warmup reg g chosen =
     bnd (compute_node_warmups reg g) (\<lambda>warmups.
       if warmups = [] then Inr 0
       else let
         selected = (case chosen of
             Some ids \<Rightarrow> filter (\<lambda>i. dget warmups i \<noteq> None) ids
           | None \<Rightarrow>
               (let actions = map n_id (filter (\<lambda>n. n_category n = ACTION) (g_nodes g))
                in if actions \<noteq> [] then actions
                   else if sink_ids g \<noteq> [] then sink_ids g else map fst warmups))
       in Inr (max_or_zero (map (\<lambda>i. the (dget warmups i)) selected)))"

section \<open>The walk is correct\<close>

text \<open>The predecessors that are nodes.\<close>

definition known_preds ::
  "(string, node_spec) dict \<Rightarrow> (string, string list) dict \<Rightarrow> string \<Rightarrow> string set" where
  "known_preds nodes ps x = {p \<in> set (targets ps x). dget nodes p \<noteq> None}"

text \<open>
  A memo is sound when every entry is its own warmup plus the largest entry of a predecessor, all
  known predecessors having one, and no infinite walk leads backwards from the node.
\<close>

abbreviation pred_rel :: "(string, node_spec) dict \<Rightarrow> (string, string list) dict \<Rightarrow> (string \<times> string) set" where
  "pred_rel nodes ps \<equiv> {(p, y). p \<in> known_preds nodes ps y}"

definition memo_ok where
  "memo_ok own nodes ps memo \<longleftrightarrow>
     (\<forall>x w. dget memo x = Some w \<longrightarrow>
        (\<exists>n v. dget nodes x = Some n \<and> own n = Inr v \<and> known_preds nodes ps x \<subseteq> dom (dget memo) \<and>
           w = v + upstream_warmup memo (targets ps x)) \<and> x \<in> Wellfounded.acc (pred_rel nodes ps))"

text \<open>
  The stack: between two entries that are waiting for their predecessors stand nodes that are
  predecessors of the lower one, and every other predecessor of it is in the memo.
\<close>

fun stack_ok ::
  "(string, node_spec) dict \<Rightarrow> (string, string list) dict \<Rightarrow> (string, int) dict \<Rightarrow> string set \<Rightarrow>
    (string \<times> bool) list \<Rightarrow> bool" where
  "stack_ok nodes ps memo pend [] = True"
| "stack_ok nodes ps memo pend ((x, False) # st) =
     (x \<in> dom (dget nodes) \<and> stack_ok nodes ps memo (insert x pend) st)"
| "stack_ok nodes ps memo pend ((y, True) # st) =
     (y \<in> dom (dget nodes) \<and> pend \<subseteq> known_preds nodes ps y \<and>
      known_preds nodes ps y \<subseteq> dom (dget memo) \<union> pend \<and> stack_ok nodes ps memo {y} st)"

lemma stack_ok_mono:
  assumes "stack_ok nodes ps memo pend st" and "pend' \<subseteq> pend" and "pend \<subseteq> pend' \<union> dom (dget memo')"
    and "dom (dget memo) \<subseteq> dom (dget memo')"
  shows "stack_ok nodes ps memo' pend' st"
  using assms
proof (induction nodes ps memo pend st arbitrary: pend' rule: stack_ok.induct)
  case (2 nodes ps memo pend x st)
  have "stack_ok nodes ps memo' (insert x pend') st" by (rule "2.IH") (use "2.prems" in auto)
  then show ?case using "2.prems"(1) by auto
next
  case (3 nodes ps memo pend y st)
  have "stack_ok nodes ps memo' {y} st" by (rule "3.IH") (use "3.prems" in auto)
  then show ?case using "3.prems" unfolding stack_ok.simps by blast
qed simp

lemma stack_ok_walk:
  "stack_ok nodes ps memo pend st \<Longrightarrow>
    successively (\<lambda>a b. b \<in> known_preds nodes ps a) (rev (map fst (filter snd st))) \<and>
    (filter snd st \<noteq> [] \<longrightarrow> pend \<subseteq> known_preds nodes ps (fst (hd (filter snd st))))"
proof (induction nodes ps memo pend st rule: stack_ok.induct)
  case (3 nodes ps memo pend y st)
  then show ?case
    by (cases "filter snd st") (auto simp: successively_append_iff)
qed auto

lemma stack_ok_pushed:
  "stack_ok nodes ps memo pend (map (\<lambda>p. (p, False)) xs @ st) \<longleftrightarrow>
    set xs \<subseteq> dom (dget nodes) \<and> stack_ok nodes ps memo (pend \<union> set xs) st"
  by (induction xs arbitrary: pend) auto

lemma upstream_cong:
  "(\<And>p. p \<in> set ps \<Longrightarrow> dget memo p = dget memo' p) \<Longrightarrow> upstream_warmup memo ps = upstream_warmup memo' ps"
  unfolding upstream_warmup_def by (rule List.fold_cong) auto

lemma memo_ok_nodes: "memo_ok own nodes ps memo \<Longrightarrow> dom (dget memo) \<subseteq> dom (dget nodes)"
  unfolding memo_ok_def by blast

lemma memo_okD:
  assumes "memo_ok own nodes ps memo" and "dget memo x = Some w"
  obtains n v where "dget nodes x = Some n" "own n = Inr v" "known_preds nodes ps x \<subseteq> dom (dget memo)"
    "w = v + upstream_warmup memo (targets ps x)" "x \<in> Wellfounded.acc (pred_rel nodes ps)"
proof -
  have "(\<exists>n v. dget nodes x = Some n \<and> own n = Inr v \<and> known_preds nodes ps x \<subseteq> dom (dget memo) \<and>
      w = v + upstream_warmup memo (targets ps x)) \<and> x \<in> Wellfounded.acc (pred_rel nodes ps)"
    using assms unfolding memo_ok_def by (elim allE [of _ x] allE [of _ w]) simp
  then show ?thesis using that by blast
qed

lemma memo_ok_finalise:
  assumes ok: "memo_ok own nodes ps memo" and new: "dget memo x = None"
    and preds: "known_preds nodes ps x \<subseteq> dom (dget memo)"
    and fin: "finalise own nodes ps x memo = Inr memo'"
  shows "memo_ok own nodes ps memo' \<and> dget memo' = (dget memo)(x \<mapsto> the (dget memo' x))"
proof -
  obtain n v where n: "dget nodes x = Some n" "own n = Inr v"
    and memo': "memo' = dset x (v + upstream_warmup memo (targets ps x)) memo"
    using fin by (auto simp: finalise_def result_simps split: option.splits)
  have same: "upstream_warmup memo' (targets ps y) = upstream_warmup memo (targets ps y)"
    if "known_preds nodes ps y \<subseteq> dom (dget memo)" for y
  proof (rule upstream_cong)
    fix p assume "p \<in> set (targets ps y)"
    then have "p \<noteq> x" using that new n(1) by (auto simp: known_preds_def)
    then show "dget memo' p = dget memo p" by (simp add: memo' dict_simps)
  qed
  have "memo_ok own nodes ps memo'"
    unfolding memo_ok_def
  proof (intro allI impI)
    fix y w assume y: "dget memo' y = Some w"
    show "(\<exists>n v. dget nodes y = Some n \<and> own n = Inr v \<and> known_preds nodes ps y \<subseteq> dom (dget memo') \<and>
        w = v + upstream_warmup memo' (targets ps y)) \<and> y \<in> Wellfounded.acc (pred_rel nodes ps)"
    proof (cases "y = x")
      case True
      have "p \<in> Wellfounded.acc (pred_rel nodes ps)" if "p \<in> known_preds nodes ps x" for p
      proof -
        from that preds obtain w where "dget memo p = Some w" by blast
        then show ?thesis by (rule memo_okD [OF ok])
      qed
      then have "x \<in> Wellfounded.acc (pred_rel nodes ps)" by (rule acc.accI) simp
      then show ?thesis using True y n preds same [OF preds] by (auto simp: memo' dict_simps)
    next
      case False
      then have "dget memo y = Some w" using y by (simp add: memo' dict_simps)
      then obtain m u where "dget nodes y = Some m" "own m = Inr u"
        and k: "known_preds nodes ps y \<subseteq> dom (dget memo)" "w = u + upstream_warmup memo (targets ps y)"
          "y \<in> Wellfounded.acc (pred_rel nodes ps)"
        by (rule memo_okD [OF ok])
      then show ?thesis using same [OF k(1)] k(3) by (auto simp: memo' dict_simps)
    qed
  qed
  then show ?thesis by (simp add: memo' dict_simps fun_eq_iff)
qed

text \<open>The whole state of the walk.\<close>

definition walk_ok where
  "walk_ok own nodes ps memo path st \<longleftrightarrow>
     memo_ok own nodes ps memo \<and> distinct path \<and> set path \<inter> dom (dget memo) = {} \<and>
     map fst (filter snd st) = rev path \<and> stack_ok nodes ps memo {} st"

definition walk_error ::
  "(node_spec \<Rightarrow> plan_error + int) \<Rightarrow> (string, node_spec) dict \<Rightarrow> (string, string list) dict \<Rightarrow>
    plan_error \<Rightarrow> bool" where
  "walk_error own nodes ps err \<longleftrightarrow>
     (\<exists>n \<in> ran (dget nodes). own n = Inl err) \<or>
     (\<exists>c. err = GraphCycle c \<and> 2 \<le> length c \<and> hd c = last c \<and>
        successively (\<lambda>a b. b \<in> known_preds nodes ps a) c)"

definition walk_result where
  "walk_result own nodes ps memo st r \<longleftrightarrow>
     (case r of Inl err \<Rightarrow> walk_error own nodes ps err
      | Inr (memo', path') \<Rightarrow> path' = [] \<and> memo_ok own nodes ps memo' \<and> dget memo \<subseteq>\<^sub>m dget memo' \<and>
          fst ` set st \<subseteq> dom (dget memo'))"

lemma walk_result_weaken:
  assumes "walk_result own nodes ps memo' st' r" and "dget memo \<subseteq>\<^sub>m dget memo'"
    and "fst ` set st \<subseteq> dom (dget memo') \<union> fst ` set st'"
  shows "walk_result own nodes ps memo st r"
proof (cases r)
  case (Inr p)
  obtain m q where "r = Inr (m, q)" using Inr by (cases p) auto
  then have r: "q = []" "memo_ok own nodes ps m" "dget memo' \<subseteq>\<^sub>m dget m" "fst ` set st' \<subseteq> dom (dget m)"
    using assms(1) by (simp_all add: walk_result_def)
  moreover have "dom (dget memo') \<subseteq> dom (dget m)" using r(3) by (rule map_le_implies_dom_le)
  moreover have "dget memo \<subseteq>\<^sub>m dget m" using assms(2) r(3) by (rule map_le_trans)
  moreover have "fst ` set st \<subseteq> dom (dget m)"
    by (rule subset_trans [OF assms(3)]) (use calculation in blast)
  ultimately show ?thesis by (simp add: walk_result_def \<open>r = Inr (m, q)\<close>)
qed (use assms(1) in \<open>simp add: walk_result_def\<close>)


lemma walk_ok_popped:
  assumes ok: "walk_ok own nodes ps memo path ((x, b) # st)"
    and ok': "memo_ok own nodes ps memo'" and le: "dget memo' = (dget memo)(x \<mapsto> w)"
    and path': "path' = (if b then remove1 x path else path)" and off: "\<not> b \<Longrightarrow> x \<notin> set path"
  shows "walk_ok own nodes ps memo' path' st"
proof -
  note k = ok [unfolded walk_ok_def]
  have dom': "dom (dget memo') = insert x (dom (dget memo))" unfolding le by (auto simp: dom_def)
  have p: "distinct path'" "set path' = set path - {x}"
    using k path' off by (auto simp: set_remove1_eq split: if_splits)
  have "map fst (filter snd st) = rev path'"
  proof (cases b)
    case True
    then have "rev path = x # map fst (filter snd st)" using k by simp
    then have eq: "path = rev (map fst (filter snd st)) @ [x]" by (metis rev.simps(2) rev_rev_ident)
    then have "x \<notin> set (rev (map fst (filter snd st)))" using k by simp
    then show ?thesis using True path' by (simp add: eq remove1_append)
  next
    case False
    then show ?thesis using k path' by simp
  qed
  moreover have "stack_ok nodes ps memo' {} st"
  proof (rule stack_ok_mono)
    show "stack_ok nodes ps memo {x} st" using k by (cases b) simp_all
  qed (auto simp: le)
  ultimately show ?thesis unfolding walk_ok_def using ok' k p dom' by auto
qed

lemma walk_ok_seen:
  assumes ok: "walk_ok own nodes ps memo path ((x, b) # st)" and seen: "dget memo x = Some w"
  shows "walk_ok own nodes ps memo (if b then remove1 x path else path) st"
proof (rule walk_ok_popped [OF ok _ _ refl])
  show "memo_ok own nodes ps memo" using ok by (simp add: walk_ok_def)
  show "dget memo = (dget memo)(x \<mapsto> w)" using seen by auto
  show "x \<notin> set path" if "\<not> b"
    using ok seen by (auto simp: walk_ok_def)
qed

lemma walk_ok_expand:
  assumes ok: "walk_ok own nodes ps memo path ((x, False) # st)"
    and new: "dget memo x = None" and off: "x \<notin> set path"
  shows "walk_ok own nodes ps memo (path @ [x])
    (rev (map (\<lambda>p. (p, False)) (filter (\<lambda>p. dget memo p = None \<and> dget nodes p \<noteq> None) (targets ps x)))
      @ (x, True) # st)"
proof -
  note k = ok [unfolded walk_ok_def]
  define ns where "ns = rev (filter (\<lambda>p. dget memo p = None \<and> dget nodes p \<noteq> None) (targets ps x))"
  have set_ns: "set ns = known_preds nodes ps x - dom (dget memo)"
    by (auto simp: ns_def known_preds_def)
  have r: "rev (map (\<lambda>p. (p, False)) (filter (\<lambda>p. dget memo p = None \<and> dget nodes p \<noteq> None) (targets ps x)))
      = map (\<lambda>p. (p, False)) ns" by (simp add: ns_def rev_map)
  have "set ns \<subseteq> dom (dget nodes)" by (auto simp: ns_def)
  moreover have "x \<in> dom (dget nodes)" "stack_ok nodes ps memo {x} st" using k by simp_all
  ultimately have "stack_ok nodes ps memo {} (map (\<lambda>p. (p, False)) ns @ (x, True) # st)"
    unfolding stack_ok_pushed stack_ok.simps using set_ns by blast
  moreover have "filter snd (map (\<lambda>p. (p, False)) ns) = []" by (simp add: filter_empty_conv)
  moreover have "x \<notin> dom (dget memo)" using new by auto
  ultimately show ?thesis
    unfolding r walk_ok_def using k off by simp
qed

lemma walk_ok_cycle:
  assumes ok: "walk_ok own nodes ps memo path ((x, False) # st)" and x: "x \<in> set path"
  shows "walk_error own nodes ps (GraphCycle (dropWhile (\<lambda>y. y \<noteq> x) path @ [x]))"
proof -
  note k = ok [unfolded walk_ok_def]
  have fs: "map fst (filter snd st) = rev path" and st: "stack_ok nodes ps memo {x} st" using k by simp_all
  have ne: "filter snd st \<noteq> []" using fs x by auto
  then have "last path = fst (hd (filter snd st))"
    using fs by (metis hd_map hd_rev list.map_disc_iff rev_rev_ident)
  moreover have "path = rev (map fst (filter snd st))" by (simp add: fs)
  ultimately have "successively (\<lambda>a b. b \<in> known_preds nodes ps a) path"
    and "x \<in> known_preds nodes ps (last path)"
    using stack_ok_walk [OF st] ne by auto
  from close_walk [OF this(1) x this(2)] show ?thesis
    by (auto simp: walk_error_def)
qed

lemma walk_ok_top:
  assumes "walk_ok own nodes ps memo path ((x, True) # st)"
  shows "\<exists>n. dget nodes x = Some n" and "known_preds nodes ps x \<subseteq> dom (dget memo)"
  using assms by (auto simp: walk_ok_def)

lemma warm_walk_correct:
  assumes "walk_ok own nodes ps memo path st"
  shows "walk_result own nodes ps memo st (warm_walk own nodes ps memo path st)"
  using assms
proof (induction own nodes ps memo path st rule: warm_walk.induct)
  case (1 own nodes ps memo path)
  then show ?case by (simp add: walk_result_def walk_ok_def)
next
  case (2 own nodes ps memo path x st)
  show ?case
  proof (cases "dget memo x")
    case (Some w)
    then have "walk_result own nodes ps memo st (warm_walk own nodes ps memo (remove1 x path) st)"
      using "2.IH"(1) walk_ok_seen [OF "2.prems" Some] by simp
    then have "walk_result own nodes ps memo ((x, True) # st)
        (warm_walk own nodes ps memo (remove1 x path) st)"
      by (rule walk_result_weaken) (auto simp: Some)
    then show ?thesis using Some by simp
  next
    case None
    show ?thesis
    proof (cases "finalise own nodes ps x memo")
      case (Inl err)
      then have "walk_error own nodes ps err"
        using walk_ok_top(1) [OF "2.prems"]
        by (auto simp: finalise_def result_simps walk_error_def intro: ranI)
      then show ?thesis using Inl None by (simp add: walk_result_def)
    next
      case (Inr memo')
      have fin: "memo_ok own nodes ps memo'" "dget memo' = (dget memo)(x \<mapsto> the (dget memo' x))"
        using memo_ok_finalise [OF _ None walk_ok_top(2) [OF "2.prems"] Inr] "2.prems"
        by (auto simp: walk_ok_def)
      have "walk_ok own nodes ps memo' (remove1 x path) st"
        by (rule walk_ok_popped [OF "2.prems" fin]) simp_all
      from "2.IH"(2) [OF _ Inr this] None
      have r: "walk_result own nodes ps memo' st (warm_walk own nodes ps memo' (remove1 x path) st)" by simp
      have "x \<in> dom (dget memo')" by (subst fin(2)) simp
      moreover have "dget memo \<subseteq>\<^sub>m dget memo'" by (subst fin(2)) (auto simp: map_le_def None)
      ultimately have "walk_result own nodes ps memo ((x, True) # st)
          (warm_walk own nodes ps memo' (remove1 x path) st)"
        by (intro walk_result_weaken [OF r]) auto
      then show ?thesis using None Inr by simp
    qed
  qed
next
  case (3 own nodes ps memo path x st)
  show ?case
  proof (cases "dget memo x")
    case (Some w)
    then have "walk_result own nodes ps memo st (warm_walk own nodes ps memo path st)"
      using "3.IH"(1) walk_ok_seen [OF "3.prems" Some] by simp
    then have "walk_result own nodes ps memo ((x, False) # st) (warm_walk own nodes ps memo path st)"
      by (rule walk_result_weaken) (auto simp: Some)
    then show ?thesis using Some by simp
  next
    case None
    show ?thesis
    proof (cases "x \<in> set path")
      case True
      then show ?thesis using walk_ok_cycle [OF "3.prems" True] None by (simp add: walk_result_def)
    next
      case False
      from "3.IH"(2) [OF _ False walk_ok_expand [OF "3.prems" None False]] None
      have r: "walk_result own nodes ps memo
          (rev (map (\<lambda>p. (p, False)) (filter (\<lambda>p. dget memo p = None \<and> dget nodes p \<noteq> None) (targets ps x)))
            @ (x, True) # st)
          (warm_walk own nodes ps memo path ((x, False) # st))"
        using False by simp
      show ?thesis by (rule walk_result_weaken [OF r map_le_refl]) auto
    qed
  qed
qed


section \<open>The loop over the nodes\<close>

lemma warm_walk_start:
  assumes "memo_ok own nodes ps memo" and "dget memo x = None" and "x \<in> dom (dget nodes)"
  shows "walk_result own nodes ps memo [(x, False)] (warm_walk own nodes ps memo [] [(x, False)])"
  by (rule warm_walk_correct) (use assms in \<open>simp add: walk_ok_def\<close>)

lemma loop_weaken:
  assumes "case r of Inl e \<Rightarrow> P e | Inr (m, p) \<Rightarrow> Q m \<and> A \<subseteq> dom (dget m)" and "B \<subseteq> A"
  shows "case r of Inl e \<Rightarrow> P e | Inr (m, p) \<Rightarrow> Q m \<and> B \<subseteq> dom (dget m)"
proof (cases r)
  case (Inr q)
  then show ?thesis using assms by (cases q) (simp, blast)
qed (use assms in simp)

lemma effective_loop:
  assumes "memo_ok own nodes ps memo" and "set starts \<subseteq> dom (dget nodes)"
  shows "case foldm (\<lambda>(memo, path) start.
      if dget memo start \<noteq> None then Inr (memo, path)
      else warm_walk own nodes ps memo path [(start, False)]) (memo, []) starts of
      Inl err \<Rightarrow> walk_error own nodes ps err
    | Inr (memo', path') \<Rightarrow> memo_ok own nodes ps memo' \<and> dom (dget memo) \<union> set starts \<subseteq> dom (dget memo')"
  using assms
proof (induction starts arbitrary: memo)
  case (Cons x starts)
  show ?case
  proof (cases "dget memo x")
    case (Some w)
    have "case foldm (\<lambda>(memo, path) start. if dget memo start \<noteq> None then Inr (memo, path)
        else warm_walk own nodes ps memo path [(start, False)]) (memo, []) starts of
        Inl err \<Rightarrow> walk_error own nodes ps err
      | Inr (memo', path') \<Rightarrow> memo_ok own nodes ps memo' \<and>
          dom (dget memo) \<union> set (x # starts) \<subseteq> dom (dget memo')"
      by (rule loop_weaken [OF Cons.IH [OF Cons.prems(1)]]) (use Cons.prems(2) Some in auto)
    then show ?thesis using Some by simp
  next
    case None
    note r = warm_walk_start [OF Cons.prems(1) None, unfolded walk_result_def]
    show ?thesis
    proof (cases "warm_walk own nodes ps memo [] [(x, False)]")
      case (Inl err)
      then show ?thesis using r None Cons.prems(2) by simp
    next
      case (Inr q)
      obtain m p where q: "q = (m, p)" by (cases q)
      then have m: "p = []" "memo_ok own nodes ps m" "dget memo \<subseteq>\<^sub>m dget m" "x \<in> dom (dget m)"
        using r Inr Cons.prems(2) by auto
      have sub: "dom (dget memo) \<subseteq> dom (dget m)" using m(3) by (rule map_le_implies_dom_le)
      have "case foldm (\<lambda>(memo, path) start. if dget memo start \<noteq> None then Inr (memo, path)
          else warm_walk own nodes ps memo path [(start, False)]) (m, []) starts of
          Inl err \<Rightarrow> walk_error own nodes ps err
        | Inr (memo', path') \<Rightarrow> memo_ok own nodes ps memo' \<and>
            dom (dget memo) \<union> set (x # starts) \<subseteq> dom (dget memo')"
        by (rule loop_weaken [OF Cons.IH [OF m(2)]]) (use Cons.prems(2) m(4) sub in auto)
      then show ?thesis using Inr None q m(1) by simp
    qed
  qed
qed simp

lemma effective_warmups_correct:
  "case effective_warmups own nodes ps of
     Inl err \<Rightarrow> walk_error own nodes ps err
   | Inr memo \<Rightarrow> memo_ok own nodes ps memo \<and> dom (dget memo) = dom (dget nodes)"
proof -
  have s: "set (sort (map fst nodes)) = dom (dget nodes)" by (simp add: dom_map_of_conv_image_fst)
  have "memo_ok own nodes ps []" by (simp add: memo_ok_def)
  note l = effective_loop [OF this, of "sort (map fst nodes)", unfolded s]
  show ?thesis
  proof (cases "foldm (\<lambda>(memo, path) start. if dget memo start \<noteq> None then Inr (memo, path)
      else warm_walk own nodes ps memo path [(start, False)]) ([], []) (sort (map fst nodes))")
    case (Inl err)
    then show ?thesis using l by (simp add: effective_warmups_def)
  next
    case (Inr q)
    obtain m p where q: "q = (m, p)" by (cases q)
    then have "memo_ok own nodes ps m" "dom (dget nodes) \<subseteq> dom (dget m)" using l Inr by simp_all
    then show ?thesis using Inr q memo_ok_nodes [of own nodes ps m] by (auto simp: effective_warmups_def)
  qed
qed

section \<open>The heaviest path\<close>

lemma upstream_max:
  "upstream_warmup memo ps = Max (insert 0 {w. \<exists>p \<in> set ps. dget memo p = Some w})"
proof -
  have "fold (\<lambda>p up. case dget memo p of Some w \<Rightarrow> (if w > up then w else up) | None \<Rightarrow> up) ps u =
      Max (insert u {w. \<exists>p \<in> set ps. dget memo p = Some w})" for u
  proof (induction ps arbitrary: u)
    case (Cons p ps)
    have f: "finite {w. \<exists>p \<in> set ps. dget memo p = Some w}"
      by (rule finite_subset [of _ "(\<lambda>p. the (dget memo p)) ` set ps"]) force+
    show ?case
    proof (cases "dget memo p")
      case None
      then show ?thesis by (simp add: Cons.IH)
    next
      case (Some v)
      have "{w. \<exists>q \<in> set (p # ps). dget memo q = Some w} =
          insert v {w. \<exists>p \<in> set ps. dget memo p = Some w}" using Some by auto
      then show ?thesis using f Some
        by (cases "{w. \<exists>p \<in> set ps. dget memo p = Some w} = {}") (auto simp: Cons.IH max_def)
    qed
  qed simp
  then show ?thesis by (simp add: upstream_warmup_def)
qed

lemma finite_entries: "finite {w. \<exists>p \<in> set ps. dget memo p = Some w}"
  by (rule finite_subset [of _ "(\<lambda>p. the (dget memo p)) ` set ps"]) force+

lemma finite_entries0: "finite (insert 0 {w. \<exists>p \<in> set ps. dget memo p = Some w})"
  by (rule finite.insertI [OF finite_entries])

lemma upstream_ge: "p \<in> set ps \<Longrightarrow> dget memo p = Some w \<Longrightarrow> w \<le> upstream_warmup memo ps"
  unfolding upstream_max by (rule Max_ge [OF finite_entries0]) blast

lemma upstream_nonneg: "0 \<le> upstream_warmup memo ps"
  unfolding upstream_max by (rule Max_ge [OF finite_entries0]) blast

lemma upstream_attained:
  "upstream_warmup memo ps = 0 \<or> (\<exists>p \<in> set ps. dget memo p = Some (upstream_warmup memo ps))"
proof -
  have "upstream_warmup memo ps \<in> insert 0 {w. \<exists>p \<in> set ps. dget memo p = Some w}"
    unfolding upstream_max by (rule Max_in [OF finite_entries0]) blast
  then show ?thesis by auto
qed

text \<open>A path of a graph that ends at a node, and its weight.\<close>

definition path_to :: "strategy_graph \<Rightarrow> string \<Rightarrow> string list \<Rightarrow> bool" where
  "path_to g x p \<longleftrightarrow> p \<noteq> [] \<and> last p = x \<and> set p \<subseteq> set (node_ids g) \<and>
     successively (\<lambda>a b. (a, b) \<in> graph_arcs g) p"

definition own_of :: "registry \<Rightarrow> strategy_graph \<Rightarrow> string \<Rightarrow> int" where
  "own_of reg g x = (case dget (node_index g) x of
      Some n \<Rightarrow> (case own_warmup reg n of Inr v \<Rightarrow> v | Inl _ \<Rightarrow> 0) | None \<Rightarrow> 0)"

definition heaviest :: "strategy_graph \<Rightarrow> (string \<Rightarrow> int) \<Rightarrow> string \<Rightarrow> int \<Rightarrow> bool" where
  "heaviest g own x w \<longleftrightarrow>
     (\<exists>p. path_to g x p \<and> w = sum_list (map own p)) \<and> (\<forall>p. path_to g x p \<longrightarrow> sum_list (map own p) \<le> w)"

text \<open>Values that satisfy the equation of the warmups are the weights of the heaviest paths.\<close>

lemma heaviest_equation:
  assumes wf: "wf (graph_arcs g)"
    and eq: "\<And>x. x \<in> set (node_ids g) \<Longrightarrow> \<exists>u. w x = own x + u \<and> 0 \<le> u \<and>
      (u = 0 \<or> (\<exists>p. (p, x) \<in> graph_arcs g \<and> w p = u)) \<and> (\<forall>p. (p, x) \<in> graph_arcs g \<longrightarrow> w p \<le> u)"
    and x: "x \<in> set (node_ids g)"
  shows "heaviest g own x (w x)"
proof -
  have attained: "\<exists>p. path_to g x p \<and> w x = sum_list (map own p)" using wf x
  proof (induction x rule: wf_induct_rule)
    case (less x)
    obtain u where u: "w x = own x + u" "u = 0 \<or> (\<exists>p. (p, x) \<in> graph_arcs g \<and> w p = u)"
      using eq [OF less.prems] by blast
    from u(2) show ?case
    proof
      assume "u = 0"
      then show ?thesis using u(1) less.prems by (intro exI [of _ "[x]"]) (simp add: path_to_def)
    next
      assume "\<exists>p. (p, x) \<in> graph_arcs g \<and> w p = u"
      then obtain p where p: "(p, x) \<in> graph_arcs g" "w p = u" by blast
      then have "p \<in> set (node_ids g)" by (auto simp: graph_arcs_def)
      then obtain q where q: "path_to g p q" "w p = sum_list (map own q)" using less.IH [OF p(1)] by blast
      then have "path_to g x (q @ [x])"
        using p(1) less.prems by (auto simp: path_to_def successively_append_iff)
      then show ?thesis using u(1) p(2) q(2) by (intro exI [of _ "q @ [x]"]) simp
    qed
  qed
  have "sum_list (map own p) \<le> w x" if "path_to g x p" for p
    using that
  proof (induction p arbitrary: x rule: rev_induct)
    case (snoc y p)
    then have xy: "x = y" "y \<in> set (node_ids g)" by (auto simp: path_to_def)
    obtain u where u: "w y = own y + u" "0 \<le> u" "\<And>p. (p, y) \<in> graph_arcs g \<Longrightarrow> w p \<le> u"
      using eq [OF xy(2)] by blast
    show ?case
    proof (cases "p = []")
      case True
      then show ?thesis using u xy by simp
    next
      case False
      then have "path_to g (last p) p" "(last p, y) \<in> graph_arcs g"
        using snoc.prems by (auto simp: path_to_def successively_append_iff)
      then have "sum_list (map own p) \<le> u" using snoc.IH u(3) by fastforce
      then show ?thesis using u(1) xy by simp
    qed
  qed (simp add: path_to_def)
  then show ?thesis using attained by (simp add: heaviest_def)
qed

section \<open>The walk over a graph\<close>

lemma find_append: "find P (xs @ ys) = (case find P xs of Some x \<Rightarrow> Some x | None \<Rightarrow> find P ys)"
  by (induction xs) auto

lemma node_index_get: "dget (node_index g) x = find (\<lambda>n. n_id n = x) (rev (g_nodes g))"
proof -
  have "dget (fold (\<lambda>n d. dset (n_id n) n d) ns d) x =
      (case find (\<lambda>n. n_id n = x) (rev ns) of Some n \<Rightarrow> Some n | None \<Rightarrow> dget d x)"
    for ns and d :: "(string, node_spec) dict"
    by (induction ns arbitrary: d) (auto simp: dict_simps find_append split: option.splits)
  then show ?thesis by (simp add: node_index_def split: option.splits)
qed

lemma dom_node_index: "dom (dget (node_index g)) = set (node_ids g)"
proof -
  have "dget (node_index g) x = None \<longleftrightarrow> x \<notin> set (node_ids g)" for x
    by (auto simp: node_index_get find_None_iff node_ids_def)
  then show ?thesis by (auto simp: dom_def)
qed

lemma node_index_node: "dget (node_index g) x = Some n \<Longrightarrow> n \<in> set (g_nodes g) \<and> n_id n = x"
  using nth_mem [of _ "rev (g_nodes g)"] by (auto simp: node_index_get find_Some_iff)

lemma graph_preds:
  "x \<in> set (node_ids g) \<Longrightarrow>
    p \<in> known_preds (node_index g) (predecessor_map g) x \<longleftrightarrow> (p, x) \<in> graph_arcs g"
  using dom_node_index [of g]
  by (auto simp: known_preds_def predecessor_map_spec graph_arcs_def)

lemma graph_preds_arc: "p \<in> known_preds (node_index g) (predecessor_map g) x \<Longrightarrow>
    x \<in> set (node_ids g) \<Longrightarrow> (p, x) \<in> graph_arcs g"
  by (simp add: graph_preds)

lemma memo_heaviest:
  assumes ok: "memo_ok (own_warmup reg) (node_index g) (predecessor_map g) memo"
    and dom: "dom (dget memo) = set (node_ids g)"
  shows "wf (graph_arcs g)" and "dget memo x = Some w \<Longrightarrow> heaviest g (own_of reg g) x w"
proof -
  let ?acc = "Wellfounded.acc (pred_rel (node_index g) (predecessor_map g))"
  have "x \<in> Wellfounded.acc (graph_arcs g)" if "x \<in> ?acc" for x
    using that
  proof (induction x rule: acc.induct)
    case (accI x)
    show ?case
    proof (rule acc.accI)
      fix y assume arc: "(y, x) \<in> graph_arcs g"
      then have "x \<in> set (node_ids g)" by (auto simp: graph_arcs_def)
      then show "y \<in> Wellfounded.acc (graph_arcs g)" using accI.IH arc by (simp add: graph_preds)
    qed
  qed
  moreover have "x \<in> ?acc" if "x \<in> set (node_ids g)" for x
  proof -
    from that dom obtain w where "dget memo x = Some w" by blast
    then show ?thesis by (rule memo_okD [OF ok])
  qed
  moreover have "x \<in> Wellfounded.acc (graph_arcs g)" if "x \<notin> set (node_ids g)" for x
    by (rule acc.accI) (use that in \<open>auto simp: graph_arcs_def\<close>)
  ultimately show wf: "wf (graph_arcs g)" by (blast intro: acc_wfI)
  define v where "v x = the (dget memo x)" for x
  have eq: "\<exists>u. v x = own_of reg g x + u \<and> 0 \<le> u \<and>
      (u = 0 \<or> (\<exists>p. (p, x) \<in> graph_arcs g \<and> v p = u)) \<and> (\<forall>p. (p, x) \<in> graph_arcs g \<longrightarrow> v p \<le> u)"
    if x: "x \<in> set (node_ids g)" for x
  proof -
    from x dom obtain w where w: "dget memo x = Some w" by blast
    obtain n o1 where n: "dget (node_index g) x = Some n" "own_warmup reg n = Inr o1"
      and w_eq: "w = o1 + upstream_warmup memo (targets (predecessor_map g) x)"
      using w by (rule memo_okD [OF ok])
    let ?u = "upstream_warmup memo (targets (predecessor_map g) x)"
    have arc: "(p, x) \<in> graph_arcs g \<longleftrightarrow> p \<in> set (targets (predecessor_map g) x) \<and> p \<in> dom (dget memo)" for p
    proof -
      have "p \<in> dom (dget memo) \<longleftrightarrow> dget (node_index g) p \<noteq> None"
        by (metis dom dom_node_index domIff)
      then show ?thesis using graph_preds [OF x, of p] unfolding known_preds_def by blast
    qed
    have "v p \<le> ?u" if "(p, x) \<in> graph_arcs g" for p
    proof -
      from that obtain q where "p \<in> set (targets (predecessor_map g) x)" "dget memo p = Some q"
        unfolding arc by blast
      then show ?thesis using upstream_ge by (simp add: v_def)
    qed
    moreover have "?u = 0 \<or> (\<exists>p. (p, x) \<in> graph_arcs g \<and> v p = ?u)"
      using upstream_attained [of memo "targets (predecessor_map g) x"] arc by (auto simp: v_def)
    ultimately show ?thesis
      using w w_eq n upstream_nonneg by (intro exI [of _ ?u]) (simp add: v_def own_of_def)
  qed
  show "heaviest g (own_of reg g) x w" if w: "dget memo x = Some w"
  proof -
    have "x \<in> set (node_ids g)" using w dom by blast
    from heaviest_equation [OF wf eq this] show ?thesis using w by (simp add: v_def)
  qed
qed

text \<open>A closed walk against the edges of the graph.\<close>

definition backward_cycle :: "strategy_graph \<Rightarrow> string list \<Rightarrow> bool" where
  "backward_cycle g c \<longleftrightarrow> 2 \<le> length c \<and> hd c = last c \<and> successively (\<lambda>a b. (b, a) \<in> graph_arcs g) c"

lemma backward_cycle_cyclic: "backward_cycle g c \<Longrightarrow> \<not> acyclic (graph_arcs g)"
proof -
  assume c: "backward_cycle g c"
  then obtain x y xs where "c = x # y # xs" by (cases c; cases "tl c") (auto simp: backward_cycle_def)
  moreover have "successively (\<lambda>a b. (a, b) \<in> (graph_arcs g)\<inverse>) c" "hd c = last c"
    using c by (simp_all add: backward_cycle_def)
  ultimately have "(x, last (y # xs)) \<in> ((graph_arcs g)\<inverse>)\<^sup>+" "last (y # xs) = x"
    using walk_trancl [of "(graph_arcs g)\<inverse>" x "y # xs"] by simp_all
  then have "(x, x) \<in> ((graph_arcs g)\<inverse>)\<^sup>+" by (simp only:)
  then show ?thesis by (auto simp: acyclic_def trancl_converse)
qed

lemma successively_within:
  assumes "successively (\<lambda>a b. b \<in> known_preds (node_index g) (predecessor_map g) a) c"
    and "hd c = last c" and "2 \<le> length c"
  shows "set c \<subseteq> set (node_ids g)"
proof -
  have "set (tl c) \<subseteq> set (node_ids g)"
    if "successively (\<lambda>a b. b \<in> known_preds (node_index g) (predecessor_map g) a) c" for c
    using that dom_node_index [of g]
    by (induction "\<lambda>a b. b \<in> known_preds (node_index g) (predecessor_map g) a" c rule: successively.induct)
      (auto simp: known_preds_def)
  from this [OF assms(1)] show ?thesis using assms(2,3) by (cases c) (auto split: if_splits)
qed

lemma walk_error_graph:
  assumes "walk_error (own_warmup reg) (node_index g) (predecessor_map g) err"
  shows "(\<exists>n \<in> set (g_nodes g). own_warmup reg n = Inl err) \<or> (\<exists>c. err = GraphCycle c \<and> backward_cycle g c)"
proof -
  consider n x where "dget (node_index g) x = Some n" "own_warmup reg n = Inl err"
    | c where "err = GraphCycle c" "2 \<le> length c" "hd c = last c"
        "successively (\<lambda>a b. b \<in> known_preds (node_index g) (predecessor_map g) a) c"
    using assms by (auto simp: walk_error_def ran_def)
  then show ?thesis
  proof cases
    case 1
    then show ?thesis using node_index_node by blast
  next
    case 2
    have "successively (\<lambda>a b. (b, a) \<in> graph_arcs g) c"
      using 2(4) by (rule successively_mono) (use graph_preds_arc successively_within [OF 2(4,3,2)] in blast)
    then show ?thesis using 2 by (auto simp: backward_cycle_def)
  qed
qed

lemma node_warmups_verdict:
  "case compute_node_warmups reg g of
     Inl err \<Rightarrow> (\<exists>n \<in> set (g_nodes g). own_warmup reg n = Inl err) \<or>
       (\<exists>c. err = GraphCycle c \<and> backward_cycle g c)
   | Inr warmups \<Rightarrow> acyclic (graph_arcs g) \<and> dom (dget warmups) = set (node_ids g) \<and>
       (\<forall>x w. dget warmups x = Some w \<longrightarrow> heaviest g (own_of reg g) x w)"
proof (cases "compute_node_warmups reg g")
  case (Inl err)
  then show ?thesis
    using effective_warmups_correct [of "own_warmup reg" "node_index g" "predecessor_map g"]
    by (simp add: compute_node_warmups_def walk_error_graph)
next
  case (Inr memo)
  then have "memo_ok (own_warmup reg) (node_index g) (predecessor_map g) memo"
    "dom (dget memo) = set (node_ids g)"
    using effective_warmups_correct [of "own_warmup reg" "node_index g" "predecessor_map g"]
    by (simp_all add: compute_node_warmups_def dom_node_index)
  then show ?thesis using Inr memo_heaviest [of reg g memo] by (auto simp: wf_acyclic)
qed


end
