(* ===== verification/Graph_Compose.thy ===== *)
theory Graph_Compose
  imports Graph_Warmup
begin

text \<open>
  Computations along a topological order: \<open>compose_warmup\<close> of \<open>validator.py\<close>, which the warmup of
  a report comes from, and \<open>_levels_from_order\<close> of \<open>plan.py\<close>.
\<close>

section \<open>Filling a dictionary along an order\<close>

text \<open>
  Each key gets a value that depends on the values of keys before it. At the end every key has the
  value the finished dictionary gives it.
\<close>

lemma fold_dependencies:
  fixes f :: "('k \<Rightarrow> 'v option) \<Rightarrow> 'k \<Rightarrow> 'v"
  assumes "distinct order"
    and local: "\<And>m m' x. (\<And>p. p \<in> deps x \<Longrightarrow> m p = m' p) \<Longrightarrow> f m x = f m' x"
    and before: "\<And>us x vs p. order = us @ x # vs \<Longrightarrow> p \<in> deps x \<Longrightarrow> p \<in> set us \<or> p \<notin> set order"
  shows "map fst (fold (\<lambda>x acc. dset x (f (dget acc) x) acc) order []) = order \<and>
    (\<forall>x \<in> set order. dget (fold (\<lambda>x acc. dset x (f (dget acc) x) acc) order []) x =
       Some (f (dget (fold (\<lambda>x acc. dset x (f (dget acc) x) acc) order [])) x))"
proof -
  define run where "run us = fold (\<lambda>x acc. dset x (f (dget acc) x) acc) us []" for us
  have "map fst (run us) = us \<and> (\<forall>x \<in> set us. dget (run us) x = Some (f (dget (run us)) x))"
    if "order = us @ vs" for us vs
    using that
  proof (induction us arbitrary: vs rule: rev_induct)
    case (snoc x us)
    then have ih: "map fst (run us) = us" "\<And>y. y \<in> set us \<Longrightarrow> dget (run us) y = Some (f (dget (run us)) y)"
      and ord: "order = us @ x # vs" and new: "x \<notin> set us" using assms(1) by auto
    define r where "r = run us"
    have step: "run (us @ [x]) = dset x (f (dget r) x) r" by (simp add: run_def r_def)
    have none: "dget r x = None" using ih(1) new by (simp add: r_def map_of_eq_None_iff flip: set_map)
    have get: "dget (run (us @ [x])) = (dget r)(x \<mapsto> f (dget r) x)" by (simp only: step update_conv')
    have off: "x \<notin> deps y" if "y \<in> set (us @ [x])" for y
    proof -
      from that obtain as bs where "us @ [x] = as @ y # bs" by (meson split_list)
      then have o: "order = as @ y # (bs @ vs)" using ord by simp
      have "x \<notin> set as" using \<open>us @ [x] = as @ y # bs\<close> new
        by (metis append_butlast_last_id butlast_append butlast_snoc list.discI set_ConsD
            Un_iff set_append in_set_butlastD)
      then show ?thesis using before [OF o, of x] ord by auto
    qed
    have same: "f (dget (run (us @ [x]))) y = f (dget r) y" if "y \<in> set (us @ [x])" for y
      by (rule local) (use off [OF that] in \<open>auto simp: get\<close>)
    have "map fst (run (us @ [x])) = us @ [x]"
      unfolding step dset_absent [OF none] using ih(1) by (simp add: r_def)
    moreover have "dget (run (us @ [x])) y = Some (f (dget (run (us @ [x]))) y)" if "y \<in> set (us @ [x])" for y
      unfolding same [OF that] using ih(2) [folded r_def] new that by (auto simp: get)
    ultimately show ?case by blast
  qed (simp add: run_def)
  from this [of order "[]"] show ?thesis by (simp add: run_def)
qed

text \<open>The same along a topological order, for values that depend on the predecessors.\<close>

lemma fold_along_order:
  fixes f :: "(string \<Rightarrow> 'v option) \<Rightarrow> string \<Rightarrow> 'v"
  assumes order: "topological_order g = Some (order, levels)"
    and local: "\<And>m m' x. (\<And>p. p \<in> deps x \<Longrightarrow> m p = m' p) \<Longrightarrow> f m x = f m' x"
    and arcs: "\<And>p x. p \<in> deps x \<Longrightarrow> x \<in> set (node_ids g) \<Longrightarrow>
      (p, x) \<in> graph_arcs g \<or> p \<notin> set (node_ids g)"
  shows "map fst (fold (\<lambda>x acc. dset x (f (dget acc) x) acc) order []) = order \<and>
    (\<forall>x \<in> set order. dget (fold (\<lambda>x acc. dset x (f (dget acc) x) acc) order []) x =
       Some (f (dget (fold (\<lambda>x acc. dset x (f (dget acc) x) acc) order [])) x))"
proof (rule fold_dependencies [of order deps f, OF _ local])
  have c: "distinct order" "set order = set (node_ids g)" using topological_order_verdict [of g] order by simp_all
  then show "distinct order" by simp
  fix us x vs p assume split: "order = us @ x # vs" and p: "p \<in> deps x"
  have "x \<in> set (node_ids g)" using split c(2) by auto
  from arcs [OF p this] show "p \<in> set us \<or> p \<notin> set order"
  proof
    assume "(p, x) \<in> graph_arcs g"
    from topological_order_precedes [OF order this]
    obtain as bs where "order = as @ x # bs" "p \<in> set as" by blast
    then have "as = us" using c(1) split by (metis append_Cons_eq_iff not_distinct_conv_prefix distinct_append
        distinct.simps(2) append_eq_append_conv2 disjoint_iff list.set_intros(1))
    then show ?thesis using \<open>p \<in> set as\<close> by simp
  qed (use c in simp)
qed

section \<open>The validator's warmups\<close>

definition node_descriptors :: "registry \<Rightarrow> strategy_graph \<Rightarrow> (string, block_descriptor option) dict" where
  "node_descriptors reg g = fold (\<lambda>n d. dset (n_id n) (reg (n_block_id n)) d) (g_nodes g) []"

text \<open>\<open>descriptors.get(id)\<close>.\<close>

definition descriptor_at :: "(string, block_descriptor option) dict \<Rightarrow> string \<Rightarrow> block_descriptor option" where
  "descriptor_at descs s = (case dget descs s of Some d \<Rightarrow> d | None \<Rightarrow> None)"

definition reverse_edge :: "edge_spec \<Rightarrow> edge_spec" where
  "reverse_edge e = \<lparr>e_id = e_id e, e_source = e_target e, e_source_port = e_target_port e,
     e_target = e_source e, e_target_port = e_source_port e, e_type = None\<rparr>"

definition reverse_adjacency :: "strategy_graph \<Rightarrow> (string, string list) dict" where
  "reverse_adjacency g = build_adjacency (map reverse_edge (g_edges g)) (Some (map fst (node_index g)))"

text \<open>A warmup that cannot be read counts as zero; a negative one is taken as it is.\<close>

definition compose_own :: "block_descriptor option \<Rightarrow> node_spec \<Rightarrow> int" where
  "compose_own d n =
     (case d of None \<Rightarrow> 0
      | Some bd \<Rightarrow> (case bd_warmup bd (n_params n) of Inl _ \<Rightarrow> 0 | Inr own \<Rightarrow> own))"

definition warmup_of :: "(string \<Rightarrow> int option) \<Rightarrow> string \<Rightarrow> int" where
  "warmup_of m s = (case m s of Some w \<Rightarrow> w | None \<Rightarrow> 0)"

definition compose_step ::
  "(string, node_spec) dict \<Rightarrow> (string, block_descriptor option) dict \<Rightarrow> (string, string list) dict \<Rightarrow>
    string \<Rightarrow> (string, int) dict \<Rightarrow> (string, int) dict" where
  "compose_step idx descs rev_adj x acc =
     (case dget idx x of
        None \<Rightarrow> acc
      | Some n \<Rightarrow> dset x (compose_own (descriptor_at descs x) n +
                    max_or_zero (map (warmup_of (dget acc)) (targets rev_adj x))) acc)"

definition category_ids ::
  "block_category \<Rightarrow> strategy_graph \<Rightarrow> (string, block_descriptor option) dict \<Rightarrow> string list" where
  "category_ids cat g descs =
     map n_id (filter (\<lambda>n. category_of n (descriptor_at descs (n_id n)) = cat) (g_nodes g))"

definition compose_warmup ::
  "registry \<Rightarrow> strategy_graph \<Rightarrow> string list option \<Rightarrow> (string, block_descriptor option) dict option \<Rightarrow>
    (string, int) dict \<times> int" where
  "compose_warmup reg g order descriptors =
     (let descs = (case descriptors of Some d \<Rightarrow> d | None \<Rightarrow> node_descriptors reg g);
          walk = (case order of
              Some xs \<Rightarrow> xs
            | None \<Rightarrow> (case topological_order g of Some (xs, _) \<Rightarrow> xs | None \<Rightarrow> []));
          warmups = fold (compose_step (node_index g) descs (reverse_adjacency g)) walk [];
          actions = category_ids ACTION g descs;
          pool = (if actions \<noteq> [] then actions else map fst warmups)
      in (warmups, max_or_zero (map (warmup_of (dget warmups)) pool)))"

lemma reverse_adjacency_targets:
  "p \<in> set (targets (reverse_adjacency g) x) \<longleftrightarrow> (p, x) \<in> graph_arcs g"
proof -
  have k: "set (map fst (node_index g)) = set (node_ids g)"
    using dom_node_index [of g] by (simp add: dom_map_of_conv_image_fst)
  show ?thesis
    unfolding reverse_adjacency_def build_adjacency_spec(3) endpoints_known_def option.case k
    by (auto simp: reverse_edge_def graph_arcs_def)
qed

lemma max_or_zero_cases: "max_or_zero [] = 0" "xs \<noteq> [] \<Longrightarrow> max_or_zero xs = Max (set xs)"
proof -
  show "max_or_zero [] = 0" by (simp add: max_or_zero_def)
  show "max_or_zero xs = Max (set xs)" if "xs \<noteq> []"
    using that by (cases xs) (simp_all add: max_or_zero_def Max.set_eq_fold del: list.set)
qed

lemma reverse_adjacency_known: "p \<in> set (targets (reverse_adjacency g) x) \<Longrightarrow> x \<in> set (node_ids g)"
  by (auto simp: reverse_adjacency_targets graph_arcs_def)

text \<open>The entries of \<open>compose_warmup\<close>, and the equation they satisfy.\<close>

lemma compose_entries:
  fixes reg :: registry and descs :: "(string, block_descriptor option) dict option"
    and g :: strategy_graph and order :: "string list"
  assumes order: "topological_order g = Some (order, levels)"
  defines "ws \<equiv> fst (compose_warmup reg g (Some order) descs)"
    and "own x \<equiv> (case dget (node_index g) x of
      Some n \<Rightarrow> compose_own (descriptor_at (case descs of Some d \<Rightarrow> d | None \<Rightarrow> node_descriptors reg g) x) n
    | None \<Rightarrow> 0)"
  shows "map fst ws = order"
    and "x \<in> set (node_ids g) \<Longrightarrow> dget ws x =
      Some (own x + max_or_zero (map (warmup_of (dget ws)) (targets (reverse_adjacency g) x)))"
proof -
  define f where "f m x = own x + max_or_zero (map (warmup_of m) (targets (reverse_adjacency g) x))" for m x
  have set: "set order = set (node_ids g)" using topological_order_verdict [of g] order by simp
  have step: "compose_step (node_index g)
      (case descs of Some d \<Rightarrow> d | None \<Rightarrow> node_descriptors reg g) (reverse_adjacency g) x acc =
      dset x (f (dget acc) x) acc" if "x \<in> set order" for x acc
  proof -
    have "x \<in> dom (dget (node_index g))" using that set dom_node_index by auto
    then show ?thesis by (auto simp: compose_step_def f_def own_def)
  qed
  have ws: "ws = fold (\<lambda>x acc. dset x (f (dget acc) x) acc) order []"
    unfolding ws_def compose_warmup_def Let_def fst_conv option.case
    by (rule List.fold_cong) (simp_all add: step fun_eq_iff)
  have "map fst ws = order \<and> (\<forall>x \<in> set order. dget ws x = Some (f (dget ws) x))"
    unfolding ws
  proof (rule fold_along_order [OF order, of "\<lambda>x. set (targets (reverse_adjacency g) x)"])
    fix m m' :: "string \<Rightarrow> int option" and x
    assume "\<And>p. p \<in> set (targets (reverse_adjacency g) x) \<Longrightarrow> m p = m' p"
    then have "map (warmup_of m) (targets (reverse_adjacency g) x) =
        map (warmup_of m') (targets (reverse_adjacency g) x)" by (simp add: warmup_of_def)
    then show "f m x = f m' x" by (simp only: f_def)
  qed (simp add: reverse_adjacency_targets)
  then show "map fst ws = order" and "x \<in> set (node_ids g) \<Longrightarrow> dget ws x =
      Some (own x + max_or_zero (map (warmup_of (dget ws)) (targets (reverse_adjacency g) x)))"
    using set by (simp_all add: f_def)
qed

text \<open>A block whose own warmup both compositions read alike: published, readable, not negative.\<close>

definition warmup_declared :: "registry \<Rightarrow> node_spec \<Rightarrow> bool" where
  "warmup_declared reg n \<longleftrightarrow>
     (case reg (n_block_id n) of None \<Rightarrow> False
      | Some d \<Rightarrow> (case bd_warmup d (n_params n) of Inl _ \<Rightarrow> False | Inr v \<Rightarrow> 0 \<le> v))"

lemma warmup_declared_own: "warmup_declared reg n \<Longrightarrow>
    own_warmup reg n = Inr (compose_own (reg (n_block_id n)) n) \<and> 0 \<le> compose_own (reg (n_block_id n)) n"
  by (auto simp: warmup_declared_def own_warmup_def compose_own_def split: option.splits sum.splits)

lemma node_descriptors_get:
  "dget (node_descriptors reg g) x = map_option (\<lambda>n. reg (n_block_id n)) (dget (node_index g) x)"
proof -
  have "dget (fold (\<lambda>n d. dset (n_id n) (reg (n_block_id n)) d) ns d) x =
      map_option (\<lambda>n. reg (n_block_id n)) (dget (fold (\<lambda>n d. dset (n_id n) n d) ns e) x)"
    if "\<And>x. dget d x = map_option (\<lambda>n. reg (n_block_id n)) (dget e x)" for ns d and e :: "(string, node_spec) dict"
    using that by (induction ns arbitrary: d e) (auto simp: dict_simps)
  from this [of "[]" "[]"] show ?thesis by (simp add: node_descriptors_def node_index_def)
qed

lemma heaviest_unique: "heaviest g own x a \<Longrightarrow> heaviest g own x b \<Longrightarrow> a = b"
  by (force simp: heaviest_def)

lemma compose_heaviest:
  assumes order: "topological_order g = Some (order, levels)"
    and decl: "\<And>n. n \<in> set (g_nodes g) \<Longrightarrow> warmup_declared reg n" and x: "x \<in> set (node_ids g)"
  shows "\<exists>w. dget (fst (compose_warmup reg g (Some order) None)) x = Some w \<and> heaviest g (own_of reg g) x w"
proof -
  define ws where "ws = fst (compose_warmup reg g (Some order) None)"
  define w where "w y = the (dget ws y)" for y
  have own: "(case dget (node_index g) y of Some n \<Rightarrow>
      compose_own (descriptor_at (node_descriptors reg g) y) n | None \<Rightarrow> 0) = own_of reg g y \<and> 0 \<le> own_of reg g y"
    if "y \<in> set (node_ids g)" for y
  proof -
    from that obtain n where n: "dget (node_index g) y = Some n" using dom_node_index by blast
    from warmup_declared_own [OF decl] node_index_node [OF n] show ?thesis
      by (simp add: n own_of_def descriptor_at_def node_descriptors_get)
  qed
  have eq: "dget ws y = Some (own_of reg g y + max_or_zero (map w (targets (reverse_adjacency g) y)))"
    if y: "y \<in> set (node_ids g)" for y
  proof -
    have m: "map (warmup_of (dget ws)) (targets (reverse_adjacency g) y) = map w (targets (reverse_adjacency g) y)"
    proof (rule map_cong [OF refl])
      fix p assume "p \<in> set (targets (reverse_adjacency g) y)"
      then have "p \<in> set (node_ids g)" by (auto simp: reverse_adjacency_targets graph_arcs_def)
      then show "warmup_of (dget ws) p = w p"
        using compose_entries(2) [OF order, where x = p and reg = reg and descs = None] by (simp add: w_def warmup_of_def ws_def)
    qed
    show ?thesis
      using compose_entries(2) [OF order y, where reg = reg and descs = None,
          unfolded option.case(1), folded ws_def, unfolded m] own [OF y]
      by simp
  qed
  have wf: "wf (graph_arcs g)"
    using topological_order_verdict [of g] order finite_arcs [of "graph_adjacency g"]
    by (simp add: finite_acyclic_wf graph_adjacency_arcs)
  have nonneg: "0 \<le> w y" if "y \<in> set (node_ids g)" for y
    using wf that
  proof (induction y rule: wf_induct_rule)
    case (less y)
    have "0 \<le> w p" if "p \<in> set (targets (reverse_adjacency g) y)" for p
      using that less.IH by (auto simp: reverse_adjacency_targets graph_arcs_def)
    then have "0 \<le> max_or_zero (map w (targets (reverse_adjacency g) y))"
      by (cases "targets (reverse_adjacency g) y") (auto simp: max_or_zero_cases Max_ge_iff)
    then show ?case using eq [OF less.prems] own [OF less.prems] by (simp add: w_def)
  qed
  have "\<exists>u. w y = own_of reg g y + u \<and> 0 \<le> u \<and>
      (u = 0 \<or> (\<exists>p. (p, y) \<in> graph_arcs g \<and> w p = u)) \<and> (\<forall>p. (p, y) \<in> graph_arcs g \<longrightarrow> w p \<le> u)"
    if y: "y \<in> set (node_ids g)" for y
  proof (cases "targets (reverse_adjacency g) y = []")
    case True
    then have "(p, y) \<notin> graph_arcs g" for p using reverse_adjacency_targets [of p g y] by simp
    then show ?thesis using eq [OF y] True by (intro exI [of _ 0]) (simp add: w_def max_or_zero_cases)
  next
    case False
    let ?S = "w ` set (targets (reverse_adjacency g) y)"
    have "w y = own_of reg g y + Max ?S" using eq [OF y] False by (simp add: w_def max_or_zero_cases)
    moreover have "Max ?S \<in> ?S" by (rule Max_in) (use False in auto)
    moreover have "w p \<le> Max ?S" if "(p, y) \<in> graph_arcs g" for p
      by (rule Max_ge) (use that in \<open>auto simp: reverse_adjacency_targets\<close>)
    moreover have "0 \<le> q" if "q \<in> ?S" for q
      using that nonneg by (auto simp: reverse_adjacency_targets graph_arcs_def)
    ultimately show ?thesis
      by (intro exI [of _ "Max ?S"]) (auto simp: reverse_adjacency_targets)
  qed
  from heaviest_equation [OF wf this x] show ?thesis
    using eq [OF x] by (simp add: ws_def [symmetric] w_def)
qed

text \<open>
  C28: on an acyclic graph whose blocks all declare a readable warmup that is not negative,
  the walk over the plan returns, and it gives every node the warmup that \<open>compose_warmup\<close> gives.
\<close>

theorem compose_warmup_agrees:
  assumes acyclic: "acyclic (graph_arcs g)"
    and decl: "\<And>n. n \<in> set (g_nodes g) \<Longrightarrow> warmup_declared reg n"
  shows "\<exists>warmups. compute_node_warmups reg g = Inr warmups \<and>
    dget warmups = dget (fst (compose_warmup reg g None None))"
proof -
  from acyclic obtain order levels where order: "topological_order g = Some (order, levels)"
    using topological_order_exists [of g] by auto
  have none: "compose_warmup reg g None None = compose_warmup reg g (Some order) None"
    by (simp add: compose_warmup_def order)
  have "\<not> backward_cycle g c" for c using acyclic backward_cycle_cyclic by blast
  moreover have "own_warmup reg n \<noteq> Inl err" if "n \<in> set (g_nodes g)" for n err
    using warmup_declared_own [OF decl [OF that]] by simp
  ultimately obtain ws where ws: "compute_node_warmups reg g = Inr ws"
    using node_warmups_verdict [of g reg]
    by (cases "compute_node_warmups reg g") auto
  then have dom: "dom (dget ws) = set (node_ids g)"
    and heavy: "\<And>x w. dget ws x = Some w \<Longrightarrow> heaviest g (own_of reg g) x w"
    using node_warmups_verdict [of g reg] by auto
  let ?c = "fst (compose_warmup reg g (Some order) None)"
  have dom': "dom (dget ?c) = set (node_ids g)"
    using compose_entries(1) [OF order, where reg = reg and descs = None] topological_order_verdict [of g] order
    by (simp add: dom_map_of_conv_image_fst flip: set_map)
  have "dget ws x = dget ?c x" for x
  proof (cases "x \<in> set (node_ids g)")
    case True
    from compose_heaviest [OF order decl True] obtain w where
      w: "dget ?c x = Some w" "heaviest g (own_of reg g) x w" by blast
    from True dom obtain v where v: "dget ws x = Some v" by blast
    then show ?thesis using heaviest_unique [OF heavy [OF v] w(2)] w(1) by simp
  next
    case False
    then show ?thesis using dom dom' by (metis domIff)
  qed
  then show ?thesis using ws none by auto
qed

section \<open>Levels from an order\<close>

definition level_depth ::
  "(string, string list) dict \<Rightarrow> (string \<Rightarrow> nat option) \<Rightarrow> string \<Rightarrow> nat" where
  "level_depth deps depth x =
     (case List.map_filter depth (targets deps x) of
        [] \<Rightarrow> 0 | u # rest \<Rightarrow> fold max rest u + 1)"

definition levels_from_order :: "string list \<Rightarrow> (string, string list) dict \<Rightarrow> string list list" where
  "levels_from_order order deps =
     (let depth = fold (\<lambda>x d. dset x (level_depth deps (dget d) x) d) order [];
          buckets = fold (\<lambda>(x, l) b. dict_append l x b) depth []
      in map (\<lambda>l. sort (targets buckets l)) (sort (map fst buckets)))"

lemma level_depth_cong: "(\<And>p. p \<in> set (targets deps x) \<Longrightarrow> m p = m' p) \<Longrightarrow> level_depth deps m x = level_depth deps m' x"
proof -
  assume "\<And>p. p \<in> set (targets deps x) \<Longrightarrow> m p = m' p"
  then have "List.map_filter m (targets deps x) = List.map_filter m' (targets deps x)"
    by (induction "targets deps x" arbitrary: deps) (auto simp: List.map_filter_def cong: filter_cong)
  then show ?thesis by (simp add: level_depth_def)
qed

lemma level_depth_Max:
  "level_depth deps m x = (let S = {d. \<exists>p \<in> set (targets deps x). m p = Some d} in if S = {} then 0 else Max S + 1)"
proof -
  have s: "set (List.map_filter m ps) = {d. \<exists>p \<in> set ps. m p = Some d}" for ps
    by (force simp: List.map_filter_def)
  show ?thesis
  proof (cases "List.map_filter m (targets deps x)")
    case Nil
    then show ?thesis using s [of "targets deps x"] by (simp add: level_depth_def)
  next
    case (Cons u us)
    then have "Max {d. \<exists>p \<in> set (targets deps x). m p = Some d} = fold max us u"
      using s [of "targets deps x"] by (metis Max.set_eq_fold)
    moreover have "u \<in> {d. \<exists>p \<in> set (targets deps x). m p = Some d}"
      using s [of "targets deps x"] Cons by auto
    ultimately show ?thesis using Cons by (auto simp: level_depth_def Let_def)
  qed
qed

text \<open>The buckets group the nodes by level.\<close>

lemma buckets_spec:
  fixes ds :: "('a \<times> 'l) list"
  shows "targets (fold (\<lambda>(x, l) b. dict_append l x b) ds b) l = targets b l @ map fst (filter (\<lambda>(x, k). k = l) ds)"
    and "dict_ok b \<Longrightarrow> dict_ok (fold (\<lambda>(x, l) b. dict_append l x b) ds b)"
    and "fst ` set (fold (\<lambda>(x, l) b. dict_append l x b) ds b) = fst ` set b \<union> snd ` set ds"
proof -
  have k: "fst ` set (dict_append l x b) = insert l (fst ` set b)" for l x and b :: "('l, 'a list) dict"
  proof -
    have "dom (dget (dict_append l x b)) = insert l (dom (dget b))"
      unfolding dict_append_def update_conv' by (auto simp: dom_def)
    then show ?thesis by (simp only: dom_map_of_conv_image_fst)
  qed
  show "targets (fold (\<lambda>(x, l) b. dict_append l x b) ds b) l = targets b l @ map fst (filter (\<lambda>(x, k). k = l) ds)"
    by (induction ds arbitrary: b) auto
  show "dict_ok b \<Longrightarrow> dict_ok (fold (\<lambda>(x, l) b. dict_append l x b) ds b)"
    by (induction ds arbitrary: b) auto
  show "fst ` set (fold (\<lambda>(x, l) b. dict_append l x b) ds b) = fst ` set b \<union> snd ` set ds"
  proof (induction ds arbitrary: b)
    case (Cons p ds)
    then show ?case by (cases p) (simp add: k)
  qed simp
qed

text \<open>The index of the level a node stands in.\<close>

definition level_of :: "'a list list \<Rightarrow> 'a \<Rightarrow> nat" where
  "level_of levels x = length (takeWhile (\<lambda>l. x \<notin> set l) levels)"

lemma level_of_nth:
  assumes "distinct (concat levels)" and "i < length levels" and "x \<in> set (levels ! i)"
  shows "level_of levels x = i"
proof -
  have "levels = take i levels @ levels ! i # drop (Suc i) levels" using assms(2) by (rule id_take_nth_drop)
  moreover from this have "distinct (concat (take i levels) @ levels ! i @ concat (drop (Suc i) levels))"
    using assms(1) by (metis concat.simps(2) concat_append)
  then have "\<forall>l \<in> set (take i levels). x \<notin> set l" using assms(3) by auto
  moreover from this have "takeWhile (\<lambda>l. x \<notin> set l) (take i levels @ levels ! i # drop (Suc i) levels) =
      take i levels"
    using assms(3) by (subst takeWhile_append2) simp_all
  ultimately have "takeWhile (\<lambda>l. x \<notin> set l) levels = take i levels" by simp
  then show ?thesis using assms(2) by (simp add: level_of_def)
qed

lemma level_of_split:
  assumes "distinct (concat levels)" and "levels = us @ l # vs" and "x \<in> set l"
  shows "level_of levels x = length us"
  using level_of_nth [OF assms(1), of "length us" x] assms(2,3) by simp

lemma predecessor_arcs:
  assumes "x \<in> set (node_ids g)"
  shows "p \<in> set (targets (predecessor_map g) x) \<Longrightarrow> (p, x) \<in> graph_arcs g \<or> p \<notin> set (node_ids g)"
    and "(p, x) \<in> graph_arcs g \<Longrightarrow> p \<in> set (targets (predecessor_map g) x)"
  using assms by (auto simp: predecessor_map_spec graph_arcs_def)

lemma map_of_determines:
  assumes "map fst d = xs" and "distinct xs" and "\<And>x. x \<in> set xs \<Longrightarrow> dget d x = Some (h x)"
  shows "map (\<lambda>x. (x, h x)) xs = d"
proof -
  have "(fst p, h (fst p)) = p" if "p \<in> set d" for p
  proof -
    have "dget d (fst p) = Some (snd p)" using that assms(1,2) by simp
    moreover have "fst p \<in> set xs" using that assms(1) by force
    ultimately show ?thesis using assms(3) [of "fst p"] by (simp add: prod_eq_iff)
  qed
  then have "map (\<lambda>p. (fst p, h (fst p))) d = d" by (rule map_idI)
  then show ?thesis using assms(1) by (auto simp: comp_def)
qed

lemma depth_is_level:
  assumes order: "topological_order g = Some (order, levels)"
  shows "fold (\<lambda>x d. dset x (level_depth (predecessor_map g) (dget d) x) d) order [] =
    map (\<lambda>x. (x, level_of levels x)) order"
proof -
  define d where "d = fold (\<lambda>x d. dset x (level_depth (predecessor_map g) (dget d) x) d) order []"
  note c = topological_order_verdict [of g, unfolded order option.case prod.case]
  have dist: "distinct (concat levels)" using c by simp
  have f: "map fst d = order \<and> (\<forall>x \<in> set order. dget d x = Some (level_depth (predecessor_map g) (dget d) x))"
    unfolding d_def
  proof (rule fold_along_order [OF order, of "\<lambda>x. set (targets (predecessor_map g) x)"])
    show "level_depth (predecessor_map g) m x = level_depth (predecessor_map g) m' x"
      if "\<And>p. p \<in> set (targets (predecessor_map g) x) \<Longrightarrow> m p = m' p" for m m' and x
      using that by (rule level_depth_cong)
  qed (rule predecessor_arcs(1))
  have "x \<in> set order \<Longrightarrow> dget d x = Some (level_of levels x)" for x
  proof (induction "level_of levels x" arbitrary: x rule: less_induct)
    case less
    then have "x \<in> set (concat levels)" using c by simp
    then obtain us l vs where split: "levels = us @ l # vs" "x \<in> set l"
      by (metis in_set_conv_decomp set_concat UN_E)
    have lev: "level_of levels x = length us" by (rule level_of_split [OF dist split])
    have px: "preds (graph_adjacency g) x \<subseteq> set (concat us)"
      "us \<noteq> [] \<Longrightarrow> preds (graph_adjacency g) x \<inter> set (last us) \<noteq> {}"
      using c split unfolding levels_ok_def by blast+
    have arc: "p \<in> preds (graph_adjacency g) x \<longleftrightarrow> (p, x) \<in> graph_arcs g" for p
      using graph_adjacency_arcs [of g] by (metis arcs_iff preds_iff)
    have earlier: "level_of levels p < length us \<and> p \<in> set order" if "(p, x) \<in> graph_arcs g" for p
    proof -
      have "p \<in> set (concat us)" using that arc px(1) by blast
      then obtain as m bs where "us = as @ m # bs" "p \<in> set m"
        by (metis in_set_conv_decomp set_concat UN_E)
      moreover from this have "level_of levels p = length as"
        using level_of_split [OF dist, of as m "bs @ l # vs" p] split(1) by simp
      moreover have "p \<in> set order" using that c by (auto simp: graph_arcs_def)
      ultimately show ?thesis by simp
    qed
    let ?S = "{k. \<exists>p \<in> set (targets (predecessor_map g) x). dget d p = Some k}"
    have x: "x \<in> set (node_ids g)" using less.prems c by simp
    have S: "?S = level_of levels ` {p. (p, x) \<in> graph_arcs g}"
    proof (intro set_eqI iffI)
      fix k assume "k \<in> ?S"
      then obtain p where p: "p \<in> set (targets (predecessor_map g) x)" "dget d p = Some k" by blast
      then have "p \<in> fst ` set d" by (metis domI dom_map_of_conv_image_fst)
      then have "p \<in> set order" using f by (metis set_map)
      then have "(p, x) \<in> graph_arcs g" using predecessor_arcs(1) [OF x p(1)] c by simp
      then show "k \<in> level_of levels ` {p. (p, x) \<in> graph_arcs g}"
        using p(2) less.hyps [of p] earlier [of p] lev by auto
    next
      fix k assume "k \<in> level_of levels ` {p. (p, x) \<in> graph_arcs g}"
      then obtain p where "(p, x) \<in> graph_arcs g" "k = level_of levels p" by blast
      then show "k \<in> ?S"
        using less.hyps [of p] earlier [of p] lev predecessor_arcs(2) [OF x, of p] by auto
    qed
    have "level_depth (predecessor_map g) (dget d) x = length us"
    proof (cases "us = []")
      case True
      then have "{p. (p, x) \<in> graph_arcs g} = {}" using px(1) arc by auto
      then show ?thesis using True by (simp add: level_depth_Max S)
    next
      case False
      then obtain p where p: "(p, x) \<in> graph_arcs g" "p \<in> set (last us)" using px(2) arc by blast
      have "us = butlast us @ last us # []" using False by simp
      then have "level_of levels p = length us - 1"
        using level_of_split [OF dist, of "butlast us" "last us" "l # vs" p] split(1) p(2)
        by (metis append.assoc append_Cons append_Nil length_butlast)
      moreover have "finite (level_of levels ` {p. (p, x) \<in> graph_arcs g})"
        by (rule finite_subset [of _ "{..< length us}"]) (use earlier in auto)
      moreover have "k \<le> length us - 1" if "k \<in> level_of levels ` {p. (p, x) \<in> graph_arcs g}" for k
        using that earlier by fastforce
      ultimately have "Max (level_of levels ` {p. (p, x) \<in> graph_arcs g}) = length us - 1"
        using p(1) by (intro Max_eqI) (auto intro: rev_image_eqI)
      then show ?thesis using False p(1) by (auto simp: level_depth_Max S Let_def)
    qed
    then show ?case using f less.prems lev by simp
  qed
  then have "map (\<lambda>x. (x, level_of levels x)) order = d"
    using map_of_determines [of d order "level_of levels"] f c by simp
  then show ?thesis by (simp add: d_def)
qed

text \<open>
  Bucketing a topological order by depth gives back the levels Kahn's algorithm found.
\<close>

theorem levels_from_order_kahn:
  assumes order: "topological_order g = Some (order, levels)"
  shows "levels_from_order order (predecessor_map g) = levels"
proof -
  note c = topological_order_verdict [of g, unfolded order option.case prod.case]
  have dist: "distinct (concat levels)" using c by simp
  define ds where "ds = map (\<lambda>x. (x, level_of levels x)) order"
  define b where "b = fold (\<lambda>(x, l) b. dict_append l x b) ds []"
  have lev: "level_of levels x = i" if "i < length levels" "x \<in> set (levels ! i)" for i x
    by (rule level_of_nth [OF dist that])
  have ix: "x \<in> set order \<longleftrightarrow> (\<exists>i < length levels. x \<in> set (levels ! i))" for x
  proof -
    have "concat levels = order" using c by blast
    then have "x \<in> set order \<longleftrightarrow> list_ex (\<lambda>l. x \<in> set l) levels" by (auto simp: list_ex_iff)
    then show ?thesis by (simp only: list_ex_length)
  qed
  have ne: "levels ! i \<noteq> [] \<and> sorted (levels ! i)" if "i < length levels" for i
    using c that by (simp add: list_all_length)
  have keys: "set (map fst b) = {0..<length levels}"
  proof -
    have "set (map fst b) = level_of levels ` set order"
      unfolding set_map b_def buckets_spec(3) by (simp add: ds_def image_image)
    also have "\<dots> = {0..<length levels}"
    proof (intro set_eqI iffI)
      fix i assume "i \<in> level_of levels ` set order"
      then show "i \<in> {0..<length levels}" using ix lev by fastforce
    next
      fix i assume "i \<in> {0..<length levels}"
      then have i: "i < length levels" by simp
      then have "hd (levels ! i) \<in> set (levels ! i)" using ne by simp
      then show "i \<in> level_of levels ` set order" using ix lev [OF i] i by (metis image_eqI)
    qed
    finally show ?thesis .
  qed
  have "sort (map fst b) = [0..<length levels]"
  proof (rule sorted_distinct_set_unique)
    show "distinct (sort (map fst b))" unfolding b_def distinct_sort by (rule buckets_spec(2)) simp
    show "set (sort (map fst b)) = set [0..<length levels]" using keys by simp
  qed simp_all
  moreover have "sort (targets b i) = levels ! i" if i: "i < length levels" for i
  proof (rule sorted_distinct_set_unique)
    have t: "targets b i = map fst (filter (\<lambda>(x, k). k = i) ds)" by (simp add: b_def buckets_spec(1))
    then have t': "targets b i = filter (\<lambda>x. level_of levels x = i) order"
      by (simp add: ds_def filter_map comp_def)
    show "distinct (sort (targets b i))" using c by (simp add: t')
    show "distinct (levels ! i)" using dist i by (metis distinct_concat_iff nth_mem)
    show "sorted (levels ! i)" using ne i by simp
    show "set (sort (targets b i)) = set (levels ! i)" using ix lev i by (auto simp: t')
  qed simp
  ultimately have "map (\<lambda>l. sort (targets b l)) (sort (map fst b)) = levels"
    by (intro nth_equalityI) simp_all
  then show ?thesis
    unfolding levels_from_order_def depth_is_level [OF order] Let_def by (simp add: b_def ds_def)
qed

end
