(* ===== verification/Graph_Leakage.thy ===== *)
theory Graph_Leakage
  imports Graph_Compose
begin

text \<open>
  Stage 10b of the validator: \<open>validate_no_lookahead\<close>. A future bar must not reach a model: no
  forward shift, no output that encodes a later bar on a path into a model, no statistic over the
  whole series.
\<close>

section \<open>Reading parameters\<close>

text \<open>\<open>int(s)\<close> for a string: digits with single underscores between them, a sign, blanks around.\<close>

definition digits_ok :: "string \<Rightarrow> bool" where
  "digits_ok s \<longleftrightarrow> s \<noteq> [] \<and> is_digit (hd s) \<and> is_digit (last s) \<and>
     list_all (\<lambda>c. is_digit c \<or> c = CHR ''_'') s \<and>
     successively (\<lambda>a b. \<not> (a = CHR ''_'' \<and> b = CHR ''_'')) s \<and>
     length (filter is_digit s) \<le> 4300"

definition int_of_text :: "string \<Rightarrow> int option" where
  "int_of_text s0 =
     (let s = py_strip s0;
          neg = (s \<noteq> [] \<and> hd s = CHR ''-'');
          u = (if s \<noteq> [] \<and> (hd s = CHR ''-'' \<or> hd s = CHR ''+'') then tl s else s);
          n = int_of_digits (filter is_digit u)
      in if digits_ok u then Some (if neg then - n else n) else None)"

text \<open>
  \<open>_coerce_int\<close> of a parameter; an absent key reads as \<open>None\<close>. \<open>int\<close> of an infinity raises
  \<open>OverflowError\<close>, which is not among the exceptions the function catches.
\<close>

definition coerce_int :: "param_value option \<Rightarrow> py_exc + int option" where
  "coerce_int v =
     (case v of
        Some (PInt n) \<Rightarrow> Inr (Some n)
      | Some (PText s) \<Rightarrow> Inr (int_of_text s)
      | Some (PFloat (Finite r)) \<Rightarrow> Inr (Some (if 0 \<le> r then floor r else ceiling r))
      | Some (PFloat (Infinite _)) \<Rightarrow> Inl OverflowError
      | _ \<Rightarrow> Inr None)"

text \<open>\<open>str(params.get(''mode'', '''') or '''').strip().lower()\<close> is the word \<open>global\<close>; the text of a value
  that is not a string never is.\<close>

definition global_mode :: "node_spec \<Rightarrow> bool" where
  "global_mode n =
     (case dget (n_params n) ''mode'' of
        Some (PText s) \<Rightarrow> py_lower (py_strip s) = ''global'' | _ \<Rightarrow> False)"

definition review_is_discharged :: "block_descriptor \<Rightarrow> node_spec \<Rightarrow> bool" where
  "review_is_discharged d n \<longleftrightarrow>
     ''fit_on_train_split'' \<in> set (bd_flags d) \<and>
     (case dget (n_params n) ''fit_on'' of
        None \<Rightarrow> True | Some (PText s) \<Rightarrow> s = ''train_split'' | _ \<Rightarrow> False)"

section \<open>The checks\<close>

definition is_shift :: "block_descriptor \<Rightarrow> node_spec \<Rightarrow> bool" where
  "is_shift d n \<longleftrightarrow> n_block_id n = ''shift'' \<or> py_lower (bd_operator d) = ''shift''"

definition shift_issues :: "block_descriptor \<Rightarrow> node_spec \<Rightarrow> py_exc + issue list" where
  "shift_issues d n =
     (if is_shift d n
      then bnd (coerce_int (dget (n_params n) ''bars'')) (\<lambda>bars. Inr (case bars of
             Some b \<Rightarrow> if b < 0 then [make_issue LOOKAHEAD_SHIFT SEVERITY_ERROR (Some (n_id n)) None (Some ''bars'')]
                       else []
           | None \<Rightarrow> []))
      else Inr [])"

definition statistic_issues :: "block_descriptor \<Rightarrow> node_spec \<Rightarrow> issue list" where
  "statistic_issues d n =
     (if (bd_global_statistic d \<or> n_block_id n = ''feat_zscore'' \<or> n_block_id n = ''feat_normalize'') \<and>
         global_mode n
      then [make_issue GLOBAL_STATISTIC_LEAK SEVERITY_ERROR (Some (n_id n)) None (Some ''mode'')]
      else [])"

definition leak_issues ::
  "strategy_graph \<Rightarrow> string list \<Rightarrow> block_descriptor \<Rightarrow> node_spec \<Rightarrow> issue list" where
  "leak_issues g ml_reachable d n =
     (if bd_leakage d \<noteq> REVIEW_REQUIRED \<or> bd_category d = ML_DL \<or> review_is_discharged d n then []
      else if bd_leaky_outputs d \<noteq> [] then
        map (\<lambda>e. make_issue LEAKY_FEATURE_INTO_MODEL SEVERITY_ERROR (Some (n_id n)) (Some (e_id e))
                   (Some (e_source_port e)))
          (filter (\<lambda>e. e_source e = n_id n \<and> e_source_port e \<in> set (bd_leaky_outputs d) \<and>
                       e_target e \<in> set ml_reachable) (g_edges g))
      else if n_id n \<in> set ml_reachable then
        [make_issue LEAKY_FEATURE_INTO_MODEL SEVERITY_ERROR (Some (n_id n)) None None]
      else [])"

definition lookahead_of_node ::
  "strategy_graph \<Rightarrow> (string, block_descriptor option) dict \<Rightarrow> string list \<Rightarrow> issue list \<Rightarrow> node_spec \<Rightarrow>
    py_exc + issue list" where
  "lookahead_of_node g descs ml_reachable issues n =
     (case descriptor_at descs (n_id n) of
        None \<Rightarrow> Inr issues
      | Some d \<Rightarrow> bnd (shift_issues d n) (\<lambda>shifts.
          Inr (issues @ shifts @ statistic_issues d n @ leak_issues g ml_reachable d n)))"

text \<open>The text of the three codes, the second key of the sort.\<close>

definition leak_code_text :: "issue_code \<Rightarrow> string" where
  "leak_code_text c =
     (case c of LOOKAHEAD_SHIFT \<Rightarrow> ''LOOKAHEAD_SHIFT''
      | GLOBAL_STATISTIC_LEAK \<Rightarrow> ''GLOBAL_STATISTIC_LEAK''
      | LEAKY_FEATURE_INTO_MODEL \<Rightarrow> ''LEAKY_FEATURE_INTO_MODEL''
      | _ \<Rightarrow> [])"

definition or_empty :: "string option \<Rightarrow> string" where
  "or_empty s = (case s of Some x \<Rightarrow> x | None \<Rightarrow> [])"

definition leak_sort_key :: "issue \<Rightarrow> string \<times> string \<times> string \<times> string" where
  "leak_sort_key i =
     (or_empty (i_node i), leak_code_text (i_code i), or_empty (i_field i), or_empty (i_edge i))"

definition ml_node_ids ::
  "(string, node_spec) dict \<Rightarrow> (string, block_descriptor option) dict \<Rightarrow> string list" where
  "ml_node_ids index descs =
     sort (map fst (filter (\<lambda>(s, d). case d of None \<Rightarrow> False | Some bd \<Rightarrow> bd_category bd = ML_DL) descs))"

definition validate_no_lookahead ::
  "strategy_graph \<Rightarrow> (string, block_descriptor option) dict \<Rightarrow> (string, string list) dict \<Rightarrow>
    py_exc + issue list" where
  "validate_no_lookahead g descs rev_adj =
     (let ml_reachable = reachable_ids rev_adj (ml_node_ids (node_index g) descs)
      in bnd (foldm (lookahead_of_node g descs ml_reachable) [] (g_nodes g))
           (\<lambda>issues. Inr (sort_key leak_sort_key issues)))"

section \<open>What a clean result means\<close>

text \<open>A node that leads to a model, itself included.\<close>

definition feeds_model :: "registry \<Rightarrow> strategy_graph \<Rightarrow> string \<Rightarrow> bool" where
  "feeds_model reg g x \<longleftrightarrow>
     (\<exists>m n d. dget (node_index g) m = Some n \<and> reg (n_block_id n) = Some d \<and> bd_category d = ML_DL \<and>
        (x, m) \<in> (graph_arcs g)\<^sup>*)"

lemma dict_ok_descriptors [simp]: "dict_ok (node_descriptors reg g)"
proof -
  have "dict_ok (fold (\<lambda>n d. dset (n_id n) (reg (n_block_id n)) d) ns d)" if "dict_ok d"
    for ns :: "node_spec list" and d
    using that by (induction ns arbitrary: d) (auto simp: dict_simps)
  then show ?thesis by (simp add: node_descriptors_def)
qed

lemma reverse_adjacency_arcs: "arcs (reverse_adjacency g) = (graph_arcs g)\<inverse>"
  by (auto simp: reverse_adjacency_targets)

lemma ml_reachable_iff:
  "x \<in> set (reachable_ids (reverse_adjacency g) (ml_node_ids (node_index g) (node_descriptors reg g))) \<longleftrightarrow>
    feeds_model reg g x"
proof -
  have "set (ml_node_ids (node_index g) (node_descriptors reg g)) =
      {m. \<exists>d. dget (node_descriptors reg g) m = Some (Some d) \<and> bd_category d = ML_DL}"
    by (force simp: ml_node_ids_def map_of_eq_Some_iff split: option.splits)
  also have "\<dots> = {m. \<exists>n d. dget (node_index g) m = Some n \<and> reg (n_block_id n) = Some d \<and> bd_category d = ML_DL}"
    by (auto simp: node_descriptors_get)
  finally show ?thesis
    by (auto simp: reachable_ids_correct reverse_adjacency_arcs rtrancl_converse feeds_model_def)
qed

text \<open>A node without a way for a later bar into a model.\<close>

definition past_only :: "registry \<Rightarrow> strategy_graph \<Rightarrow> node_spec \<Rightarrow> block_descriptor \<Rightarrow> bool" where
  "past_only reg g n d \<longleftrightarrow>
     (is_shift d n \<longrightarrow> (\<exists>bars. coerce_int (dget (n_params n) ''bars'') = Inr bars \<and>
        (case bars of Some b \<Rightarrow> 0 \<le> b | None \<Rightarrow> True))) \<and>
     \<not> ((bd_global_statistic d \<or> n_block_id n = ''feat_zscore'' \<or> n_block_id n = ''feat_normalize'') \<and> global_mode n) \<and>
     (bd_leakage d = REVIEW_REQUIRED \<and> bd_category d \<noteq> ML_DL \<and> \<not> review_is_discharged d n \<longrightarrow>
       (if bd_leaky_outputs d = [] then \<not> feeds_model reg g (n_id n)
        else \<forall>e \<in> set (g_edges g). e_source e = n_id n \<and> e_source_port e \<in> set (bd_leaky_outputs d) \<longrightarrow>
          \<not> feeds_model reg g (e_target e)))"

lemma shift_issues_clean:
  "shift_issues d n = Inr [] \<longleftrightarrow> (is_shift d n \<longrightarrow>
    (\<exists>bars. coerce_int (dget (n_params n) ''bars'') = Inr bars \<and>
      (case bars of Some b \<Rightarrow> 0 \<le> b | None \<Rightarrow> True)))"
proof (cases "coerce_int (dget (n_params n) ''bars'')")
  case (Inr bars)
  then show ?thesis by (cases bars) (auto simp: shift_issues_def)
qed (auto simp: shift_issues_def)

lemma statistic_issues_clean:
  "statistic_issues d n = [] \<longleftrightarrow>
    \<not> ((bd_global_statistic d \<or> n_block_id n = ''feat_zscore'' \<or> n_block_id n = ''feat_normalize'') \<and> global_mode n)"
  by (simp add: statistic_issues_def)

lemma leak_issues_clean:
  assumes "\<And>x. x \<in> set ml \<longleftrightarrow> feeds_model reg g x"
  shows "leak_issues g ml d n = [] \<longleftrightarrow>
    (bd_leakage d = REVIEW_REQUIRED \<and> bd_category d \<noteq> ML_DL \<and> \<not> review_is_discharged d n \<longrightarrow>
       (if bd_leaky_outputs d = [] then \<not> feeds_model reg g (n_id n)
        else \<forall>e \<in> set (g_edges g). e_source e = n_id n \<and> e_source_port e \<in> set (bd_leaky_outputs d) \<longrightarrow>
          \<not> feeds_model reg g (e_target e)))"
  unfolding leak_issues_def assms by (auto simp: filter_empty_conv)

lemma lookahead_of_node_clean:
  assumes "dget (node_descriptors reg g) (n_id n) = Some (reg b)"
  shows "lookahead_of_node g (node_descriptors reg g)
      (reachable_ids (reverse_adjacency g) (ml_node_ids (node_index g) (node_descriptors reg g))) [] n = Inr [] \<longleftrightarrow>
    (case reg b of None \<Rightarrow> True | Some d \<Rightarrow> past_only reg g n d)"
proof (cases "reg b")
  case None
  then show ?thesis by (simp add: lookahead_of_node_def descriptor_at_def assms)
next
  case (Some d)
  let ?ml = "reachable_ids (reverse_adjacency g) (ml_node_ids (node_index g) (node_descriptors reg g))"
  have "lookahead_of_node g (node_descriptors reg g) ?ml [] n = Inr [] \<longleftrightarrow>
      shift_issues d n = Inr [] \<and> statistic_issues d n = [] \<and> leak_issues g ?ml d n = []"
    by (cases "shift_issues d n") (auto simp: lookahead_of_node_def descriptor_at_def assms Some)
  also have "\<dots> \<longleftrightarrow> past_only reg g n d"
    unfolding shift_issues_clean leak_issues_clean [OF ml_reachable_iff] past_only_def statistic_issues_clean
    by (rule refl)
  finally show ?thesis by (simp add: Some)
qed

lemma lookahead_grows:
  "lookahead_of_node g descs ml issues n = Inr r \<Longrightarrow> \<exists>more. r = issues @ more"
  by (auto simp: lookahead_of_node_def result_simps split: option.splits)

lemma lookahead_loop_grows:
  "foldm (lookahead_of_node g descs ml) issues ns = Inr r \<Longrightarrow> \<exists>more. r = issues @ more"
proof (induction ns arbitrary: issues)
  case (Cons n ns)
  then obtain q where q: "lookahead_of_node g descs ml issues n = Inr q"
    "foldm (lookahead_of_node g descs ml) q ns = Inr r" by (auto simp: result_simps)
  then show ?case using lookahead_grows Cons.IH by fastforce
qed simp

lemma lookahead_loop_clean:
  "foldm (lookahead_of_node g descs ml) [] ns = Inr [] \<longleftrightarrow>
    (\<forall>n \<in> set ns. lookahead_of_node g descs ml [] n = Inr [])"
proof (induction ns)
  case (Cons n ns)
  have "foldm (lookahead_of_node g descs ml) [] (n # ns) = Inr [] \<longleftrightarrow>
      lookahead_of_node g descs ml [] n = Inr [] \<and> foldm (lookahead_of_node g descs ml) [] ns = Inr []"
    using lookahead_loop_grows [of g descs ml _ ns "[]"] by (auto simp: result_simps)
  then show ?case using Cons.IH by simp
qed simp

lemma no_lookahead_verdict:
  assumes "distinct (node_ids g)"
  shows "validate_no_lookahead g (node_descriptors reg g) (reverse_adjacency g) = Inr [] \<longleftrightarrow>
    (\<forall>n \<in> set (g_nodes g). case reg (n_block_id n) of None \<Rightarrow> True | Some d \<Rightarrow> past_only reg g n d)"
proof -
  have idx: "dget (node_descriptors reg g) (n_id n) = Some (reg (n_block_id n))" if n: "n \<in> set (g_nodes g)" for n
  proof -
    have "n_id n \<in> set (node_ids g)" using n by (simp add: node_ids_def)
    then obtain m where m: "dget (node_index g) (n_id n) = Some m" using dom_node_index by blast
    then have "m = n"
      using node_index_node [OF m] n assms by (auto simp: node_ids_def distinct_map inj_on_def)
    then show ?thesis using m by (simp add: node_descriptors_get)
  qed
  have "validate_no_lookahead g (node_descriptors reg g) (reverse_adjacency g) = Inr [] \<longleftrightarrow>
      foldm (lookahead_of_node g (node_descriptors reg g)
        (reachable_ids (reverse_adjacency g) (ml_node_ids (node_index g) (node_descriptors reg g)))) []
        (g_nodes g) = Inr []"
    using set_sort [of leak_sort_key]
    by (auto simp: validate_no_lookahead_def Let_def result_simps simp flip: set_empty)
  then show ?thesis
    unfolding lookahead_loop_clean using lookahead_of_node_clean [OF idx] by simp
qed

text \<open>
  C23: on a graph with distinct node ids the check is clean exactly when no block of the
  registry that is used lets a later bar through: no forward shift, no statistic over the whole
  series, and nothing that encodes the future on a path into a model.
\<close>

theorem no_lookahead_iff:
  assumes "distinct (node_ids g)"
  shows "validate_no_lookahead g (node_descriptors reg g) (reverse_adjacency g) = Inr [] \<longleftrightarrow>
    (\<forall>n \<in> set (g_nodes g). case reg (n_block_id n) of None \<Rightarrow> True | Some d \<Rightarrow> past_only reg g n d)"
  by (rule no_lookahead_verdict [OF assms])

end
