(* ===== verification/Graph_Validation.thy ===== *)
theory Graph_Validation
  imports Graph_Leakage
begin

text \<open>
  The pipeline \<open>validate\<close> of \<open>backend/strategy_dag/validator.py\<close>: twelve stages over one graph, each
  adding its issues to one report. A stage is the list of issues it adds, in the order of the code.
  The parameter rules of a block (stage 3), the training-data gate (stage 11), the issues of a
  migration and the hash of a graph are arguments.
\<close>

section \<open>The report\<close>

datatype stage_status = PASSED | FAILED | SKIPPED | NOT_IMPLEMENTED

record report =
  rp_valid :: bool
  rp_hash :: "string option"
  rp_errors :: "issue list"
  rp_warnings :: "issue list"
  rp_stages :: "(nat \<times> string \<times> stage_status) list"
  rp_canonical :: "strategy_graph option"
  rp_order :: "(string list \<times> string list list) option"
  rp_warmup_bars :: "int option"
  rp_warmups :: "(string, int) dict"

definition new_report :: report where
  "new_report = \<lparr>rp_valid = True, rp_hash = None, rp_errors = [], rp_warnings = [], rp_stages = [],
     rp_canonical = None, rp_order = None, rp_warmup_bars = None, rp_warmups = []\<rparr>"

definition report_add :: "issue \<Rightarrow> report \<Rightarrow> report" where
  "report_add i rp =
     (if i_severity i = SEVERITY_ERROR then rp\<lparr>rp_errors := rp_errors rp @ [i], rp_valid := False\<rparr>
      else rp\<lparr>rp_warnings := rp_warnings rp @ [i]\<rparr>)"

definition report_extend :: "issue list \<Rightarrow> report \<Rightarrow> report" where
  "report_extend is rp = fold report_add is rp"

definition record_stage :: "nat \<Rightarrow> string \<Rightarrow> stage_status \<Rightarrow> report \<Rightarrow> report" where
  "record_stage k name status rp = rp\<lparr>rp_stages := rp_stages rp @ [(k, name, status)]\<rparr>"

text \<open>The pattern of most stages: the status compares the number of errors before and after.\<close>

definition issues_stage :: "nat \<Rightarrow> string \<Rightarrow> issue list \<Rightarrow> report \<Rightarrow> report" where
  "issues_stage k name is rp =
     (let rp' = report_extend is rp
      in record_stage k name
           (if length (rp_errors rp') = length (rp_errors rp) then PASSED else FAILED) rp')"

section \<open>Stage 1\<close>

record graph_limits =
  max_nodes :: nat
  max_edges :: nat
  max_ml_nodes :: nat
  max_feature_nodes :: nat
  max_feature_columns :: int
  max_fan_in :: nat

definition LIMITS :: graph_limits where
  "LIMITS = \<lparr>max_nodes = 200, max_edges = 400, max_ml_nodes = 4, max_feature_nodes = 40,
     max_feature_columns = 200, max_fan_in = 16\<rparr>"

definition SUPPORTED_SCHEMA_VERSIONS :: "int list" where
  "SUPPORTED_SCHEMA_VERSIONS = [1, 2]"

definition limit_issue :: "issue_code \<Rightarrow> string \<Rightarrow> issue" where
  "limit_issue code key = make_issue code SEVERITY_ERROR None None (Some key)"

definition fan_in :: "edge_spec list \<Rightarrow> (string \<times> string, nat) dict" where
  "fan_in edges = fold (\<lambda>e d. dset (e_target e, e_target_port e)
     ((case dget d (e_target e, e_target_port e) of Some k \<Rightarrow> k | None \<Rightarrow> 0) + 1) d) edges []"

definition limit_issues ::
  "strategy_graph \<Rightarrow> graph_limits \<Rightarrow> (string, block_descriptor option) dict \<Rightarrow> int option \<Rightarrow> issue list" where
  "limit_issues g limits descs columns =
     (if length (g_nodes g) > max_nodes limits then [limit_issue NODE_LIMIT_EXCEEDED ''max_nodes''] else []) @
     (if length (g_edges g) > max_edges limits then [limit_issue EDGE_LIMIT_EXCEEDED ''max_edges''] else []) @
     (if length (category_ids ML_DL g descs) > max_ml_nodes limits
      then [limit_issue ML_NODE_LIMIT_EXCEEDED ''max_ml_nodes''] else []) @
     (if length (category_ids FEATURE_ENGINEERING g descs) > max_feature_nodes limits
      then [limit_issue FEATURE_NODE_LIMIT_EXCEEDED ''max_feature_nodes''] else []) @
     (case columns of
        Some c \<Rightarrow> if c > max_feature_columns limits
                  then [limit_issue FEATURE_COLUMN_LIMIT_EXCEEDED ''max_feature_columns''] else []
      | None \<Rightarrow> []) @
     map (\<lambda>(k, count). make_issue PORT_FAN_IN_LIMIT_EXCEEDED SEVERITY_ERROR (Some (fst k)) None
                         (Some ''max_fan_in_per_variadic_port''))
       (filter (\<lambda>(k, count). count > max_fan_in limits) (sort_key fst (fan_in (g_edges g))))"

fun duplicate_node_issues :: "string list \<Rightarrow> node_spec list \<Rightarrow> issue list" where
  "duplicate_node_issues seen [] = []"
| "duplicate_node_issues seen (n # ns) =
     (if n_id n \<in> set seen
      then [make_issue DUPLICATE_NODE_ID SEVERITY_ERROR (Some (n_id n)) None (Some ''id'')] else []) @
     duplicate_node_issues (n_id n # seen) ns"

fun edge_structure_issues :: "string list \<Rightarrow> string list \<Rightarrow> edge_spec list \<Rightarrow> issue list" where
  "edge_structure_issues known seen [] = []"
| "edge_structure_issues known seen (e # es) =
     (if e_id e \<in> set seen
      then [make_issue DUPLICATE_EDGE_ID SEVERITY_ERROR None (Some (e_id e)) (Some ''id'')] else []) @
     (if e_source e \<notin> set known \<or> e_target e \<notin> set known
      then [make_issue EDGE_ENDPOINT_UNKNOWN SEVERITY_ERROR None (Some (e_id e)) None] else []) @
     edge_structure_issues known (e_id e # seen) es"

definition structural_issues ::
  "strategy_graph \<Rightarrow> graph_limits \<Rightarrow> (string, block_descriptor option) dict \<Rightarrow> int option \<Rightarrow> issue list" where
  "structural_issues g limits descs columns =
     (if g_schema_version g \<notin> set SUPPORTED_SCHEMA_VERSIONS
      then [make_issue UNSUPPORTED_SCHEMA_VERSION SEVERITY_ERROR None None (Some ''schema_version'')] else []) @
     (if g_nodes g = [] then [make_issue EMPTY_GRAPH SEVERITY_ERROR None None None] else []) @
     duplicate_node_issues [] (g_nodes g) @
     edge_structure_issues (node_ids g) [] (g_edges g) @
     limit_issues g limits descs columns"

section \<open>Stages 2 to 5\<close>

definition registry_issues ::
  "strategy_graph \<Rightarrow> (string, block_descriptor option) dict \<Rightarrow> issue list" where
  "registry_issues g descs =
     map (\<lambda>n. make_issue UNRESOLVED_BLOCK SEVERITY_ERROR (Some (n_id n)) None (Some ''block_id''))
       (filter (\<lambda>n. descriptor_at descs (n_id n) = None) (g_nodes g))"

text \<open>The parameter rules may raise; the issues of the nodes before are then lost with the report.\<close>

definition parameter_issues ::
  "(node_spec \<Rightarrow> block_descriptor \<Rightarrow> py_exc + issue list) \<Rightarrow> strategy_graph \<Rightarrow>
    (string, block_descriptor option) dict \<Rightarrow> py_exc + issue list" where
  "parameter_issues param_rules g descs =
     foldm (\<lambda>acc n. case descriptor_at descs (n_id n) of
              None \<Rightarrow> Inr acc
            | Some d \<Rightarrow> bnd (param_rules n d) (\<lambda>is. Inr (acc @ is))) [] (g_nodes g)"

definition port_issues ::
  "registry \<Rightarrow> strategy_graph \<Rightarrow> (string, block_descriptor option) dict \<Rightarrow> inbound \<Rightarrow> issue list" where
  "port_issues reg g descs inb =
     List.map_filter (\<lambda>e. is_edge_legal reg False (Some inb) (Some descs) g e)
       (filter (\<lambda>e. e_source e \<in> set (node_ids g) \<and> e_target e \<in> set (node_ids g)) (g_edges g))"

definition required_input_issues ::
  "strategy_graph \<Rightarrow> (string, block_descriptor option) dict \<Rightarrow> inbound \<Rightarrow> issue list" where
  "required_input_issues g descs inb =
     concat (map (\<lambda>n. case descriptor_at descs (n_id n) of
         None \<Rightarrow> []
       | Some d \<Rightarrow>
           map (\<lambda>p. make_issue REQUIRED_INPUT_MISSING SEVERITY_ERROR (Some (n_id n)) None (Some (port_name p)))
             (filter (\<lambda>p. port_required p \<and> inbound_at inb (n_id n) (port_name p) = []) (bd_inputs d)))
       (g_nodes g))"

section \<open>Stage 6\<close>

definition closing_edge :: "strategy_graph \<Rightarrow> string list \<Rightarrow> edge_spec option" where
  "closing_edge g cycle =
     (if length cycle < 2 then None
      else find (\<lambda>e. e_source e = last (butlast cycle) \<and> e_target e = last cycle) (g_edges g))"

definition cycle_issues :: "strategy_graph \<Rightarrow> string list \<Rightarrow> issue list" where
  "cycle_issues g cycle =
     (if cycle = [] then []
      else [(make_issue CYCLE SEVERITY_ERROR (Some (hd cycle)) (map_option e_id (closing_edge g cycle)) None)
              \<lparr>i_loop := cycle\<rparr>])"

section \<open>Stages 7 to 9\<close>

definition reachability_issues ::
  "strategy_graph \<Rightarrow> string list \<Rightarrow> string list \<Rightarrow> issue list" where
  "reachability_issues g downstream_of_data upstream_of_action =
     map (\<lambda>n. make_issue ORPHAN_NODE SEVERITY_ERROR (Some (n_id n)) None None)
       (filter (\<lambda>n. n_id n \<notin> set downstream_of_data \<and> n_id n \<notin> set upstream_of_action) (g_nodes g))"

definition execution_path_issues :: "string list \<Rightarrow> string list \<Rightarrow> string list \<Rightarrow> issue list" where
  "execution_path_issues data_ids action_ids downstream_of_data =
     (if data_ids = []
      then [make_issue MISSING_REQUIRED_CATEGORY SEVERITY_ERROR None None (Some ''category'')] else []) @
     (if action_ids = []
      then [make_issue MISSING_REQUIRED_CATEGORY SEVERITY_ERROR None None (Some ''category'')] else []) @
     (if data_ids \<noteq> [] \<and> action_ids \<noteq> [] \<and> filter (\<lambda>a. a \<in> set downstream_of_data) action_ids = []
      then [make_issue ACTION_UNREACHABLE_FROM_DATA SEVERITY_ERROR None None None] else [])"

definition carries_signal :: "block_descriptor option \<Rightarrow> string \<Rightarrow> bool" where
  "carries_signal d name =
     (case Option.bind d (\<lambda>bd. output_port bd name) of
        None \<Rightarrow> False | Some p \<Rightarrow> port_kind p = SIGNAL \<or> port_kind p = TRADE_INTENT)"

definition provenance_issue ::
  "(string, node_spec) dict \<Rightarrow> (string, block_descriptor option) dict \<Rightarrow> edge_spec \<Rightarrow> issue list" where
  "provenance_issue index descs e =
     (case dget index (e_source e) of
        None \<Rightarrow> []
      | Some src \<Rightarrow>
          let d = descriptor_at descs (n_id src)
          in if category_of src d = LOGIC \<or> carries_signal d (e_source_port e) then []
             else [make_issue ACTION_INPUT_PROVENANCE SEVERITY_ERROR (Some (n_id src)) (Some (e_id e))
                     (Some (e_target_port e))])"

text \<open>\<open>isinstance(symbol, str) and symbol\<close>.\<close>

definition declared_symbol :: "node_spec \<Rightarrow> string option" where
  "declared_symbol n =
     (case dget (n_params n) ''symbol'' of
        Some (PText s) \<Rightarrow> if s = [] then None else Some s | _ \<Rightarrow> None)"

text \<open>The symbols of the data blocks in a closure; the code keeps them as the keys of a dictionary.\<close>

definition data_symbol ::
  "(string, node_spec) dict \<Rightarrow> (string, block_descriptor option) dict \<Rightarrow> string \<Rightarrow> string option" where
  "data_symbol index descs x =
     (case dget index x of
        None \<Rightarrow> None
      | Some n \<Rightarrow> if category_of n (descriptor_at descs x) = DATA then declared_symbol n else None)"

definition closure_symbols ::
  "(string, node_spec) dict \<Rightarrow> (string, block_descriptor option) dict \<Rightarrow> string list \<Rightarrow> string list" where
  "closure_symbols index descs closure = remdups (List.map_filter (data_symbol index descs) closure)"

definition allocates ::
  "(string, node_spec) dict \<Rightarrow> (string, block_descriptor option) dict \<Rightarrow> string list \<Rightarrow> bool" where
  "allocates index descs closure =
     list_ex (\<lambda>x. dget index x \<noteq> None \<and>
       (case descriptor_at descs x of None \<Rightarrow> False | Some d \<Rightarrow> ''portfolio_allocation'' \<in> set (bd_flags d)))
       closure"

definition action_issues ::
  "strategy_graph \<Rightarrow> (string, block_descriptor option) dict \<Rightarrow> inbound \<Rightarrow> (string, string list) dict \<Rightarrow>
    string \<Rightarrow> issue list" where
  "action_issues g descs inb rev_adj a =
     concat (map (provenance_issue (node_index g) descs)
       (concat (dvalues (case dget inb a of None \<Rightarrow> [] | Some ports \<Rightarrow> ports)))) @
     (let closure = reachable_ids rev_adj [a]
      in if length (closure_symbols (node_index g) descs closure) > 1 \<and>
            \<not> allocates (node_index g) descs closure
         then [make_issue MULTI_SYMBOL_ACTION_PATH SEVERITY_ERROR (Some a) None (Some ''symbol'')] else [])"

section \<open>Recomputation\<close>

definition recompute_node :: "(string, block_descriptor option) dict \<Rightarrow> node_spec \<Rightarrow> node_spec" where
  "recompute_node descs n =
     (case descriptor_at descs (n_id n) of
        None \<Rightarrow> n
      | Some d \<Rightarrow> n\<lparr>n_category := bd_category d, n_inputs := bd_inputs d, n_outputs := bd_outputs d\<rparr>)"

definition node_overrides :: "(string, block_descriptor option) dict \<Rightarrow> node_spec \<Rightarrow> issue list" where
  "node_overrides descs n =
     (case descriptor_at descs (n_id n) of
        None \<Rightarrow> []
      | Some d \<Rightarrow>
          (if (n_inputs n \<noteq> [] \<or> n_outputs n \<noteq> []) \<and> (n_inputs n, n_outputs n) \<noteq> (bd_inputs d, bd_outputs d)
           then [make_issue PORT_CONTRACT_RECOMPUTED SEVERITY_WARNING (Some (n_id n)) None (Some ''inputs/outputs'')]
           else []) @
          (if n_category n \<noteq> bd_category d
           then [make_issue CATEGORY_REMAPPED SEVERITY_WARNING (Some (n_id n)) None (Some ''category'')]
           else []))"

definition recomputed_type ::
  "string list \<Rightarrow> (string, block_descriptor option) dict \<Rightarrow> edge_spec \<Rightarrow> port_type option" where
  "recomputed_type ids descs e =
     (if e_source e \<in> set ids
      then map_option port_kind
             (Option.bind (descriptor_at descs (e_source e)) (\<lambda>d. output_port d (e_source_port e)))
      else None)"

definition recompute_edge ::
  "string list \<Rightarrow> (string, block_descriptor option) dict \<Rightarrow> edge_spec \<Rightarrow> edge_spec" where
  "recompute_edge ids descs e =
     (case recomputed_type ids descs e of None \<Rightarrow> e | Some t \<Rightarrow> e\<lparr>e_type := Some t\<rparr>)"

definition edge_overrides ::
  "string list \<Rightarrow> (string, block_descriptor option) dict \<Rightarrow> edge_spec \<Rightarrow> issue list" where
  "edge_overrides ids descs e =
     (case (e_type e, recomputed_type ids descs e) of
        (Some t, Some t') \<Rightarrow> if t \<noteq> t'
          then [make_issue EDGE_TYPE_RECOMPUTED SEVERITY_WARNING None (Some (e_id e)) (Some ''type'')] else []
      | _ \<Rightarrow> [])"

definition recompute_graph ::
  "strategy_graph \<Rightarrow> (string, block_descriptor option) dict \<Rightarrow> strategy_graph \<times> issue list" where
  "recompute_graph g descs =
     (g\<lparr>g_nodes := map (recompute_node descs) (g_nodes g),
        g_edges := map (recompute_edge (node_ids g) descs) (g_edges g)\<rparr>,
      concat (map (node_overrides descs) (g_nodes g)) @
      concat (map (edge_overrides (node_ids g) descs) (g_edges g)))"

section \<open>The pipeline\<close>

text \<open>What the pipeline is given beside the graph.\<close>

record validation_inputs =
  vi_param_rules :: "node_spec \<Rightarrow> block_descriptor \<Rightarrow> py_exc + issue list"
  vi_ml_rules :: "strategy_graph \<Rightarrow> issue list option"
  vi_migration :: "issue list"
  vi_hash :: "strategy_graph \<Rightarrow> string"
  vi_warmup_provider :: "(strategy_graph \<Rightarrow> int) option"
  vi_available_bars :: "int option"
  vi_feature_columns :: "int option"
  vi_limits :: graph_limits

definition migration_stage :: "issue list \<Rightarrow> report \<Rightarrow> report" where
  "migration_stage is rp =
     (if is = [] then rp
      else record_stage 0 ''migration''
             (if list_ex (\<lambda>i. i_severity i = SEVERITY_ERROR) is then FAILED else PASSED) (report_extend is rp))"

text \<open>Stages 1 to 9, with the execution order that follows stage 6; \<open>params\<close> is the result of stage 3.\<close>

definition graph_stages ::
  "registry \<Rightarrow> validation_inputs \<Rightarrow> strategy_graph \<Rightarrow> (string, block_descriptor option) dict \<Rightarrow>
    string list \<Rightarrow> issue list \<Rightarrow> report \<Rightarrow> report" where
  "graph_stages reg inp g descs cycle params rp =
     (let inb = build_inbound (g_edges g);
          data = category_ids DATA g descs;
          actions = category_ids ACTION g descs;
          downstream = reachable_ids (graph_adjacency g) data;
          upstream = reachable_ids (reverse_adjacency g) actions;
          rp1 = issues_stage 1 ''structural''
                  (structural_issues g (vi_limits inp) descs (vi_feature_columns inp)) rp;
          rp2 = issues_stage 2 ''registry_resolution'' (registry_issues g descs) rp1;
          rp3 = issues_stage 3 ''parameters'' params rp2;
          rp4 = issues_stage 4 ''port_contracts'' (port_issues reg g descs inb) rp3;
          rp5 = issues_stage 5 ''required_inputs'' (required_input_issues g descs inb) rp4;
          rp6 = (issues_stage 6 ''acyclicity'' (cycle_issues g cycle) rp5)
                  \<lparr>rp_order := (if cycle = [] then topological_order g else None)\<rparr>;
          rp7 = issues_stage 7 ''reachability'' (reachability_issues g downstream upstream) rp6;
          rp8 = issues_stage 8 ''execution_path'' (execution_path_issues data actions downstream) rp7
      in issues_stage 9 ''action_provenance''
           (concat (map (action_issues g descs inb (reverse_adjacency g)) actions)) rp8)"

text \<open>The three outcomes of stage 10 on an acyclic graph.\<close>

definition feasibility_stage :: "int option \<Rightarrow> int \<Rightarrow> report \<Rightarrow> report" where
  "feasibility_stage available bars rp =
     (case available of
        None \<Rightarrow> record_stage 10 ''warmup'' SKIPPED rp
      | Some n \<Rightarrow>
          record_stage 10 ''warmup'' PASSED
            (if bars > n
             then report_add (make_issue WARMUP_EXCEEDS_HISTORY SEVERITY_WARNING None None
                                (Some ''warmup_bars'')) rp
             else rp))"

definition warmup_stage ::
  "registry \<Rightarrow> validation_inputs \<Rightarrow> strategy_graph \<Rightarrow> (string, block_descriptor option) dict \<Rightarrow>
    string list \<Rightarrow> report \<Rightarrow> report" where
  "warmup_stage reg inp g descs cycle rp =
     (if cycle \<noteq> [] then record_stage 10 ''warmup'' SKIPPED rp
      else
        let (warmups, bars) = (case vi_warmup_provider inp of
              Some f \<Rightarrow> ([], f g)
            | None \<Rightarrow> compose_warmup reg g (map_option fst (rp_order rp)) (Some descs))
        in feasibility_stage (vi_available_bars inp) bars
             (rp\<lparr>rp_warmups := warmups, rp_warmup_bars := Some bars\<rparr>))"

text \<open>The seam of stage 11: a gate without measured statistics is skipped, not passed.\<close>

definition ml_stage :: "validation_inputs \<Rightarrow> strategy_graph \<Rightarrow> report \<Rightarrow> report" where
  "ml_stage inp g rp =
     (case vi_ml_rules inp g of
        None \<Rightarrow> record_stage 11 ''ml_readiness'' SKIPPED rp
      | Some is \<Rightarrow> issues_stage 11 ''ml_readiness'' is rp)"

definition computed_state :: "report \<Rightarrow> validation_state" where
  "computed_state rp = (if rp_errors rp = [] then VALID else INVALID)"

definition finish_report ::
  "validation_inputs \<Rightarrow> strategy_graph \<Rightarrow> (string, block_descriptor option) dict \<Rightarrow> report \<Rightarrow> report" where
  "finish_report inp g descs rp =
     (let (canonical, overrides) = recompute_graph g descs;
          rp1 = report_extend overrides rp;
          rp2 = (if g_state g \<noteq> UNVALIDATED \<and> g_state g \<noteq> computed_state rp1
                 then report_add (make_issue VALIDATION_STATE_RECOMPUTED SEVERITY_WARNING None None
                                    (Some ''validation_state'')) rp1
                 else rp1);
          canonical' = canonical\<lparr>g_state := computed_state rp2\<rparr>
      in rp2\<lparr>rp_canonical := Some canonical',
             rp_hash := (if rp_errors rp2 = [] then Some (vi_hash inp canonical') else None)\<rparr>)"

definition validate :: "registry \<Rightarrow> validation_inputs \<Rightarrow> strategy_graph \<Rightarrow> py_exc + report" where
  "validate reg inp g =
     (let descs = node_descriptors reg g;
          cycle = find_cycle (node_ids g) (g_edges g)
      in bnd (parameter_issues (vi_param_rules inp) g descs) (\<lambda>params.
         let rp9 = graph_stages reg inp g descs cycle params
                     (migration_stage (vi_migration inp) new_report);
             rp10 = warmup_stage reg inp g descs cycle rp9
         in bnd (validate_no_lookahead g descs (reverse_adjacency g)) (\<lambda>leaks.
              Inr (finish_report inp g descs
                (ml_stage inp g (issues_stage 10 ''leakage'' leaks rp10))))))"

section \<open>What a report holds\<close>

abbreviation is_error :: "issue \<Rightarrow> bool" where
  "is_error i \<equiv> i_severity i = SEVERITY_ERROR"

named_theorems report_simps "fields of a report after an operation"

lemma report_extend_fields [report_simps]:
  "rp_errors (report_extend is rp) = rp_errors rp @ filter is_error is"
  "rp_stages (report_extend is rp) = rp_stages rp"
  "rp_order (report_extend is rp) = rp_order rp"
  "rp_warmup_bars (report_extend is rp) = rp_warmup_bars rp"
  "rp_warmups (report_extend is rp) = rp_warmups rp"
  "rp_valid (report_extend is rp) \<longleftrightarrow> rp_valid rp \<and> filter is_error is = []"
  by (induction "is" arbitrary: rp) (auto simp: report_extend_def report_add_def)

lemma report_add_fields [report_simps]:
  "i_severity i = SEVERITY_WARNING \<Longrightarrow> rp_errors (report_add i rp) = rp_errors rp"
  "rp_stages (report_add i rp) = rp_stages rp" "rp_order (report_add i rp) = rp_order rp"
  "rp_warmup_bars (report_add i rp) = rp_warmup_bars rp"
  "i_severity i = SEVERITY_WARNING \<Longrightarrow> rp_valid (report_add i rp) = rp_valid rp"
  by (simp_all add: report_add_def)

lemma record_stage_fields [report_simps]:
  "rp_errors (record_stage k s st rp) = rp_errors rp" "rp_order (record_stage k s st rp) = rp_order rp"
  "rp_stages (record_stage k s st rp) = rp_stages rp @ [(k, s, st)]"
  "rp_warmup_bars (record_stage k s st rp) = rp_warmup_bars rp"
  "rp_valid (record_stage k s st rp) = rp_valid rp"
  by (simp_all add: record_stage_def)

lemma issues_stage_fields [report_simps]:
  "rp_errors (issues_stage k s is rp) = rp_errors rp @ filter is_error is"
  "rp_order (issues_stage k s is rp) = rp_order rp"
  "rp_warmup_bars (issues_stage k s is rp) = rp_warmup_bars rp"
  "rp_valid (issues_stage k s is rp) \<longleftrightarrow> rp_valid rp \<and> filter is_error is = []"
  "rp_stages (issues_stage k s is rp) =
    rp_stages rp @ [(k, s, if filter is_error is = [] then PASSED else FAILED)]"
  by (simp_all add: issues_stage_def Let_def report_simps)

lemma make_issue_fields [simp]:
  "i_severity (make_issue c s n e f) = s" "i_code (make_issue c s n e f) = c"
  by (simp_all add: make_issue_def)

text \<open>Every override is a warning.\<close>

lemma overrides_warn: "filter is_error (snd (recompute_graph g descs)) = []"
  by (auto simp: recompute_graph_def node_overrides_def edge_overrides_def filter_empty_conv
      split: option.splits if_splits)

lemma finish_report_fields [report_simps]:
  "rp_errors (finish_report inp g descs rp) = rp_errors rp"
  "rp_stages (finish_report inp g descs rp) = rp_stages rp"
  "rp_order (finish_report inp g descs rp) = rp_order rp"
  "rp_warmup_bars (finish_report inp g descs rp) = rp_warmup_bars rp"
  "rp_valid (finish_report inp g descs rp) = rp_valid rp"
  using overrides_warn [of g descs]
  by (cases "recompute_graph g descs"; simp add: finish_report_def Let_def report_simps)+

lemma feasibility_stage_fields [report_simps]:
  "rp_errors (feasibility_stage av bars rp) = rp_errors rp"
  "rp_order (feasibility_stage av bars rp) = rp_order rp"
  "rp_valid (feasibility_stage av bars rp) = rp_valid rp"
  "rp_warmup_bars (feasibility_stage av bars rp) = rp_warmup_bars rp"
  "map (\<lambda>(k, s, _). (k, s)) (rp_stages (feasibility_stage av bars rp)) =
    map (\<lambda>(k, s, _). (k, s)) (rp_stages rp) @ [(10, ''warmup'')]"
  by (simp_all add: feasibility_stage_def report_simps split: option.splits)

lemma warmup_stage_fields [report_simps]:
  "rp_errors (warmup_stage reg inp g descs cycle rp) = rp_errors rp"
  "rp_order (warmup_stage reg inp g descs cycle rp) = rp_order rp"
  "rp_valid (warmup_stage reg inp g descs cycle rp) = rp_valid rp"
  "map (\<lambda>(k, s, _). (k, s)) (rp_stages (warmup_stage reg inp g descs cycle rp)) =
    map (\<lambda>(k, s, _). (k, s)) (rp_stages rp) @ [(10, ''warmup'')]"
  by (cases "vi_warmup_provider inp";
      cases "compose_warmup reg g (map_option fst (rp_order rp)) (Some descs)";
      simp add: warmup_stage_def report_simps)+

lemma ml_stage_fields [report_simps]:
  "rp_errors (ml_stage inp g rp) = rp_errors rp @ (case vi_ml_rules inp g of None \<Rightarrow> [] | Some is \<Rightarrow> filter is_error is)"
  "rp_order (ml_stage inp g rp) = rp_order rp" "rp_warmup_bars (ml_stage inp g rp) = rp_warmup_bars rp"
  "rp_valid (ml_stage inp g rp) \<longleftrightarrow>
    rp_valid rp \<and> (case vi_ml_rules inp g of None \<Rightarrow> True | Some is \<Rightarrow> filter is_error is = [])"
  "map (\<lambda>(k, s, _). (k, s)) (rp_stages (ml_stage inp g rp)) =
    map (\<lambda>(k, s, _). (k, s)) (rp_stages rp) @ [(11, ''ml_readiness'')]"
  by (simp_all add: ml_stage_def report_simps split: option.splits)

text \<open>The errors of the stages 1, 2 and 4 to 9.\<close>

definition graph_errors ::
  "registry \<Rightarrow> validation_inputs \<Rightarrow> strategy_graph \<Rightarrow> issue list" where
  "graph_errors reg inp g =
     (let descs = node_descriptors reg g;
          inb = build_inbound (g_edges g);
          data = category_ids DATA g descs;
          actions = category_ids ACTION g descs;
          downstream = reachable_ids (graph_adjacency g) data
      in structural_issues g (vi_limits inp) descs (vi_feature_columns inp) @ registry_issues g descs @
         port_issues reg g descs inb @
         required_input_issues g descs inb @ cycle_issues g (find_cycle (node_ids g) (g_edges g)) @
         reachability_issues g downstream (reachable_ids (reverse_adjacency g) actions) @
         execution_path_issues data actions downstream @
         concat (map (action_issues g descs inb (reverse_adjacency g)) actions))"

end
