(* ===== verification/Graph_Verdict.thy ===== *)
theory Graph_Verdict
  imports Graph_Validation
begin

text \<open>
  What the verdict of the validator means: each stage is empty exactly when a property of the graph
  holds, and a report is valid exactly when all of them hold.
\<close>

section \<open>Stage 1\<close>

lemma duplicate_node_issues_Nil:
  "duplicate_node_issues seen ns = [] \<longleftrightarrow> distinct (map n_id ns) \<and> set (map n_id ns) \<inter> set seen = {}"
  by (induction seen ns rule: duplicate_node_issues.induct) auto

lemma edge_structure_issues_Nil:
  "edge_structure_issues known seen es = [] \<longleftrightarrow>
    distinct (map e_id es) \<and> set (map e_id es) \<inter> set seen = {} \<and>
    (\<forall>e \<in> set es. e_source e \<in> set known \<and> e_target e \<in> set known)"
  by (induction known seen es rule: edge_structure_issues.induct) auto

definition port_load :: "strategy_graph \<Rightarrow> string \<times> string \<Rightarrow> nat" where
  "port_load g k = length (filter (\<lambda>e. (e_target e, e_target_port e) = k) (g_edges g))"

lemma fan_in_get:
  "dget (fan_in es) k = (let c = length (filter (\<lambda>e. (e_target e, e_target_port e) = k) es)
    in if c = 0 then None else Some c)"
proof -
  have "dget (fold (\<lambda>e d. dset (e_target e, e_target_port e)
      ((case dget d (e_target e, e_target_port e) of Some k \<Rightarrow> k | None \<Rightarrow> 0) + 1) d) es d) k =
    (let c = length (filter (\<lambda>e. (e_target e, e_target_port e) = k) es) in
      if c = 0 then dget d k else Some ((case dget d k of Some i \<Rightarrow> i | None \<Rightarrow> 0) + c))"
    for d :: "(string \<times> string, nat) dict"
    by (induction es arbitrary: d) (auto simp: dict_simps Let_def split: option.splits)
  from this [of "[]"] show ?thesis by (simp add: fan_in_def)
qed

lemma fan_in_ok: "dict_ok (fan_in es)"
proof -
  have "dict_ok (fold (\<lambda>e d. dset (e_target e, e_target_port e)
      ((case dget d (e_target e, e_target_port e) of Some k \<Rightarrow> k | None \<Rightarrow> 0) + 1) d) es d)"
    if "dict_ok d" for d :: "(string \<times> string, nat) dict"
    using that by (induction es arbitrary: d) (auto simp: dict_simps)
  then show ?thesis by (simp add: fan_in_def)
qed

definition within_limits ::
  "registry \<Rightarrow> graph_limits \<Rightarrow> int option \<Rightarrow> strategy_graph \<Rightarrow> bool" where
  "within_limits reg limits columns g \<longleftrightarrow>
     length (g_nodes g) \<le> max_nodes limits \<and> length (g_edges g) \<le> max_edges limits \<and>
     length (category_ids ML_DL g (node_descriptors reg g)) \<le> max_ml_nodes limits \<and>
     length (category_ids FEATURE_ENGINEERING g (node_descriptors reg g)) \<le> max_feature_nodes limits \<and>
     (\<forall>c. columns = Some c \<longrightarrow> c \<le> max_feature_columns limits) \<and>
     (\<forall>k. port_load g k \<le> max_fan_in limits)"

lemma limit_issues_Nil:
  "limit_issues g limits (node_descriptors reg g) columns = [] \<longleftrightarrow> within_limits reg limits columns g"
proof -
  have "filter (\<lambda>(k, count). count > max_fan_in limits) (sort_key fst (fan_in (g_edges g))) = [] \<longleftrightarrow>
      (\<forall>k. port_load g k \<le> max_fan_in limits)"
  proof -
    have get: "(k, c) \<in> set (fan_in (g_edges g)) \<longleftrightarrow> dget (fan_in (g_edges g)) k = Some c" for k c
      using fan_in_ok by simp
    have "filter (\<lambda>(k, count). count > max_fan_in limits) (sort_key fst (fan_in (g_edges g))) = [] \<longleftrightarrow>
        (\<forall>p \<in> set (fan_in (g_edges g)). snd p \<le> max_fan_in limits)"
      by (simp add: filter_empty_conv case_prod_beta not_less)
    also have "\<dots> \<longleftrightarrow> (\<forall>k c. (k, c) \<in> set (fan_in (g_edges g)) \<longrightarrow> c \<le> max_fan_in limits)"
      by (metis prod.collapse snd_conv)
    also have "\<dots> \<longleftrightarrow> (\<forall>k c. dget (fan_in (g_edges g)) k = Some c \<longrightarrow> c \<le> max_fan_in limits)"
      by (simp only: get)
    also have "\<dots> \<longleftrightarrow> (\<forall>k. port_load g k \<le> max_fan_in limits)"
    proof -
      have l: "dget (fan_in (g_edges g)) k = (if port_load g k = 0 then None else Some (port_load g k))" for k
        by (simp only: fan_in_get port_load_def Let_def)
      have "(\<forall>c. dget (fan_in (g_edges g)) k = Some c \<longrightarrow> c \<le> max_fan_in limits) \<longleftrightarrow>
          port_load g k \<le> max_fan_in limits" for k
        unfolding l by (cases "port_load g k = 0") simp_all
      then show ?thesis by simp
    qed
    finally show ?thesis .
  qed
  then show ?thesis
    by (cases columns) (auto simp: limit_issues_def within_limits_def)
qed

definition structure_ok :: "registry \<Rightarrow> graph_limits \<Rightarrow> int option \<Rightarrow> strategy_graph \<Rightarrow> bool" where
  "structure_ok reg limits columns g \<longleftrightarrow>
     (g_schema_version g = 1 \<or> g_schema_version g = 2) \<and> g_nodes g \<noteq> [] \<and> distinct (node_ids g) \<and>
     distinct (map e_id (g_edges g)) \<and>
     (\<forall>e \<in> set (g_edges g). e_source e \<in> set (node_ids g) \<and> e_target e \<in> set (node_ids g)) \<and>
     within_limits reg limits columns g"

lemma structural_issues_Nil:
  "structural_issues g limits (node_descriptors reg g) columns = [] \<longleftrightarrow> structure_ok reg limits columns g"
  by (auto simp: structural_issues_def structure_ok_def limit_issues_Nil duplicate_node_issues_Nil
      edge_structure_issues_Nil SUPPORTED_SCHEMA_VERSIONS_def node_ids_def)

section \<open>Descriptors by node\<close>

lemma node_of_id:
  assumes "distinct (node_ids g)" and "n \<in> set (g_nodes g)"
  shows "dget (node_index g) (n_id n) = Some n" and "graph_node g (n_id n) = Some n"
    and "descriptor_at (node_descriptors reg g) (n_id n) = reg (n_block_id n)"
proof -
  have same: "m = n" if "m \<in> set (g_nodes g)" "n_id m = n_id n" for m
    using that assms by (auto simp: node_ids_def distinct_map inj_on_def)
  have id: "n_id n \<in> set (node_ids g)" using assms(2) by (simp add: node_ids_def)
  then obtain m where m: "dget (node_index g) (n_id n) = Some m" using dom_node_index by blast
  then show i: "dget (node_index g) (n_id n) = Some n" using same node_index_node [OF m] by auto
  obtain k where k: "graph_node g (n_id n) = Some k" using id graph_node_iff by blast
  then show "graph_node g (n_id n) = Some n" using same graph_node_id [OF k] by auto
  show "descriptor_at (node_descriptors reg g) (n_id n) = reg (n_block_id n)"
    by (simp add: descriptor_at_def node_descriptors_get i)
qed

definition block_category_of :: "registry \<Rightarrow> node_spec \<Rightarrow> block_category" where
  "block_category_of reg n = category_of n (reg (n_block_id n))"

lemma category_ids_set:
  assumes "distinct (node_ids g)"
  shows "set (category_ids cat g (node_descriptors reg g)) =
    {n_id n | n. n \<in> set (g_nodes g) \<and> block_category_of reg n = cat}"
  using node_of_id(3) [OF assms] by (auto simp: category_ids_def block_category_of_def)

section \<open>Stages 2 to 5\<close>

definition blocks_resolve :: "registry \<Rightarrow> strategy_graph \<Rightarrow> bool" where
  "blocks_resolve reg g \<longleftrightarrow> (\<forall>n \<in> set (g_nodes g). reg (n_block_id n) \<noteq> None)"

lemma registry_issues_Nil:
  "distinct (node_ids g) \<Longrightarrow> registry_issues g (node_descriptors reg g) = [] \<longleftrightarrow> blocks_resolve reg g"
  using node_of_id(3) [of g] by (auto simp: registry_issues_def blocks_resolve_def filter_empty_conv)

text \<open>The indices the pipeline passes do not change a verdict on an edge.\<close>

lemma is_edge_legal_indices:
  assumes "distinct (node_ids g)"
  shows "is_edge_legal reg check (Some (build_inbound (g_edges g))) (Some (node_descriptors reg g)) g e =
    is_edge_legal reg check None None g e"
proof -
  have inb: "occupied_port (Some (build_inbound (g_edges g))) g e dst = occupied_port None g e dst" for dst
    by (simp add: occupied_port_def build_inbound_at)
  have d: "descriptor_for reg (Some (node_descriptors reg g)) n = reg (n_block_id n)"
    if "graph_node g s = Some n" for s n
    using node_of_id(1) [OF assms, of n] graph_node_id [OF that]
    by (simp add: descriptor_for_def node_descriptors_get)
  show ?thesis
    by (auto simp: is_edge_legal_def d descriptor_for_def [of reg None] edge_block_rules_def
        edge_port_rules_def inb split: option.splits)
qed

definition edges_fit :: "registry \<Rightarrow> strategy_graph \<Rightarrow> bool" where
  "edges_fit reg g \<longleftrightarrow>
     (\<forall>e \<in> set (g_edges g). \<exists>variadic. ports_match reg g e variadic \<and> (variadic \<or> \<not> port_taken g e))"

lemma map_filter_Nil: "List.map_filter f xs = [] \<longleftrightarrow> (\<forall>x \<in> set xs. f x = None)"
  by (auto simp: List.map_filter_def filter_empty_conv)

lemma port_issues_Nil:
  assumes "distinct (node_ids g)"
    and "\<forall>e \<in> set (g_edges g). e_source e \<in> set (node_ids g) \<and> e_target e \<in> set (node_ids g)"
  shows "port_issues reg g (node_descriptors reg g) (build_inbound (g_edges g)) = [] \<longleftrightarrow> edges_fit reg g"
  using assms(2)
  by (simp add: port_issues_def map_filter_Nil is_edge_legal_indices [OF assms(1)]
      is_edge_legal_None_iff edges_fit_def)

definition inputs_fed :: "registry \<Rightarrow> strategy_graph \<Rightarrow> bool" where
  "inputs_fed reg g \<longleftrightarrow>
     (\<forall>n \<in> set (g_nodes g). \<forall>d. reg (n_block_id n) = Some d \<longrightarrow>
        (\<forall>p \<in> set (bd_inputs d). port_required p \<longrightarrow>
           (\<exists>e \<in> set (g_edges g). e_target e = n_id n \<and> e_target_port e = port_name p)))"

lemma required_input_issues_Nil:
  assumes "distinct (node_ids g)"
  shows "required_input_issues g (node_descriptors reg g) (build_inbound (g_edges g)) = [] \<longleftrightarrow> inputs_fed reg g"
  using node_of_id(3) [OF assms]
  by (fastforce simp: required_input_issues_def inputs_fed_def build_inbound_at filter_empty_conv
      split: option.splits)

section \<open>Stages 7 to 9\<close>

definition from_data :: "registry \<Rightarrow> strategy_graph \<Rightarrow> string \<Rightarrow> bool" where
  "from_data reg g x \<longleftrightarrow>
     (\<exists>n \<in> set (g_nodes g). block_category_of reg n = DATA \<and> (n_id n, x) \<in> (graph_arcs g)\<^sup>*)"

definition to_action :: "registry \<Rightarrow> strategy_graph \<Rightarrow> string \<Rightarrow> bool" where
  "to_action reg g x \<longleftrightarrow>
     (\<exists>n \<in> set (g_nodes g). block_category_of reg n = ACTION \<and> (x, n_id n) \<in> (graph_arcs g)\<^sup>*)"

lemma downstream_iff:
  assumes "distinct (node_ids g)"
  shows "x \<in> set (reachable_ids (graph_adjacency g) (category_ids DATA g (node_descriptors reg g))) \<longleftrightarrow>
    from_data reg g x"
  by (auto simp: reachable_ids_correct graph_adjacency_arcs category_ids_set [OF assms] from_data_def)

lemma upstream_iff:
  assumes "distinct (node_ids g)"
  shows "x \<in> set (reachable_ids (reverse_adjacency g) (category_ids ACTION g (node_descriptors reg g))) \<longleftrightarrow>
    to_action reg g x"
  by (auto simp: reachable_ids_correct reverse_adjacency_arcs rtrancl_converse category_ids_set [OF assms]
      to_action_def)

definition on_a_path :: "registry \<Rightarrow> strategy_graph \<Rightarrow> bool" where
  "on_a_path reg g \<longleftrightarrow> (\<forall>n \<in> set (g_nodes g). from_data reg g (n_id n) \<or> to_action reg g (n_id n))"

definition data_reaches_action :: "registry \<Rightarrow> strategy_graph \<Rightarrow> bool" where
  "data_reaches_action reg g \<longleftrightarrow>
     (\<exists>n \<in> set (g_nodes g). block_category_of reg n = ACTION \<and> from_data reg g (n_id n))"

lemma reachability_issues_Nil:
  assumes "distinct (node_ids g)"
  shows "reachability_issues g (reachable_ids (graph_adjacency g) (category_ids DATA g (node_descriptors reg g)))
      (reachable_ids (reverse_adjacency g) (category_ids ACTION g (node_descriptors reg g))) = [] \<longleftrightarrow>
    on_a_path reg g"
  by (auto simp: reachability_issues_def filter_empty_conv downstream_iff [OF assms] upstream_iff [OF assms]
      on_a_path_def)

lemma execution_path_issues_Nil:
  assumes "distinct (node_ids g)"
  shows "execution_path_issues (category_ids DATA g (node_descriptors reg g))
      (category_ids ACTION g (node_descriptors reg g))
      (reachable_ids (graph_adjacency g) (category_ids DATA g (node_descriptors reg g))) = [] \<longleftrightarrow>
    data_reaches_action reg g"
proof -
  have "from_data reg g x \<Longrightarrow> category_ids DATA g (node_descriptors reg g) \<noteq> []" for x
    using category_ids_set [OF assms, of DATA reg] by (fastforce simp: from_data_def)
  moreover have "filter (\<lambda>a. from_data reg g a) (category_ids ACTION g (node_descriptors reg g)) = [] \<longleftrightarrow>
      \<not> data_reaches_action reg g"
    using category_ids_set [OF assms, of ACTION reg] by (auto simp: filter_empty_conv data_reaches_action_def)
  moreover have "data_reaches_action reg g \<Longrightarrow> category_ids ACTION g (node_descriptors reg g) \<noteq> []"
    using category_ids_set [OF assms, of ACTION reg] by (fastforce simp: data_reaches_action_def)
  ultimately show ?thesis
    by (auto simp: execution_path_issues_def downstream_iff [OF assms] data_reaches_action_def)
qed

text \<open>The edges into an action, whatever their order in the inbound index.\<close>

lemma build_inbound_ports_ok: "dget (build_inbound es) a = Some ports \<Longrightarrow> dict_ok ports"
proof -
  have "dget (fold (\<lambda>e out. dset (e_target e) (dict_append (e_target_port e) e
      (case dget out (e_target e) of None \<Rightarrow> [] | Some ports \<Rightarrow> ports)) out) es out) a = Some ports \<Longrightarrow>
    (\<And>a ports. dget out a = Some ports \<Longrightarrow> dict_ok ports) \<Longrightarrow> dict_ok ports" for out :: inbound
  proof (induction es arbitrary: out)
    case (Cons e es)
    have "dict_ok ps" if "dget (dset (e_target e) (dict_append (e_target_port e) e
        (case dget out (e_target e) of None \<Rightarrow> [] | Some ports \<Rightarrow> ports)) out) b = Some ps" for b ps
      using that Cons.prems(2) by (auto simp: dict_simps split: if_splits option.splits)
    then show ?case using Cons by auto
  qed simp
  from this [of "[]"] show "dget (build_inbound es) a = Some ports \<Longrightarrow> dict_ok ports"
    by (simp add: build_inbound_def)
qed

lemma inbound_edges:
  "e \<in> set (concat (dvalues (case dget (build_inbound es) a of None \<Rightarrow> [] | Some ports \<Rightarrow> ports))) \<longleftrightarrow>
    e \<in> set es \<and> e_target e = a"
proof (cases "dget (build_inbound es) a")
  case None
  then have "inbound_at (build_inbound es) a (e_target_port e) = []" by (simp add: inbound_at_def)
  then show ?thesis using None unfolding build_inbound_at by (auto simp: filter_empty_conv)
next
  case (Some ports)
  have "e \<in> set (concat (dvalues ports)) \<longleftrightarrow> (\<exists>p. e \<in> set (targets ports p))"
    using build_inbound_ports_ok [OF Some]
    by (force simp: targets_def split: option.splits dest: map_of_SomeD)
  also have "\<dots> \<longleftrightarrow> (\<exists>p. e \<in> set (inbound_at (build_inbound es) a p))"
    by (simp add: inbound_at_def Some)
  also have "\<dots> \<longleftrightarrow> e \<in> set es \<and> e_target e = a" by (auto simp: build_inbound_at)
  finally show ?thesis by (simp add: Some)
qed

text \<open>Every edge into the action comes from a logic block or carries a trade signal.\<close>

definition fed_by_decisions :: "registry \<Rightarrow> strategy_graph \<Rightarrow> string \<Rightarrow> bool" where
  "fed_by_decisions reg g a \<longleftrightarrow>
     (\<forall>e \<in> set (g_edges g). e_target e = a \<longrightarrow> (\<forall>src. graph_node g (e_source e) = Some src \<longrightarrow>
        block_category_of reg src = LOGIC \<or> carries_signal (reg (n_block_id src)) (e_source_port e)))"

definition upstream_symbols :: "registry \<Rightarrow> strategy_graph \<Rightarrow> string \<Rightarrow> string set" where
  "upstream_symbols reg g a =
     {s. \<exists>n \<in> set (g_nodes g). (n_id n, a) \<in> (graph_arcs g)\<^sup>* \<and> block_category_of reg n = DATA \<and>
        declared_symbol n = Some s}"

definition allocated :: "registry \<Rightarrow> strategy_graph \<Rightarrow> string \<Rightarrow> bool" where
  "allocated reg g a \<longleftrightarrow>
     (\<exists>n \<in> set (g_nodes g). \<exists>d. (n_id n, a) \<in> (graph_arcs g)\<^sup>* \<and> reg (n_block_id n) = Some d \<and>
        ''portfolio_allocation'' \<in> set (bd_flags d))"

definition trades_one_symbol :: "registry \<Rightarrow> strategy_graph \<Rightarrow> string \<Rightarrow> bool" where
  "trades_one_symbol reg g a \<longleftrightarrow>
     allocated reg g a \<or> (\<forall>s \<in> upstream_symbols reg g a. \<forall>t \<in> upstream_symbols reg g a. s = t)"

lemma index_iff:
  assumes "distinct (node_ids g)"
  shows "dget (node_index g) x = Some n \<longleftrightarrow> n \<in> set (g_nodes g) \<and> n_id n = x"
  using node_of_id(1) [OF assms] node_index_node by blast

lemma closure_iff: "x \<in> set (reachable_ids (reverse_adjacency g) [a]) \<longleftrightarrow> (x, a) \<in> (graph_arcs g)\<^sup>*"
  by (auto simp: reachable_ids_correct reverse_adjacency_arcs rtrancl_converse)

lemma closure_set: "set (reachable_ids (reverse_adjacency g) [a]) = {x. (x, a) \<in> (graph_arcs g)\<^sup>*}"
  using closure_iff by blast

lemma index_cases:
  assumes d: "distinct (node_ids g)"
  shows "(\<exists>n \<in> set (g_nodes g). n_id n = x \<and> dget (node_index g) x = Some n \<and>
      descriptor_at (node_descriptors reg g) x = reg (n_block_id n) \<and>
      (\<forall>m \<in> set (g_nodes g). n_id m = x \<longrightarrow> m = n)) \<or>
    dget (node_index g) x = None \<and> (\<forall>m \<in> set (g_nodes g). n_id m \<noteq> x)"
proof (cases "dget (node_index g) x")
  case None
  then have "x \<notin> set (node_ids g)" using dom_node_index by (metis domIff)
  then show ?thesis using None by (auto simp: node_ids_def)
next
  case (Some n)
  then have n: "n \<in> set (g_nodes g)" "n_id n = x" using node_index_node by blast+
  moreover have "m = n" if "m \<in> set (g_nodes g)" "n_id m = x" for m
    using index_iff [OF d, of x m] that Some by simp
  ultimately show ?thesis using Some node_of_id(3) [OF d n(1), of reg] by blast
qed

lemma unique_node:
  assumes "n \<in> S" and "f n = x" and "\<forall>m \<in> S. f m = x \<longrightarrow> m = n"
  shows "(\<exists>m \<in> S. f m = x \<and> P m) \<longleftrightarrow> P n"
  using assms by blast

lemma data_symbol_iff:
  assumes d: "distinct (node_ids g)"
  shows "data_symbol (node_index g) (node_descriptors reg g) x = Some s \<longleftrightarrow>
    (\<exists>n \<in> set (g_nodes g). n_id n = x \<and> block_category_of reg n = DATA \<and> declared_symbol n = Some s)"
  using index_cases [OF d, of x reg]
proof (elim disjE bexE conjE)
  fix n assume n: "n \<in> set (g_nodes g)" "n_id n = x" "dget (node_index g) x = Some n"
    "descriptor_at (node_descriptors reg g) x = reg (n_block_id n)"
    and u: "\<forall>m \<in> set (g_nodes g). n_id m = x \<longrightarrow> m = n"
  show ?thesis unfolding unique_node [OF n(1,2) u] using n(3,4) by (simp add: data_symbol_def block_category_of_def)
qed (auto simp: data_symbol_def)

lemma closure_symbols_set:
  assumes d: "distinct (node_ids g)"
  shows "set (closure_symbols (node_index g) (node_descriptors reg g) (reachable_ids (reverse_adjacency g) [a])) =
    upstream_symbols reg g a"
  by (auto simp: closure_symbols_def set_map_filter closure_iff data_symbol_iff [OF d] upstream_symbols_def)

lemma allocates_iff:
  assumes d: "distinct (node_ids g)"
  shows "allocates (node_index g) (node_descriptors reg g) (reachable_ids (reverse_adjacency g) [a]) \<longleftrightarrow>
    allocated reg g a"
proof -
  have "dget (node_index g) x \<noteq> None \<and> (case descriptor_at (node_descriptors reg g) x of
      None \<Rightarrow> False | Some d \<Rightarrow> ''portfolio_allocation'' \<in> set (bd_flags d)) \<longleftrightarrow>
    (\<exists>n \<in> set (g_nodes g). \<exists>d. n_id n = x \<and> reg (n_block_id n) = Some d \<and>
        ''portfolio_allocation'' \<in> set (bd_flags d))" for x
    using index_cases [OF d, of x reg]
  proof (elim disjE bexE conjE)
    fix n assume n: "n \<in> set (g_nodes g)" "n_id n = x" "dget (node_index g) x = Some n"
      "descriptor_at (node_descriptors reg g) x = reg (n_block_id n)"
      and u: "\<forall>m \<in> set (g_nodes g). n_id m = x \<longrightarrow> m = n"
    show ?thesis unfolding ex_simps(2) unique_node [OF n(1,2) u] using n(3,4) by (simp split: option.splits)
  qed auto
  note eq = this
  show ?thesis
    unfolding allocates_def list_ex_iff allocated_def closure_set eq by blast
qed

lemma several_iff: "1 < length (remdups xs) \<longleftrightarrow> \<not> (\<forall>s \<in> set xs. \<forall>t \<in> set xs. s = t)"
proof -
  have "(\<forall>s \<in> set xs. \<forall>t \<in> set xs. s = t) \<longleftrightarrow> card (set xs) \<le> 1"
    by (metis List.finite_set One_nat_def card_le_Suc0_iff_eq)
  then show ?thesis by (simp add: length_remdups_card_conv not_le)
qed

lemma action_issues_Nil:
  assumes d: "distinct (node_ids g)"
  shows "action_issues g (node_descriptors reg g) (build_inbound (g_edges g)) (reverse_adjacency g) a = [] \<longleftrightarrow>
    fed_by_decisions reg g a \<and> trades_one_symbol reg g a"
proof -
  have "provenance_issue (node_index g) (node_descriptors reg g) e = [] \<longleftrightarrow>
      (\<forall>src. graph_node g (e_source e) = Some src \<longrightarrow>
        block_category_of reg src = LOGIC \<or> carries_signal (reg (n_block_id src)) (e_source_port e))" for e
  proof (cases "dget (node_index g) (e_source e)")
    case None
    then have "graph_node g (e_source e) = None"
      using dom_node_index [of g] graph_node_iff [of g "e_source e"] by (metis domIff not_None_eq)
    then show ?thesis using None by (simp add: provenance_issue_def)
  next
    case (Some src)
    then have "src \<in> set (g_nodes g)" "n_id src = e_source e" using node_index_node by blast+
    then show ?thesis
      using Some node_of_id [OF d, of src]
      by (simp add: provenance_issue_def block_category_of_def Let_def)
  qed
  then have "concat (map (provenance_issue (node_index g) (node_descriptors reg g))
      (concat (dvalues (case dget (build_inbound (g_edges g)) a of None \<Rightarrow> [] | Some ports \<Rightarrow> ports)))) = [] \<longleftrightarrow>
    fed_by_decisions reg g a"
    unfolding fed_by_decisions_def concat_eq_Nil_conv
    using inbound_edges [of _ "g_edges g" a] by (auto simp del: set_concat)
  moreover have "length (closure_symbols (node_index g) (node_descriptors reg g)
      (reachable_ids (reverse_adjacency g) [a])) > 1 \<longleftrightarrow>
    \<not> (\<forall>s \<in> upstream_symbols reg g a. \<forall>t \<in> upstream_symbols reg g a. s = t)"
    using several_iff closure_symbols_set [OF d, of reg a] unfolding closure_symbols_def set_remdups by metis
  ultimately show ?thesis
    by (auto simp: action_issues_def Let_def allocates_iff [OF d] trades_one_symbol_def)
qed

section \<open>The verdict\<close>

definition sound_graph :: "registry \<Rightarrow> validation_inputs \<Rightarrow> strategy_graph \<Rightarrow> bool" where
  "sound_graph reg inp g \<longleftrightarrow>
     structure_ok reg (vi_limits inp) (vi_feature_columns inp) g \<and> blocks_resolve reg g \<and>
     edges_fit reg g \<and> inputs_fed reg g \<and> acyclic (graph_arcs g) \<and> on_a_path reg g \<and>
     data_reaches_action reg g \<and>
     (\<forall>n \<in> set (g_nodes g). block_category_of reg n = ACTION \<longrightarrow>
        fed_by_decisions reg g (n_id n) \<and> trades_one_symbol reg g (n_id n))"

lemma parameter_loop:
  "foldm (\<lambda>acc n. case descriptor_at descs (n_id n) of None \<Rightarrow> Inr acc
      | Some d \<Rightarrow> bnd (rules n d) (\<lambda>is. Inr (acc @ is))) acc ns = Inr ps \<Longrightarrow>
    filter is_error ps = [] \<longleftrightarrow> filter is_error acc = [] \<and>
      (\<forall>n \<in> set ns. \<forall>d. descriptor_at descs (n_id n) = Some d \<longrightarrow>
         (\<exists>is. rules n d = Inr is \<and> filter is_error is = []))"
proof (induction ns arbitrary: acc)
  case (Cons n ns)
  then show ?case
    by (cases "descriptor_at descs (n_id n)"; cases "rules n (the (descriptor_at descs (n_id n)))") auto
qed simp

lemma parameter_issues_clean:
  assumes "distinct (node_ids g)" and "parameter_issues rules g (node_descriptors reg g) = Inr ps"
  shows "filter is_error ps = [] \<longleftrightarrow> (\<forall>n \<in> set (g_nodes g). \<forall>d. reg (n_block_id n) = Some d \<longrightarrow>
    (\<exists>is. rules n d = Inr is \<and> filter is_error is = []))"
  using parameter_loop [OF assms(2) [unfolded parameter_issues_def]] node_of_id(3) [OF assms(1)] by simp

lemma cycle_issues_Nil: "cycle_issues g (find_cycle (node_ids g) (g_edges g)) = [] \<longleftrightarrow> acyclic (graph_arcs g)"
  by (simp add: cycle_issues_def find_cycle_Nil_iff)

lemma graph_errors_Nil: "graph_errors reg inp g = [] \<longleftrightarrow> sound_graph reg inp g"
proof (cases "structure_ok reg (vi_limits inp) (vi_feature_columns inp) g")
  case False
  then show ?thesis by (simp add: graph_errors_def Let_def structural_issues_Nil sound_graph_def)
next
  case True
  then have d: "distinct (node_ids g)"
    and ends: "\<forall>e \<in> set (g_edges g). e_source e \<in> set (node_ids g) \<and> e_target e \<in> set (node_ids g)"
    by (simp_all add: structure_ok_def)
  have "concat (map (action_issues g (node_descriptors reg g) (build_inbound (g_edges g)) (reverse_adjacency g))
      (category_ids ACTION g (node_descriptors reg g))) = [] \<longleftrightarrow>
    (\<forall>n \<in> set (g_nodes g). block_category_of reg n = ACTION \<longrightarrow>
        fed_by_decisions reg g (n_id n) \<and> trades_one_symbol reg g (n_id n))"
    using action_issues_Nil [OF d, of reg] category_ids_set [OF d, of ACTION reg] by auto
  then show ?thesis
    using True
    by (simp add: graph_errors_def Let_def structural_issues_Nil sound_graph_def registry_issues_Nil [OF d]
        port_issues_Nil [OF d ends] required_input_issues_Nil [OF d] cycle_issues_Nil
        reachability_issues_Nil [OF d] execution_path_issues_Nil [OF d])
qed

section \<open>The report\<close>

text \<open>Every issue of the stages that read the graph is an error, and so is every leak.\<close>

lemma dup_errors: "\<forall>i \<in> set (duplicate_node_issues seen ns). is_error i"
  by (induction seen ns rule: duplicate_node_issues.induct) auto

lemma edge_errors: "\<forall>i \<in> set (edge_structure_issues known seen es). is_error i"
  by (induction known seen es rule: edge_structure_issues.induct) auto

lemma structural_errors: "\<forall>i \<in> set (structural_issues g limits descs columns). is_error i"
  using dup_errors edge_errors
  by (fastforce simp: structural_issues_def limit_issues_def limit_issue_def split: option.splits if_splits)

lemma legal_errors: "is_edge_legal reg c inb descs g e = Some i \<Longrightarrow> is_error i"
  by (auto simp: is_edge_legal_def edge_block_rules_def edge_port_rules_def
      split: option.splits if_splits bind_splits)

lemma stage_errors:
  "\<forall>i \<in> set (registry_issues g descs). is_error i"
  "\<forall>i \<in> set (port_issues reg g descs inb). is_error i"
  "\<forall>i \<in> set (required_input_issues g descs inb). is_error i"
  "\<forall>i \<in> set (cycle_issues g cycle). is_error i"
  "\<forall>i \<in> set (reachability_issues g xs ys). is_error i"
  "\<forall>i \<in> set (execution_path_issues xs ys zs). is_error i"
  "\<forall>i \<in> set (action_issues g descs inb rev_adj a). is_error i"
proof -
  show "\<forall>i \<in> set (port_issues reg g descs inb). is_error i"
    using legal_errors by (auto simp: port_issues_def set_map_filter)
  show "\<forall>i \<in> set (required_input_issues g descs inb). is_error i"
    by (auto simp: required_input_issues_def split: option.splits)
  show "\<forall>i \<in> set (action_issues g descs inb rev_adj a). is_error i"
    by (auto simp: action_issues_def provenance_issue_def Let_def split: option.splits if_splits)
qed (auto simp: registry_issues_def cycle_issues_def reachability_issues_def execution_path_issues_def)

lemma lookahead_errors:
  assumes "\<forall>i \<in> set acc. is_error i" and "lookahead_of_node g descs ml acc n = Inr acc'"
  shows "\<forall>i \<in> set acc'. is_error i"
proof (cases "descriptor_at descs (n_id n)")
  case None
  then show ?thesis using assms by (simp add: lookahead_of_node_def)
next
  case (Some d)
  then obtain shifts where shifts: "shift_issues d n = Inr shifts"
    and acc': "acc' = acc @ shifts @ statistic_issues d n @ leak_issues g ml d n"
    using assms(2) by (auto simp: lookahead_of_node_def result_simps)
  have "\<forall>i \<in> set shifts. is_error i"
    using shifts
    by (cases "coerce_int (dget (n_params n) ''bars'')")
      (auto simp: shift_issues_def split: if_splits option.splits)
  moreover have "\<forall>i \<in> set (statistic_issues d n). is_error i" by (simp add: statistic_issues_def)
  moreover have "\<forall>i \<in> set (leak_issues g ml d n). is_error i" by (simp add: leak_issues_def)
  ultimately show ?thesis using assms(1) unfolding acc' by auto
qed

lemma leak_errors:
  assumes "validate_no_lookahead g descs rev_adj = Inr leaks"
  shows "\<forall>i \<in> set leaks. is_error i"
proof -
  obtain found where run: "foldm (lookahead_of_node g descs (reachable_ids rev_adj (ml_node_ids (node_index g) descs)))
      [] (g_nodes g) = Inr found" and leaks: "leaks = sort_key leak_sort_key found"
    using assms by (auto simp: validate_no_lookahead_def Let_def result_simps)
  have "\<forall>i \<in> set found. is_error i"
  proof (rule foldm_invariant [OF run, where P = "\<lambda>found. \<forall>i \<in> set found. is_error i"])
    fix acc n acc' assume "\<forall>i \<in> set acc. is_error i"
      and "lookahead_of_node g descs (reachable_ids rev_adj (ml_node_ids (node_index g) descs)) acc n = Inr acc'"
    then show "\<forall>i \<in> set acc'. is_error i" by (rule lookahead_errors)
  qed simp
  then show ?thesis by (simp add: leaks)
qed

lemma filter_errors: "\<forall>i \<in> set is. is_error i \<Longrightarrow> filter is_error is = is"
  by simp

lemma migration_stage_fields:
  "rp_errors (migration_stage is new_report) = filter is_error is"
  "rp_valid (migration_stage is new_report) \<longleftrightarrow> filter is_error is = []"
  "map (\<lambda>(k, s, _). (k, s)) (rp_stages (migration_stage is new_report)) =
    (if is = [] then [] else [(0, ''migration'')])"
  by (simp_all add: migration_stage_def report_simps new_report_def)

lemma graph_stages_fields:
  "rp_valid (graph_stages reg inp g (node_descriptors reg g) (find_cycle (node_ids g) (g_edges g)) ps rp) \<longleftrightarrow>
    rp_valid rp \<and> graph_errors reg inp g = [] \<and> filter is_error ps = []"
  "map (\<lambda>(k, s, _). (k, s)) (rp_stages (graph_stages reg inp g descs cycle ps rp)) =
    map (\<lambda>(k, s, _). (k, s)) (rp_stages rp) @
    [(1, ''structural''), (2, ''registry_resolution''), (3, ''parameters''), (4, ''port_contracts''),
     (5, ''required_inputs''), (6, ''acyclicity''), (7, ''reachability''), (8, ''execution_path''),
     (9, ''action_provenance'')]"
  "rp_order (graph_stages reg inp g descs cycle ps rp) = (if cycle = [] then topological_order g else None)"
  by (auto simp: graph_stages_def graph_errors_def Let_def report_simps filter_concat
      filter_errors [OF structural_errors] filter_errors [OF stage_errors(1)] filter_errors [OF stage_errors(2)]
      filter_errors [OF stage_errors(3)] filter_errors [OF stage_errors(4)] filter_errors [OF stage_errors(5)]
      filter_errors [OF stage_errors(6)] filter_errors [OF stage_errors(7)])

lemma validate_run:
  assumes "validate reg inp g = Inr rp"
  obtains ps leaks where "parameter_issues (vi_param_rules inp) g (node_descriptors reg g) = Inr ps"
    "validate_no_lookahead g (node_descriptors reg g) (reverse_adjacency g) = Inr leaks"
    "rp = finish_report inp g (node_descriptors reg g) (ml_stage inp g (issues_stage 10 ''leakage'' leaks
      (warmup_stage reg inp g (node_descriptors reg g) (find_cycle (node_ids g) (g_edges g))
        (graph_stages reg inp g (node_descriptors reg g) (find_cycle (node_ids g) (g_edges g)) ps
          (migration_stage (vi_migration inp) new_report)))))"
  using assms by (auto simp: validate_def Let_def result_simps)

text \<open>
  C8: a report is valid exactly when the graph is sound: the structure and the limits hold,
  every block resolves and its parameters are accepted, every edge fits its ports, every required
  input is fed, there is no cycle, every block lies on a path, an action is fed from data, every
  action is triggered by a decision and trades one symbol, no later bar reaches a model, and
  neither the migration nor the training-data gate reports an error.
\<close>

theorem validate_verdict:
  assumes run: "validate reg inp g = Inr rp"
  shows "rp_valid rp \<longleftrightarrow>
    sound_graph reg inp g \<and>
    (\<forall>n \<in> set (g_nodes g). \<forall>d. reg (n_block_id n) = Some d \<longrightarrow>
      past_only reg g n d \<and> (\<exists>is. vi_param_rules inp n d = Inr is \<and> filter is_error is = [])) \<and>
    filter is_error (vi_migration inp) = [] \<and>
    (\<forall>is. vi_ml_rules inp g = Some is \<longrightarrow> filter is_error is = [])"
proof -
  obtain ps leaks where ps: "parameter_issues (vi_param_rules inp) g (node_descriptors reg g) = Inr ps"
    and leaks: "validate_no_lookahead g (node_descriptors reg g) (reverse_adjacency g) = Inr leaks"
    and rp: "rp = finish_report inp g (node_descriptors reg g) (ml_stage inp g (issues_stage 10 ''leakage'' leaks
      (warmup_stage reg inp g (node_descriptors reg g) (find_cycle (node_ids g) (g_edges g))
        (graph_stages reg inp g (node_descriptors reg g) (find_cycle (node_ids g) (g_edges g)) ps
          (migration_stage (vi_migration inp) new_report)))))"
    using validate_run [OF run] by blast
  have v: "rp_valid rp \<longleftrightarrow> filter is_error (vi_migration inp) = [] \<and> sound_graph reg inp g \<and>
      filter is_error ps = [] \<and> leaks = [] \<and>
      (\<forall>is. vi_ml_rules inp g = Some is \<longrightarrow> filter is_error is = [])"
    by (auto simp: rp report_simps graph_stages_fields migration_stage_fields graph_errors_Nil
        filter_errors [OF leak_errors [OF leaks]] split: option.splits)
  show ?thesis
  proof (cases "sound_graph reg inp g")
    case True
    then have d: "distinct (node_ids g)" by (simp add: sound_graph_def structure_ok_def)
    have "leaks = [] \<longleftrightarrow> (\<forall>n \<in> set (g_nodes g). \<forall>d. reg (n_block_id n) = Some d \<longrightarrow> past_only reg g n d)"
      using no_lookahead_verdict [OF d, of reg] leaks by (auto split: option.splits)
    then show ?thesis using v parameter_issues_clean [OF d ps] by blast
  qed (use v in blast)
qed

lemma graph_stages_valid:
  "rp_valid rp = (rp_errors rp = []) \<Longrightarrow>
    rp_valid (graph_stages reg inp g descs cycle ps rp) = (rp_errors (graph_stages reg inp g descs cycle ps rp) = [])"
  by (simp add: graph_stages_def Let_def report_simps)

lemma graph_stages_bars [report_simps]:
  "rp_warmup_bars (graph_stages reg inp g descs cycle ps rp) = rp_warmup_bars rp"
  by (simp add: graph_stages_def Let_def report_simps)

lemma migration_bars [report_simps]: "rp_warmup_bars (migration_stage is new_report) = None"
  by (simp add: migration_stage_def report_simps new_report_def)

lemma warmup_bars_stage:
  "rp_warmup_bars (warmup_stage reg inp g descs cycle rp) = None \<longleftrightarrow> cycle \<noteq> [] \<and> rp_warmup_bars rp = None"
  by (cases "vi_warmup_provider inp";
      cases "compose_warmup reg g (map_option fst (rp_order rp)) (Some descs)")
    (auto simp: warmup_stage_def report_simps)

lemma hash_iff: "rp_hash (finish_report inp g descs rp) = None \<longleftrightarrow> rp_errors (finish_report inp g descs rp) \<noteq> []"
  by (cases "recompute_graph g descs") (simp add: finish_report_def Let_def)

text \<open>
  C29: every report lists every stage, whatever fails; an acyclic graph gets its execution
  order and its warmup, a cyclic one neither; and the hash is present exactly in a valid report.
\<close>

theorem validate_reports_all:
  assumes run: "validate reg inp g = Inr rp"
  shows "map (\<lambda>(k, s, _). (k, s)) (rp_stages rp) =
      (if vi_migration inp = [] then [] else [(0, ''migration'')]) @
      [(1, ''structural''), (2, ''registry_resolution''), (3, ''parameters''), (4, ''port_contracts''),
       (5, ''required_inputs''), (6, ''acyclicity''), (7, ''reachability''), (8, ''execution_path''),
       (9, ''action_provenance''), (10, ''warmup''), (10, ''leakage''), (11, ''ml_readiness'')] \<and>
    rp_order rp = topological_order g \<and>
    (rp_warmup_bars rp = None \<longleftrightarrow> \<not> acyclic (graph_arcs g)) \<and>
    (rp_hash rp = None \<longleftrightarrow> \<not> rp_valid rp)"
proof -
  obtain ps leaks where ps: "parameter_issues (vi_param_rules inp) g (node_descriptors reg g) = Inr ps"
    and leaks: "validate_no_lookahead g (node_descriptors reg g) (reverse_adjacency g) = Inr leaks"
    and rp: "rp = finish_report inp g (node_descriptors reg g) (ml_stage inp g (issues_stage 10 ''leakage'' leaks
      (warmup_stage reg inp g (node_descriptors reg g) (find_cycle (node_ids g) (g_edges g))
        (graph_stages reg inp g (node_descriptors reg g) (find_cycle (node_ids g) (g_edges g)) ps
          (migration_stage (vi_migration inp) new_report)))))"
    using validate_run [OF run] by blast
  let ?cycle = "find_cycle (node_ids g) (g_edges g)"
  have "map (\<lambda>(k, s, _). (k, s)) (rp_stages rp) =
      (if vi_migration inp = [] then [] else [(0, ''migration'')]) @
      [(1, ''structural''), (2, ''registry_resolution''), (3, ''parameters''), (4, ''port_contracts''),
       (5, ''required_inputs''), (6, ''acyclicity''), (7, ''reachability''), (8, ''execution_path''),
       (9, ''action_provenance''), (10, ''warmup''), (10, ''leakage''), (11, ''ml_readiness'')]"
    by (simp add: rp report_simps graph_stages_fields migration_stage_fields)
  moreover have "rp_order rp = topological_order g"
  proof -
    have "topological_order g = None" if "?cycle \<noteq> []"
      using that topological_order_exists [of g] find_cycle_Nil_iff [of g] by (cases "topological_order g") auto
    then show ?thesis by (simp add: rp report_simps graph_stages_fields)
  qed
  moreover have "rp_warmup_bars rp = None \<longleftrightarrow> \<not> acyclic (graph_arcs g)"
    using find_cycle_Nil_iff [of g]
    by (cases "?cycle = []")
      (simp_all add: rp report_simps warmup_bars_stage graph_stages_bars)
  moreover have "rp_hash rp = None \<longleftrightarrow> rp_errors rp \<noteq> []" by (simp add: rp hash_iff)
  moreover have "rp_errors rp = [] \<longleftrightarrow> rp_valid rp"
    using graph_stages_valid [of "migration_stage (vi_migration inp) new_report" reg inp g
        "node_descriptors reg g" ?cycle ps]
    by (auto simp: rp report_simps migration_stage_fields split: option.splits)
  ultimately show ?thesis by simp
qed

section \<open>The canonical graph\<close>

definition canonical :: "registry \<Rightarrow> strategy_graph \<Rightarrow> strategy_graph" where
  "canonical reg g = fst (recompute_graph g (node_descriptors reg g))"

lemma recompute_node_same [simp]:
  "n_id (recompute_node descs n) = n_id n" "n_block_id (recompute_node descs n) = n_block_id n"
  "n_params (recompute_node descs n) = n_params n"
  by (simp_all add: recompute_node_def split: option.splits)

lemma recompute_edge_same [simp]:
  "e_id (recompute_edge ids descs e) = e_id e" "e_source (recompute_edge ids descs e) = e_source e"
  "e_target (recompute_edge ids descs e) = e_target e"
  "e_source_port (recompute_edge ids descs e) = e_source_port e"
  "e_target_port (recompute_edge ids descs e) = e_target_port e"
  by (simp_all add: recompute_edge_def split: option.splits)

lemma canonical_fields:
  "g_nodes (canonical reg g) = map (recompute_node (node_descriptors reg g)) (g_nodes g)"
  "g_edges (canonical reg g) = map (recompute_edge (node_ids g) (node_descriptors reg g)) (g_edges g)"
  "g_schema_version (canonical reg g) = g_schema_version g"
  by (simp_all add: canonical_def recompute_graph_def)

lemma canonical_same:
  "node_ids (canonical reg g) = node_ids g" "graph_arcs (canonical reg g) = graph_arcs g"
  "node_descriptors reg (canonical reg g) = node_descriptors reg g"
  "graph_node (canonical reg g) s = map_option (recompute_node (node_descriptors reg g)) (graph_node g s)"
  "port_load (canonical reg g) k = port_load g k"
proof -
  show ids: "node_ids (canonical reg g) = node_ids g"
    by (simp add: node_ids_def canonical_fields comp_def)
  show "graph_arcs (canonical reg g) = graph_arcs g"
  proof -
    have arcs: "graph_arcs x = (\<lambda>e. (e_source e, e_target e)) ` set (filter (\<lambda>e. e_source e \<in> set (node_ids x) \<and>
        e_target e \<in> set (node_ids x)) (g_edges x))" for x
      by (auto simp: graph_arcs_def)
    show ?thesis unfolding arcs ids canonical_fields by (simp add: filter_map comp_def image_image)
  qed
  show "node_descriptors reg (canonical reg g) = node_descriptors reg g"
    by (simp add: node_descriptors_def canonical_fields fold_map comp_def)
  show "graph_node (canonical reg g) s = map_option (recompute_node (node_descriptors reg g)) (graph_node g s)"
  proof -
    have "find (\<lambda>n. n_id n = s) (map (recompute_node ds) ns) =
        map_option (recompute_node ds) (find (\<lambda>n. n_id n = s) ns)" for ds ns
      by (induction ns) auto
    then show ?thesis by (simp add: graph_node_def canonical_fields)
  qed
  show "port_load (canonical reg g) k = port_load g k"
    by (simp add: port_load_def canonical_fields filter_map comp_def)
qed

lemma canonical_category:
  assumes d: "distinct (node_ids g)" and n: "n \<in> set (g_nodes g)"
  shows "block_category_of reg (recompute_node (node_descriptors reg g) n) = block_category_of reg n"
  using node_of_id(3) [OF d n, of reg]
  by (simp add: block_category_of_def category_of_def recompute_node_def split: option.splits)

lemma canonical_category_ids:
  assumes d: "distinct (node_ids g)"
  shows "category_ids cat (canonical reg g) (node_descriptors reg g) = category_ids cat g (node_descriptors reg g)"
proof -
  have "category_of (recompute_node (node_descriptors reg g) n) (descriptor_at (node_descriptors reg g) (n_id n)) =
      category_of n (descriptor_at (node_descriptors reg g) (n_id n))" for n
    by (simp add: category_of_def recompute_node_def split: option.splits)
  then show ?thesis by (simp add: category_ids_def canonical_fields filter_map comp_def)
qed

lemma canonical_node_sets:
  assumes d: "distinct (node_ids g)"
  shows "(\<exists>n \<in> set (g_nodes (canonical reg g)). block_category_of reg n = c \<and> P (n_id n)) \<longleftrightarrow>
      (\<exists>n \<in> set (g_nodes g). block_category_of reg n = c \<and> P (n_id n))"
    and "(\<forall>n \<in> set (g_nodes (canonical reg g)). block_category_of reg n = c \<longrightarrow> P (n_id n)) \<longleftrightarrow>
      (\<forall>n \<in> set (g_nodes g). block_category_of reg n = c \<longrightarrow> P (n_id n))"
  by (simp_all add: canonical_fields canonical_category [OF d])

lemma canonical_paths:
  assumes d: "distinct (node_ids g)"
  shows "from_data reg (canonical reg g) x = from_data reg g x"
    and "to_action reg (canonical reg g) x = to_action reg g x"
    and "upstream_symbols reg (canonical reg g) a = upstream_symbols reg g a"
    and "allocated reg (canonical reg g) a = allocated reg g a"
proof -
  show "from_data reg (canonical reg g) x = from_data reg g x"
    unfolding from_data_def canonical_same by (rule canonical_node_sets(1) [OF d])
  show "to_action reg (canonical reg g) x = to_action reg g x"
    unfolding to_action_def canonical_same by (rule canonical_node_sets(1) [OF d])
  show "upstream_symbols reg (canonical reg g) a = upstream_symbols reg g a"
    by (auto simp: upstream_symbols_def canonical_same canonical_fields canonical_category [OF d] declared_symbol_def)
  show "allocated reg (canonical reg g) a = allocated reg g a"
    by (auto simp: allocated_def canonical_same canonical_fields)
qed

lemma canonical_edges:
  assumes d: "distinct (node_ids g)"
  shows "ports_match reg (canonical reg g) (recompute_edge ids descs e) v = ports_match reg g e v"
    and "port_taken (canonical reg g) (recompute_edge ids descs e) = port_taken g e"
    and "fed_by_decisions reg (canonical reg g) a = fed_by_decisions reg g a"
proof -
  show "ports_match reg (canonical reg g) (recompute_edge ids descs e) v = ports_match reg g e v"
    by (auto simp: ports_match_def canonical_same)
  show "port_taken (canonical reg g) (recompute_edge ids descs e) = port_taken g e"
    by (simp add: port_taken_def canonical_fields)
  have "block_category_of reg (recompute_node (node_descriptors reg g) src) = block_category_of reg src"
    if "graph_node g s = Some src" for s src
    using canonical_category [OF d] graph_node_id [OF that] by blast
  then show "fed_by_decisions reg (canonical reg g) a = fed_by_decisions reg g a"
    by (auto simp: fed_by_decisions_def canonical_fields canonical_same)
qed


end
