(* ===== verification/Action_Markets.thy ===== *)
theory Action_Markets
  imports Graph_Plan
begin

text \<open>
  \<open>resolve_action_markets\<close> of \<open>backend/strategy_dag/plan.py\<close>: the market an action trades is read off
  the data blocks it descends from.
\<close>

section \<open>The upstream data blocks\<close>

text \<open>The walk visits as \<open>_reachable_from\<close> does; the data blocks it meets are then sorted by id.\<close>

definition upstream_data_nodes ::
  "(string, node_spec) dict \<Rightarrow> (string, string list) dict \<Rightarrow> string \<Rightarrow> node_spec list" where
  "upstream_data_nodes index ps r =
     sort_key n_id (filter (\<lambda>n. n_category n = DATA)
       (List.map_filter (dget index) (rev (reach_visit ps [] [r]))))"

text \<open>\<open>isinstance(value, str) and value.strip()\<close>.\<close>

definition text_param :: "node_spec \<Rightarrow> string \<Rightarrow> string option" where
  "text_param n key =
     (case dget (n_params n) key of
        Some (PText s) \<Rightarrow> if py_strip s = [] then None else Some (py_strip s)
      | _ \<Rightarrow> None)"

definition found_values :: "string \<Rightarrow> node_spec list \<Rightarrow> string list" where
  "found_values key ns =
     fold (\<lambda>n acc. case text_param n key of
         None \<Rightarrow> acc | Some v \<Rightarrow> if v \<in> set acc then acc else acc @ [v]) ns []"

definition action_ids :: "strategy_graph \<Rightarrow> string list" where
  "action_ids g = map n_id (filter (\<lambda>n. n_category n = ACTION) (g_nodes g))"

text \<open>One action, over the two maps.\<close>

definition resolve_action ::
  "(string, node_spec) dict \<Rightarrow> (string, string list) dict \<Rightarrow>
    (string, string) dict \<times> (string, string) dict \<Rightarrow> string \<Rightarrow>
    plan_error + ((string, string) dict \<times> (string, string) dict)" where
  "resolve_action index ps acc action =
     (let ancestors = upstream_data_nodes index ps action;
          symbols = found_values ''symbol'' ancestors;
          frames = found_values ''timeframe'' ancestors
      in case symbols of
           [] \<Rightarrow> Inl (ActionSymbolUnresolved action (map n_id ancestors))
         | [s] \<Rightarrow> Inr (dset action s (fst acc),
                     (case frames of [f] \<Rightarrow> dset action f (snd acc) | _ \<Rightarrow> snd acc))
         | _ \<Rightarrow> Inl (AmbiguousActionSymbol action (sort symbols)))"

definition resolve_action_markets ::
  "strategy_graph \<Rightarrow> plan_error + ((string, string) dict \<times> (string, string) dict)" where
  "resolve_action_markets g =
     foldm (resolve_action (node_index g) (predecessor_map g)) ([], []) (sort (action_ids g))"

section \<open>What it resolves\<close>

definition edge_arcs :: "strategy_graph \<Rightarrow> (string \<times> string) set" where
  "edge_arcs g = {(e_source e, e_target e) | e. e \<in> set (g_edges g)}"

text \<open>The values the data blocks upstream of an action declare for a parameter.\<close>

definition upstream_values :: "strategy_graph \<Rightarrow> string \<Rightarrow> string \<Rightarrow> string set" where
  "upstream_values g key action =
     {v. \<exists>x n. (x, action) \<in> (edge_arcs g)\<^sup>* \<and> dget (node_index g) x = Some n \<and>
        n_category n = DATA \<and> text_param n key = Some v}"

lemma arcs_predecessors: "arcs (predecessor_map g) = (edge_arcs g)\<inverse>"
  by (auto simp: predecessor_map_spec edge_arcs_def)

lemma upstream_data_nodes_set:
  "set (upstream_data_nodes (node_index g) (predecessor_map g) a) =
    {n. n_category n = DATA \<and> (\<exists>x. (x, a) \<in> (edge_arcs g)\<^sup>* \<and> dget (node_index g) x = Some n)}"
proof -
  have "set (reach_visit (predecessor_map g) [] [a]) = ((edge_arcs g)\<^sup>*)\<inverse> `` {a}"
    using reachable_ids_correct [of "predecessor_map g" "[a]"]
    by (simp add: reachable_ids_def arcs_predecessors rtrancl_converse)
  then show ?thesis by (auto simp: upstream_data_nodes_def set_map_filter)
qed

lemma found_values_spec:
  "set (found_values key ns) = {v. \<exists>n \<in> set ns. text_param n key = Some v} \<and> distinct (found_values key ns)"
proof -
  have "set (fold (\<lambda>n acc. case text_param n key of
         None \<Rightarrow> acc | Some v \<Rightarrow> if v \<in> set acc then acc else acc @ [v]) ns acc) =
      set acc \<union> {v. \<exists>n \<in> set ns. text_param n key = Some v} \<and>
    distinct (fold (\<lambda>n acc. case text_param n key of
         None \<Rightarrow> acc | Some v \<Rightarrow> if v \<in> set acc then acc else acc @ [v]) ns acc)"
    if "distinct acc" for acc
    using that by (induction ns arbitrary: acc) (auto split: option.splits)
  then show ?thesis by (simp add: found_values_def)
qed

lemma found_upstream:
  "set (found_values key (upstream_data_nodes (node_index g) (predecessor_map g) a)) = upstream_values g key a"
  by (auto simp: found_values_spec upstream_data_nodes_set upstream_values_def)

lemma distinct_singleton: "distinct xs \<Longrightarrow> set xs = {x} \<longleftrightarrow> xs = [x]"
  by (cases xs rule: remdups_adj.cases) auto

lemma found_single:
  "found_values key (upstream_data_nodes (node_index g) (predecessor_map g) a) = [v] \<longleftrightarrow>
    upstream_values g key a = {v}"
  using distinct_singleton [of "found_values key (upstream_data_nodes (node_index g) (predecessor_map g) a)" v]
    found_values_spec [of key "upstream_data_nodes (node_index g) (predecessor_map g) a"]
    found_upstream [of key g a] by simp

text \<open>What is true of the two maps after the actions in \<open>as\<close>.\<close>

definition markets_ok ::
  "strategy_graph \<Rightarrow> string set \<Rightarrow> (string, string) dict \<times> (string, string) dict \<Rightarrow> bool" where
  "markets_ok g as acc \<longleftrightarrow>
     (\<forall>a s. dget (fst acc) a = Some s \<longleftrightarrow> a \<in> as \<and> upstream_values g ''symbol'' a = {s}) \<and>
     (\<forall>a t. dget (snd acc) a = Some t \<longleftrightarrow> a \<in> as \<and> upstream_values g ''timeframe'' a = {t}) \<and>
     (\<forall>a \<in> as. \<exists>s. upstream_values g ''symbol'' a = {s})"

definition market_error :: "strategy_graph \<Rightarrow> plan_error \<Rightarrow> bool" where
  "market_error g err \<longleftrightarrow>
     (case err of
        ActionSymbolUnresolved a _ \<Rightarrow> a \<in> set (action_ids g) \<and> upstream_values g ''symbol'' a = {}
      | AmbiguousActionSymbol a syms \<Rightarrow> a \<in> set (action_ids g) \<and> 2 \<le> length syms \<and> distinct syms \<and>
          sorted syms \<and> set syms = upstream_values g ''symbol'' a
      | _ \<Rightarrow> False)"

lemma resolve_action_cases:
  assumes "a \<in> set (action_ids g)" and ok: "markets_ok g as acc"
  shows "case resolve_action (node_index g) (predecessor_map g) acc a of
      Inl err \<Rightarrow> market_error g err | Inr acc' \<Rightarrow> markets_ok g (insert a as) acc'"
proof -
  let ?up = "upstream_data_nodes (node_index g) (predecessor_map g) a"
  note f = found_values_spec [of "''symbol''" ?up] found_upstream [of "''symbol''" g a]
  consider "found_values ''symbol'' ?up = []" | s where "found_values ''symbol'' ?up = [s]"
    | s t rest where "found_values ''symbol'' ?up = s # t # rest"
    by (cases "found_values ''symbol'' ?up" rule: remdups_adj.cases) auto
  then show ?thesis
  proof cases
    case 1
    then show ?thesis using f assms(1) by (simp add: resolve_action_def market_error_def)
  next
    case (2 s)
    have sym: "upstream_values g ''symbol'' a = {s}" using 2 found_single by metis
    obtain acc' where run: "resolve_action (node_index g) (predecessor_map g) acc a = Inr acc'"
      and s': "fst acc' = dset a s (fst acc)"
      and t': "snd acc' = (case found_values ''timeframe'' ?up of [t] \<Rightarrow> dset a t (snd acc) | _ \<Rightarrow> snd acc)"
      using 2 by (simp add: resolve_action_def Let_def)
    have t: "dget (snd acc') b = Some t \<longleftrightarrow> b \<in> insert a as \<and> upstream_values g ''timeframe'' b = {t}" for b t
    proof (cases "\<exists>u. found_values ''timeframe'' ?up = [u]")
      case True
      then obtain u where u: "found_values ''timeframe'' ?up = [u]" by blast
      then have "upstream_values g ''timeframe'' a = {u}" using found_single by metis
      then show ?thesis using ok u by (auto simp: t' dict_simps markets_ok_def)
    next
      case False
      then have n: "upstream_values g ''timeframe'' a \<noteq> {u}" for u using found_single by metis
      have "snd acc' = snd acc" using False t' by (auto split: list.splits)
      then show ?thesis using ok n by (auto simp: markets_ok_def)
    qed
    have s: "dget (fst acc') b = Some u \<longleftrightarrow> b \<in> insert a as \<and> upstream_values g ''symbol'' b = {u}" for b u
      using ok sym by (auto simp: s' dict_simps markets_ok_def)
    have "markets_ok g (insert a as) acc'"
      unfolding markets_ok_def using s t ok sym by (simp add: markets_ok_def)
    then show ?thesis using run by simp
  next
    case 3
    then show ?thesis using f assms(1)
      by (simp add: resolve_action_def market_error_def Let_def set_insort_key distinct_insort
          sorted_insort)
  qed
qed


end
