(* ===== verification/Graph_Example.thy ===== *)
theory Graph_Example
  imports Graph_Verdict Action_Markets
begin

text \<open>
  One strategy evaluated in the kernel: a feed, an average, a comparison and an order. The theorems
  about graphs are applied to it.
\<close>

section \<open>The blocks and the strategy\<close>

definition plain_port :: "string \<Rightarrow> port_type \<Rightarrow> port" where
  "plain_port name kind = \<lparr>port_name = name, port_kind = kind, port_required = True,
     port_variadic = False, port_description = []\<rparr>"

definition plain_block ::
  "block_category \<Rightarrow> port list \<Rightarrow> port list \<Rightarrow> int \<Rightarrow> block_category list \<Rightarrow> execution_semantics \<Rightarrow>
    block_descriptor" where
  "plain_block cat ins outs warmup successors semantics =
     \<lparr>bd_category = cat, bd_inputs = ins, bd_outputs = outs, bd_params = [],
      bd_warmup_fn = (\<lambda>_. Inr warmup), bd_successors = successors, bd_semantics = semantics,
      bd_leakage = RISK_NONE, bd_flags = [], bd_operator = [], bd_leaky_outputs = [],
      bd_global_statistic = False\<rparr>"

definition demo_registry :: registry where
  "demo_registry b =
     (if b = ''feed'' then Some (plain_block DATA [] [plain_port ''close'' PRICE_SERIES] 0 [INDICATOR, LOGIC] SERIES_MAP)
      else if b = ''ema'' then Some (plain_block INDICATOR [plain_port ''series'' PRICE_SERIES]
        [plain_port ''value'' SCALAR_SERIES] 20 [LOGIC] WINDOWED)
      else if b = ''above'' then Some (plain_block LOGIC [plain_port ''price'' PRICE_SERIES, plain_port ''level'' SCALAR_SERIES]
        [plain_port ''out'' BOOLEAN_SERIES] 1 [ACTION] SERIES_MAP)
      else if b = ''buy'' then Some (plain_block ACTION [plain_port ''signal'' SIGNAL] [] 0 [] TERMINAL)
      else None)"

definition demo_node :: "string \<Rightarrow> string \<Rightarrow> block_category \<Rightarrow> (string, param_value) dict \<Rightarrow> node_spec" where
  "demo_node s b cat ps = \<lparr>n_id = s, n_block_id = b, n_category = cat, n_params = ps, n_inputs = [], n_outputs = []\<rparr>"

definition demo_edge :: "string \<Rightarrow> string \<Rightarrow> string \<Rightarrow> string \<Rightarrow> string \<Rightarrow> edge_spec" where
  "demo_edge i s sp t tp = \<lparr>e_id = i, e_source = s, e_source_port = sp, e_target = t, e_target_port = tp,
     e_type = None\<rparr>"

definition demo_graph :: strategy_graph where
  "demo_graph = \<lparr>g_schema_version = 2,
     g_nodes = [demo_node ''a'' ''buy'' ACTION [], demo_node ''f'' ''feed'' DATA [(''symbol'', PText ''BTC/USDT'')],
       demo_node ''e'' ''ema'' INDICATOR [], demo_node ''l'' ''above'' LOGIC []],
     g_edges = [demo_edge ''1'' ''f'' ''close'' ''e'' ''series'', demo_edge ''2'' ''f'' ''close'' ''l'' ''price'',
       demo_edge ''3'' ''e'' ''value'' ''l'' ''level'', demo_edge ''4'' ''l'' ''out'' ''a'' ''signal''],
     g_state = UNVALIDATED\<rparr>"

definition demo_inputs :: validation_inputs where
  "demo_inputs = \<lparr>vi_param_rules = (\<lambda>_ _. Inr []), vi_ml_rules = (\<lambda>_. None), vi_migration = [],
     vi_hash = (\<lambda>_. ''hash''), vi_warmup_provider = None, vi_available_bars = Some 500,
     vi_feature_columns = None, vi_limits = LIMITS\<rparr>"

lemma demo_order: "topological_order demo_graph = Some ([''f'', ''e'', ''l'', ''a''], [[''f''], [''e''], [''l''], [''a'']])"
  by code_simp

lemma demo_warmups:
  "compute_node_warmups demo_registry demo_graph = Inr [(''f'', 0), (''e'', 20), (''l'', 21), (''a'', 21)]"
  by code_simp

lemma demo_markets: "resolve_action_markets demo_graph = Inr ([(''a'', ''BTC/USDT'')], [])"
  by code_simp

lemma demo_report:
  "(case validate demo_registry demo_inputs demo_graph of
     Inl _ \<Rightarrow> None | Inr rp \<Rightarrow> Some (rp_valid rp, rp_errors rp, rp_warnings rp, rp_warmup_bars rp, rp_hash rp)) =
   Some (True, [], [], Some 21, Some ''hash'')"
  by code_simp

lemma demo_no_lookahead:
  "validate_no_lookahead demo_graph (node_descriptors demo_registry demo_graph) (reverse_adjacency demo_graph) = Inr []"
  by code_simp

lemma demo_acyclic: "acyclic (graph_arcs demo_graph)"
  using topological_order_exists [of demo_graph] demo_order by blast

lemma demo_ids: "distinct (node_ids demo_graph)"
  by code_simp

section \<open>The theorems at this strategy\<close>

theorem creates_cycle_correct_witness:
  "creates_cycle demo_graph (demo_edge ''5'' ''a'' ''x'' ''e'' ''series'') \<and>
   \<not> acyclic (graph_arcs (add_edge demo_graph (demo_edge ''5'' ''a'' ''x'' ''e'' ''series'')))"
proof -
  have c: "creates_cycle demo_graph (demo_edge ''5'' ''a'' ''x'' ''e'' ''series'')" by code_simp
  have "e_source (demo_edge ''5'' ''a'' ''x'' ''e'' ''series'') \<in> set (node_ids demo_graph)"
    "e_target (demo_edge ''5'' ''a'' ''x'' ''e'' ''series'') \<in> set (node_ids demo_graph)" by code_simp+
  from creates_cycle_correct [OF demo_acyclic this] c show ?thesis by blast
qed

definition demo_draft :: strategy_graph where
  "demo_draft = demo_graph\<lparr>g_edges := butlast (g_edges demo_graph)\<rparr>"

abbreviation last_edge :: edge_spec where
  "last_edge \<equiv> demo_edge ''4'' ''l'' ''out'' ''a'' ''signal''"

lemma demo_drawn: "add_edge demo_draft last_edge = demo_graph"
  by code_simp

lemma last_edge_accepted: "validate_edge demo_registry demo_draft last_edge = None"
  by code_simp

theorem validate_edge_accepts_witness:
  "validate_edge demo_registry demo_draft last_edge = None \<and> (''a'', ''l'') \<notin> (graph_arcs demo_graph)\<^sup>*"
  using validate_edge_accepts [of demo_registry demo_draft last_edge] last_edge_accepted
  by (simp add: demo_drawn) (simp add: demo_edge_def)

theorem connect_keeps_legal_witness: "all_edges_legal demo_registry demo_graph"
proof -
  have "all_edges_legal demo_registry demo_draft" by code_simp
  moreover have "e_id last_edge \<notin> e_id ` set (g_edges demo_draft)" by code_simp
  ultimately show ?thesis using connect_keeps_legal [OF _ last_edge_accepted] by (simp add: demo_drawn)
qed


theorem compose_warmup_agrees_witness:
  "dget (fst (compose_warmup demo_registry demo_graph None None)) ''a'' = Some 21"
proof -
  have "list_all (warmup_declared demo_registry) (g_nodes demo_graph)" by code_simp
  then have "\<And>n. n \<in> set (g_nodes demo_graph) \<Longrightarrow> warmup_declared demo_registry n" by (simp add: list_all_iff)
  from compose_warmup_agrees [OF demo_acyclic this]
  have "dget (fst (compose_warmup demo_registry demo_graph None None)) =
      dget [(''f'', 0), (''e'', 20), (''l'', 21), (''a'', 21)]" by (auto simp: demo_warmups)
  then show ?thesis by simp
qed

theorem levels_from_order_kahn_witness:
  "levels_from_order [''f'', ''e'', ''l'', ''a''] (predecessor_map demo_graph) = [[''f''], [''e''], [''l''], [''a'']]"
  by (rule levels_from_order_kahn [OF demo_order])

theorem no_lookahead_iff_witness:
  "past_only demo_registry demo_graph (demo_node ''e'' ''ema'' INDICATOR [])
    (plain_block INDICATOR [plain_port ''series'' PRICE_SERIES] [plain_port ''value'' SCALAR_SERIES] 20 [LOGIC] WINDOWED)"
proof -
  have "demo_registry (n_block_id (demo_node ''e'' ''ema'' INDICATOR [])) =
      Some (plain_block INDICATOR [plain_port ''series'' PRICE_SERIES] [plain_port ''value'' SCALAR_SERIES] 20
        [LOGIC] WINDOWED)"
    by (simp add: demo_registry_def demo_node_def)
  moreover have "demo_node ''e'' ''ema'' INDICATOR [] \<in> set (g_nodes demo_graph)" by (simp add: demo_graph_def)
  ultimately show ?thesis
    using no_lookahead_iff [OF demo_ids, of demo_registry] demo_no_lookahead by fastforce
qed

lemma demo_validated: "\<exists>rp. validate demo_registry demo_inputs demo_graph = Inr rp \<and> rp_valid rp"
  using demo_report by (auto split: sum.splits)

theorem validate_verdict_witness: "sound_graph demo_registry demo_inputs demo_graph"
  using demo_validated validate_verdict by blast

theorem validate_reports_all_witness:
  "\<exists>rp. validate demo_registry demo_inputs demo_graph = Inr rp \<and> length (rp_stages rp) = 12 \<and> rp_hash rp \<noteq> None"
proof -
  obtain rp where rp: "validate demo_registry demo_inputs demo_graph = Inr rp" "rp_valid rp"
    using demo_validated by blast
  note all = validate_reports_all [OF rp(1)]
  have "length (rp_stages rp) = length (map (\<lambda>(k, s, _). (k, s)) (rp_stages rp))" by simp
  also have "\<dots> = 12" using all by (simp add: demo_inputs_def)
  finally show ?thesis using rp all by blast
qed

section \<open>Where the two warmups differ\<close>

text \<open>A feed whose declared warmup is negative: the validator takes it, the plan does not.\<close>

definition eager_registry :: registry where
  "eager_registry b = Some (plain_block DATA [] [] (- 3) [] SERIES_MAP)"

definition lone_graph :: strategy_graph where
  "lone_graph = \<lparr>g_schema_version = 2, g_nodes = [demo_node ''f'' ''feed'' DATA []], g_edges = [],
     g_state = UNVALIDATED\<rparr>"

text \<open>
  On a graph with a negative own warmup the two compositions of the same graph disagree.
\<close>

theorem negative_warmup_differs:
  "compose_warmup eager_registry lone_graph None None = ([(''f'', - 3)], - 3) \<and>
   compute_node_warmups eager_registry lone_graph = Inr [(''f'', 0)]"
  by code_simp

section \<open>A parameter the leakage stage cannot read\<close>

text \<open>A shift whose \<open>bars\<close> is the float infinity, which JSON input can carry.\<close>

definition shift_registry :: registry where
  "shift_registry b = Some (plain_block MATH [] [] 0 [] WINDOWED)"

definition shift_graph :: strategy_graph where
  "shift_graph = \<lparr>g_schema_version = 2,
     g_nodes = [demo_node ''s'' ''shift'' MATH [(''bars'', PFloat (Infinite True))]], g_edges = [],
     g_state = UNVALIDATED\<rparr>"

text \<open>
  An infinite \<open>bars\<close> parameter of a shift block makes the leakage stage raise
  \<open>OverflowError\<close>, and with it the validator.
\<close>

theorem infinite_shift_raises:
  "validate_no_lookahead shift_graph (node_descriptors shift_registry shift_graph) (reverse_adjacency shift_graph) =
     Inl OverflowError \<and>
   validate shift_registry demo_inputs shift_graph = Inl OverflowError"
  by code_simp

end
