(* ===== verification/Sim_Config.thy ===== *)
theory Sim_Config
  imports Paper_Book
begin

text \<open>
  The frozen session configuration of \<open>backend/paper/paper_simulator.py\<close>: the readings of a venue's
  precision figures, the checks of \<open>SessionConfig\<close>, and its stored form.
\<close>

section \<open>Exceptions\<close>

text \<open>
  \<open>OrderInvalid\<close> carries the validation, \<open>SimInvariant\<close> the invariant. \<open>Accounting\<close> is an exception
  of the accounting engine that passes through; \<open>ConcurrencyConflict\<close>, \<open>SerializationFailure\<close>,
  \<open>DuplicateFill\<close> and \<open>PersistenceError\<close> are the repository's.
\<close>

datatype sim_error = InvalidSessionConfig | SimulatorMisconfigured | MetadataUnavailable string
  | InvalidOrderIntent | OrderInvalid string | OverFill | SimInvariant string | FeedNotHealthy
  | IdempotencyConflict | ConcurrencyExhausted bool | ConcurrencyConflict | SerializationFailure
  | DuplicateFill | PersistenceError | Accounting paper_error | Builtin py_exc

definition engine :: "paper_error + 'a \<Rightarrow> sim_error + 'a" where
  "engine r = (case r of Inl e \<Rightarrow> Inl (Accounting e) | Inr x \<Rightarrow> Inr x)"

definition as_error :: "sim_error \<Rightarrow> 'e + 'a \<Rightarrow> sim_error + 'a" where
  "as_error e r = (case r of Inl _ \<Rightarrow> Inl e | Inr x \<Rightarrow> Inr x)"

lemma engine_Inr [result_simps]: "engine r = Inr x \<longleftrightarrow> r = Inr x"
  by (cases r) (simp_all add: engine_def)

lemma as_error_Inr [result_simps]: "as_error e r = Inr x \<longleftrightarrow> r = Inr x"
  by (cases r) (simp_all add: as_error_def)

lemma engine_sum [simp]: "engine (Inr x) = Inr x" "engine (Inl e) = Inl (Accounting e)"
  by (simp_all add: engine_def)

lemma as_error_sum [simp]: "as_error e (Inr x) = Inr x" "as_error e (Inl e') = Inl e"
  by (simp_all add: as_error_def)

section \<open>Normalised decimals\<close>

text \<open>\<open>Decimal.normalize\<close>: rounded to the context, then without trailing zeros.\<close>

definition dec_normalize :: "nat \<Rightarrow> decimal \<Rightarrow> decimal" where
  "dec_normalize p d =
     (let f = dec_fix p d
      in if dcoeff f = 0 then dec_zero
         else strip_zeros (dcoeff f) (dexp f) (dexp f + int (ndigits \<bar>dcoeff f\<bar>)))"

section \<open>A venue's figures\<close>

definition MAX_RECORDED_PRECISION :: nat where
  "MAX_RECORDED_PRECISION = 10"

text \<open>A figure of the market map: a float is known by its \<open>repr\<close>.\<close>

datatype figure = FloatFigure string | OtherFigure pyval

definition figure_decimal :: "figure \<Rightarrow> decimal option" where
  "figure_decimal v =
     (let read = (\<lambda>s. case parse_decimal s of Some (Fin d) \<Rightarrow> Some d | _ \<Rightarrow> None)
      in case v of
           FloatFigure s \<Rightarrow> read s
         | OtherFigure (PyDec (Fin d)) \<Rightarrow> Some d
         | OtherFigure (PyInt n) \<Rightarrow> Some (dec_of_int n)
         | OtherFigure (PyStr s) \<Rightarrow> read (py_strip s)
         | OtherFigure _ \<Rightarrow> None)"

definition places_of_tick :: "nat \<Rightarrow> decimal \<Rightarrow> nat option" where
  "places_of_tick amb tick =
     (if dec_le tick dec_zero then None else Some (nat (- dexp (dec_normalize amb tick))))"

text \<open>The two conventions of the venues; without a mode the ambiguous figure 1 is refused.\<close>

definition mode_places :: "nat \<Rightarrow> string \<Rightarrow> decimal \<Rightarrow> nat option" where
  "mode_places amb mode n =
     (let m = py_upper (py_strip mode)
      in if m = ''DECIMAL_PLACES'' then (if dec_is_integral n then Some (nat (dec_to_int n)) else None)
         else if m = ''TICK_SIZE'' then places_of_tick amb n
         else None)"

definition guessed_places :: "nat \<Rightarrow> decimal \<Rightarrow> nat option" where
  "guessed_places amb n =
     (if dec_eq n dec_zero then Some 0
      else if dec_lt n (dec_of_int 1) then places_of_tick amb n
      else if dec_eq n (dec_of_int 1) then None
      else if dec_is_integral n then Some (nat (dec_to_int n)) else None)"

definition figure_places :: "nat \<Rightarrow> string option \<Rightarrow> figure \<Rightarrow> sim_error + nat" where
  "figure_places amb mode v =
     (case Option.bind (figure_decimal v) (\<lambda>n.
             if dec_lt n dec_zero then None
             else Option.bind (case mode of Some m \<Rightarrow> mode_places amb m n | None \<Rightarrow> guessed_places amb n)
               (\<lambda>k. if k > MAX_RECORDED_PRECISION then None else Some k)) of
        None \<Rightarrow> Inl (MetadataUnavailable ''MARKET_METADATA_INCOMPLETE'')
      | Some k \<Rightarrow> Inr k)"

definition positive_figure :: "figure \<Rightarrow> sim_error + decimal" where
  "positive_figure v =
     (case Option.bind (figure_decimal v) (\<lambda>n. if dec_le n dec_zero then None else Some n) of
        None \<Rightarrow> Inl (MetadataUnavailable ''MARKET_METADATA_INCOMPLETE'')
      | Some n \<Rightarrow> Inr n)"

section \<open>The configuration\<close>

text \<open>A stored value: a scalar, or a list (or tuple) of scalars.\<close>

datatype conf_value = Scalar pyval | Items "pyval list"

record session_config =
  sc_fee_rate :: decimal
  sc_slippage_rate :: decimal
  sc_participation_rate :: decimal
  sc_rounding_mode :: rounding
  sc_cost_basis :: string
  sc_price_precision :: nat
  sc_quantity_precision :: nat
  sc_minor_unit_exponent :: nat
  sc_max_order_quantity :: decimal
  sc_order_types :: "string list"
  sc_sides :: "string list"
  sc_symbols :: "string list"
  sc_market_data_source :: string
  sc_simulator :: string

text \<open>The keyword arguments of the constructor, before its checks.\<close>

record session_args =
  sa_fee_rate :: pyval
  sa_slippage_rate :: pyval
  sa_participation_rate :: pyval
  sa_rounding_mode :: pyval
  sa_cost_basis :: pyval
  sa_price_precision :: pyval
  sa_quantity_precision :: pyval
  sa_minor_unit_exponent :: pyval
  sa_max_order_quantity :: pyval
  sa_order_types :: conf_value
  sa_sides :: conf_value
  sa_symbols :: conf_value
  sa_market_data_source :: pyval
  sa_simulator :: pyval
  sa_schema_version :: pyval

definition SCHEMA_VERSION :: string where
  "SCHEMA_VERSION = ''paper.v1''"

definition SUPPORTED_ORDER_TYPES :: "string list" where
  "SUPPORTED_ORDER_TYPES = [''market'', ''limit'']"

definition SUPPORTED_SIDES :: "string list" where
  "SUPPORTED_SIDES = [''buy'', ''sell'']"

definition FORBIDDEN_SIMULATORS :: "(string \<times> string) list" where
  "FORBIDDEN_SIMULATORS = [(''backend_app.backend.exchange_simulator'', ''PaperTradingExchange'')]"

definition forbidden_simulator_names :: "string list" where
  "forbidden_simulator_names = map (\<lambda>(m, q). m @ ''.'' @ q) FORBIDDEN_SIMULATORS"

definition exact_value :: "pyval \<Rightarrow> sim_error + decimal" where
  "exact_value v = as_error InvalidSessionConfig (to_decimal v)"

definition collect_text :: "string list \<Rightarrow> pyval \<Rightarrow> sim_error + string list" where
  "collect_text acc v =
     (case v of
        PyStr s \<Rightarrow>
          (if py_strip s = [] \<or> py_strip s \<in> set acc then Inl InvalidSessionConfig
           else Inr (acc @ [py_strip s]))
      | _ \<Rightarrow> Inl InvalidSessionConfig)"

definition texts :: "conf_value \<Rightarrow> sim_error + string list" where
  "texts v = (case v of Scalar _ \<Rightarrow> Inl InvalidSessionConfig | Items vs \<Rightarrow> foldm collect_text [] vs)"

definition vocabulary :: "conf_value \<Rightarrow> string list \<Rightarrow> sim_error + string list" where
  "vocabulary v permitted =
     bnd (texts v) (\<lambda>ts.
       if ts = [] \<or> \<not> set ts \<subseteq> set permitted then Inl InvalidSessionConfig else Inr ts)"

definition rate_value :: "pyval \<Rightarrow> sim_error + decimal" where
  "rate_value v = bnd (exact_value v) (\<lambda>d.
     if dec_le dec_zero d \<and> dec_le d (dec_of_int 1) then Inr d else Inl InvalidSessionConfig)"

definition precision_value :: "pyval \<Rightarrow> sim_error + nat" where
  "precision_value v =
     (case v of
        PyInt n \<Rightarrow> if n < 0 \<or> n > int MAX_RECORDED_PRECISION then Inl InvalidSessionConfig else Inr (nat n)
      | _ \<Rightarrow> Inl InvalidSessionConfig)"

definition nonempty_text :: "pyval \<Rightarrow> sim_error + string" where
  "nonempty_text v =
     (case v of
        PyStr s \<Rightarrow> if py_strip s = [] then Inl InvalidSessionConfig else Inr (py_strip s)
      | _ \<Rightarrow> Inl InvalidSessionConfig)"

text \<open>\<open>SessionConfig.__post_init__\<close>, its checks in their order.\<close>

definition make_session_config :: "session_args \<Rightarrow> sim_error + session_config" where
  "make_session_config a =
     bnd (rate_value (sa_fee_rate a)) (\<lambda>fee.
     bnd (rate_value (sa_slippage_rate a)) (\<lambda>slip.
     bnd (rate_value (sa_participation_rate a)) (\<lambda>part.
     bnd (exact_value (sa_max_order_quantity a)) (\<lambda>quantity.
     if dec_le quantity dec_zero then Inl InvalidSessionConfig
     else
     bnd (as_error InvalidSessionConfig (resolve_rounding (sa_rounding_mode a))) (\<lambda>mode.
     if sa_cost_basis a \<noteq> PyStr WEIGHTED_AVERAGE then Inl InvalidSessionConfig
     else
     bnd (precision_value (sa_price_precision a)) (\<lambda>pp.
     bnd (precision_value (sa_quantity_precision a)) (\<lambda>qp.
     bnd (precision_value (sa_minor_unit_exponent a)) (\<lambda>mp.
     bnd (vocabulary (sa_order_types a) SUPPORTED_ORDER_TYPES) (\<lambda>types.
     bnd (vocabulary (sa_sides a) SUPPORTED_SIDES) (\<lambda>sides.
     bnd (texts (sa_symbols a)) (\<lambda>symbols.
     if symbols = [] then Inl InvalidSessionConfig
     else
     bnd (nonempty_text (sa_market_data_source a)) (\<lambda>source.
     bnd (nonempty_text (sa_simulator a)) (\<lambda>simulator.
     bnd (nonempty_text (sa_schema_version a)) (\<lambda>schema.
     if schema \<noteq> SCHEMA_VERSION then Inl InvalidSessionConfig
     else if simulator \<in> set forbidden_simulator_names then Inl SimulatorMisconfigured
     else Inr \<lparr>sc_fee_rate = fee, sc_slippage_rate = slip, sc_participation_rate = part,
       sc_rounding_mode = mode, sc_cost_basis = WEIGHTED_AVERAGE, sc_price_precision = pp,
       sc_quantity_precision = qp, sc_minor_unit_exponent = mp, sc_max_order_quantity = quantity,
       sc_order_types = types, sc_sides = sides, sc_symbols = symbols,
       sc_market_data_source = source, sc_simulator = simulator\<rparr>))))))))))))))"

section \<open>The stored form\<close>

definition CONFIG_KEYS :: "string list" where
  "CONFIG_KEYS = [''fee_rate'', ''slippage_rate'', ''participation_rate'', ''rounding_mode'', ''cost_basis'',
     ''price_precision'', ''quantity_precision'', ''minor_unit_exponent'', ''max_order_quantity'',
     ''supported_order_types'', ''supported_sides'', ''validated_symbols'', ''market_data_source'',
     ''simulator'', ''schema_version'']"

definition to_jsonb :: "session_config \<Rightarrow> (string, conf_value) dict" where
  "to_jsonb c =
     [(''fee_rate'', Scalar (PyStr (dec_str (sc_fee_rate c)))),
      (''slippage_rate'', Scalar (PyStr (dec_str (sc_slippage_rate c)))),
      (''participation_rate'', Scalar (PyStr (dec_str (sc_participation_rate c)))),
      (''rounding_mode'', Scalar (PyStr (rounding_name (sc_rounding_mode c)))),
      (''cost_basis'', Scalar (PyStr (sc_cost_basis c))),
      (''price_precision'', Scalar (PyInt (int (sc_price_precision c)))),
      (''quantity_precision'', Scalar (PyInt (int (sc_quantity_precision c)))),
      (''minor_unit_exponent'', Scalar (PyInt (int (sc_minor_unit_exponent c)))),
      (''max_order_quantity'', Scalar (PyStr (dec_str (sc_max_order_quantity c)))),
      (''supported_order_types'', Items (map PyStr (sc_order_types c))),
      (''supported_sides'', Items (map PyStr (sc_sides c))),
      (''validated_symbols'', Items (map PyStr (sc_symbols c))),
      (''market_data_source'', Scalar (PyStr (sc_market_data_source c))),
      (''simulator'', Scalar (PyStr (sc_simulator c))),
      (''schema_version'', Scalar (PyStr SCHEMA_VERSION))]"

text \<open>\<open>tuple(x)\<close>: a string is iterated character by character.\<close>

definition as_tuple :: "conf_value \<Rightarrow> sim_error + conf_value" where
  "as_tuple v =
     (case v of
        Items vs \<Rightarrow> Inr (Items vs)
      | Scalar (PyStr s) \<Rightarrow> Inr (Items (map (\<lambda>ch. PyStr [ch]) s))
      | Scalar _ \<Rightarrow> Inl (Builtin TypeError))"

definition scalar_of :: "conf_value \<Rightarrow> pyval" where
  "scalar_of v = (case v of Scalar s \<Rightarrow> s | Items _ \<Rightarrow> PyOther)"

text \<open>\<open>str(x)\<close>; the text of a value that is no string is given by \<open>text_of\<close>.\<close>

definition as_text :: "(conf_value \<Rightarrow> string) \<Rightarrow> conf_value \<Rightarrow> pyval" where
  "as_text text_of v = (case v of Scalar (PyStr s) \<Rightarrow> PyStr s | _ \<Rightarrow> PyStr (text_of v))"

definition missing_key :: "(string, conf_value) dict \<Rightarrow> string \<Rightarrow> bool" where
  "missing_key payload k \<longleftrightarrow> dget payload k = None \<or> dget payload k = Some (Scalar PyNone)"

definition session_config_from_jsonb ::
  "(conf_value \<Rightarrow> string) \<Rightarrow> (string, conf_value) dict option \<Rightarrow> sim_error + session_config" where
  "session_config_from_jsonb text_of payload =
     (case payload of
        None \<Rightarrow> Inl InvalidSessionConfig
      | Some p \<Rightarrow>
          if list_ex (missing_key p) CONFIG_KEYS then Inl InvalidSessionConfig
          else
            let v = (\<lambda>k. the (dget p k)) in
            bnd (as_tuple (v ''supported_order_types'')) (\<lambda>types.
            bnd (as_tuple (v ''supported_sides'')) (\<lambda>sides.
            bnd (as_tuple (v ''validated_symbols'')) (\<lambda>symbols.
              make_session_config
                \<lparr>sa_fee_rate = scalar_of (v ''fee_rate''), sa_slippage_rate = scalar_of (v ''slippage_rate''),
                 sa_participation_rate = scalar_of (v ''participation_rate''),
                 sa_rounding_mode = as_text text_of (v ''rounding_mode''),
                 sa_cost_basis = as_text text_of (v ''cost_basis''),
                 sa_price_precision = scalar_of (v ''price_precision''),
                 sa_quantity_precision = scalar_of (v ''quantity_precision''),
                 sa_minor_unit_exponent = scalar_of (v ''minor_unit_exponent''),
                 sa_max_order_quantity = scalar_of (v ''max_order_quantity''),
                 sa_order_types = types, sa_sides = sides, sa_symbols = symbols,
                 sa_market_data_source = as_text text_of (v ''market_data_source''),
                 sa_simulator = as_text text_of (v ''simulator''),
                 sa_schema_version = as_text text_of (v ''schema_version'')\<rparr>))))"

text \<open>\<open>SessionConfig.accounting()\<close>: without a market type.\<close>

definition sc_accounting :: "session_config \<Rightarrow> sim_error + accounting_config" where
  "sc_accounting c = engine (make_accounting_config (D (sc_fee_rate c)) (D (sc_slippage_rate c))
     (PyStr (rounding_name (sc_rounding_mode c))) (PyStr (sc_cost_basis c))
     (PyInt (int (sc_price_precision c))) (PyInt (int (sc_quantity_precision c)))
     (PyInt (int (sc_minor_unit_exponent c))) PyNone)"

section \<open>What the constructor guarantees\<close>

definition text_ok :: "string \<Rightarrow> bool" where
  "text_ok s \<longleftrightarrow> s \<noteq> [] \<and> py_strip s = s"

definition session_ok :: "session_config \<Rightarrow> bool" where
  "session_ok c \<longleftrightarrow>
     (\<forall>r \<in> {sc_fee_rate c, sc_slippage_rate c, sc_participation_rate c}. 0 \<le> dval r \<and> dval r \<le> 1) \<and>
     0 < dval (sc_max_order_quantity c) \<and> sc_cost_basis c = WEIGHTED_AVERAGE \<and>
     sc_price_precision c \<le> MAX_RECORDED_PRECISION \<and> sc_quantity_precision c \<le> MAX_RECORDED_PRECISION \<and>
     sc_minor_unit_exponent c \<le> MAX_RECORDED_PRECISION \<and>
     (\<forall>ts \<in> {sc_order_types c, sc_sides c, sc_symbols c}. ts \<noteq> [] \<and> distinct ts \<and> (\<forall>t \<in> set ts. text_ok t)) \<and>
     set (sc_order_types c) \<subseteq> set SUPPORTED_ORDER_TYPES \<and> set (sc_sides c) \<subseteq> set SUPPORTED_SIDES \<and>
     text_ok (sc_market_data_source c) \<and> text_ok (sc_simulator c) \<and>
     sc_simulator c \<notin> set forbidden_simulator_names"

lemma dropWhile_head: "dropWhile P xs = [] \<or> \<not> P (hd (dropWhile P xs))"
  using hd_dropWhile [of P xs] by blast

lemma py_strip_idem [simp]: "py_strip (py_strip s) = py_strip s"
proof (rule py_strip_id)
  define t where "t = dropWhile is_space s"
  define u where "u = dropWhile is_space (rev t)"
  have st: "py_strip s = rev u" by (simp add: py_strip_def t_def u_def)
  show "py_strip s = [] \<or> \<not> is_space (hd (py_strip s)) \<and> \<not> is_space (last (py_strip s))"
  proof (cases "u = []")
    case True
    then show ?thesis by (simp add: st)
  next
    case False
    have l: "\<not> is_space (hd u)" using False dropWhile_head [of is_space "rev t"] unfolding u_def by blast
    obtain w where w: "rev t = w @ u" unfolding u_def by (metis takeWhile_dropWhile_id)
    then have "t = rev u @ rev w" by (metis rev_append rev_rev_ident)
    then have "hd t = hd (rev u)" "t \<noteq> []" using False by simp_all
    then have "\<not> is_space (hd (rev u))" using dropWhile_head [of is_space s] unfolding t_def by metis
    then show ?thesis using l False by (simp add: st last_rev)
  qed
qed

lemma collect_texts_Inr:
  assumes "foldm collect_text acc vs = Inr ts" and "distinct acc" and "\<forall>t \<in> set acc. text_ok t"
  shows "distinct ts \<and> (\<forall>t \<in> set ts. text_ok t)"
  by (rule foldm_invariant [where P = "\<lambda>ts. distinct ts \<and> (\<forall>t \<in> set ts. text_ok t)", OF assms(1)])
    (use assms(2,3) in \<open>auto simp: collect_text_def text_ok_def split: pyval.splits if_splits\<close>)

lemma texts_Inr: "texts v = Inr ts \<Longrightarrow> distinct ts \<and> (\<forall>t \<in> set ts. text_ok t)"
  using collect_texts_Inr [of "[]"] by (auto simp: texts_def split: conf_value.splits)

lemma collect_texts_plain:
  assumes "distinct (acc @ ts)" and "\<forall>t \<in> set ts. text_ok t"
  shows "foldm collect_text acc (map PyStr ts) = Inr (acc @ ts)"
  using assms by (induction ts arbitrary: acc) (auto simp: collect_text_def text_ok_def)

lemma texts_plain: "distinct ts \<Longrightarrow> \<forall>t \<in> set ts. text_ok t \<Longrightarrow> texts (Items (map PyStr ts)) = Inr ts"
  using collect_texts_plain [of "[]" ts] by (simp add: texts_def)

lemma vocabulary_Inr:
  "vocabulary v permitted = Inr ts \<Longrightarrow>
    ts \<noteq> [] \<and> set ts \<subseteq> set permitted \<and> distinct ts \<and> (\<forall>t \<in> set ts. text_ok t)"
  using texts_Inr [of v] by (auto simp: vocabulary_def result_simps split: if_splits)

lemma vocabulary_plain:
  assumes "ts \<noteq> []" "set ts \<subseteq> set permitted" "distinct ts" "\<forall>t \<in> set ts. text_ok t"
  shows "vocabulary (Items (map PyStr ts)) permitted = Inr ts"
  using texts_plain [OF assms(3,4)] assms(1,2) by (simp add: vocabulary_def)

lemma dval_of_int: "dval (dec_of_int n) = of_int n"
  by (simp add: dval_def dec_of_int_def)

lemma rate_value_Inr: "rate_value v = Inr d \<Longrightarrow> 0 \<le> dval d \<and> dval d \<le> 1"
  by (auto simp: rate_value_def result_simps dec_le_val dval_of_int split: if_splits)

lemma nonempty_text_Inr: "nonempty_text v = Inr t \<Longrightarrow> text_ok t"
  by (auto simp: nonempty_text_def text_ok_def split: pyval.splits if_splits)

lemma precision_value_Inr: "precision_value v = Inr n \<Longrightarrow> n \<le> MAX_RECORDED_PRECISION"
  by (auto simp: precision_value_def split: pyval.splits if_splits)

lemma make_session_config_ok:
  assumes "make_session_config a = Inr c"
  shows "session_ok c"
  using assms unfolding make_session_config_def
  apply (simp only: bnd_Inr_iff if_Inl_Inr_iff)
  apply (elim exE conjE)
  apply (drule rate_value_Inr nonempty_text_Inr precision_value_Inr vocabulary_Inr texts_Inr)+
  apply (auto simp: session_ok_def dec_le_val)
  done

text \<open>A stored configuration is read back as it was written.\<close>

lemma rate_value_str: "0 \<le> dval d \<Longrightarrow> dval d \<le> 1 \<Longrightarrow> rate_value (PyStr (dec_str d)) = Inr d"
  by (simp add: rate_value_def exact_value_def to_decimal_def dec_le_val dval_of_int)

lemma exact_value_str: "exact_value (PyStr (dec_str d)) = Inr d"
  by (simp add: exact_value_def to_decimal_def)

lemma precision_value_int: "n \<le> MAX_RECORDED_PRECISION \<Longrightarrow> precision_value (PyInt (int n)) = Inr n"
  by (simp add: precision_value_def)

lemma nonempty_text_ok: "text_ok t \<Longrightarrow> nonempty_text (PyStr t) = Inr t"
  by (simp add: nonempty_text_def text_ok_def)

lemma session_config_reads_back:
  assumes "session_ok c"
  shows "session_config_from_jsonb text_of (Some (to_jsonb c)) = Inr c"
proof -
  have "\<not> list_ex (missing_key (to_jsonb c)) CONFIG_KEYS"
    by (simp add: CONFIG_KEYS_def missing_key_def to_jsonb_def)
  then have "session_config_from_jsonb text_of (Some (to_jsonb c)) = make_session_config
     \<lparr>sa_fee_rate = PyStr (dec_str (sc_fee_rate c)), sa_slippage_rate = PyStr (dec_str (sc_slippage_rate c)),
      sa_participation_rate = PyStr (dec_str (sc_participation_rate c)),
      sa_rounding_mode = PyStr (rounding_name (sc_rounding_mode c)), sa_cost_basis = PyStr (sc_cost_basis c),
      sa_price_precision = PyInt (int (sc_price_precision c)),
      sa_quantity_precision = PyInt (int (sc_quantity_precision c)),
      sa_minor_unit_exponent = PyInt (int (sc_minor_unit_exponent c)),
      sa_max_order_quantity = PyStr (dec_str (sc_max_order_quantity c)),
      sa_order_types = Items (map PyStr (sc_order_types c)), sa_sides = Items (map PyStr (sc_sides c)),
      sa_symbols = Items (map PyStr (sc_symbols c)), sa_market_data_source = PyStr (sc_market_data_source c),
      sa_simulator = PyStr (sc_simulator c), sa_schema_version = PyStr SCHEMA_VERSION\<rparr>"
    by (simp add: session_config_from_jsonb_def to_jsonb_def as_tuple_def scalar_of_def as_text_def)
  moreover have "nonempty_text (PyStr SCHEMA_VERSION) = Inr SCHEMA_VERSION"
    by (rule nonempty_text_ok) (simp add: text_ok_def SCHEMA_VERSION_def py_strip_no_space is_space_def chr_code_def)
  ultimately show ?thesis
    using assms unfolding session_ok_def
    by (simp add: make_session_config_def rate_value_str exact_value_str precision_value_int
        nonempty_text_ok vocabulary_plain texts_plain dec_le_val)
qed

text \<open>
  C37: a session configuration that the constructor accepts is stored and read back without
  any change, whatever the exponents of its decimals.
\<close>

theorem session_config_roundtrip:
  assumes "make_session_config args = Inr c"
  shows "session_config_from_jsonb text_of (Some (to_jsonb c)) = Inr c"
  by (rule session_config_reads_back) (rule make_session_config_ok [OF assms])

text \<open>The accounting configuration of a session always exists.\<close>

definition accounting_of :: "session_config \<Rightarrow> accounting_config" where
  "accounting_of c =
     \<lparr>cfg_fee_rate = sc_fee_rate c, cfg_slippage_rate = sc_slippage_rate c,
      cfg_rounding_mode = sc_rounding_mode c, cfg_cost_basis = WEIGHTED_AVERAGE,
      cfg_price_precision = sc_price_precision c, cfg_quantity_precision = sc_quantity_precision c,
      cfg_minor_unit_exponent = sc_minor_unit_exponent c, cfg_market_type = None\<rparr>"

lemma sc_accounting_eq:
  assumes "session_ok c"
  shows "sc_accounting c = Inr (accounting_of c)"
proof -
  have "0 \<le> dval (sc_fee_rate c)" "0 \<le> dval (sc_slippage_rate c)" "sc_cost_basis c = WEIGHTED_AVERAGE"
    using assms by (simp_all add: session_ok_def)
  then show ?thesis
    by (simp add: sc_accounting_def make_accounting_config_def accounting_of_def dec_lt_val places_of_def
        paper_quantum_def market_text_def)
qed

end
