(* ===== verification/Sim_Intent.thy ===== *)
theory Sim_Intent
  imports Sim_Config
begin

text \<open>
  Order intents of \<open>backend/paper/paper_simulator.py\<close>: how one is read, its static checks against
  the session, its idempotency key and its fingerprint. The digest is a parameter: the model keeps
  the text that is hashed. Operations outside a local context take the ambient precision.
\<close>

section \<open>Reading an intent\<close>

record order_intent =
  oi_symbol :: string
  oi_side :: string
  oi_order_type :: string
  oi_quantity :: decimal
  oi_limit_price :: "decimal option"
  oi_time_in_force :: string
  oi_idempotency_key :: "string option"
  oi_signal_id :: "string option"

definition DEFAULT_TIME_IN_FORCE :: string where
  "DEFAULT_TIME_IN_FORCE = ''GTC''"

text \<open>Truth of a value; a float or an object of another type counts as true.\<close>

definition py_truthy :: "pyval \<Rightarrow> bool" where
  "py_truthy v =
     (case v of
        PyNone \<Rightarrow> False | PyBool b \<Rightarrow> b | PyInt n \<Rightarrow> n \<noteq> 0 | PyStr s \<Rightarrow> s \<noteq> []
      | PyDec (Fin d) \<Rightarrow> dcoeff d \<noteq> 0 | _ \<Rightarrow> True)"

definition get_or_none :: "(string \<rightharpoonup> pyval) \<Rightarrow> string \<Rightarrow> pyval" where
  "get_or_none m k = (case m k of None \<Rightarrow> PyNone | Some v \<Rightarrow> v)"

definition intent_text :: "pyval \<Rightarrow> sim_error + string" where
  "intent_text v =
     (case v of
        PyStr s \<Rightarrow> if py_strip s = [] then Inl InvalidOrderIntent else Inr (py_strip s)
      | _ \<Rightarrow> Inl InvalidOrderIntent)"

definition intent_decimal :: "pyval \<Rightarrow> sim_error + decimal" where
  "intent_decimal v = as_error InvalidOrderIntent (to_decimal v)"

text \<open>\<open>str(x).strip() or None\<close>; \<open>text_of\<close> is the text of a value that is no string.\<close>

definition optional_text :: "(pyval \<Rightarrow> string) \<Rightarrow> pyval \<Rightarrow> string option" where
  "optional_text text_of v =
     (if v = PyNone then None
      else let t = py_strip (case v of PyStr s \<Rightarrow> s | _ \<Rightarrow> text_of v)
           in if t = [] then None else Some t)"

text \<open>The constructor: coerced, not validated.\<close>

definition make_order_intent ::
  "(pyval \<Rightarrow> string) \<Rightarrow> pyval \<Rightarrow> pyval \<Rightarrow> pyval \<Rightarrow> pyval \<Rightarrow> pyval \<Rightarrow> pyval \<Rightarrow> pyval \<Rightarrow> pyval \<Rightarrow>
    sim_error + order_intent" where
  "make_order_intent text_of symbol side order_type quantity limit tif key signal =
     bnd (intent_text symbol) (\<lambda>sym.
     bnd (intent_text side) (\<lambda>sd.
     bnd (intent_text order_type) (\<lambda>ot.
     bnd (intent_text tif) (\<lambda>tf.
     bnd (intent_decimal quantity) (\<lambda>q.
     bnd (if limit = PyNone then Inr None else bnd (intent_decimal limit) (\<lambda>l. Inr (Some l))) (\<lambda>lp.
       Inr \<lparr>oi_symbol = sym, oi_side = py_lower sd, oi_order_type = py_lower ot, oi_quantity = q,
         oi_limit_price = lp, oi_time_in_force = py_upper tf,
         oi_idempotency_key = optional_text text_of key,
         oi_signal_id = optional_text text_of signal\<rparr>))))))"

definition intent_from_mapping ::
  "(pyval \<Rightarrow> string) \<Rightarrow> (string \<rightharpoonup> pyval) option \<Rightarrow> sim_error + order_intent" where
  "intent_from_mapping text_of payload =
     (case payload of
        None \<Rightarrow> Inl InvalidOrderIntent
      | Some p \<Rightarrow>
          let get = get_or_none p;
              or_default = (\<lambda>k d. if py_truthy (get k) then get k else PyStr d)
          in if list_ex (\<lambda>k. get k = PyNone) [''symbol'', ''side'', ''quantity''] then Inl InvalidOrderIntent
             else make_order_intent text_of (get ''symbol'') (get ''side'')
               (or_default ''order_type'' ''market'') (get ''quantity'') (get ''limit_price'')
               (or_default ''time_in_force'' DEFAULT_TIME_IN_FORCE) (get ''idempotency_key'') (get ''signal_id''))"

definition IDEMPOTENCY_KEY_MAX_CHARS :: nat where
  "IDEMPOTENCY_KEY_MAX_CHARS = 128"

definition validate_idempotency_key :: "string option \<Rightarrow> sim_error + string option" where
  "validate_idempotency_key value =
     (case value of
        None \<Rightarrow> Inr None
      | Some v \<Rightarrow>
          let key = py_strip v
          in if key = [] then Inr None
             else if length key > IDEMPOTENCY_KEY_MAX_CHARS then Inl (OrderInvalid ''IDEMPOTENCY_KEY_LENGTH'')
             else Inr (Some key))"

section \<open>The fingerprint\<close>

text \<open>\<open>format(d.normalize(), 'f')\<close>: all digits, never an exponent.\<close>

definition dec_plain_abs :: "int \<Rightarrow> int \<Rightarrow> string" where
  "dec_plain_abs c e =
     (if 0 \<le> e then (if c = 0 then ''0'' else int_digits c @ replicate (nat e) CHR ''0'')
      else let s = int_digits c; k = nat (- e)
           in if length s \<le> k then ''0.'' @ replicate (k - length s) CHR ''0'' @ s
              else take (length s - k) s @ ''.'' @ drop (length s - k) s)"

definition canonical_number :: "nat \<Rightarrow> decimal \<Rightarrow> string" where
  "canonical_number amb d =
     (let n = dec_normalize amb d; u = dec_plain_abs \<bar>dcoeff n\<bar> (dexp n)
      in if dcoeff n < 0 then CHR ''-'' # u else u)"

fun join :: "string \<Rightarrow> string list \<Rightarrow> string" where
  "join sep [] = []"
| "join sep [x] = x"
| "join sep (x # y # ys) = x @ sep @ join sep (y # ys)"

text \<open>The text \<open>order_fingerprint\<close> digests.\<close>

definition fingerprint_text :: "nat \<Rightarrow> order_intent \<Rightarrow> string" where
  "fingerprint_text amb i = join ''|''
     [oi_symbol i, oi_side i, oi_order_type i, canonical_number amb (oi_quantity i),
      (case oi_limit_price i of None \<Rightarrow> [] | Some p \<Rightarrow> canonical_number amb p), oi_time_in_force i]"

definition order_fingerprint :: "(string \<Rightarrow> string) \<Rightarrow> nat \<Rightarrow> order_intent \<Rightarrow> string" where
  "order_fingerprint digest amb i = digest (fingerprint_text amb i)"

section \<open>Static validation\<close>

definition decimal_places :: "nat \<Rightarrow> decimal \<Rightarrow> nat" where
  "decimal_places amb d = nat (- dexp (dec_normalize amb d))"

definition static_rejection_reason :: "nat \<Rightarrow> order_intent \<Rightarrow> session_config \<Rightarrow> string option" where
  "static_rejection_reason amb i c =
     (if dec_le (oi_quantity i) dec_zero then Some ''QUANTITY_NOT_POSITIVE''
      else if dec_lt (sc_max_order_quantity c) (oi_quantity i) then Some ''QUANTITY_ABOVE_MAX''
      else if decimal_places amb (oi_quantity i) > sc_quantity_precision c then Some ''QUANTITY_PRECISION''
      else if oi_symbol i \<notin> set (sc_symbols c) then Some ''SYMBOL_NOT_VALIDATED''
      else if oi_order_type i \<notin> set (sc_order_types c) then Some ''ORDER_TYPE_UNSUPPORTED''
      else if oi_side i \<notin> set (sc_sides c) then Some ''SIDE_UNSUPPORTED''
      else
        case oi_limit_price i of
          None \<Rightarrow> None
        | Some p \<Rightarrow>
            if dec_le p dec_zero then Some ''LIMIT_PRICE_NOT_POSITIVE''
            else if decimal_places amb p > sc_price_precision c then Some ''LIMIT_PRICE_PRECISION''
            else None)"

definition unrepresentable_order_constraint :: "order_intent \<Rightarrow> string option" where
  "unrepresentable_order_constraint i =
     (if dec_le (oi_quantity i) dec_zero then Some ''chk_paper_order_quantity''
      else if (case oi_limit_price i of None \<Rightarrow> False | Some p \<Rightarrow> dec_le p dec_zero)
      then Some ''chk_paper_order_limit_price''
      else if oi_order_type i \<notin> set SUPPORTED_ORDER_TYPES then Some ''chk_paper_order_type''
      else if oi_side i \<notin> set SUPPORTED_SIDES then Some ''chk_paper_order_side''
      else None)"

section \<open>Normal forms\<close>

lemma strip_zeros_normal:
  assumes "c \<noteq> 0" and "e \<le> ideal" and "\<bar>c\<bar> < 10 ^ nat (ideal - e)"
  shows "dcoeff (strip_zeros c e ideal) mod 10 \<noteq> 0"
  using assms
proof (induction c e ideal rule: strip_zeros.induct)
  case (1 c e ideal)
  show ?case
  proof (cases "e < ideal \<and> c mod 10 = 0")
    case True
    have pow: "(10::int) ^ nat (ideal - e) = 10 * 10 ^ nat (ideal - (e + 1))"
      using True by (simp flip: power_Suc add: Suc_nat_eq_nat_zadd1)
    have "c = 10 * (c div 10)" using True by presburger
    then have "c div 10 \<noteq> 0" "\<bar>c div 10\<bar> < 10 ^ nat (ideal - (e + 1))"
      using 1(2,4) pow by auto
    then show ?thesis using "1.IH" [OF True] True by (subst strip_zeros.simps) simp
  next
    case False
    then have "c mod 10 \<noteq> 0" using 1(2-4) by (cases "e = ideal") auto
    then show ?thesis using False by (subst strip_zeros.simps) simp
  qed
qed

definition normal :: "decimal \<Rightarrow> bool" where
  "normal d \<longleftrightarrow> d = dec_zero \<or> dcoeff d mod 10 \<noteq> 0"

lemma dec_normalize_val:
  assumes "0 < p" and "fits p (dcoeff d)"
  shows "dval (dec_normalize p d) = dval d" and "normal (dec_normalize p d)"
proof -
  have fx: "dec_fix p d = d" using assms by (rule dec_fix_fits)
  show "dval (dec_normalize p d) = dval d"
    by (simp add: dec_normalize_def Let_def fx strip_zeros_val dval_0_iff) (simp add: dval_def)
  have "\<bar>dcoeff d\<bar> < 10 ^ ndigits \<bar>dcoeff d\<bar>" by (rule ndigits_upper)
  then show "normal (dec_normalize p d)"
    by (simp add: dec_normalize_def Let_def fx normal_def strip_zeros_normal)
qed

lemma normal_exp_le:
  assumes "dcoeff b mod 10 \<noteq> 0" and "dval a = dval b"
  shows "dexp a \<le> dexp b"
proof (rule ccontr)
  assume "\<not> dexp a \<le> dexp b"
  then have e: "dexp b < dexp a" by simp
  have "of_int (dcoeff b) * 10 powi dexp b = (of_int (dcoeff a * 10 ^ nat (dexp a - dexp b)) :: rat) * 10 powi dexp b"
    using assms(2) powi_split [of "dexp b" "dexp a"] e by (simp add: dval_def mult.assoc)
  then have "dcoeff b = dcoeff a * 10 ^ nat (dexp a - dexp b)" by (simp only: mult_cancel_right of_int_eq_iff) auto
  moreover have "10 ^ nat (dexp a - dexp b) mod (10::int) = 0" using e by (simp add: mod_0_imp_dvd dvd_power)
  ultimately show False using assms(1) by (metis mod_mult_right_eq mult_zero_right mod_0)
qed

lemma normal_unique:
  assumes "normal a" and "normal b" and "dval a = dval b"
  shows "a = b"
proof (cases "dval a = 0")
  case True
  then have "dcoeff a = 0" "dcoeff b = 0" using assms(3) dval_0_iff by metis+
  then show ?thesis using assms(1,2) by (auto simp: normal_def)
next
  case False
  then have nz: "dcoeff a mod 10 \<noteq> 0" "dcoeff b mod 10 \<noteq> 0"
    using assms by (auto simp: normal_def)
  then have "dexp a = dexp b" using normal_exp_le [OF nz(2) assms(3)] normal_exp_le [OF nz(1) assms(3) [symmetric]] by simp
  moreover have "dcoeff a = dcoeff b" using assms(3) calculation by (simp add: dval_def)
  ultimately show ?thesis by (cases a, cases b) simp
qed

text \<open>The counted places are the fewest on whose grid the value lies.\<close>

lemma decimal_places_le:
  assumes "0 < p" and "fits p (dcoeff d)"
  shows "decimal_places p d \<le> k \<longleftrightarrow> (\<exists>n::int. dval d * 10 ^ k = of_int n)"
proof -
  define n where "n = dec_normalize p d"
  have nv: "dval n = dval d" and nn: "normal n" using dec_normalize_val [OF assms] by (simp_all add: n_def)
  have dp: "decimal_places p d = nat (- dexp n)" by (simp add: decimal_places_def n_def)
  show ?thesis
  proof
    assume "decimal_places p d \<le> k"
    then have e: "- int k \<le> dexp n" by (simp add: dp)
    have "dval d = of_int (dcoeff n * 10 ^ nat (dexp n + int k)) * 10 powi (- int k)"
      using powi_split [OF e] unfolding nv [symmetric] by (simp add: dval_def mult.assoc)
    then have "dval d * 10 ^ k = of_int (dcoeff n * 10 ^ nat (dexp n + int k))"
      by (simp add: power_int_minus power_int_of_nat)
    then show "\<exists>m::int. dval d * 10 ^ k = of_int m" by blast
  next
    assume "\<exists>m::int. dval d * 10 ^ k = of_int m"
    then obtain m :: int where m: "dval d * 10 ^ k = of_int m" by blast
    have "dval (Dec m (- int k)) = dval n"
      by (simp add: nv dval_Dec m [symmetric] power_int_minus power_int_of_nat)
    then have "n = dec_zero \<or> - int k \<le> dexp n"
      using normal_exp_le [of n "Dec m (- int k)"] nn by (auto simp: normal_def)
    then show "decimal_places p d \<le> k" by (auto simp: dp dec_zero_def)
  qed
qed

section \<open>The eight checks\<close>

text \<open>A number on the grid of \<open>k\<close> decimal places.\<close>

definition on_places :: "nat \<Rightarrow> decimal \<Rightarrow> bool" where
  "on_places k d \<longleftrightarrow> (\<exists>n::int. dval d * 10 ^ k = of_int n)"

definition limit_holds :: "(decimal \<Rightarrow> bool) \<Rightarrow> order_intent \<Rightarrow> bool" where
  "limit_holds P i \<longleftrightarrow> (case oi_limit_price i of None \<Rightarrow> True | Some p \<Rightarrow> P p)"

definition static_checks :: "session_config \<Rightarrow> order_intent \<Rightarrow> (string \<times> bool) list" where
  "static_checks c i =
     [(''QUANTITY_NOT_POSITIVE'', 0 < dval (oi_quantity i)),
      (''QUANTITY_ABOVE_MAX'', dval (oi_quantity i) \<le> dval (sc_max_order_quantity c)),
      (''QUANTITY_PRECISION'', on_places (sc_quantity_precision c) (oi_quantity i)),
      (''SYMBOL_NOT_VALIDATED'', oi_symbol i \<in> set (sc_symbols c)),
      (''ORDER_TYPE_UNSUPPORTED'', oi_order_type i \<in> set (sc_order_types c)),
      (''SIDE_UNSUPPORTED'', oi_side i \<in> set (sc_sides c)),
      (''LIMIT_PRICE_NOT_POSITIVE'', limit_holds (\<lambda>p. 0 < dval p) i),
      (''LIMIT_PRICE_PRECISION'', limit_holds (on_places (sc_price_precision c)) i)]"

definition intent_fits :: "nat \<Rightarrow> order_intent \<Rightarrow> bool" where
  "intent_fits amb i \<longleftrightarrow> fits amb (dcoeff (oi_quantity i)) \<and> limit_holds (\<lambda>p. fits amb (dcoeff p)) i"


text \<open>An accepted intent violates no column constraint.\<close>

lemma accepted_representable:
  assumes "static_rejection_reason amb i c = None" and "session_ok c"
  shows "unrepresentable_order_constraint i = None"
  using assms
  by (auto simp: static_rejection_reason_def unrepresentable_order_constraint_def session_ok_def
      split: if_splits option.splits)

section \<open>The fingerprint identifies the order\<close>

lemma int_of_digits_shift: "int_of_digits (s @ replicate k CHR ''0'') = int_of_digits s * 10 ^ k"
proof (induction k)
  case 0
  then show ?case by simp
next
  case (Suc k)
  then show ?case
    by (simp only: replicate_Suc replicate_append_same [symmetric] append_assoc [symmetric] int_of_digits_snoc)
      (simp add: chr_code_def)
qed

lemma parse_plain:
  assumes c: "0 \<le> c"
  shows "\<exists>d. parse_unsigned (dec_plain_abs c e) = Some d \<and> dval (Dec (fst d) (snd d)) = dval (Dec c e)"
proof -
  have ds: "\<forall>x \<in> set (int_digits c). is_digit x" by (rule int_digits_digits [OF c])
  consider "0 \<le> e" "c = 0" | "0 \<le> e" "c \<noteq> 0" | "e < 0" by linarith
  then show ?thesis
  proof cases
    case 1
    have "parse_unsigned ''0'' = Some (int_of_digits ''0'', 0)" by (rule parse_unsigned_plain) simp_all
    then show ?thesis using 1 int_of_digits_snoc [of "[]" "CHR ''0''"]
      by (simp add: dec_plain_abs_def dval_Dec chr_code_def)
  next
    case 2
    have "parse_unsigned (int_digits c @ replicate (nat e) CHR ''0'') =
        Some (int_of_digits (int_digits c @ replicate (nat e) CHR ''0''), 0)"
      by (rule parse_unsigned_plain) (use ds in auto)
    then show ?thesis using 2 c dval_Dec_scale [of e c 0]
      by (simp add: dec_plain_abs_def int_of_digits_shift dval_Dec)
  next
    case 3
    define s where "s = int_digits c"
    define k where "k = nat (- e)"
    have k: "- int k = e" using 3 by (simp add: k_def)
    have val: "int_of_digits s = c" using c by (simp add: s_def)
    have "parse_unsigned (dec_plain_abs c e) = Some (c, e)"
    proof (cases "length s \<le> k")
      case True
      have "parse_unsigned (''0'' @ ''.'' @ (replicate (k - length s) CHR ''0'' @ s)) =
          Some (int_of_digits (''0'' @ (replicate (k - length s) CHR ''0'' @ s)),
            - int (length (replicate (k - length s) CHR ''0'' @ s)))"
        by (rule parse_unsigned_dot) (use ds in \<open>auto simp: s_def\<close>)
      then show ?thesis
        using True 3 val int_of_digits_zeros [of "Suc (k - length s)" s] k
        by (simp add: dec_plain_abs_def Let_def s_def [symmetric] k_def [symmetric])
    next
      case False
      have "parse_unsigned (take (length s - k) s @ ''.'' @ drop (length s - k) s) =
          Some (int_of_digits (take (length s - k) s @ drop (length s - k) s), - int (length (drop (length s - k) s)))"
        using ds False by (intro parse_unsigned_dot) (auto simp: s_def dest: in_set_takeD in_set_dropD)
      then show ?thesis using False 3 val k
        by (simp add: dec_plain_abs_def Let_def s_def [symmetric] k_def [symmetric])
    qed
    then show ?thesis by simp
  qed
qed

lemma dec_plain_chars:
  assumes c: "0 \<le> c" and x: "x \<in> set (dec_plain_abs c e)"
  shows "is_digit x \<or> x = CHR ''.''"
proof -
  have ds: "\<forall>y \<in> set (int_digits c). is_digit y" by (rule int_digits_digits [OF c])
  have "set (dec_plain_abs c e) \<subseteq> set (int_digits c) \<union> {CHR ''0'', CHR ''.''}"
    unfolding dec_plain_abs_def Let_def
    by (auto split: if_splits dest: in_set_takeD in_set_dropD)
  then show ?thesis using x ds by auto
qed

lemma canonical_number_value:
  assumes p: "0 < p" and fa: "fits p (dcoeff a)" and fb: "fits p (dcoeff b)"
  shows "canonical_number p a = canonical_number p b \<longleftrightarrow> dval a = dval b"
proof
  define shown where "shown = (\<lambda>n. if dcoeff n < 0 then CHR ''-'' # dec_plain_abs \<bar>dcoeff n\<bar> (dexp n)
      else dec_plain_abs \<bar>dcoeff n\<bar> (dexp n))"
  have cn: "canonical_number p d = shown (dec_normalize p d)" for d
    by (simp add: canonical_number_def shown_def Let_def)
  note va = dec_normalize_val [OF p fa] and vb = dec_normalize_val [OF p fb]
  {
    assume "dval a = dval b"
    then have "dec_normalize p a = dec_normalize p b" using va vb normal_unique by simp
    then show "canonical_number p a = canonical_number p b" by (simp add: cn)
  }
  assume eq: "canonical_number p a = canonical_number p b"
  define m where "m = dec_normalize p a"
  define n where "n = dec_normalize p b"
  have no_sign: "CHR ''-'' \<notin> set (dec_plain_abs \<bar>k\<bar> e)" for k e
    using dec_plain_chars [of "\<bar>k\<bar>" "CHR ''-''" e] by auto
  have "shown m = shown n" using eq by (simp add: cn m_def n_def)
  then have sg: "(dcoeff m < 0) = (dcoeff n < 0)"
    and u: "dec_plain_abs \<bar>dcoeff m\<bar> (dexp m) = dec_plain_abs \<bar>dcoeff n\<bar> (dexp n)"
    using no_sign [of "dcoeff m" "dexp m"] no_sign [of "dcoeff n" "dexp n"]
    by (auto simp: shown_def split: if_splits) (metis list.set_intros(1))+
  have "dval (Dec \<bar>dcoeff m\<bar> (dexp m)) = dval (Dec \<bar>dcoeff n\<bar> (dexp n))"
    using parse_plain [of "\<bar>dcoeff m\<bar>" "dexp m"] parse_plain [of "\<bar>dcoeff n\<bar>" "dexp n"] u by auto
  then have "dval m = dval n" using sg by (cases "dcoeff m < 0") (simp_all add: dval_def)
  then show "dval a = dval b" using va vb by (simp add: m_def n_def)
qed

lemma canonical_number_chars: "CHR ''|'' \<notin> set (canonical_number p d)"
proof -
  have "\<not> is_digit CHR ''|''" by (simp add: is_digit_def chr_code_def)
  then have "CHR ''|'' \<notin> set (dec_plain_abs \<bar>k\<bar> e)" for k e
    using dec_plain_chars [of "\<bar>k\<bar>" "CHR ''|''" e] by auto
  then have "CHR ''|'' \<notin> set (dec_plain_abs \<bar>dcoeff (dec_normalize p d)\<bar> (dexp (dec_normalize p d)))" .
  then show ?thesis unfolding canonical_number_def Let_def by (auto simp del: abs_of_neg abs_of_nonneg)
qed

lemma canonical_number_nonempty: "canonical_number p d \<noteq> []"
  by (simp add: canonical_number_def Let_def dec_plain_abs_def)

lemma cut_at:
  assumes "x @ ch # r = y @ ch # t" and "ch \<notin> set x" and "ch \<notin> set y"
  shows "x = y \<and> r = t"
proof -
  have a: "takeWhile (\<lambda>c. c \<noteq> ch) (x @ ch # r) = x" and b: "takeWhile (\<lambda>c. c \<noteq> ch) (y @ ch # t) = y"
    using assms(2,3) by (auto simp: takeWhile_append2 takeWhile_eq_all_conv takeWhile_append)
  have "x = y" using a b assms(1) by simp
  then show ?thesis using assms(1) by simp
qed

definition bar_free :: "order_intent \<Rightarrow> bool" where
  "bar_free i \<longleftrightarrow> (\<forall>t \<in> {oi_symbol i, oi_side i, oi_order_type i, oi_time_in_force i}. CHR ''|'' \<notin> set t)"

definition same_order :: "order_intent \<Rightarrow> order_intent \<Rightarrow> bool" where
  "same_order i j \<longleftrightarrow> oi_symbol i = oi_symbol j \<and> oi_side i = oi_side j \<and> oi_order_type i = oi_order_type j \<and>
     oi_time_in_force i = oi_time_in_force j \<and> dval (oi_quantity i) = dval (oi_quantity j) \<and>
     map_option dval (oi_limit_price i) = map_option dval (oi_limit_price j)"


end
