(* ===== verification/Sim_Prices.thy ===== *)
theory Sim_Prices
  imports Sim_Intent
begin

text \<open>
  The deterministic fill model of \<open>backend/paper/paper_simulator.py\<close>: which price a fill gets, how
  much of an order one market event fills, and what it costs.
\<close>

section \<open>Fields of an event\<close>

text \<open>
  A market event (or an order row) is a mapping or an object, each with the mapping of its
  \<open>payload\<close>. A mapping with the key does not look into its payload, an object whose attribute is
  \<open>None\<close> does.
\<close>

datatype source = Mapped "string \<rightharpoonup> pyval" "string \<rightharpoonup> pyval" | Object "string \<rightharpoonup> pyval" "string \<rightharpoonup> pyval"

definition raw_field :: "source \<Rightarrow> string \<Rightarrow> pyval" where
  "raw_field src name =
     (case src of
        Mapped m p \<Rightarrow> (case m name of Some v \<Rightarrow> v | None \<Rightarrow> get_or_none p name)
      | Object a p \<Rightarrow> if get_or_none a name = PyNone then get_or_none p name else get_or_none a name)"

definition event_decimal :: "source option \<Rightarrow> string \<Rightarrow> sim_error + decimal option" where
  "event_decimal ev name =
     (case ev of
        None \<Rightarrow> Inr None
      | Some src \<Rightarrow>
          let raw = raw_field src name
          in if raw = PyNone then Inr None else engine (bnd (to_decimal raw) (\<lambda>d. Inr (Some d))))"

text \<open>The texts are read without the payload; \<open>text_of\<close> is \<open>str\<close> of a value that is no string.\<close>

definition event_text :: "(pyval \<Rightarrow> string) \<Rightarrow> source option \<Rightarrow> string \<Rightarrow> string option" where
  "event_text text_of ev name =
     (case ev of
        None \<Rightarrow> None
      | Some src \<Rightarrow> optional_text text_of (get_or_none (case src of Mapped m _ \<Rightarrow> m | Object a _ \<Rightarrow> a) name))"

section \<open>Prices\<close>

definition quote_field :: "string \<Rightarrow> string option" where
  "quote_field side = (if side = ''buy'' then Some ''ask'' else if side = ''sell'' then Some ''bid'' else None)"

definition trigger_fields :: "string \<Rightarrow> string list option" where
  "trigger_fields side =
     (if side = ''buy'' then Some [''low'', ''last'', ''close'']
      else if side = ''sell'' then Some [''high'', ''last'', ''close''] else None)"

definition positive_decimal :: "decimal option \<Rightarrow> bool" where
  "positive_decimal c = (case c of None \<Rightarrow> False | Some d \<Rightarrow> dec_lt dec_zero d)"

text \<open>Both candidates are read before either is looked at.\<close>

definition reference_price :: "source option \<Rightarrow> string \<Rightarrow> sim_error + decimal option" where
  "reference_price ev side =
     (if ev = None then Inr None
      else
        bnd (case quote_field (py_lower (py_strip side)) of
               None \<Rightarrow> Inr None | Some f \<Rightarrow> event_decimal ev f) (\<lambda>quote.
        bnd (event_decimal ev ''close'') (\<lambda>close.
          Inr (if positive_decimal quote then quote else if positive_decimal close then close else None))))"

definition market_fill_price :: "nat \<Rightarrow> pyval \<Rightarrow> string \<Rightarrow> session_config \<Rightarrow> sim_error + decimal" where
  "market_fill_price amb reference side c =
     bnd (engine (to_decimal reference)) (\<lambda>exact.
       if dec_le exact dec_zero then Inl InvalidOrderIntent
       else
         let s = py_lower (py_strip side)
         in if quote_field s = None then Inl InvalidOrderIntent
            else
              let drift = (if s = ''buy'' then sc_slippage_rate c else dec_neg amb (sc_slippage_rate c))
              in bnd (sc_accounting c) (\<lambda>cfg.
                   engine (cfg_price cfg (D (dec_mul amb exact (dec_add amb (dec_of_int 1) drift))))))"

definition dec_abs :: "nat \<Rightarrow> decimal \<Rightarrow> decimal" where
  "dec_abs p d = dec_fix p (Dec \<bar>dcoeff d\<bar> (dexp d))"

definition slippage_amount ::
  "nat \<Rightarrow> pyval \<Rightarrow> pyval \<Rightarrow> pyval \<Rightarrow> session_config \<Rightarrow> sim_error + decimal" where
  "slippage_amount amb quantity fill_price reference c =
     bnd (sc_accounting c) (\<lambda>cfg.
     bnd (engine (cfg_qty cfg quantity)) (\<lambda>qty.
     bnd (engine (cfg_price cfg fill_price)) (\<lambda>price.
     bnd (engine (cfg_price cfg reference)) (\<lambda>ref.
       engine (cfg_money cfg (D (dec_mul amb (dec_abs amb (dec_sub amb price ref)) qty)))))))"

definition fee_amount :: "nat \<Rightarrow> pyval \<Rightarrow> pyval \<Rightarrow> session_config \<Rightarrow> sim_error + decimal" where
  "fee_amount amb quantity fill_price c =
     bnd (sc_accounting c) (\<lambda>cfg.
     bnd (engine (cfg_qty cfg quantity)) (\<lambda>qty.
     bnd (engine (cfg_price cfg fill_price)) (\<lambda>price.
       engine (cfg_money cfg (D (dec_mul amb (dec_mul amb qty price) (sc_fee_rate c)))))))"

section \<open>Resting orders\<close>

fun first_trigger :: "source option \<Rightarrow> bool \<Rightarrow> decimal \<Rightarrow> string list \<Rightarrow> sim_error + bool" where
  "first_trigger ev buy limit [] = Inr False"
| "first_trigger ev buy limit (f # fs) =
     bnd (event_decimal ev f) (\<lambda>c. case c of
       None \<Rightarrow> first_trigger ev buy limit fs
     | Some d \<Rightarrow> Inr (if buy then dec_le d limit else dec_le limit d))"

definition limit_fill_triggered ::
  "(pyval \<Rightarrow> string) \<Rightarrow> source \<Rightarrow> source option \<Rightarrow> sim_error + bool" where
  "limit_fill_triggered text_of ord ev =
     bnd (event_decimal (Some ord) ''limit_price'') (\<lambda>l.
       case l of
         None \<Rightarrow> Inr False
       | Some limit \<Rightarrow>
           if dec_le limit dec_zero then Inr False
           else
             let side = (case event_text text_of (Some ord) ''side'' of None \<Rightarrow> [] | Some t \<Rightarrow> py_lower t)
             in case trigger_fields side of
                  None \<Rightarrow> Inr False
                | Some names \<Rightarrow> first_trigger ev (side = ''buy'') limit names)"

definition limit_fill_price :: "source \<Rightarrow> session_config \<Rightarrow> sim_error + decimal" where
  "limit_fill_price ord c =
     bnd (event_decimal (Some ord) ''limit_price'') (\<lambda>l.
       case l of
         None \<Rightarrow> Inl InvalidOrderIntent
       | Some limit \<Rightarrow>
           if dec_le limit dec_zero then Inl InvalidOrderIntent
           else bnd (sc_accounting c) (\<lambda>cfg. engine (cfg_price cfg (D limit))))"

definition remaining_quantity :: "nat \<Rightarrow> source \<Rightarrow> session_config \<Rightarrow> sim_error + decimal" where
  "remaining_quantity amb ord c =
     bnd (sc_accounting c) (\<lambda>cfg.
     let read = (\<lambda>k. bnd (event_decimal (Some ord) k) (\<lambda>q.
           engine (cfg_qty cfg (D (case q of None \<Rightarrow> dec_zero | Some d \<Rightarrow> if dcoeff d = 0 then dec_zero else d)))))
     in bnd (read ''quantity'') (\<lambda>ordered.
        bnd (read ''filled_quantity'') (\<lambda>filled.
        bnd (engine (cfg_qty cfg (D (dec_sub amb ordered filled)))) (\<lambda>r.
          Inr (if dec_lt dec_zero r then r else dec_zero)))))"

definition fillable_quantity ::
  "nat \<Rightarrow> source \<Rightarrow> source option \<Rightarrow> session_config \<Rightarrow> sim_error + decimal" where
  "fillable_quantity amb ord ev c =
     bnd (remaining_quantity amb ord c) (\<lambda>remaining.
       if dec_le remaining dec_zero then Inr dec_zero
       else
         bnd (event_decimal ev ''volume'') (\<lambda>volume.
           case volume of
             None \<Rightarrow> Inr remaining
           | Some v \<Rightarrow>
               if dec_le v dec_zero \<or> dec_le (sc_participation_rate c) dec_zero then Inr remaining
               else
                 bnd (sc_accounting c) (\<lambda>cfg.
                 bnd (engine (cfg_qty cfg (D (dec_mul amb v (sc_participation_rate c))))) (\<lambda>cap.
                   Inr (if dec_lt cap remaining then cap else remaining)))))"

section \<open>Minor units\<close>

definition minor_units :: "nat \<Rightarrow> pyval \<Rightarrow> session_config \<Rightarrow> sim_error + int" where
  "minor_units amb amount c =
     bnd (engine (to_decimal amount)) (\<lambda>d.
       let scaled = dec_scaleb amb d (int (sc_minor_unit_exponent c))
       in if dec_is_integral scaled then Inr (dec_to_int scaled) else Inl InvalidOrderIntent)"

section \<open>How prices behave\<close>

lemma fits_one [simp]: "0 < p \<Longrightarrow> fits p 1"
  using one_less_power [of "10::int" p] by (simp add: fits_def)

lemma dec_of_int_one: "0 < p \<Longrightarrow> fits p (dcoeff (dec_of_int 1))"
  by (simp add: dec_of_int_def)

lemma drift_up: "0 < p \<Longrightarrow> 0 \<le> dval r \<Longrightarrow> 1 \<le> dval (dec_add p (dec_of_int 1) r)"
  unfolding dec_add_def
  by (rule dec_fix_ge [of _ "dec_of_int 1", unfolded dval_of_int of_int_1])
    (simp_all add: dval_sum dval_of_int dec_of_int_one)

lemma drift_down: "0 < p \<Longrightarrow> dval r \<le> 0 \<Longrightarrow> dval (dec_add p (dec_of_int 1) r) \<le> 1"
  unfolding dec_add_def
  by (rule dec_fix_le [of _ _ "dec_of_int 1", unfolded dval_of_int of_int_1])
    (simp_all add: dval_sum dval_of_int dec_of_int_one)

lemma mul_up:
  assumes "0 < p" and "fits p (dcoeff x)" and "0 \<le> dval x" and "1 \<le> dval y"
  shows "dval x \<le> dval (dec_mul p x y)"
  unfolding dec_mul_def using assms mult_left_mono [of 1 "dval y" "dval x"]
  by (intro dec_fix_ge) (simp_all add: dval_prod)

lemma mul_down:
  assumes "0 < p" and "fits p (dcoeff x)" and "0 \<le> dval x" and "dval y \<le> 1"
  shows "dval (dec_mul p x y) \<le> dval x"
  unfolding dec_mul_def using assms mult_left_mono [of "dval y" 1 "dval x"]
  by (intro dec_fix_le) (simp_all add: dval_prod)

lemma dval_dec_neg: "0 < p \<Longrightarrow> 0 \<le> dval r \<Longrightarrow> dval (dec_neg p r) \<le> 0"
  unfolding dec_neg_def by (rule dec_fix_nonpos) (simp_all add: dval_def)


text \<open>What one event fills.\<close>

definition volume_cap :: "nat \<Rightarrow> session_config \<Rightarrow> decimal \<Rightarrow> sim_error + decimal" where
  "volume_cap amb c v =
     bnd (sc_accounting c) (\<lambda>cfg. engine (cfg_qty cfg (D (dec_mul amb v (sc_participation_rate c)))))"

lemma remaining_nonneg: "remaining_quantity amb ord c = Inr r \<Longrightarrow> 0 \<le> dval r"
  by (auto simp: remaining_quantity_def result_simps Let_def dec_lt_val)

lemma dec_mul_nonneg: "0 < p \<Longrightarrow> 0 \<le> dval x \<Longrightarrow> 0 \<le> dval y \<Longrightarrow> 0 \<le> dval (dec_mul p x y)"
  unfolding dec_mul_def by (rule dec_fix_nonneg) (simp_all add: dval_prod)

lemma fillable_cases:
  assumes "fillable_quantity amb ord ev c = Inr q" and "0 < amb" and "session_ok c"
  obtains r where "remaining_quantity amb ord c = Inr r" "0 \<le> dval q" "dval q \<le> dval r"
    "\<And>v k. event_decimal ev ''volume'' = Inr (Some v) \<Longrightarrow> 0 < dval v \<Longrightarrow> 0 < dval (sc_participation_rate c) \<Longrightarrow>
      0 < dval r \<Longrightarrow> volume_cap amb c v = Inr k \<Longrightarrow> dval q \<le> dval k"
proof -
  from assms(1) obtain r where r: "remaining_quantity amb ord c = Inr r"
    by (auto simp: fillable_quantity_def result_simps)
  have r0: "0 \<le> dval r" by (rule remaining_nonneg [OF r])
  have cap0: "0 \<le> dval k" if "cfg_qty cfg (D (dec_mul amb v (sc_participation_rate c))) = Inr k" "0 < dval v" for cfg v k
    using qty.sign [OF that(1)] dec_mul_nonneg [OF assms(2), of v "sc_participation_rate c"] that(2) assms(3)
    by (simp add: session_ok_def)
  show thesis
  proof (rule that [OF r])
    show "0 \<le> dval q" using assms(1) r r0 cap0
      by (auto simp: fillable_quantity_def result_simps dec_le_val dec_lt_val split: if_splits option.splits)
    show "dval q \<le> dval r" using assms(1) r r0
      by (auto simp: fillable_quantity_def result_simps dec_le_val dec_lt_val split: if_splits option.splits)
  next
    fix v k
    assume "event_decimal ev ''volume'' = Inr (Some v)" "0 < dval v" "0 < dval (sc_participation_rate c)"
      "0 < dval r" "volume_cap amb c v = Inr k"
    then show "dval q \<le> dval k" using assms(1) r
      by (auto simp: fillable_quantity_def volume_cap_def result_simps dec_le_val dec_lt_val split: if_splits)
  qed
qed

end
