(* ===== verification/Sim_Store.thy ===== *)
theory Sim_Store
  imports Sim_Prices Paper_Order_State
begin

text \<open>
  The tables a paper session is kept in, and the operations of \<open>backend/paper/paper_repository.py\<close>
  the simulator uses. Every operation is one statement against a shared database: between two
  statements other clients run, and a statement may fail, with or without having been applied.
\<close>

section \<open>The rows\<close>

text \<open>A row keeps its decimals as the column gives them back; times are microseconds.\<close>

record account_row =
  ac_user :: string
  ac_money :: account
  ac_version :: int
  ac_price_at :: "stamp option"
  ac_stale :: bool
  ac_updated :: stamp

record order_row =
  ow_user :: string
  ow_session :: "string option"
  ow_account :: string
  ow_symbol :: string
  ow_side :: string
  ow_type :: string
  ow_quantity :: decimal
  ow_limit :: "decimal option"
  ow_reference :: "decimal option"
  ow_filled :: decimal
  ow_avg :: "decimal option"
  ow_fee :: int
  ow_slippage :: int
  ow_state :: paper_order_state
  ow_legacy :: string
  ow_reason :: "string option"
  ow_key :: "string option"
  ow_signal :: "string option"
  ow_fingerprint :: string
  ow_created :: stamp

record fill_row =
  fl_id :: string
  fl_order :: string
  fl_session :: "string option"
  fl_user :: string
  fl_event :: string
  fl_quantity :: decimal
  fl_price :: decimal
  fl_fee :: int
  fl_slippage :: int
  fl_market :: "string option"
  fl_at :: stamp

record ledger_row =
  ld_session :: "string option"
  ld_account :: string
  ld_user :: string
  ld_cause :: string
  ld_available_delta :: decimal
  ld_locked_delta :: decimal
  ld_realized_delta :: decimal
  ld_available :: decimal
  ld_locked :: decimal
  ld_realized :: decimal
  ld_fill :: "string option"
  ld_at :: stamp

record position_row =
  pr_session :: "string option"
  pr_account :: string
  pr_user :: string
  pr_position :: position
  pr_version :: int

record trade_row =
  td_session :: "string option"
  td_account :: string
  td_user :: string
  td_symbol :: string
  td_side :: string
  td_quantity :: decimal
  td_entry_price :: decimal
  td_exit_price :: decimal
  td_realized_pnl :: decimal
  td_fee :: int
  td_opened :: stamp
  td_closed :: stamp

record snapshot_row =
  sn_session :: "string option"
  sn_user :: string
  sn_series :: int
  sn_equity :: decimal
  sn_available :: decimal
  sn_locked :: decimal
  sn_market_value :: decimal
  sn_stale :: bool
  sn_cause :: string
  sn_at :: stamp

record session_row =
  se_user :: string
  se_feed :: "string option"

text \<open>The tables; generated identifiers are drawn from a supply by the count \<open>st_count\<close>.\<close>

record store =
  st_accounts :: "(string, account_row) dict"
  st_orders :: "(string, order_row) dict"
  st_fills :: "fill_row list"
  st_ledger :: "ledger_row list"
  st_positions :: "(string, position_row) dict"
  st_trades :: "trade_row list"
  st_snapshots :: "snapshot_row list"
  st_sessions :: "(string, session_row) dict"
  st_count :: nat

section \<open>Statements\<close>

text \<open>
  What happens around the n-th statement: what the other clients did before it, and whether it
  fails, with the flag telling whether it was applied all the same. \<open>en_id\<close> generates
  identifiers, \<open>en_clock\<close> the times of creation.
\<close>

record environment =
  en_act :: "nat \<Rightarrow> store \<Rightarrow> store"
  en_fault :: "nat \<Rightarrow> (sim_error \<times> bool) option"
  en_id :: "nat \<Rightarrow> string"
  en_clock :: "nat \<Rightarrow> stamp"

record world =
  w_store :: store
  w_step :: nat

type_synonym 'a run = "world \<Rightarrow> (sim_error + 'a) \<times> world"

definition statement ::
  "environment \<Rightarrow> (store \<Rightarrow> (sim_error + 'a) \<times> store) \<Rightarrow> 'a run" where
  "statement E f w =
     (let n = w_step w; s = en_act E n (w_store w)
      in case en_fault E n of
           None \<Rightarrow> (fst (f s), \<lparr>w_store = snd (f s), w_step = Suc n\<rparr>)
         | Some (e, applied) \<Rightarrow> (Inl e, \<lparr>w_store = (if applied then snd (f s) else s), w_step = Suc n\<rparr>))"

definition read_store :: "environment \<Rightarrow> (store \<Rightarrow> sim_error + 'a) \<Rightarrow> 'a run" where
  "read_store E f = statement E (\<lambda>s. (f s, s))"

definition andthen :: "'a run \<Rightarrow> ('a \<Rightarrow> 'b run) \<Rightarrow> 'b run" where
  "andthen m k w = (case m w of (Inl e, w') \<Rightarrow> (Inl e, w') | (Inr x, w') \<Rightarrow> k x w')"

definition pure_run :: "sim_error + 'a \<Rightarrow> 'a run" where
  "pure_run r w = (r, w)"

section \<open>Columns\<close>

text \<open>
  A value sent to a \<open>NUMERIC(28,10)\<close> column: rounded half away from zero to ten places, refused
  beyond eighteen digits before the point.
\<close>

definition column :: "decimal \<Rightarrow> sim_error + decimal" where
  "column d =
     (let c = rescale ROUND_HALF_UP d (- 10)
      in if \<bar>c\<bar> < 10 ^ 28 then Inr (Dec c (- 10)) else Inl PersistenceError)"

definition column_opt :: "decimal option \<Rightarrow> sim_error + decimal option" where
  "column_opt v = (case v of None \<Rightarrow> Inr None | Some d \<Rightarrow> bnd (column d) (\<lambda>c. Inr (Some c)))"

definition check :: "bool \<Rightarrow> sim_error \<Rightarrow> sim_error + unit" where
  "check b e = (if b then Inr () else Inl e)"

section \<open>Reads\<close>

definition find_account :: "string \<Rightarrow> string \<Rightarrow> store \<Rightarrow> account_row option" where
  "find_account user aid s =
     (case dget (st_accounts s) aid of
        None \<Rightarrow> None | Some r \<Rightarrow> if ac_user r = user then Some r else None)"

definition lock_account_for_update :: "environment \<Rightarrow> string \<Rightarrow> string \<Rightarrow> account_row run" where
  "lock_account_for_update E user aid = read_store E (\<lambda>s.
     case find_account user aid s of None \<Rightarrow> Inl PersistenceError | Some r \<Rightarrow> Inr r)"

definition find_order :: "string \<Rightarrow> string \<Rightarrow> store \<Rightarrow> order_row option" where
  "find_order user oid s =
     (case dget (st_orders s) oid of
        None \<Rightarrow> None | Some r \<Rightarrow> if ow_user r = user then Some r else None)"

definition read_order :: "environment \<Rightarrow> string \<Rightarrow> string \<Rightarrow> order_row option run" where
  "read_order E user oid = read_store E (\<lambda>s. Inr (find_order user oid s))"

text \<open>Newest first; rows of one instant in the order they were inserted.\<close>

definition fills_of :: "string \<Rightarrow> string option \<Rightarrow> string \<Rightarrow> store \<Rightarrow> fill_row list" where
  "fills_of user sid oid s =
     sort_key (\<lambda>r. - fl_at r)
       (filter (\<lambda>r. fl_user r = user \<and> fl_session r = sid \<and> fl_order r = oid) (st_fills s))"

definition get_fills :: "environment \<Rightarrow> string \<Rightarrow> string option \<Rightarrow> string \<Rightarrow> fill_row list run" where
  "get_fills E user sid oid = read_store E (\<lambda>s. Inr (fills_of user sid oid s))"

definition ledger_of :: "string \<Rightarrow> string \<Rightarrow> string option \<Rightarrow> string \<Rightarrow> store \<Rightarrow> ledger_row list" where
  "ledger_of user aid sid cause s =
     sort_key (\<lambda>r. - ld_at r)
       (filter (\<lambda>r. ld_user r = user \<and> ld_account r = aid \<and> (sid = None \<or> ld_session r = sid) \<and>
          ld_cause r = cause) (st_ledger s))"

definition get_balance_events ::
  "environment \<Rightarrow> string \<Rightarrow> string \<Rightarrow> string option \<Rightarrow> string \<Rightarrow> ledger_row list run" where
  "get_balance_events E user aid sid cause = read_store E (\<lambda>s. Inr (ledger_of user aid sid cause s))"

definition opened_key :: "position_row \<Rightarrow> stamp" where
  "opened_key r = (case pos_opened_at (pr_position r) of None \<Rightarrow> 0 | Some t \<Rightarrow> - t)"

definition positions_in :: "string \<Rightarrow> string \<Rightarrow> string option \<Rightarrow> bool \<Rightarrow> store \<Rightarrow> position_row list" where
  "positions_in user aid sid include_closed s =
     sort_key opened_key
       (filter (\<lambda>r. pr_user r = user \<and> pr_account r = aid \<and> (sid = None \<or> pr_session r = sid) \<and>
          (include_closed \<or> pos_closed_at (pr_position r) = None)) (dvalues (st_positions s)))"

definition get_positions ::
  "environment \<Rightarrow> string \<Rightarrow> string \<Rightarrow> string option \<Rightarrow> bool \<Rightarrow> position_row list run" where
  "get_positions E user aid sid include_closed = read_store E (\<lambda>s. Inr (positions_in user aid sid include_closed s))"

definition orders_in ::
  "string \<Rightarrow> string \<Rightarrow> string option \<Rightarrow> string \<Rightarrow> store \<Rightarrow> (string \<times> order_row) list" where
  "orders_in user aid sid legacy s =
     sort_key (\<lambda>(k, r). - ow_created r)
       (filter (\<lambda>(k, r). ow_user r = user \<and> ow_account r = aid \<and> (sid = None \<or> ow_session r = sid) \<and>
          ow_legacy r = legacy) (st_orders s))"

definition get_orders ::
  "environment \<Rightarrow> string \<Rightarrow> string \<Rightarrow> string option \<Rightarrow> string \<Rightarrow> (string \<times> order_row) list run" where
  "get_orders E user aid sid legacy = read_store E (\<lambda>s. Inr (orders_in user aid sid legacy s))"

definition probe_idempotency_key ::
  "environment \<Rightarrow> string \<Rightarrow> string \<Rightarrow> string option \<Rightarrow> string \<Rightarrow> (string \<times> order_row) option run" where
  "probe_idempotency_key E user key sid aid = read_store E (\<lambda>s. Inr (find (\<lambda>(k, r).
     ow_user r = user \<and> ow_key r = Some key \<and> ow_session r = sid \<and> (sid \<noteq> None \<or> ow_account r = aid))
     (st_orders s)))"

definition read_session :: "environment \<Rightarrow> string \<Rightarrow> string \<Rightarrow> session_row option run" where
  "read_session E user sid = read_store E (\<lambda>s. Inr
     (case dget (st_sessions s) sid of
        None \<Rightarrow> None | Some r \<Rightarrow> if se_user r = user then Some r else None))"

section \<open>Writes\<close>

text \<open>The money columns of an account, as the row keeps them; both balances are non-negative.\<close>

definition money_columns :: "account \<Rightarrow> sim_error + account" where
  "money_columns m =
     bnd (column (acc_available m)) (\<lambda>av.
     bnd (column (acc_locked m)) (\<lambda>lk.
     bnd (column (acc_realized m)) (\<lambda>re.
     bnd (column (acc_total_equity m)) (\<lambda>te.
     bnd (check (dec_le dec_zero av \<and> dec_le dec_zero lk) PersistenceError) (\<lambda>_.
       Inr (m\<lparr>acc_available := av, acc_locked := lk, acc_realized := re, acc_total_equity := te\<rparr>))))))"

definition commit :: "store \<Rightarrow> sim_error + ('a \<times> store) \<Rightarrow> (sim_error + 'a) \<times> store" where
  "commit s r = (case r of Inl e \<Rightarrow> (Inl e, s) | Inr (x, s') \<Rightarrow> (Inr x, s'))"

text \<open>The payload is a function of the row; it cannot name the owner or the version.\<close>

definition bumped ::
  "string \<Rightarrow> string \<Rightarrow> int \<Rightarrow> (account_row \<Rightarrow> account_row) \<Rightarrow> store \<Rightarrow> sim_error + (account_row \<times> store)" where
  "bumped user aid expected payload s =
     (case find_account user aid s of
        None \<Rightarrow> Inl ConcurrencyConflict
      | Some r \<Rightarrow>
          if ac_version r \<noteq> expected then Inl ConcurrencyConflict
          else
            bnd (money_columns (ac_money (payload r))) (\<lambda>m.
              let q = (payload r)\<lparr>ac_money := m, ac_user := user, ac_version := expected + 1\<rparr>
              in Inr (q, s\<lparr>st_accounts := dset aid q (st_accounts s)\<rparr>)))"

definition bump_version ::
  "environment \<Rightarrow> string \<Rightarrow> string \<Rightarrow> int \<Rightarrow> (account_row \<Rightarrow> account_row) \<Rightarrow> account_row run" where
  "bump_version E user aid expected payload = statement E (\<lambda>s. commit s (bumped user aid expected payload s))"

text \<open>The constraints of an order row.\<close>

definition order_columns :: "order_row \<Rightarrow> sim_error + order_row" where
  "order_columns r =
     bnd (column (ow_quantity r)) (\<lambda>q.
     bnd (column_opt (ow_limit r)) (\<lambda>l.
     bnd (column_opt (ow_reference r)) (\<lambda>ref.
     bnd (column (ow_filled r)) (\<lambda>f.
     bnd (column_opt (ow_avg r)) (\<lambda>avg.
     bnd (check (dec_lt dec_zero q \<and> (case l of None \<Rightarrow> True | Some x \<Rightarrow> dec_lt dec_zero x) \<and>
            dec_le dec_zero f \<and> dec_le f q) PersistenceError) (\<lambda>_.
       Inr (r\<lparr>ow_quantity := q, ow_limit := l, ow_reference := ref, ow_filled := f, ow_avg := avg\<rparr>)))))))"

definition key_taken :: "order_row \<Rightarrow> (string, order_row) dict \<Rightarrow> bool" where
  "key_taken r os \<longleftrightarrow> ow_key r \<noteq> None \<and>
     list_ex (\<lambda>(k, o'). ow_key o' = ow_key r \<and> ow_session o' = ow_session r \<and>
       (ow_session r \<noteq> None \<or> ow_account o' = ow_account r)) os"

text \<open>A new row: nothing filled, the legacy spelling derived from the state.\<close>

definition new_order ::
  "environment \<Rightarrow> order_row \<Rightarrow> store \<Rightarrow> sim_error + ((string \<times> order_row) \<times> store)" where
  "new_order E row s =
     bnd (order_columns (row\<lparr>ow_legacy := LEGACY_STATUS_FOR_STATE (ow_state row),
            ow_created := en_clock E (st_count s)\<rparr>)) (\<lambda>r.
       if key_taken r (st_orders s) then Inl ConcurrencyConflict
       else
         let oid = en_id E (st_count s)
         in Inr ((oid, r), s\<lparr>st_orders := st_orders s @ [(oid, r)], st_count := Suc (st_count s)\<rparr>))"

definition insert_order :: "environment \<Rightarrow> order_row \<Rightarrow> (string \<times> order_row) run" where
  "insert_order E row =
     (if ow_side row \<notin> set SUPPORTED_SIDES \<or> ow_type row \<notin> set SUPPORTED_ORDER_TYPES
      then pure_run (Inl (Builtin ValueError))
      else statement E (\<lambda>s. commit s (new_order E row s)))"

text \<open>The trigger on an update of the state.\<close>

definition transition_guard :: "paper_order_state \<Rightarrow> paper_order_state \<Rightarrow> bool" where
  "transition_guard old new \<longleftrightarrow> (new = old \<and> new \<noteq> PO_PARTIALLY_FILLED) \<or> new \<in> set (PAPER_ORDER_TRANSITIONS old)"

definition moved_order ::
  "string \<Rightarrow> string \<Rightarrow> paper_order_state \<Rightarrow> paper_order_state \<Rightarrow> string option \<Rightarrow> store \<Rightarrow>
    sim_error + (order_row \<times> store)" where
  "moved_order user oid target expected reason s =
     (case find_order user oid s of
        None \<Rightarrow> Inl ConcurrencyConflict
      | Some r \<Rightarrow>
          if ow_state r \<noteq> expected then Inl ConcurrencyConflict
          else if \<not> transition_guard expected target then Inl PersistenceError
          else
            let q = r\<lparr>ow_state := target, ow_legacy := LEGACY_STATUS_FOR_STATE target,
                      ow_reason := (if reason = None then ow_reason r else reason)\<rparr>
            in Inr (q, s\<lparr>st_orders := dset oid q (st_orders s)\<rparr>))"

definition update_order ::
  "environment \<Rightarrow> string \<Rightarrow> string \<Rightarrow> paper_order_state \<Rightarrow> paper_order_state \<Rightarrow> string option \<Rightarrow>
    order_row run" where
  "update_order E user oid target expected reason =
     (if \<not> paper_gate expected target then pure_run (Inl (Builtin ValueError))
      else statement E (\<lambda>s. commit s (moved_order user oid target expected reason s)))"

definition ledger_columns :: "ledger_row \<Rightarrow> sim_error + ledger_row" where
  "ledger_columns r =
     bnd (column (ld_available_delta r)) (\<lambda>a.
     bnd (column (ld_locked_delta r)) (\<lambda>l.
     bnd (column (ld_realized_delta r)) (\<lambda>d.
     bnd (column (ld_available r)) (\<lambda>aa.
     bnd (column (ld_locked r)) (\<lambda>la.
     bnd (column (ld_realized r)) (\<lambda>ra.
       Inr (r\<lparr>ld_available_delta := a, ld_locked_delta := l, ld_realized_delta := d,
             ld_available := aa, ld_locked := la, ld_realized := ra\<rparr>)))))))"

definition new_ledger :: "ledger_row \<Rightarrow> store \<Rightarrow> sim_error + (ledger_row \<times> store)" where
  "new_ledger row s = bnd (ledger_columns row) (\<lambda>r. Inr (r, s\<lparr>st_ledger := st_ledger s @ [r]\<rparr>))"

definition insert_balance_event :: "environment \<Rightarrow> ledger_row \<Rightarrow> ledger_row run" where
  "insert_balance_event E row = statement E (\<lambda>s. commit s (new_ledger row s))"

section \<open>Laws of the statements\<close>

lemma andthen_Inr [result_simps]:
  "andthen m k w = (Inr y, w') \<longleftrightarrow> (\<exists>x v. m w = (Inr x, v) \<and> k x v = (Inr y, w'))"
  by (auto simp: andthen_def split: prod.splits sum.splits)

lemma andthen_pair:
  "andthen m k w = (r, w') \<longleftrightarrow>
    (\<exists>e. m w = (Inl e, w') \<and> r = Inl e) \<or> (\<exists>x v. m w = (Inr x, v) \<and> k x v = (r, w'))"
  by (auto simp: andthen_def split: prod.splits sum.splits)

lemma pure_run_pair [result_simps]: "pure_run r w = (r', w') \<longleftrightarrow> r' = r \<and> w' = w"
  by (auto simp: pure_run_def)

lemma commit_cases:
  "commit s r = (case r of Inl e \<Rightarrow> (Inl e, s) | Inr p \<Rightarrow> (Inr (fst p), snd p))"
  by (auto simp: commit_def split: sum.splits)

text \<open>The store a statement finds, and what it leaves.\<close>

definition found :: "environment \<Rightarrow> world \<Rightarrow> store" where
  "found E w = en_act E (w_step w) (w_store w)"

lemma read_store_step:
  "read_store E f w = (r, w') \<Longrightarrow> w_store w' = found E w \<and> w_step w' = Suc (w_step w)"
  by (auto simp: read_store_def statement_def found_def Let_def split: option.splits prod.splits)

lemma read_store_Inr: "read_store E f w = (Inr x, w') \<Longrightarrow> f (found E w) = Inr x"
  by (auto simp: read_store_def statement_def found_def Let_def split: option.splits prod.splits)

lemma statement_commit:
  assumes "statement E (\<lambda>s. commit s (f s)) w = (r, w')"
  shows "w_step w' = Suc (w_step w)"
    and "w_store w' = found E w \<or> (\<exists>x. f (found E w) = Inr (x, w_store w') \<and>
      (r = Inr x \<or> (\<exists>e. en_fault E (w_step w) = Some (e, True) \<and> r = Inl e)))"
    and "r = Inr x \<Longrightarrow> f (found E w) = Inr (x, w_store w')"
    and "r = Inl e \<Longrightarrow> (\<exists>b. en_fault E (w_step w) = Some (e, b)) \<or> (f (found E w) = Inl e \<and> w_store w' = found E w)"
  using assms
  by (auto simp: statement_def commit_cases found_def Let_def split: option.splits prod.splits sum.splits if_splits)

end
