(* ===== verification/Sim_Commit.thy ===== *)
theory Sim_Commit
  imports Sim_Store
begin

text \<open>
  The database function \<open>paper_apply_fill_atomic\<close> (\<open>migrations/048_paper05_apply_fill_atomic.sql\<close>)
  and its caller in \<open>paper_repository.py\<close>: seven writes in one transaction, behind the version of
  the account and the state of the order.
\<close>

section \<open>Arguments and results\<close>

record fill_commit =
  fc_user :: string
  fc_account :: string
  fc_order :: string
  fc_session :: "string option"
  fc_event :: string
  fc_version :: int
  fc_state :: paper_order_state
  fc_resume :: "string option"
  fc_quantity :: decimal
  fc_price :: decimal
  fc_fee :: int
  fc_slippage :: int
  fc_market :: "string option"
  fc_at :: stamp
  fc_money :: account
  fc_available_delta :: decimal
  fc_locked_delta :: decimal
  fc_realized_delta :: decimal
  fc_target :: paper_order_state
  fc_filled :: decimal
  fc_avg :: decimal
  fc_order_fee :: int
  fc_order_slippage :: int
  fc_position :: position
  fc_closed_leg :: "(string \<times> decimal \<times> stamp) option"
  fc_trade :: "trade_row option"
  fc_series :: int
  fc_market_value :: decimal

record commit_rows =
  cr_fill :: fill_row
  cr_account :: account_row
  cr_ledger :: ledger_row
  cr_position :: position_row
  cr_closed :: "position_row option"
  cr_order :: order_row
  cr_trade :: "trade_row option"
  cr_snapshot :: snapshot_row

section \<open>The locks and their checks\<close>

definition commit_locks :: "fill_commit \<Rightarrow> store \<Rightarrow> sim_error + (account_row \<times> order_row)" where
  "commit_locks fc s =
     (case find_account (fc_user fc) (fc_account fc) s of
        None \<Rightarrow> Inl PersistenceError
      | Some a \<Rightarrow>
          if ac_version a \<noteq> fc_version fc then Inl ConcurrencyConflict
          else
            case find_order (fc_user fc) (fc_order fc) s of
              None \<Rightarrow> Inl PersistenceError
            | Some r \<Rightarrow> if ow_state r \<noteq> fc_state fc then Inl ConcurrencyConflict else Inr (a, r))"

section \<open>The seven writes\<close>

definition new_fill_row :: "string \<Rightarrow> fill_commit \<Rightarrow> sim_error + fill_row" where
  "new_fill_row fid fc =
     bnd (column (fc_quantity fc)) (\<lambda>q.
     bnd (column (fc_price fc)) (\<lambda>p.
     bnd (check (dec_lt dec_zero q \<and> dec_lt dec_zero p) PersistenceError) (\<lambda>_.
       Inr \<lparr>fl_id = fid, fl_order = fc_order fc, fl_session = fc_session fc, fl_user = fc_user fc,
         fl_event = fc_event fc, fl_quantity = q, fl_price = p, fl_fee = fc_fee fc,
         fl_slippage = fc_slippage fc, fl_market = fc_market fc, fl_at = fc_at fc\<rparr>)))"

definition commit_fill :: "environment \<Rightarrow> fill_commit \<Rightarrow> store \<Rightarrow> sim_error + (fill_row \<times> store)" where
  "commit_fill E fc s =
     (case fc_resume fc of
        Some rid \<Rightarrow>
          (case find (\<lambda>r. fl_id r = rid \<and> fl_order r = fc_order fc \<and> fl_user r = fc_user fc \<and>
                  fl_event r = fc_event fc) (st_fills s) of
             None \<Rightarrow> Inl PersistenceError | Some r \<Rightarrow> Inr (r, s))
      | None \<Rightarrow>
          bnd (new_fill_row (en_id E (st_count s)) fc) (\<lambda>r.
            if list_ex (\<lambda>f. fl_order f = fc_order fc \<and> fl_event f = fc_event fc) (st_fills s)
            then Inl DuplicateFill
            else Inr (r, s\<lparr>st_fills := st_fills s @ [r], st_count := Suc (st_count s)\<rparr>)))"

definition commit_account ::
  "fill_commit \<Rightarrow> account_row \<Rightarrow> store \<Rightarrow> sim_error + (account_row \<times> store)" where
  "commit_account fc a s =
     bnd (money_columns ((fc_money fc)\<lparr>acc_currency := acc_currency (ac_money a)\<rparr>)) (\<lambda>m.
       let r = a\<lparr>ac_money := m, ac_price_at := Some (fc_at fc), ac_stale := False,
                 ac_version := ac_version a + 1\<rparr>
       in Inr (r, s\<lparr>st_accounts := dset (fc_account fc) r (st_accounts s)\<rparr>))"

definition commit_ledger ::
  "fill_commit \<Rightarrow> fill_row \<Rightarrow> account_row \<Rightarrow> store \<Rightarrow> sim_error + (ledger_row \<times> store)" where
  "commit_ledger fc f a s =
     bnd (column (fc_available_delta fc)) (\<lambda>da.
     bnd (column (fc_locked_delta fc)) (\<lambda>dl.
     bnd (column (fc_realized_delta fc)) (\<lambda>dr.
       let r = \<lparr>ld_session = fc_session fc, ld_account = fc_account fc, ld_user = fc_user fc,
             ld_cause = ''FILL'', ld_available_delta = da, ld_locked_delta = dl, ld_realized_delta = dr,
             ld_available = acc_available (ac_money a), ld_locked = acc_locked (ac_money a),
             ld_realized = acc_realized (ac_money a), ld_fill = Some (fl_id f), ld_at = fc_at fc\<rparr>
       in Inr (r, s\<lparr>st_ledger := st_ledger s @ [r]\<rparr>))))"

definition position_columns :: "position \<Rightarrow> sim_error + position" where
  "position_columns p =
     bnd (column (pos_size p)) (\<lambda>z.
     bnd (column (pos_entry_price p)) (\<lambda>e.
     bnd (column_opt (pos_current_price p)) (\<lambda>c.
     bnd (column_opt (pos_unrealized_pnl p)) (\<lambda>u.
     bnd (check (pos_side p \<in> set SIDES \<and> dec_le dec_zero z) PersistenceError) (\<lambda>_.
       Inr (p\<lparr>pos_size := z, pos_entry_price := e, pos_current_price := c, pos_unrealized_pnl := u\<rparr>))))))"

definition commit_closed_leg ::
  "environment \<Rightarrow> fill_commit \<Rightarrow> store \<Rightarrow> sim_error + (position_row option \<times> store)" where
  "commit_closed_leg E fc s =
     (case fc_closed_leg fc of
        None \<Rightarrow> Inr (None, s)
      | Some (side, entry, opened) \<Rightarrow>
          bnd (position_columns \<lparr>pos_symbol = pos_symbol (fc_position fc), pos_side = side,
                 pos_size = dec_zero, pos_entry_price = entry, pos_current_price = Some (fc_price fc),
                 pos_unrealized_pnl = Some dec_zero, pos_price_at = Some (fc_at fc),
                 pos_opened_at = Some opened, pos_closed_at = Some (fc_at fc)\<rparr>) (\<lambda>p.
            let r = \<lparr>pr_session = fc_session fc, pr_account = fc_account fc, pr_user = fc_user fc,
                  pr_position = p, pr_version = 1\<rparr>
            in Inr (Some r, s\<lparr>st_positions := st_positions s @ [(en_id E (st_count s), r)],
                              st_count := Suc (st_count s)\<rparr>)))"

definition open_row :: "string \<Rightarrow> string \<Rightarrow> string \<Rightarrow> store \<Rightarrow> (string \<times> position_row) option" where
  "open_row user aid symbol s =
     find (\<lambda>(k, r). pr_account r = aid \<and> pr_user r = user \<and> pos_symbol (pr_position r) = symbol \<and>
       pos_closed_at (pr_position r) = None) (st_positions s)"

text \<open>The update leaves \<open>opened_at\<close> and the symbol of the open row as they are.\<close>

definition commit_position ::
  "environment \<Rightarrow> fill_commit \<Rightarrow> store \<Rightarrow> sim_error + (position_row \<times> store)" where
  "commit_position E fc s =
     bnd (position_columns (fc_position fc)) (\<lambda>p.
       case open_row (fc_user fc) (fc_account fc) (pos_symbol (fc_position fc)) s of
         Some (k, old) \<Rightarrow>
           (let r = old\<lparr>pr_position := p\<lparr>pos_symbol := pos_symbol (pr_position old),
                  pos_opened_at := pos_opened_at (pr_position old)\<rparr>, pr_version := pr_version old + 1\<rparr>
            in Inr (r, s\<lparr>st_positions := dset k r (st_positions s)\<rparr>))
       | None \<Rightarrow>
           (let r = \<lparr>pr_session = fc_session fc, pr_account = fc_account fc, pr_user = fc_user fc,
                  pr_position = p, pr_version = 1\<rparr>
            in Inr (r, s\<lparr>st_positions := st_positions s @ [(en_id E (st_count s), r)],
                         st_count := Suc (st_count s)\<rparr>)))"

definition commit_order :: "fill_commit \<Rightarrow> order_row \<Rightarrow> store \<Rightarrow> sim_error + (order_row \<times> store)" where
  "commit_order fc old s =
     bnd (check (transition_guard (ow_state old) (fc_target fc)) PersistenceError) (\<lambda>_.
     bnd (column (fc_filled fc)) (\<lambda>filled.
     bnd (column (fc_avg fc)) (\<lambda>avg.
     bnd (check (dec_le dec_zero filled \<and> dec_le filled (ow_quantity old)) PersistenceError) (\<lambda>_.
       let r = old\<lparr>ow_state := fc_target fc, ow_legacy := LEGACY_STATUS_FOR_STATE (fc_target fc),
                 ow_filled := filled, ow_avg := Some avg, ow_fee := fc_order_fee fc,
                 ow_slippage := fc_order_slippage fc\<rparr>
       in Inr (r, s\<lparr>st_orders := dset (fc_order fc) r (st_orders s)\<rparr>)))))"

definition trade_columns :: "trade_row \<Rightarrow> sim_error + trade_row" where
  "trade_columns r =
     bnd (column (td_quantity r)) (\<lambda>q.
     bnd (column (td_entry_price r)) (\<lambda>e.
     bnd (column (td_exit_price r)) (\<lambda>x.
     bnd (column (td_realized_pnl r)) (\<lambda>p.
       Inr (r\<lparr>td_quantity := q, td_entry_price := e, td_exit_price := x, td_realized_pnl := p\<rparr>)))))"

definition commit_trade :: "fill_commit \<Rightarrow> store \<Rightarrow> sim_error + (trade_row option \<times> store)" where
  "commit_trade fc s =
     (case fc_trade fc of
        None \<Rightarrow> Inr (None, s)
      | Some t \<Rightarrow> bnd (trade_columns t) (\<lambda>r. Inr (Some r, s\<lparr>st_trades := st_trades s @ [r]\<rparr>)))"

definition commit_snapshot :: "fill_commit \<Rightarrow> store \<Rightarrow> sim_error + (snapshot_row \<times> store)" where
  "commit_snapshot fc s =
     bnd (column (acc_total_equity (fc_money fc))) (\<lambda>te.
     bnd (column (acc_available (fc_money fc))) (\<lambda>av.
     bnd (column (acc_locked (fc_money fc))) (\<lambda>lk.
     bnd (column (fc_market_value fc)) (\<lambda>mv.
       let r = \<lparr>sn_session = fc_session fc, sn_user = fc_user fc, sn_series = fc_series fc,
             sn_equity = te, sn_available = av, sn_locked = lk, sn_market_value = mv,
             sn_stale = False, sn_cause = ''FILL'', sn_at = fc_at fc\<rparr>
       in Inr (r, s\<lparr>st_snapshots := st_snapshots s @ [r]\<rparr>)))))"

definition paper_apply_fill_atomic ::
  "environment \<Rightarrow> fill_commit \<Rightarrow> store \<Rightarrow> sim_error + (commit_rows \<times> store)" where
  "paper_apply_fill_atomic E fc s0 =
     bnd (commit_locks fc s0) (\<lambda>(acct, ord).
     bnd (commit_fill E fc s0) (\<lambda>(f, s1).
     bnd (commit_account fc acct s1) (\<lambda>(a, s2).
     bnd (commit_ledger fc f a s2) (\<lambda>(l, s3).
     bnd (commit_closed_leg E fc s3) (\<lambda>(cl, s4).
     bnd (commit_position E fc s4) (\<lambda>(p, s5).
     bnd (commit_order fc ord s5) (\<lambda>(r, s6).
     bnd (commit_trade fc s6) (\<lambda>(t, s7).
     bnd (commit_snapshot fc s7) (\<lambda>(n, s8).
       Inr (\<lparr>cr_fill = f, cr_account = a, cr_ledger = l, cr_position = p, cr_closed = cl,
              cr_order = r, cr_trade = t, cr_snapshot = n\<rparr>, s8))))))))))"

text \<open>The call: one statement, all of it or nothing.\<close>

definition apply_fill_atomic :: "environment \<Rightarrow> fill_commit \<Rightarrow> commit_rows run" where
  "apply_fill_atomic E fc = statement E (\<lambda>s. commit s (paper_apply_fill_atomic E fc s))"

section \<open>What one transaction does\<close>

text \<open>Every write touches its own table.\<close>

lemma commit_fill_Inr:
  assumes "commit_fill E fc s = Inr (f, s')"
  shows "(case fc_resume fc of
      Some rid \<Rightarrow> s' = s \<and> f \<in> set (st_fills s) \<and> fl_id f = rid \<and> fl_order f = fc_order fc \<and> fl_event f = fc_event fc
    | None \<Rightarrow> new_fill_row (en_id E (st_count s)) fc = Inr f \<and>
        (\<forall>g \<in> set (st_fills s). \<not> (fl_order g = fc_order fc \<and> fl_event g = fc_event fc)) \<and>
        s' = s\<lparr>st_fills := st_fills s @ [f], st_count := Suc (st_count s)\<rparr>)"
  using assms
  by (auto simp: commit_fill_def result_simps list_ex_iff find_Some_iff split: option.splits if_splits)

lemma commit_account_Inr:
  "commit_account fc a s = Inr (r, s') \<Longrightarrow>
    money_columns ((fc_money fc)\<lparr>acc_currency := acc_currency (ac_money a)\<rparr>) = Inr (ac_money r) \<and>
    ac_user r = ac_user a \<and> ac_version r = ac_version a + 1 \<and>
    s' = s\<lparr>st_accounts := dset (fc_account fc) r (st_accounts s)\<rparr>"
  by (auto simp: commit_account_def result_simps Let_def)

lemma commit_ledger_Inr:
  "commit_ledger fc f a s = Inr (r, s') \<Longrightarrow>
    ld_cause r = ''FILL'' \<and> ld_fill r = Some (fl_id f) \<and> ld_account r = fc_account fc \<and> ld_user r = fc_user fc \<and>
    ld_session r = fc_session fc \<and>
    ld_available r = acc_available (ac_money a) \<and> ld_locked r = acc_locked (ac_money a) \<and>
    ld_realized r = acc_realized (ac_money a) \<and>
    column (fc_available_delta fc) = Inr (ld_available_delta r) \<and> column (fc_locked_delta fc) = Inr (ld_locked_delta r) \<and>
    column (fc_realized_delta fc) = Inr (ld_realized_delta r) \<and>
    s' = s\<lparr>st_ledger := st_ledger s @ [r]\<rparr>"
  by (auto simp: commit_ledger_def result_simps Let_def)

definition positions_only :: "store \<Rightarrow> store \<Rightarrow> bool" where
  "positions_only s s' \<longleftrightarrow> st_accounts s' = st_accounts s \<and> st_orders s' = st_orders s \<and> st_fills s' = st_fills s \<and>
     st_ledger s' = st_ledger s \<and> st_trades s' = st_trades s \<and> st_snapshots s' = st_snapshots s \<and>
     st_sessions s' = st_sessions s \<and> st_count s \<le> st_count s'"

lemma commit_closed_leg_Inr: "commit_closed_leg E fc s = Inr (r, s') \<Longrightarrow> positions_only s s'"
  by (auto simp: commit_closed_leg_def positions_only_def result_simps Let_def split: option.splits)

lemma commit_position_Inr: "commit_position E fc s = Inr (r, s') \<Longrightarrow> positions_only s s'"
  by (auto simp: commit_position_def positions_only_def result_simps Let_def split: option.splits)

lemma commit_order_Inr:
  "commit_order fc old s = Inr (r, s') \<Longrightarrow>
    transition_guard (ow_state old) (fc_target fc) \<and>
    (\<exists>filled avg. column (fc_filled fc) = Inr filled \<and> column (fc_avg fc) = Inr avg \<and>
      0 \<le> dval filled \<and> dval filled \<le> dval (ow_quantity old) \<and>
      r = old\<lparr>ow_state := fc_target fc, ow_legacy := LEGACY_STATUS_FOR_STATE (fc_target fc),
                 ow_filled := filled, ow_avg := Some avg, ow_fee := fc_order_fee fc,
                 ow_slippage := fc_order_slippage fc\<rparr>) \<and>
    s' = s\<lparr>st_orders := dset (fc_order fc) r (st_orders s)\<rparr>"
  by (auto simp: commit_order_def result_simps check_def dec_le_val Let_def split: if_splits)

lemma commit_trade_Inr: "commit_trade fc s = Inr (r, s') \<Longrightarrow> s' = s\<lparr>st_trades := st_trades s'\<rparr>"
  by (auto simp: commit_trade_def result_simps split: option.splits)

lemma commit_snapshot_Inr: "commit_snapshot fc s = Inr (r, s') \<Longrightarrow> s' = s\<lparr>st_snapshots := st_snapshots s @ [r]\<rparr>"
  by (auto simp: commit_snapshot_def result_simps Let_def)

text \<open>The effect of a transaction on the store, table by table.\<close>

lemma atomic_effect:
  assumes "paper_apply_fill_atomic E fc s = Inr (rows, s')"
  obtains acct ord where
    "find_account (fc_user fc) (fc_account fc) s = Some acct" "ac_version acct = fc_version fc"
    "find_order (fc_user fc) (fc_order fc) s = Some ord" "ow_state ord = fc_state fc"
    "case fc_resume fc of
       Some rid \<Rightarrow> st_fills s' = st_fills s \<and> cr_fill rows \<in> set (st_fills s) \<and> fl_id (cr_fill rows) = rid \<and>
         fl_order (cr_fill rows) = fc_order fc \<and> fl_event (cr_fill rows) = fc_event fc
     | None \<Rightarrow> new_fill_row (en_id E (st_count s)) fc = Inr (cr_fill rows) \<and> st_count s < st_count s' \<and>
         (\<forall>g \<in> set (st_fills s). \<not> (fl_order g = fc_order fc \<and> fl_event g = fc_event fc)) \<and>
         st_fills s' = st_fills s @ [cr_fill rows]"
    "st_accounts s' = dset (fc_account fc) (cr_account rows) (st_accounts s)"
    "money_columns ((fc_money fc)\<lparr>acc_currency := acc_currency (ac_money acct)\<rparr>) = Inr (ac_money (cr_account rows))"
    "ac_version (cr_account rows) = fc_version fc + 1" "ac_user (cr_account rows) = fc_user fc"
    "st_ledger s' = st_ledger s @ [cr_ledger rows]"
    "commit_ledger fc (cr_fill rows) (cr_account rows) (s\<lparr>st_ledger := []\<rparr>) =
       Inr (cr_ledger rows, s\<lparr>st_ledger := [cr_ledger rows]\<rparr>)"
    "transition_guard (ow_state ord) (fc_target fc)"
    "column (fc_filled fc) = Inr (ow_filled (cr_order rows))"
    "dval (ow_filled (cr_order rows)) \<le> dval (ow_quantity ord)"
    "\<exists>avg. cr_order rows = ord\<lparr>ow_state := fc_target fc, ow_legacy := LEGACY_STATUS_FOR_STATE (fc_target fc),
                 ow_filled := ow_filled (cr_order rows), ow_avg := Some avg, ow_fee := fc_order_fee fc,
                 ow_slippage := fc_order_slippage fc\<rparr>"
    "st_orders s' = dset (fc_order fc) (cr_order rows) (st_orders s)"
    "st_sessions s' = st_sessions s" "st_count s \<le> st_count s'"
    "st_snapshots s' = st_snapshots s @ [cr_snapshot rows]"
proof -
  from assms obtain acct ord f s1 a s2 l s3 cl s4 p s5 r s6 t s7 n where
    lk: "commit_locks fc s = Inr (acct, ord)" and
    c1: "commit_fill E fc s = Inr (f, s1)" and c2: "commit_account fc acct s1 = Inr (a, s2)" and
    c3: "commit_ledger fc f a s2 = Inr (l, s3)" and c4: "commit_closed_leg E fc s3 = Inr (cl, s4)" and
    c5: "commit_position E fc s4 = Inr (p, s5)" and c6: "commit_order fc ord s5 = Inr (r, s6)" and
    c7: "commit_trade fc s6 = Inr (t, s7)" and c8: "commit_snapshot fc s7 = Inr (n, s')" and
    rows: "rows = \<lparr>cr_fill = f, cr_account = a, cr_ledger = l, cr_position = p, cr_closed = cl,
              cr_order = r, cr_trade = t, cr_snapshot = n\<rparr>"
    unfolding paper_apply_fill_atomic_def by (auto simp only: bnd_Inr_iff split_paired_Ex prod.case sum.inject prod.inject)
  have L: "find_account (fc_user fc) (fc_account fc) s = Some acct" "ac_version acct = fc_version fc"
    "find_order (fc_user fc) (fc_order fc) s = Some ord" "ow_state ord = fc_state fc"
    using lk by (auto simp: commit_locks_def split: option.splits if_splits)
  have u: "ac_user acct = fc_user fc" using L(1) by (auto simp: find_account_def split: option.splits if_splits)
  note e1 = commit_fill_Inr [OF c1] and e2 = commit_account_Inr [OF c2] and e3 = commit_ledger_Inr [OF c3]
    and e6 = commit_order_Inr [OF c6] and e7 = commit_trade_Inr [OF c7] and e8 = commit_snapshot_Inr [OF c8]
    and e4 = commit_closed_leg_Inr [OF c4, unfolded positions_only_def]
    and e5 = commit_position_Inr [OF c5, unfolded positions_only_def]
  have f78: "st_accounts s' = st_accounts s6" "st_orders s' = st_orders s6" "st_fills s' = st_fills s6"
    "st_ledger s' = st_ledger s6" "st_sessions s' = st_sessions s6" "st_count s' = st_count s6"
    "st_snapshots s' = st_snapshots s6 @ [n]"
    by (subst e8, subst e7, simp)+
  have f15: "st_accounts s1 = st_accounts s" "st_orders s1 = st_orders s" "st_ledger s1 = st_ledger s"
    "st_sessions s1 = st_sessions s" "st_snapshots s1 = st_snapshots s" "st_count s \<le> st_count s1"
    using e1 by (auto split: option.splits)
  have cl: "commit_ledger fc f a (s\<lparr>st_ledger := []\<rparr>) = Inr (l, s\<lparr>st_ledger := [l]\<rparr>)"
    using c3 by (auto simp: commit_ledger_def result_simps Let_def)
  show thesis
  proof (rule that [OF L(1,2,3,4)])
    show "case fc_resume fc of
       Some rid \<Rightarrow> st_fills s' = st_fills s \<and> cr_fill rows \<in> set (st_fills s) \<and> fl_id (cr_fill rows) = rid \<and>
         fl_order (cr_fill rows) = fc_order fc \<and> fl_event (cr_fill rows) = fc_event fc
     | None \<Rightarrow> new_fill_row (en_id E (st_count s)) fc = Inr (cr_fill rows) \<and> st_count s < st_count s' \<and>
         (\<forall>g \<in> set (st_fills s). \<not> (fl_order g = fc_order fc \<and> fl_event g = fc_event fc)) \<and>
         st_fills s' = st_fills s @ [cr_fill rows]"
      using e1 e2 e3 e4 e5 e6 f78 by (auto simp: rows split: option.splits)
    show "st_accounts s' = dset (fc_account fc) (cr_account rows) (st_accounts s)"
      using e2 e3 e4 e5 e6 f78 f15 by (simp add: rows)
    show "st_ledger s' = st_ledger s @ [cr_ledger rows]" using e2 e3 e4 e5 e6 f78 f15 by (simp add: rows)
    show "st_orders s' = dset (fc_order fc) (cr_order rows) (st_orders s)"
      using e2 e3 e4 e5 e6 f78 f15 by (simp add: rows)
    show "st_sessions s' = st_sessions s" "st_count s \<le> st_count s'"
      "st_snapshots s' = st_snapshots s @ [cr_snapshot rows]"
      using e2 e3 e4 e5 e6 f78 f15 by (simp_all add: rows)
    show "\<exists>avg. cr_order rows = ord\<lparr>ow_state := fc_target fc, ow_legacy := LEGACY_STATUS_FOR_STATE (fc_target fc),
                 ow_filled := ow_filled (cr_order rows), ow_avg := Some avg, ow_fee := fc_order_fee fc,
                 ow_slippage := fc_order_slippage fc\<rparr>"
      using e6 by (auto simp: rows)
  qed (use e2 e6 cl L u in \<open>auto simp: rows\<close>)
qed

end
