(* ===== verification/Sim_Fill.thy ===== *)
theory Sim_Fill
  imports Sim_Commit Paper_Fill
begin

text \<open>
  \<open>apply_fill\<close> of \<open>backend/paper/paper_simulator.py\<close>: the single write path of every fill. An
  attempt reads the account, the order, its fills, the ledger, the session and the positions, each
  in its own statement, decides everything, and commits in one transaction. \<open>with_retries\<close> runs it
  again when the commit found that the account or the order had moved.
\<close>

section \<open>The shared retry path\<close>

definition RETRY_ATTEMPTS :: nat where
  "RETRY_ATTEMPTS = 3"

definition RETRY_BACKOFF_SECONDS :: "decimal list" where
  "RETRY_BACKOFF_SECONDS = [Dec 5 (- 2), Dec 10 (- 2)]"

definition retry_backoff_seconds :: "int \<Rightarrow> sim_error + decimal" where
  "retry_backoff_seconds attempt =
     (if attempt < 1 then Inl (Builtin ValueError)
      else Inr (RETRY_BACKOFF_SECONDS ! (min (nat attempt) (length RETRY_BACKOFF_SECONDS) - 1)))"

definition is_retryable :: "sim_error \<Rightarrow> bool" where
  "is_retryable e \<longleftrightarrow> e = ConcurrencyConflict \<or> e = SerializationFailure"

text \<open>\<open>retry_from n k\<close>: attempt \<open>n\<close> with \<open>k\<close> attempts left. The waits leave no trace.\<close>

fun retry_from :: "nat \<Rightarrow> nat \<Rightarrow> (nat \<Rightarrow> 'a run) \<Rightarrow> 'a run" where
  "retry_from n 0 attempt w = (Inl (ConcurrencyExhausted False), w)"
| "retry_from n (Suc k) attempt w =
     (case attempt n w of
        (Inr x, w') \<Rightarrow> (Inr x, w')
      | (Inl e, w') \<Rightarrow> if is_retryable e then retry_from (Suc n) k attempt w' else (Inl e, w'))"

definition with_retries :: "nat \<Rightarrow> (nat \<Rightarrow> 'a run) \<Rightarrow> 'a run" where
  "with_retries attempts attempt =
     (if attempts < 1 then pure_run (Inl (Builtin ValueError)) else retry_from 1 attempts attempt)"

section \<open>Rows as values\<close>

definition account_of :: "account_row \<Rightarrow> account" where
  "account_of r =
     (ac_money r)\<lparr>acc_currency := (if acc_currency (ac_money r) = [] then ''USD'' else acc_currency (ac_money r))\<rparr>"

definition position_of :: "position_row \<Rightarrow> sim_error + position" where
  "position_of r = engine (mk_position (pr_position r))"

text \<open>One row; an open position replaces a closed one of its symbol.\<close>

definition place_position :: "book \<Rightarrow> position_row \<Rightarrow> sim_error + book" where
  "place_position resolved r =
     bnd (position_of r) (\<lambda>p.
       Inr (case dget resolved (pos_symbol p) of
              None \<Rightarrow> dset (pos_symbol p) p resolved
            | Some old \<Rightarrow> if pos_is_open p \<and> \<not> pos_is_open old then dset (pos_symbol p) p resolved else resolved))"

definition positions_of :: "position_row list \<Rightarrow> sim_error + book" where
  "positions_of rows = foldm place_position [] rows"

text \<open>An order row as the field reader sees it.\<close>

definition order_source :: "order_row \<Rightarrow> source" where
  "order_source r = Mapped
     [''symbol'' \<mapsto> PyStr (ow_symbol r), ''side'' \<mapsto> PyStr (ow_side r), ''order_type'' \<mapsto> PyStr (ow_type r),
      ''quantity'' \<mapsto> D (ow_quantity r), ''filled_quantity'' \<mapsto> D (ow_filled r),
      ''limit_price'' \<mapsto> (case ow_limit r of None \<Rightarrow> PyNone | Some p \<Rightarrow> D p)] Map.empty"

text \<open>The totals of the fills of an order: quantity, notional, fee and slippage.\<close>

definition add_fill_totals ::
  "nat \<Rightarrow> accounting_config \<Rightarrow> decimal \<times> decimal \<times> int \<times> int \<Rightarrow> decimal \<times> decimal \<times> int \<times> int \<Rightarrow>
    sim_error + (decimal \<times> decimal \<times> int \<times> int)" where
  "add_fill_totals amb cfg acc row =
     (case acc of (quantity, notional, fee, slippage) \<Rightarrow>
      case row of (q, p, f, s) \<Rightarrow>
        bnd (engine (cfg_qty cfg (D q))) (\<lambda>rq.
        bnd (engine (cfg_price cfg (D p))) (\<lambda>rp.
          Inr (dec_add amb quantity rq, dec_add amb notional (dec_mul amb rq rp), fee + f, slippage + s))))"

definition fill_event_totals ::
  "nat \<Rightarrow> accounting_config \<Rightarrow> (decimal \<times> decimal \<times> int \<times> int) list \<Rightarrow>
    sim_error + (decimal \<times> decimal \<times> int \<times> int)" where
  "fill_event_totals amb cfg rows =
     bnd (foldm (add_fill_totals amb cfg) (dec_zero, dec_zero, 0, 0) rows) (\<lambda>(quantity, notional, fee, slippage).
     bnd (engine (cfg_qty cfg (D quantity))) (\<lambda>q. Inr (q, notional, fee, slippage)))"

definition totals_of :: "fill_row \<Rightarrow> decimal \<times> decimal \<times> int \<times> int" where
  "totals_of r = (fl_quantity r, fl_price r, fl_fee r, fl_slippage r)"

section \<open>One fill\<close>

record fill_request =
  rq_user :: string
  rq_session :: string
  rq_order :: string
  rq_account :: string
  rq_event :: string
  rq_quantity :: pyval
  rq_price :: pyval
  rq_at :: stamp
  rq_reference :: pyval
  rq_market :: "string option"
  rq_release :: pyval
  rq_series :: int

datatype fill_kind = FILL_APPLIED | FILL_TERMINAL | FILL_DUPLICATE

record fill_report =
  fo_kind :: fill_kind
  fo_order :: order_row
  fo_rows :: "commit_rows option"
  fo_filled :: decimal
  fo_attempts :: nat

definition require_session_text :: "string \<Rightarrow> sim_error + string" where
  "require_session_text v = (if py_strip v = [] then Inl InvalidOrderIntent else Inr (py_strip v))"

text \<open>The feed gate.\<close>

definition TRADEABLE_FEED_STATES :: "string list" where
  "TRADEABLE_FEED_STATES = [''HEALTHY'']"

definition admit_execution :: "session_row \<Rightarrow> sim_error + unit" where
  "admit_execution r =
     (let state = (case se_feed r of None \<Rightarrow> [] | Some t \<Rightarrow> py_strip t)
      in if state \<in> set TRADEABLE_FEED_STATES then Inr () else Inl FeedNotHealthy)"

text \<open>What a fill takes out of the locked balance.\<close>

definition at_most :: "decimal \<Rightarrow> decimal \<Rightarrow> decimal" where
  "at_most a b = (if dec_lt a b then a else b)"

definition release_for_fill ::
  "accounting_config \<Rightarrow> order_row \<Rightarrow> account \<Rightarrow> decimal \<Rightarrow> pyval \<Rightarrow> sim_error + decimal" where
  "release_for_fill cfg r a qty explicit =
     (if explicit \<noteq> PyNone then
        bnd (engine (cfg_money cfg explicit)) (\<lambda>e. Inr (at_most e (acc_locked a)))
      else if py_lower (py_strip (ow_type r)) \<noteq> ''limit'' then Inr dec_zero
      else
        bnd (event_decimal (Some (order_source r)) ''limit_price'') (\<lambda>l.
          case l of
            None \<Rightarrow> Inr dec_zero
          | Some limit \<Rightarrow>
              if dec_le limit dec_zero then Inr dec_zero
              else bnd (engine (required_funds [''quantity'' \<mapsto> D qty] (D limit) cfg)) (\<lambda>needed.
                     Inr (at_most needed (acc_locked a)))))"

text \<open>
  Guards 3 and 4: the over-fill and the transition. The result is the filled quantity after the
  fill, the fees and slippage before it, and the target state.
\<close>

definition other_fills :: "fill_row list \<Rightarrow> fill_row option \<Rightarrow> fill_row list" where
  "other_fills rows resumed = (case resumed of None \<Rightarrow> rows | Some r \<Rightarrow> remove1 r rows)"

definition fill_guards ::
  "nat \<Rightarrow> accounting_config \<Rightarrow> order_row \<Rightarrow> fill_row list \<Rightarrow> decimal \<Rightarrow>
    sim_error + (decimal \<times> int \<times> int \<times> paper_order_state)" where
  "fill_guards amb cfg r others qty =
     bnd (fill_event_totals amb cfg (map totals_of others)) (\<lambda>(prior, _, fee, slippage).
     bnd (engine (cfg_qty cfg (D (ow_quantity r)))) (\<lambda>ordered.
     bnd (engine (cfg_qty cfg (D (dec_add amb prior qty)))) (\<lambda>filled.
       if dec_lt ordered filled then Inl OverFill
       else
         let target = (if dec_eq filled ordered then PO_FILLED else PO_PARTIALLY_FILLED)
         in if paper_gate (ow_state r) target then Inr (filled, fee, slippage, target)
            else Inl (OrderInvalid ''ILLEGAL_TRANSITION''))))"

text \<open>An \<open>InvariantViolation\<close> of the engine becomes the simulator's error; others pass.\<close>

definition as_invariant :: "paper_error + 'a \<Rightarrow> sim_error + 'a" where
  "as_invariant r =
     (case r of
        Inl (InvariantViolation n) \<Rightarrow> Inl (SimInvariant n) | Inl e \<Rightarrow> Inl (Accounting e) | Inr x \<Rightarrow> Inr x)"

definition engine_fill ::
  "accounting_config \<Rightarrow> account \<Rightarrow> book \<Rightarrow> order_row \<Rightarrow> decimal \<Rightarrow> decimal \<Rightarrow> decimal \<Rightarrow> stamp \<Rightarrow> decimal \<Rightarrow>
    sim_error + fill_result" where
  "engine_fill cfg a book r qty price fee filled_at release =
     bnd (as_invariant (apply_fill a book [''symbol'' \<mapsto> PyStr (ow_symbol r), ''side'' \<mapsto> PyStr (ow_side r)]
            (D qty) (D price) (D fee) cfg (Some filled_at) (D release))) (\<lambda>res.
     bnd (as_invariant (assert_invariants (fr_account res) (dvalues (fr_positions res))
            (as_prices ((last_validated_prices (dvalues (fr_positions res)))(ow_symbol r \<mapsto> price))) (Some cfg)))
       (\<lambda>_. Inr res))"

definition or_stamp :: "stamp option \<Rightarrow> stamp \<Rightarrow> stamp" where
  "or_stamp t d = (case t of None \<Rightarrow> d | Some x \<Rightarrow> x)"

definition closed_leg_of :: "position option \<Rightarrow> position \<Rightarrow> stamp \<Rightarrow> (string \<times> decimal \<times> stamp) option" where
  "closed_leg_of existing new filled_at =
     (case existing of
        None \<Rightarrow> None
      | Some p \<Rightarrow>
          if pos_is_open p \<and> pos_side p \<noteq> pos_side new
          then Some (pos_side p, pos_entry_price p, or_stamp (pos_opened_at p) filled_at) else None)"

definition trade_payload ::
  "nat \<Rightarrow> session_config \<Rightarrow> fill_request \<Rightarrow> closed_trade option \<Rightarrow> sim_error + trade_row option" where
  "trade_payload amb c rq trade =
     (case trade of
        None \<Rightarrow> Inr None
      | Some t \<Rightarrow>
          bnd (minor_units amb (D (tr_fee t)) c) (\<lambda>fee.
            Inr (Some \<lparr>td_session = Some (rq_session rq), td_account = rq_account rq, td_user = rq_user rq,
              td_symbol = tr_symbol t, td_side = tr_side t, td_quantity = tr_quantity t,
              td_entry_price = tr_entry_price t, td_exit_price = tr_exit_price t,
              td_realized_pnl = tr_realized_pnl t, td_fee = fee,
              td_opened = or_stamp (tr_opened_at t) (rq_at rq), td_closed = or_stamp (tr_closed_at t) (rq_at rq)\<rparr>)))"

definition average_price ::
  "nat \<Rightarrow> accounting_config \<Rightarrow> decimal \<Rightarrow> decimal \<Rightarrow> sim_error + decimal" where
  "average_price amb cfg notional filled =
     (case dec_div amb notional filled of
        None \<Rightarrow> Inl (Accounting PaperDecimalSignal) | Some d \<Rightarrow> engine (cfg_price cfg (D d)))"

text \<open>The arithmetic, the closing assertion, and everything the transaction is given.\<close>

definition settle_fill ::
  "nat \<Rightarrow> session_config \<Rightarrow> accounting_config \<Rightarrow> fill_request \<Rightarrow> decimal \<Rightarrow> decimal \<Rightarrow> account_row \<Rightarrow>
    order_row \<Rightarrow> fill_row list \<Rightarrow> fill_row option \<Rightarrow> position_row list \<Rightarrow>
    decimal \<times> int \<times> int \<times> paper_order_state \<Rightarrow> sim_error + fill_commit" where
  "settle_fill amb c cfg rq qty price acct r others resumed prows guards =
     (case guards of (filled, prior_fee, prior_slippage, target) \<Rightarrow>
     bnd (positions_of prows) (\<lambda>book.
     bnd (engine (cfg_price cfg (if rq_reference rq \<noteq> PyNone then rq_reference rq
            else case ow_reference r of None \<Rightarrow> D price
                 | Some x \<Rightarrow> D x))) (\<lambda>ref.
     bnd (fee_amount amb (D qty) (D price) c) (\<lambda>fee.
     bnd (slippage_amount amb (D qty) (D price) (D ref) c) (\<lambda>slippage.
     bnd (release_for_fill cfg r (account_of acct) qty (rq_release rq)) (\<lambda>release.
     bnd (engine_fill cfg (account_of acct) book r qty price fee (rq_at rq) release) (\<lambda>res.
     bnd (minor_units amb (D fee) c) (\<lambda>fee_minor.
     bnd (minor_units amb (D slippage) c) (\<lambda>slippage_minor.
     bnd (fill_event_totals amb cfg (map totals_of others @ [(qty, price, fee_minor, slippage_minor)]))
       (\<lambda>(_, notional, _, _).
     bnd (trade_payload amb c rq (fr_closed_trade res)) (\<lambda>trade.
     bnd (average_price amb cfg notional filled) (\<lambda>avg.
       Inr \<lparr>fc_user = rq_user rq, fc_account = rq_account rq, fc_order = rq_order rq,
         fc_session = Some (rq_session rq), fc_event = rq_event rq, fc_version = ac_version acct,
         fc_state = ow_state r, fc_resume = map_option fl_id resumed, fc_quantity = qty, fc_price = price,
         fc_fee = fee_minor, fc_slippage = slippage_minor, fc_market = rq_market rq, fc_at = rq_at rq,
         fc_money = fr_account res, fc_available_delta = fr_available_delta res,
         fc_locked_delta = fr_locked_delta res, fc_realized_delta = fr_realized_delta res,
         fc_target = target, fc_filled = filled, fc_avg = avg, fc_order_fee = prior_fee + fee_minor,
         fc_order_slippage = prior_slippage + slippage_minor,
         fc_position = (fr_position res)\<lparr>pos_symbol := ow_symbol r,
           pos_opened_at := Some (or_stamp (pos_opened_at (fr_position res)) (rq_at rq)),
           pos_price_at := Some (rq_at rq)\<rparr>,
         fc_closed_leg = closed_leg_of (dget book (ow_symbol r)) (fr_position res) (rq_at rq),
         fc_trade = trade, fc_series = rq_series rq, fc_market_value = fr_market_value res\<rparr>))))))))))))"

lemma settle_fill_fields:
  "settle_fill amb c cfg rq qty price acct r others resumed prows g = Inr fc \<Longrightarrow>
    fc_user fc = rq_user rq \<and> fc_account fc = rq_account rq \<and> fc_order fc = rq_order rq \<and>
    fc_session fc = Some (rq_session rq) \<and> fc_event fc = rq_event rq \<and> fc_version fc = ac_version acct \<and>
    fc_state fc = ow_state r \<and> fc_resume fc = map_option fl_id resumed \<and> fc_quantity fc = qty \<and>
    fc_price fc = price \<and> fc_at fc = rq_at rq \<and> fc_filled fc = fst g \<and> fc_target fc = snd (snd (snd g))"
  by (auto simp: settle_fill_def result_simps split: prod.splits)

definition unchanged :: "fill_kind \<Rightarrow> order_row \<Rightarrow> nat \<Rightarrow> fill_report" where
  "unchanged kind r n = \<lparr>fo_kind = kind, fo_order = r, fo_rows = None, fo_filled = dec_zero, fo_attempts = n\<rparr>"

definition on_duplicate :: "'a run \<Rightarrow> 'a \<Rightarrow> 'a run" where
  "on_duplicate m alt w = (case m w of (Inl e, w') \<Rightarrow> (if e = DuplicateFill then Inr alt else Inl e, w') | r \<Rightarrow> r)"

text \<open>The commit; the unique key of the fills turns a repeated delivery into the duplicate report.\<close>

definition commit_or_duplicate ::
  "environment \<Rightarrow> fill_commit \<Rightarrow> order_row \<Rightarrow> nat \<Rightarrow> decimal \<Rightarrow> fill_report run" where
  "commit_or_duplicate E fc r n filled =
     on_duplicate
       (andthen (apply_fill_atomic E fc) (\<lambda>out. pure_run (Inr
          \<lparr>fo_kind = FILL_APPLIED, fo_order = cr_order out, fo_rows = Some out, fo_filled = filled,
           fo_attempts = n\<rparr>)))
       (unchanged FILL_DUPLICATE r n)"

text \<open>From the feed gate to the commit.\<close>

definition fill_from_gate ::
  "environment \<Rightarrow> nat \<Rightarrow> session_config \<Rightarrow> accounting_config \<Rightarrow> fill_request \<Rightarrow> decimal \<Rightarrow> decimal \<Rightarrow> nat \<Rightarrow>
    account_row \<Rightarrow> order_row \<Rightarrow> fill_row list \<Rightarrow> fill_row option \<Rightarrow> fill_report run" where
  "fill_from_gate E amb c cfg rq qty price n acct r rows resumed =
     andthen (read_session E (rq_user rq) (rq_session rq)) (\<lambda>se.
     andthen (pure_run (case se of None \<Rightarrow> Inl InvalidOrderIntent | Some row \<Rightarrow> admit_execution row)) (\<lambda>_.
     andthen (pure_run (fill_guards amb cfg r (other_fills rows resumed) qty)) (\<lambda>g.
     andthen (get_positions E (rq_user rq) (rq_account rq) None True) (\<lambda>prows.
     andthen (pure_run (settle_fill amb c cfg rq qty price acct r (other_fills rows resumed) resumed prows g)) (\<lambda>fc.
       commit_or_duplicate E fc r n (fst g))))))"

definition fill_attempt ::
  "environment \<Rightarrow> nat \<Rightarrow> session_config \<Rightarrow> accounting_config \<Rightarrow> fill_request \<Rightarrow> decimal \<Rightarrow> decimal \<Rightarrow> nat \<Rightarrow>
    fill_report run" where
  "fill_attempt E amb c cfg rq qty price n =
     andthen (lock_account_for_update E (rq_user rq) (rq_account rq)) (\<lambda>acct.
     andthen (read_order E (rq_user rq) (rq_order rq)) (\<lambda>found.
     case found of
       None \<Rightarrow> pure_run (Inl InvalidOrderIntent)
     | Some r \<Rightarrow>
         if paper_terminal_state (ow_state r) then pure_run (Inr (unchanged FILL_TERMINAL r n))
         else
           andthen (get_fills E (rq_user rq) (Some (rq_session rq)) (rq_order rq)) (\<lambda>rows.
             case find (\<lambda>f. fl_event f = rq_event rq) rows of
               None \<Rightarrow> fill_from_gate E amb c cfg rq qty price n acct r rows None
             | Some f \<Rightarrow>
                 andthen (get_balance_events E (rq_user rq) (rq_account rq) (Some (rq_session rq)) ''FILL'')
                   (\<lambda>ledger.
                     if list_ex (\<lambda>l. ld_fill l = Some (fl_id f)) ledger
                     then pure_run (Inr (unchanged FILL_DUPLICATE r n))
                     else fill_from_gate E amb c cfg rq qty price n acct r rows (Some f)))))"

definition clean_request :: "fill_request \<Rightarrow> sim_error + fill_request" where
  "clean_request rq =
     bnd (require_session_text (rq_user rq)) (\<lambda>u.
     bnd (require_session_text (rq_session rq)) (\<lambda>s.
     bnd (require_session_text (rq_order rq)) (\<lambda>oid.
     bnd (require_session_text (rq_account rq)) (\<lambda>a.
     if py_strip (rq_event rq) = [] then Inl InvalidOrderIntent
     else Inr (rq\<lparr>rq_user := u, rq_session := s, rq_order := oid, rq_account := a,
                  rq_event := py_strip (rq_event rq)\<rparr>)))))"

definition sim_apply_fill ::
  "environment \<Rightarrow> nat \<Rightarrow> session_config \<Rightarrow> fill_request \<Rightarrow> fill_report run" where
  "sim_apply_fill E amb c rq0 =
     andthen (pure_run (clean_request rq0)) (\<lambda>rq.
     andthen (pure_run (sc_accounting c)) (\<lambda>cfg.
     andthen (pure_run (engine (cfg_qty cfg (rq_quantity rq)))) (\<lambda>qty.
     andthen (pure_run (engine (cfg_price cfg (rq_price rq)))) (\<lambda>price.
       if dec_le qty dec_zero \<or> dec_le price dec_zero then pure_run (Inl InvalidOrderIntent)
       else with_retries RETRY_ATTEMPTS (fill_attempt E amb c cfg rq qty price)))))"

end
