(* ===== verification/Sim_Clients.thy ===== *)
theory Sim_Clients
  imports Sim_Fill
begin

text \<open>
  Several clients on one database. The specification of a fill is \<open>plan_fill\<close>, decided on one store,
  followed by the transaction; \<open>client_step\<close> are the single statements of the simulator. The locale
  \<open>disciplined\<close> says what an attempt needs of the others; it is interpreted on the clients, and gives
  that a fill made of seven statements is one step at the moment of its commit.
\<close>

section \<open>A fill decided on one store\<close>

definition existing_fill :: "fill_request \<Rightarrow> store \<Rightarrow> fill_row option" where
  "existing_fill rq s =
     find (\<lambda>f. fl_event f = rq_event rq) (fills_of (rq_user rq) (Some (rq_session rq)) (rq_order rq) s)"

definition settled :: "fill_request \<Rightarrow> fill_row \<Rightarrow> store \<Rightarrow> bool" where
  "settled rq f s \<longleftrightarrow>
     list_ex (\<lambda>l. ld_fill l = Some (fl_id f)) (ledger_of (rq_user rq) (rq_account rq) (Some (rq_session rq)) ''FILL'' s)"

definition fill_ready :: "fill_request \<Rightarrow> order_row \<Rightarrow> store \<Rightarrow> bool" where
  "fill_ready rq r s \<longleftrightarrow> \<not> paper_terminal_state (ow_state r) \<and>
     (case existing_fill rq s of None \<Rightarrow> True | Some f \<Rightarrow> \<not> settled rq f s)"

definition plan_fill ::
  "nat \<Rightarrow> session_config \<Rightarrow> accounting_config \<Rightarrow> fill_request \<Rightarrow> decimal \<Rightarrow> decimal \<Rightarrow> store \<Rightarrow>
    sim_error + fill_commit" where
  "plan_fill amb c cfg rq qty price s =
     (case (find_account (rq_user rq) (rq_account rq) s, find_order (rq_user rq) (rq_order rq) s) of
        (Some acct, Some r) \<Rightarrow>
          let others = other_fills (fills_of (rq_user rq) (Some (rq_session rq)) (rq_order rq) s) (existing_fill rq s)
          in bnd (fill_guards amb cfg r others qty) (\<lambda>g.
               settle_fill amb c cfg rq qty price acct r others (existing_fill rq s)
                 (positions_in (rq_user rq) (rq_account rq) None True s) g)
      | _ \<Rightarrow> Inl PersistenceError)"

text \<open>The columns of an order that no client changes.\<close>

definition order_fixed :: "order_row \<Rightarrow> order_row" where
  "order_fixed r = r\<lparr>ow_filled := dec_zero, ow_avg := None, ow_fee := 0, ow_slippage := 0,
     ow_state := PO_CREATED, ow_legacy := [], ow_reason := None\<rparr>"

lemma order_fixed_eq:
  "order_fixed r = order_fixed r' \<longleftrightarrow> ow_user r = ow_user r' \<and> ow_session r = ow_session r' \<and>
     ow_account r = ow_account r' \<and> ow_symbol r = ow_symbol r' \<and> ow_side r = ow_side r' \<and> ow_type r = ow_type r' \<and>
     ow_quantity r = ow_quantity r' \<and> ow_limit r = ow_limit r' \<and> ow_reference r = ow_reference r' \<and>
     ow_key r = ow_key r' \<and> ow_signal r = ow_signal r' \<and> ow_fingerprint r = ow_fingerprint r' \<and> ow_created r = ow_created r'"
  by (cases r; cases r') (auto simp: order_fixed_def)

text \<open>The decision reads only the fixed columns and the state.\<close>

lemma order_source_fixed: "order_fixed r = order_fixed r' \<Longrightarrow> event_decimal (Some (order_source r)) ''limit_price'' =
    event_decimal (Some (order_source r')) ''limit_price''"
  by (simp add: order_fixed_eq event_decimal_def raw_field_def order_source_def)

lemma fill_guards_fixed: "order_fixed r = order_fixed r' \<Longrightarrow> ow_state r = ow_state r' \<Longrightarrow>
    fill_guards amb cfg r others qty = fill_guards amb cfg r' others qty"
  by (simp add: fill_guards_def order_fixed_eq cong: if_cong)

lemma release_fixed: "order_fixed r = order_fixed r' \<Longrightarrow>
    release_for_fill cfg r a qty x = release_for_fill cfg r' a qty x"
  using order_source_fixed [of r r'] by (simp add: release_for_fill_def order_fixed_eq)

lemma settle_fill_fixed:
  assumes "order_fixed r = order_fixed r'" and "ow_state r = ow_state r'"
  shows "settle_fill amb c cfg rq qty price acct r others res prows g =
    settle_fill amb c cfg rq qty price acct r' others res prows g"
proof -
  have e: "engine_fill cfg a book r q p fee t rel = engine_fill cfg a book r' q p fee t rel" for a book q p fee t rel
    using assms by (simp add: engine_fill_def order_fixed_eq)
  show ?thesis using assms unfolding settle_fill_def e release_fixed [OF assms(1)]
    by (simp add: order_fixed_eq)
qed

section \<open>What an attempt needs of the other clients\<close>

text \<open>
  A failure whose outcome is unknown is a \<open>PersistenceError\<close>; a serialization failure was not applied.
\<close>

definition faults_ok :: "environment \<Rightarrow> bool" where
  "faults_ok E \<longleftrightarrow> (\<forall>n e b. en_fault E n = Some (e, b) \<longrightarrow> e = PersistenceError \<or> (e = SerializationFailure \<and> \<not> b))"

text \<open>
  A fill committed between the stores \<open>s\<close> and \<open>s'\<close>: the feed was tradeable at the gate, and on
  the store of the commit the fill was still to be made and decided as the specification says.
\<close>

definition committed ::
  "(store \<Rightarrow> store \<Rightarrow> bool) \<Rightarrow> environment \<Rightarrow> nat \<Rightarrow> session_config \<Rightarrow> accounting_config \<Rightarrow> fill_request \<Rightarrow>
    decimal \<Rightarrow> decimal \<Rightarrow> store \<Rightarrow> sim_error + fill_report \<Rightarrow> store \<Rightarrow> bool" where
  "committed R E amb c cfg rq qty price s res s' \<longleftrightarrow>
     (\<exists>gate t r fc out. R s gate \<and> R gate t \<and>
        (\<exists>se. dget (st_sessions gate) (rq_session rq) = Some se \<and> se_user se = rq_user rq \<and> admit_execution se = Inr ()) \<and>
        find_order (rq_user rq) (rq_order rq) t = Some r \<and> fill_ready rq r t \<and>
        plan_fill amb c cfg rq qty price t = Inr fc \<and>
        paper_apply_fill_atomic E fc t = Inr (out, s') \<and>
        ((\<exists>n. res = Inr \<lparr>fo_kind = FILL_APPLIED, fo_order = cr_order out, fo_rows = Some out, fo_filled = fc_filled fc,
                   fo_attempts = n\<rparr>) \<or> (res = Inl PersistenceError \<and> (\<exists>n. en_fault E n = Some (PersistenceError, True)))))"

text \<open>What a call decides before its first statement.\<close>

definition figures_of ::
  "session_config \<Rightarrow> fill_request \<Rightarrow> sim_error + (fill_request \<times> accounting_config \<times> decimal \<times> decimal)" where
  "figures_of c rq0 =
     bnd (clean_request rq0) (\<lambda>rq. bnd (sc_accounting c) (\<lambda>cfg.
     bnd (engine (cfg_qty cfg (rq_quantity rq))) (\<lambda>qty. bnd (engine (cfg_price cfg (rq_price rq))) (\<lambda>price.
       if dec_le qty dec_zero \<or> dec_le price dec_zero then Inl InvalidOrderIntent else Inr (rq, cfg, qty, price)))))"

lemma fill_figures:
  "figures_of c rq0 = Inr (rq, cfg, qty, price) \<Longrightarrow>
    sim_apply_fill E amb c rq0 w = with_retries RETRY_ATTEMPTS (fill_attempt E amb c cfg rq qty price) w"
  by (auto simp: figures_of_def sim_apply_fill_def andthen_def pure_run_def result_simps split: if_splits)

lemma fill_refused: "figures_of c rq0 = Inl e \<Longrightarrow> sim_apply_fill E amb c rq0 w = (Inl e, w)"
  by (auto simp: figures_of_def sim_apply_fill_def andthen_def pure_run_def result_simps split: if_splits)

locale disciplined =
  fixes R :: "store \<Rightarrow> store \<Rightarrow> bool"
  assumes refl: "R s s"
    and trans: "R s t \<Longrightarrow> R t v \<Longrightarrow> R s v"
    and version_grows: "R s t \<Longrightarrow> find_account u aid s = Some a \<Longrightarrow>
      \<exists>b. find_account u aid t = Some b \<and> ac_version a \<le> ac_version b"
    and version_guards: "R s t \<Longrightarrow> find_account u aid s = Some a \<Longrightarrow> find_account u aid t = Some b \<Longrightarrow>
      ac_version b = ac_version a \<Longrightarrow> find_order u oid s = Some r \<Longrightarrow> ow_account r = aid \<Longrightarrow>
      b = a \<and> fills_of u sid oid t = fills_of u sid oid s \<and>
      ledger_of u aid sid ''FILL'' t = ledger_of u aid sid ''FILL'' s \<and>
      positions_in u aid None True t = positions_in u aid None True s"
    and order_stays: "R s t \<Longrightarrow> find_order u oid s = Some r \<Longrightarrow>
      \<exists>r'. find_order u oid t = Some r' \<and> order_fixed r' = order_fixed r"
begin

definition guarded :: "environment \<Rightarrow> bool" where
  "guarded E \<longleftrightarrow> (\<forall>n s. R s (en_act E n s))"

definition calm :: "environment \<Rightarrow> 'a run \<Rightarrow> bool" where
  "calm E m \<longleftrightarrow> (\<forall>w. R (w_store w) (w_store (snd (m w))))"

lemma calmD: "calm E m \<Longrightarrow> m w = (r, w') \<Longrightarrow> R (w_store w) (w_store w')"
  unfolding calm_def by (metis snd_conv)

lemma found_R: "guarded E \<Longrightarrow> R (w_store w) (found E w)"
  by (simp add: guarded_def found_def)

lemma read_R: "guarded E \<Longrightarrow> read_store E f w = (r, w') \<Longrightarrow> R (w_store w) (w_store w')"
  using read_store_step found_R by metis

text \<open>The commit either only lets the others work, or is the transaction.\<close>

lemma commit_trace:
  assumes g: "guarded E" and fl: "faults_ok E"
    and run: "commit_or_duplicate E fc r n filled w = (res, w')"
  obtains
    (calm) "w_store w' = found E w" "\<And>rep. res = Inr rep \<Longrightarrow> rep = unchanged FILL_DUPLICATE r n"
  | (committed) out where "paper_apply_fill_atomic E fc (found E w) = Inr (out, w_store w')"
      "res = Inr \<lparr>fo_kind = FILL_APPLIED, fo_order = cr_order out, fo_rows = Some out, fo_filled = filled,
             fo_attempts = n\<rparr> \<or> (res = Inl PersistenceError \<and> (\<exists>n. en_fault E n = Some (PersistenceError, True)))"
proof -
  obtain r0 w0 where st: "apply_fill_atomic E fc w = (r0, w0)" by fastforce
  note sc = statement_commit [OF st [unfolded apply_fill_atomic_def]]
  have fault: "en_fault E (w_step w) = Some (e, b) \<Longrightarrow> e = PersistenceError \<or> e = SerializationFailure \<and> \<not> b" for e b
    using fl unfolding faults_ok_def by blast
  show thesis
  proof (cases r0)
    case (Inl e)
    then have w': "w' = w0" and r: "res = (if e = DuplicateFill then Inr (unchanged FILL_DUPLICATE r n) else Inl e)"
      using run st by (auto simp: commit_or_duplicate_def on_duplicate_def andthen_def)
    show thesis
    proof (cases "w_store w0 = found E w")
      case True
      then show thesis using calm w' r by (simp split: if_splits)
    next
      case False
      then obtain x where x: "paper_apply_fill_atomic E fc (found E w) = Inr (x, w_store w0)"
        and e: "en_fault E (w_step w) = Some (e, True)" using sc(2) Inl by auto
      then have "e = PersistenceError" using fault by blast
      then show thesis using committed x e w' r by auto
    qed
  next
    case (Inr out)
    then have "paper_apply_fill_atomic E fc (found E w) = Inr (out, w_store w0)" using sc(3) by blast
    then show thesis using run st Inr committed
      by (auto simp: commit_or_duplicate_def on_duplicate_def andthen_def pure_run_def)
  qed
qed

text \<open>From the gate on: nothing but the others' work is seen until the commit.\<close>

lemma gate_trace:
  assumes g: "guarded E" and fl: "faults_ok E"
    and run: "fill_from_gate E amb c cfg rq qty price n acct r rows resumed w = (res, w')"
  obtains
    (calm) "R (w_store w) (w_store w')" "\<And>rep. res = Inr rep \<Longrightarrow> rep = unchanged FILL_DUPLICATE r n"
  | (committed) s5 s6 s7 se gd fc out where "R (w_store w) s5" "R s5 s6" "R s6 s7"
      "dget (st_sessions s5) (rq_session rq) = Some se" "se_user se = rq_user rq" "admit_execution se = Inr ()"
      "fill_guards amb cfg r (other_fills rows resumed) qty = Inr gd"
      "settle_fill amb c cfg rq qty price acct r (other_fills rows resumed) resumed
        (positions_in (rq_user rq) (rq_account rq) None True s6) gd = Inr fc"
      "paper_apply_fill_atomic E fc s7 = Inr (out, w_store w')"
      "res = Inr \<lparr>fo_kind = FILL_APPLIED, fo_order = cr_order out, fo_rows = Some out, fo_filled = fst gd,
             fo_attempts = n\<rparr> \<or> (res = Inl PersistenceError \<and> (\<exists>n. en_fault E n = Some (PersistenceError, True)))"
proof -
  obtain r1 w1 where st1: "read_session E (rq_user rq) (rq_session rq) w = (r1, w1)" by fastforce
  have w1: "w_store w1 = found E w" and R1: "R (w_store w) (found E w)"
    using read_store_step [OF st1 [unfolded read_session_def]] found_R [OF g] by auto
  obtain r2 w2 where st2: "get_positions E (rq_user rq) (rq_account rq) None True w1 = (r2, w2)" by fastforce
  have w2: "w_store w2 = found E w1" and R2: "R (found E w) (found E w1)"
    using read_store_step [OF st2 [unfolded get_positions_def]] found_R [OF g, of w1] w1 by auto
  have R3: "R (found E w1) (found E w2)" using found_R [OF g, of w2] w2 by simp
  show thesis
  proof (cases "\<exists>se gd prows fc. r1 = Inr (Some se) \<and> admit_execution se = Inr () \<and>
      fill_guards amb cfg r (other_fills rows resumed) qty = Inr gd \<and> r2 = Inr prows \<and>
      settle_fill amb c cfg rq qty price acct r (other_fills rows resumed) resumed prows gd = Inr fc")
    case True
    then obtain se gd prows fc where d: "r1 = Inr (Some se)" "admit_execution se = Inr ()"
      "fill_guards amb cfg r (other_fills rows resumed) qty = Inr gd" "r2 = Inr prows"
      "settle_fill amb c cfg rq qty price acct r (other_fills rows resumed) resumed prows gd = Inr fc" by blast
    have c: "commit_or_duplicate E fc r n (fst gd) w2 = (res, w')"
      using run st1 st2 d by (simp add: fill_from_gate_def andthen_def pure_run_def)
    have se: "dget (st_sessions (found E w)) (rq_session rq) = Some se" "se_user se = rq_user rq"
      using read_store_Inr [OF st1 [unfolded read_session_def d(1)]] by (auto split: option.splits if_splits)
    have pr: "prows = positions_in (rq_user rq) (rq_account rq) None True (found E w1)"
      using read_store_Inr [OF st2 [unfolded get_positions_def d(4)]] by simp
    show thesis
    proof (rule commit_trace [OF g fl c])
      assume "w_store w' = found E w2" "\<And>rep. res = Inr rep \<Longrightarrow> rep = unchanged FILL_DUPLICATE r n"
      then show thesis using that(1) trans [OF trans [OF R1 R2] R3] by simp
    qed (rule that(2) [OF R1 R2 R3 se d(2,3) d(5) [unfolded pr]], assumption+)
  next
    case False
    then have "(w' = w1 \<or> w' = w2) \<and> (\<exists>e. res = Inl e)"
      using run st1 st2 unfolding fill_from_gate_def
      by (cases r1; cases r2) (auto simp: andthen_def pure_run_def split: option.splits prod.splits sum.splits)
    then show thesis using that(1) w1 w2 R1 trans [OF R1 R2] by auto
  qed
qed

text \<open>Between two reads of one version nothing of the account moved.\<close>

lemma pinned:
  assumes R0: "R s0 s" and R1: "R s t" and a: "find_account u aid s0 = Some a" and b: "find_account u aid t = Some b"
    and v: "ac_version b = ac_version a" and o0: "find_order u oid s0 = Some r" and acc: "ow_account r = aid"
  shows "b = a" "fills_of u sid oid t = fills_of u sid oid s"
    "ledger_of u aid sid ''FILL'' t = ledger_of u aid sid ''FILL'' s"
    "positions_in u aid None True t = positions_in u aid None True s"
proof -
  show "b = a" using version_guards [OF trans [OF R0 R1] a b v o0 acc] by blast
  obtain a' where a': "find_account u aid s = Some a'" "ac_version a \<le> ac_version a'" using version_grows [OF R0 a] by blast
  have "ac_version a' \<le> ac_version b" using version_grows [OF R1 a'(1)] b by auto
  then have v': "ac_version b = ac_version a'" using v a'(2) by simp
  obtain r' where r': "find_order u oid s = Some r'" "order_fixed r' = order_fixed r" using order_stays [OF R0 o0] by blast
  have acc': "ow_account r' = aid" using r'(2) acc by (simp add: order_fixed_eq)
  show "fills_of u sid oid t = fills_of u sid oid s" "ledger_of u aid sid ''FILL'' t = ledger_of u aid sid ''FILL'' s"
    "positions_in u aid None True t = positions_in u aid None True s"
    using version_guards [OF R1 a'(1) b v' r'(1) acc', of sid] by blast+
qed

lemma attempt_trace:
  assumes g: "guarded E" and fl: "faults_ok E"
    and ord: "find_order (rq_user rq) (rq_order rq) (w_store w) = Some r0" and acc: "ow_account r0 = rq_account rq"
    and run: "fill_attempt E amb c cfg rq qty price n w = (res, w')"
  obtains
    (calm) "R (w_store w) (w_store w')" "\<And>rep. res = Inr rep \<Longrightarrow> fo_kind rep \<noteq> FILL_APPLIED \<and> fo_rows rep = None"
  | (commit) "committed R E amb c cfg rq qty price (w_store w) res (w_store w')"
proof -
  note calmI = that(1) and commitI = that(2)
  define u where "u = rq_user rq"
  define aid where "aid = rq_account rq"
  define oid where "oid = rq_order rq"
  define sid where "sid = Some (rq_session rq)"
  note defs = u_def aid_def oid_def sid_def
  obtain r1 w1 where st1: "lock_account_for_update E u aid w = (r1, w1)" by fastforce
  obtain r2 w2 where st2: "read_order E u oid w1 = (r2, w2)" by fastforce
  obtain r3 w3 where st3: "get_fills E u sid oid w2 = (r3, w3)" by fastforce
  obtain r4 w4 where st4: "get_balance_events E u aid sid ''FILL'' w3 = (r4, w4)" by fastforce
  have w: "w_store w1 = found E w" "w_store w2 = found E w1" "w_store w3 = found E w2" "w_store w4 = found E w3"
    using read_store_step [OF st1 [unfolded lock_account_for_update_def]] read_store_step [OF st2 [unfolded read_order_def]]
      read_store_step [OF st3 [unfolded get_fills_def]] read_store_step [OF st4 [unfolded get_balance_events_def]] by auto
  have R1: "R (w_store w) (found E w)" and R2: "R (found E w) (found E w1)" and R3: "R (found E w1) (found E w2)"
    and R4: "R (found E w2) (found E w3)"
    using found_R [OF g, of w] found_R [OF g, of w1] found_R [OF g, of w2] found_R [OF g, of w3] w by auto
  obtain q0 where q0: "find_order u oid (found E w) = Some q0" "ow_account q0 = aid"
    using order_stays [OF R1 ord [folded defs]] acc by (auto simp: order_fixed_eq aid_def)
  have gate: thesis
    if h1: "r1 = Inr acct" and h2: "r2 = Inr (Some r)" and h3: "r3 = Inr rows"
      and nt: "\<not> paper_terminal_state (ow_state r)"
      and res: "resumed = find (\<lambda>f. fl_event f = rq_event rq) rows"
      and fresh: "\<And>f. resumed = Some f \<Longrightarrow> v = w4 \<and>
        \<not> list_ex (\<lambda>l. ld_fill l = Some (fl_id f)) (ledger_of u aid sid ''FILL'' (found E w3))"
      and v: "R (found E w2) (w_store v)"
      and go: "fill_from_gate E amb c cfg rq qty price n acct r rows resumed v = (res, w')" for acct r rows resumed v
  proof (rule gate_trace [OF g fl go])
    assume k: "R (w_store v) (w_store w')" and d: "\<And>rep. res = Inr rep \<Longrightarrow> rep = unchanged FILL_DUPLICATE r n"
    have "fo_kind rep \<noteq> FILL_APPLIED \<and> fo_rows rep = None" if "res = Inr rep" for rep
      using d [OF that] by (simp add: unchanged_def)
    then show thesis by (rule calmI [OF trans [OF R1 trans [OF R2 trans [OF R3 trans [OF v k]]]]])
  next
    fix s5 s6 s7 se gd fc out
    assume p: "R (w_store v) s5" "R s5 s6" "R s6 s7" "dget (st_sessions s5) (rq_session rq) = Some se"
      "se_user se = rq_user rq" "admit_execution se = Inr ()"
      and gd: "fill_guards amb cfg r (other_fills rows resumed) qty = Inr gd"
      and fc: "settle_fill amb c cfg rq qty price acct r (other_fills rows resumed) resumed
        (positions_in (rq_user rq) (rq_account rq) None True s6) gd = Inr fc"
      and at_commit: "paper_apply_fill_atomic E fc s7 = Inr (out, w_store w')"
      and rep: "res = Inr \<lparr>fo_kind = FILL_APPLIED, fo_order = cr_order out, fo_rows = Some out, fo_filled = fst gd,
             fo_attempts = n\<rparr> \<or> (res = Inl PersistenceError \<and> (\<exists>n. en_fault E n = Some (PersistenceError, True)))"
    note ff = settle_fill_fields [OF fc]
    obtain b q where b: "find_account u aid s7 = Some b" "ac_version b = ac_version acct"
      and q: "find_order u oid s7 = Some q" "ow_state q = ow_state r"
      using atomic_effect [OF at_commit] ff by (metis defs)
    have a1: "find_account u aid (found E w) = Some acct"
      using read_store_Inr [OF st1 [unfolded lock_account_for_update_def h1]] by (auto split: option.splits)
    have b2: "find_order u oid (found E w1) = Some r"
      using read_store_Inr [OF st2 [unfolded read_order_def h2]] by simp
    have c3: "rows = fills_of u sid oid (found E w2)"
      using read_store_Inr [OF st3 [unfolded get_fills_def h3]] by simp
    have t57: "R s5 s7" and t27: "R (found E w2) s7" and t67: "R s6 s7"
      using p(1,2,3) v trans by blast+
    have t16: "R (found E w) s6" "R (found E w) (found E w2)" using R2 R3 p(1,2) v trans by blast+
    note pin = pinned [OF _ _ a1 b(1) b(2) q0]
    have "b = acct" and fills: "fills_of u sid oid s7 = rows"
      using pin(1,2) [OF t16(2) t27] c3 by blast+
    have pos: "positions_in u aid None True s7 = positions_in u aid None True s6" using pin(4) [OF t16(1) t67] .
    have ex: "existing_fill rq s7 = resumed" using fills res by (simp add: existing_fill_def defs)
    have fixed: "order_fixed q = order_fixed r"
      using order_stays [OF trans [OF R3 t27] b2] q(1) by auto
    have ready: "fill_ready rq q s7"
    proof (cases resumed)
      case (Some f)
      then have v4: "v = w4" and un: "\<not> list_ex (\<lambda>l. ld_fill l = Some (fl_id f)) (ledger_of u aid sid ''FILL'' (found E w3))"
        using fresh by blast+
      have "R (found E w3) s7" using p(1,2,3) v4 w(4) trans by metis
      then have "ledger_of u aid sid ''FILL'' s7 = ledger_of u aid sid ''FILL'' (found E w3)"
        using pin(3) [OF trans [OF t16(2) R4]] by blast
      then show ?thesis using nt q(2) un ex Some by (simp add: fill_ready_def settled_def defs)
    qed (use nt q(2) ex in \<open>simp add: fill_ready_def\<close>)
    have plan: "plan_fill amb c cfg rq qty price s7 = Inr fc"
      using b(1) q(1) gd fc fills ex pos \<open>b = acct\<close> fill_guards_fixed [OF fixed q(2)]
        settle_fill_fixed [OF fixed q(2)]
      by (simp add: plan_fill_def defs)
    have "R (w_store w) s5" using R1 R2 R3 p(1) v trans by blast
    then have "committed R E amb c cfg rq qty price (w_store w) res (w_store w')"
      unfolding committed_def using t57 p(4,5,6) q(1) ready plan at_commit rep ff by (metis defs(1,3))
    then show thesis by (rule commitI)
  qed
  have stop: thesis if "w_store w' \<in> {found E w, found E w1, found E w2, found E w3}"
    and "\<And>rep. res = Inr rep \<Longrightarrow> fo_kind rep \<noteq> FILL_APPLIED \<and> fo_rows rep = None"
    using that calmI R1 trans [OF R1 R2] trans [OF R1 trans [OF R2 R3]] trans [OF R1 trans [OF R2 trans [OF R3 R4]]]
    by auto
  note go = run [unfolded fill_attempt_def, folded defs]
  show thesis
  proof (cases "\<exists>acct r rows. r1 = Inr acct \<and> r2 = Inr (Some r) \<and> \<not> paper_terminal_state (ow_state r) \<and> r3 = Inr rows")
    case True
    then obtain acct r rows where d: "r1 = Inr acct" "r2 = Inr (Some r)" "\<not> paper_terminal_state (ow_state r)"
      "r3 = Inr rows" by blast
    show thesis
    proof (cases "find (\<lambda>f. fl_event f = rq_event rq) rows")
      case None
      then have "fill_from_gate E amb c cfg rq qty price n acct r rows None w3 = (res, w')"
        using go st1 st2 st3 d by (simp add: andthen_def)
      then show thesis using gate [OF d(1,2,4,3) None [symmetric], of w3] w(3) refl by simp
    next
      case (Some f)
      have l: "ledger = ledger_of u aid sid ''FILL'' (found E w3)" if "r4 = Inr ledger" for ledger
        using read_store_Inr [OF st4 [unfolded get_balance_events_def that]] by simp
      show thesis
      proof (cases "\<exists>ledger. r4 = Inr ledger \<and> \<not> list_ex (\<lambda>l. ld_fill l = Some (fl_id f)) ledger")
        case True
        then obtain ledger where lr: "r4 = Inr ledger" and un: "\<not> list_ex (\<lambda>l. ld_fill l = Some (fl_id f)) ledger" by blast
        then have "fill_from_gate E amb c cfg rq qty price n acct r rows (Some f) w4 = (res, w')"
          using go st1 st2 st3 st4 d Some by (simp add: andthen_def)
        then show thesis using gate [OF d(1,2,4,3) Some [symmetric], of w4] w(4) R4 un l [OF lr] by simp
      next
        case False
        then show thesis using go st1 st2 st3 st4 d Some w stop
          by (auto simp: andthen_def pure_run_def unchanged_def split: sum.splits if_splits)
      qed
    qed
  next
    case False
    then show thesis using go st1 st2 st3 w stop
      by (auto simp: andthen_def pure_run_def unchanged_def split: sum.splits option.splits if_splits)
  qed
qed

lemma committed_earlier: "R s0 s \<Longrightarrow> committed R E amb c cfg rq qty price s res s' \<Longrightarrow>
    committed R E amb c cfg rq qty price s0 res s'"
  unfolding committed_def using trans by blast

text \<open>A retried attempt committed nothing.\<close>

lemma retry_trace:
  assumes g: "guarded E" and fl: "faults_ok E"
  shows "retry_from n k (fill_attempt E amb c cfg rq qty price) w = (res, w') \<Longrightarrow>
    find_order (rq_user rq) (rq_order rq) (w_store w) = Some r0 \<Longrightarrow> ow_account r0 = rq_account rq \<Longrightarrow>
    (R (w_store w) (w_store w') \<and> (\<forall>rep. res = Inr rep \<longrightarrow> fo_kind rep \<noteq> FILL_APPLIED \<and> fo_rows rep = None)) \<or>
    committed R E amb c cfg rq qty price (w_store w) res (w_store w')"
proof (induction k arbitrary: n w r0)
  case 0
  then show ?case by (auto simp: refl)
next
  case (Suc k)
  obtain r1 w1 where one: "fill_attempt E amb c cfg rq qty price n w = (r1, w1)" by fastforce
  show ?case
  proof (rule attempt_trace [OF g fl Suc.prems(2,3) one])
    assume k: "R (w_store w) (w_store w1)"
      and no: "\<And>rep. r1 = Inr rep \<Longrightarrow> fo_kind rep \<noteq> FILL_APPLIED \<and> fo_rows rep = None"
    show ?thesis
    proof (cases "\<exists>e. r1 = Inl e \<and> is_retryable e")
      case True
      then have again: "retry_from (Suc n) k (fill_attempt E amb c cfg rq qty price) w1 = (res, w')"
        using Suc.prems(1) one by auto
      obtain r2 where r2: "find_order (rq_user rq) (rq_order rq) (w_store w1) = Some r2" "ow_account r2 = rq_account rq"
        using order_stays [OF k Suc.prems(2)] Suc.prems(3) by (auto simp: order_fixed_eq)
      show ?thesis using Suc.IH [OF again r2] committed_earlier [OF k] trans [OF k] by blast
    next
      case False
      then have "res = r1 \<and> w' = w1" using Suc.prems(1) one by (auto split: sum.splits)
      then show ?thesis using k no by blast
    qed
  next
    assume cm: "committed R E amb c cfg rq qty price (w_store w) r1 (w_store w1)"
    then have "\<not> (\<exists>e. r1 = Inl e \<and> is_retryable e)" by (auto simp: committed_def is_retryable_def)
    then have "res = r1 \<and> w' = w1" using Suc.prems(1) one by (auto split: sum.splits)
    then show ?thesis using cm by blast
  qed
qed

text \<open>The whole call: refused before its first statement, or a trace of the kinds above.\<close>

lemma fill_trace:
  assumes g: "guarded E" and fl: "faults_ok E" and fig: "figures_of c rq0 = Inr (rq, cfg, qty, price)"
    and o0: "find_order (rq_user rq) (rq_order rq) (w_store w) = Some r0" and acc: "ow_account r0 = rq_account rq"
    and run: "sim_apply_fill E amb c rq0 w = (res, w')"
  shows "(R (w_store w) (w_store w') \<and> (\<forall>rep. res = Inr rep \<longrightarrow> fo_kind rep \<noteq> FILL_APPLIED \<and> fo_rows rep = None)) \<or>
    committed R E amb c cfg rq qty price (w_store w) res (w_store w')"
  using run unfolding fill_figures [OF fig] with_retries_def
  by (intro retry_trace [OF g fl _ o0 acc]) (simp add: RETRY_ATTEMPTS_def)

end

end
