(* ===== verification/Sim_Totals.thy ===== *)
theory Sim_Totals
  imports Sim_Fill
begin

text \<open>
  The totals of an order are exact. Quantities are whole lots of the session's quantum, the columns
  keep ten places and eighteen digits before the point, and twenty-eight digits of context hold
  every sum below that bound; a sum above it stays above it when rounded, and is refused.
\<close>

section \<open>Whole lots\<close>

definition lots :: "int \<Rightarrow> decimal \<Rightarrow> bool" where
  "lots e d \<longleftrightarrow> (\<exists>k::int. dval d = of_int k * 10 powi e)"

lemma rescale_lots: "dval d = of_int k * 10 powi e \<Longrightarrow> rescale m d e = k"
  using rescale_le [of d k e m] rescale_ge [of k e d m] by simp

lemma lots_grid: "on_grid e d \<Longrightarrow> lots e d"
  using grid_val unfolding lots_def by blast

lemma lots_quantity: "cfg_qty cfg v = Inr q \<Longrightarrow> lots (qty_exp cfg) q"
  by (metis lots_grid qty.grid qty_exp_def)

lemma quantity_exact:
  assumes "cfg_qty cfg (D d) = Inr q" and "lots (qty_exp cfg) d"
  shows "dval q = dval d" "q = Dec (dcoeff q) (qty_exp cfg)"
proof -
  obtain k where k: "dval d = of_int k * 10 powi qty_exp cfg" using assms(2) unfolding lots_def by blast
  then have "q = Dec k (qty_exp cfg)"
    using assms(1) by (simp add: cfg_qty_eq quantize_dec_Inr rescale_lots flip: qty_exp_def)
  then show "dval q = dval d" "q = Dec (dcoeff q) (qty_exp cfg)" by (simp_all add: k dval_Dec)
qed

lemma column_exact:
  assumes c: "column d = Inr q" and l: "lots e d" and e: "- 10 \<le> e"
  shows "dval q = dval d"
proof -
  obtain k where k: "dval d = of_int k * 10 powi e" using l unfolding lots_def by blast
  have "dval d = of_int (k * 10 ^ nat (e + 10)) * 10 powi (- 10)"
    using powi_split [OF e] by (simp add: k mult.assoc)
  then have "rescale ROUND_HALF_UP d (- 10) = k * 10 ^ nat (e + 10)" by (rule rescale_lots)
  then show ?thesis using c \<open>dval d = of_int (k * 10 ^ nat (e + 10)) * 10 powi (- 10)\<close>
    by (auto simp: column_def Let_def dval_Dec split: if_splits)
qed

lemma column_bound:
  assumes "column d = Inr q"
  shows "\<bar>dval q\<bar> < 10 ^ 18" "q = Dec (dcoeff q) (- 10)"
proof -
  have q: "q = Dec (dcoeff q) (- 10)" and b: "\<bar>dcoeff q\<bar> < 10 ^ 28"
    using assms by (auto simp: column_def Let_def split: if_splits)
  have "of_int \<bar>dcoeff q\<bar> < (of_int (10 ^ 28) :: rat)" using b by (simp only: of_int_less_iff)
  then have "\<bar>dval q\<bar> < 10 ^ 28 * 10 powi (- 10)"
    by (subst q) (simp add: dval_Dec abs_mult power_int_minus field_simps)
  then show "\<bar>dval q\<bar> < 10 ^ 18" by (simp add: power_int_minus)
  show "q = Dec (dcoeff q) (- 10)" by (rule q)
qed

lemma small_fits:
  assumes "0 \<le> x" and "of_int x * 10 powi e < (10 ^ 18 :: rat)" and "- 10 \<le> e" and "28 \<le> amb"
  shows "fits amb x"
proof -
  have "of_int x * 10 powi (- 10) \<le> (of_int x * 10 powi e :: rat)"
    using assms(1,3) by (intro mult_left_mono power_int_increasing) auto
  then have "of_int x * 10 powi (- 10) < (10 ^ 18 :: rat)" using assms(2) by linarith
  then have "of_int x < (of_int (10 ^ 28) :: rat)" by (simp add: power_int_minus field_simps)
  then have "x < 10 ^ 28" by (simp only: of_int_less_iff)
  also have "(10::int) ^ 28 \<le> 10 ^ amb" using assms(4) by (rule power_increasing) simp
  finally show ?thesis using assms(1) by (simp add: fits_def)
qed

section \<open>The sum of the fills\<close>

lemma totals_sum:
  assumes p: "cfg_quantity_precision cfg \<le> 10" and amb: "28 \<le> amb"
  shows "foldm (add_fill_totals amb cfg) (a, n, f, s) rows = Inr (q, n', f', s') \<Longrightarrow>
    on_grid (qty_exp cfg) a \<Longrightarrow> 0 \<le> dval a \<Longrightarrow> \<forall>row \<in> set rows. lots (qty_exp cfg) (fst row) \<and> 0 \<le> dval (fst row) \<Longrightarrow>
    dval a + (\<Sum>row\<leftarrow>rows. dval (fst row)) < 10 ^ 18 \<Longrightarrow>
    on_grid (qty_exp cfg) q \<and> dval q = dval a + (\<Sum>row\<leftarrow>rows. dval (fst row))"
proof (induction rows arbitrary: a n f s)
  case (Cons row rows)
  obtain x px fx sx where row: "row = (x, px, fx, sx)" by (cases row) auto
  obtain rq rp where rq: "cfg_qty cfg (D x) = Inr rq"
    and rest: "foldm (add_fill_totals amb cfg) (dec_add amb a rq, dec_add amb n (dec_mul amb rq rp), f + fx, s + sx) rows =
      Inr (q, n', f', s')"
  proof -
    obtain z where z: "add_fill_totals amb cfg (a, n, f, s) row = Inr z"
      and go: "foldm (add_fill_totals amb cfg) z rows = Inr (q, n', f', s')"
      using Cons.prems(1) by (auto simp only: foldm.simps bnd_Inr_iff)
    then show thesis using that by (auto simp: row add_fill_totals_def result_simps)
  qed
  have x: "lots (qty_exp cfg) x" "0 \<le> dval x" using Cons.prems(4) by (auto simp: row)
  note rx = quantity_exact [OF rq x(1)]
  have gr: "on_grid (qty_exp cfg) rq" by (subst rx(2)) simp
  have nn: "0 \<le> (\<Sum>row\<leftarrow>rows. dval (fst row))" using Cons.prems(4) by (intro sum_list_nonneg) auto
  let ?c = "coeff_at a (qty_exp cfg) + coeff_at rq (qty_exp cfg)"
  have v: "of_int ?c * 10 powi qty_exp cfg = dval a + dval x"
    using grid_val [OF Cons.prems(2)] grid_val [OF gr] rx(1) by (simp add: distrib_right)
  have lt: "of_int ?c * 10 powi qty_exp cfg < (10 ^ 18 :: rat)" using Cons.prems(5) nn unfolding v by (simp add: row)
  have "(0::rat) \<le> of_int ?c * 10 powi qty_exp cfg" using Cons.prems(3) x(2) unfolding v by simp
  then have "(0::rat) \<le> of_int ?c" using powi_pos [of "qty_exp cfg"] by (simp add: zero_le_mult_iff)
  then have c0: "0 \<le> ?c" by (simp only: of_int_0_le_iff)
  have "- 10 \<le> qty_exp cfg" using p by (simp add: qty_exp_def)
  then have fit: "fits amb ?c" using small_fits [OF c0 lt _ amb] by blast
  have amb0: "0 < amb" using amb by simp
  note ga = grid_add [OF amb0 Cons.prems(2) gr fit]
  have da: "dval (dec_add amb a rq) = dval a + dval x" by (simp only: grid_val [OF ga(1)] ga(2) v)
  show ?case using Cons.IH [OF rest ga(1)] Cons.prems(3,4,5) x(2) da by (simp add: row)
qed auto

lemma fill_event_totals_sum:
  assumes p: "cfg_quantity_precision cfg \<le> 10" and amb: "28 \<le> amb"
    and run: "fill_event_totals amb cfg rows = Inr (q, n', f', s')"
    and rows: "\<forall>row \<in> set rows. lots (qty_exp cfg) (fst row) \<and> 0 \<le> dval (fst row)"
    and small: "(\<Sum>row\<leftarrow>rows. dval (fst row)) < 10 ^ 18"
  shows "dval q = (\<Sum>row\<leftarrow>rows. dval (fst row))" "on_grid (qty_exp cfg) q"
proof -
  obtain q0 where q0: "foldm (add_fill_totals amb cfg) (dec_zero, dec_zero, 0, 0) rows = Inr (q0, n', f', s')"
    and q: "cfg_qty cfg (D q0) = Inr q"
    using run by (auto simp: fill_event_totals_def result_simps)
  have "on_grid (qty_exp cfg) q0 \<and> dval q0 = dval dec_zero + (\<Sum>row\<leftarrow>rows. dval (fst row))"
    by (rule totals_sum [OF p amb q0]) (use rows small in \<open>simp_all add: qty_exp_def\<close>)
  then show "dval q = (\<Sum>row\<leftarrow>rows. dval (fst row))" "on_grid (qty_exp cfg) q"
    using quantity_exact [OF q lots_grid] by (simp, metis on_grid_Dec order_refl)
qed

section \<open>The guard against an over-fill\<close>

lemma fill_guards_exact:
  assumes p: "cfg_quantity_precision cfg \<le> 10" and amb: "28 \<le> amb"
    and run: "fill_guards amb cfg r others qty = Inr (filled, fee, slip, target)"
    and rows: "\<forall>f \<in> set others. lots (qty_exp cfg) (fl_quantity f) \<and> 0 \<le> dval (fl_quantity f)"
    and small: "(\<Sum>f\<leftarrow>others. dval (fl_quantity f)) < 10 ^ 18"
    and ordered: "lots (qty_exp cfg) (ow_quantity r)" "dval (ow_quantity r) < 10 ^ 18"
    and qty: "cfg_qty cfg v = Inr qty" "0 < dval qty"
  shows "dval filled = (\<Sum>f\<leftarrow>others. dval (fl_quantity f)) + dval qty" "dval filled \<le> dval (ow_quantity r)"
    "lots (qty_exp cfg) filled" "target = (if dval filled = dval (ow_quantity r) then PO_FILLED else PO_PARTIALLY_FILLED)"
    "paper_gate (ow_state r) target"
proof -
  obtain prior n ord where tot: "fill_event_totals amb cfg (map totals_of others) = Inr (prior, n, fee, slip)"
    and ord: "cfg_qty cfg (D (ow_quantity r)) = Inr ord"
    and fil: "cfg_qty cfg (D (dec_add amb prior qty)) = Inr filled" and le: "\<not> dec_lt ord filled"
    and tg: "target = (if dec_eq filled ord then PO_FILLED else PO_PARTIALLY_FILLED)"
    and gate: "paper_gate (ow_state r) target"
    using run by (auto simp: fill_guards_def result_simps Let_def split: if_splits)
  have sums: "(\<Sum>row\<leftarrow>map totals_of others. dval (fst row)) = (\<Sum>f\<leftarrow>others. dval (fl_quantity f))"
    by (simp add: totals_of_def comp_def)
  have pr: "dval prior = (\<Sum>f\<leftarrow>others. dval (fl_quantity f))" "on_grid (qty_exp cfg) prior"
    using fill_event_totals_sum [OF p amb tot] rows small sums by (auto simp: totals_of_def)
  have gq: "on_grid (qty_exp cfg) qty" using qty.grid [OF qty(1)] by (simp add: qty_exp_def)
  have do: "dval ord = dval (ow_quantity r)" using quantity_exact(1) [OF ord ordered(1)] .
  have le': "dval filled \<le> dval (ow_quantity r)" using le do by (simp add: dec_lt_val)
  let ?c = "coeff_at prior (qty_exp cfg) + coeff_at qty (qty_exp cfg)"
  have v: "of_int ?c * 10 powi qty_exp cfg = dval prior + dval qty"
    using grid_val [OF pr(2)] grid_val [OF gq] by (simp add: distrib_right)
  have p0: "0 \<le> dval prior" unfolding pr(1) using rows by (intro sum_list_nonneg) auto
  have e: "- 10 \<le> qty_exp cfg" "qty_exp cfg \<le> 0" using p by (simp_all add: qty_exp_def)
  have amb0: "0 < amb" using amb by simp
  have "dval prior + dval qty < 10 ^ 18"
  proof (rule ccontr)
    assume "\<not> ?thesis"
    then have "dval (Dec 1 18) \<le> dval (Dec (coeff_at prior (common_exp prior qty) + coeff_at qty (common_exp prior qty)) (common_exp prior qty))"
      by (simp only: dval_sum) (simp add: dval_Dec)
    moreover have "fits amb (dcoeff (Dec 1 18))" using one_less_power [of "10::int" amb] amb0 by (simp add: fits_def)
    ultimately have "dval (Dec 1 18) \<le> dval (dec_add amb prior qty)"
      unfolding dec_add_def by (intro dec_fix_ge [OF amb0])
    then have ge: "of_int (10 ^ nat (18 - qty_exp cfg)) * 10 powi qty_exp cfg \<le> dval (dec_add amb prior qty)"
      using powi_split [of "qty_exp cfg" 18] e(2) by (simp add: dval_Dec)
    have "10 ^ nat (18 - qty_exp cfg) \<le> rescale (cfg_rounding_mode cfg) (dec_add amb prior qty) (qty_exp cfg)"
      by (rule rescale_ge [OF ge])
    moreover have "filled = Dec (rescale (cfg_rounding_mode cfg) (dec_add amb prior qty) (qty_exp cfg)) (qty_exp cfg)"
      using fil by (simp add: cfg_qty_eq quantize_dec_Inr flip: qty_exp_def)
    ultimately have "of_int (10 ^ nat (18 - qty_exp cfg)) * 10 powi qty_exp cfg \<le> dval filled"
      by (simp only: dval_Dec mult_le_cancel_right powi_not_neg powi_pos of_int_le_iff simp_thms)
    then have "10 ^ 18 \<le> dval filled" using powi_split [of "qty_exp cfg" 18] e(2) by simp
    then show False using le' ordered(2) by linarith
  qed
  then have lt: "of_int ?c * 10 powi qty_exp cfg < (10 ^ 18 :: rat)" by (simp only: v)
  have "(0::rat) \<le> of_int ?c * 10 powi qty_exp cfg" using p0 qty(2) unfolding v by simp
  then have "(0::rat) \<le> of_int ?c" using powi_pos [of "qty_exp cfg"] by (simp add: zero_le_mult_iff)
  then have fit: "fits amb ?c" using small_fits [OF _ lt e(1) amb] by (simp only: of_int_0_le_iff)
  note ga = grid_add [OF amb0 pr(2) gq fit]
  have da: "dval (dec_add amb prior qty) = dval prior + dval qty" by (simp only: grid_val [OF ga(1)] ga(2) v)
  have df: "dval filled = dval prior + dval qty" using quantity_exact(1) [OF fil lots_grid [OF ga(1)]] da by simp
  then show "dval filled = (\<Sum>f\<leftarrow>others. dval (fl_quantity f)) + dval qty" using pr(1) by simp
  show "dval filled \<le> dval (ow_quantity r)" by (rule le')
  show "lots (qty_exp cfg) filled" by (rule lots_quantity [OF fil])
  show "target = (if dval filled = dval (ow_quantity r) then PO_FILLED else PO_PARTIALLY_FILLED)"
    using tg do by (simp add: dec_eq_val)
  show "paper_gate (ow_state r) target" by (rule gate)
qed

end
