(* ===== verification/Sim_Session.thy ===== *)
theory Sim_Session
  imports Sim_Clients Sim_Totals
begin

text \<open>
  The clients of one database: the statements of the simulator, interleaved in any order. The
  invariant \<open>store_ok\<close> ties the fills, the ledger and the orders together; every statement keeps it,
  and the clients satisfy what an attempt needs of them (\<open>disciplined\<close>).
\<close>

section \<open>The statements of the clients\<close>

definition lots_of :: "(string \<Rightarrow> session_config) \<Rightarrow> string option \<Rightarrow> decimal \<Rightarrow> bool" where
  "lots_of conf sid d \<longleftrightarrow> (case sid of None \<Rightarrow> False | Some k \<Rightarrow> lots (- int (sc_quantity_precision (conf k))) d)"

text \<open>An order is accepted only at a quantity of whole lots of its session.\<close>

definition accept_fits ::
  "(string \<Rightarrow> session_config) \<Rightarrow> string \<Rightarrow> string \<Rightarrow> paper_order_state \<Rightarrow> store \<Rightarrow> bool" where
  "accept_fits conf user oid target s \<longleftrightarrow> target \<noteq> PO_ACCEPTED \<or>
     (case find_order user oid s of None \<Rightarrow> True | Some r \<Rightarrow> lots_of conf (ow_session r) (ow_quantity r))"

text \<open>
  \<open>conf\<close> gives the frozen configuration of a session. A fill is for an order of the session and the
  account it names; a new order has nothing filled; nothing but a fill moves an order to a filled
  state or writes a ledger row of a fill. The feed may change freely.
\<close>

inductive client_step ::
  "environment \<Rightarrow> nat \<Rightarrow> (string \<Rightarrow> session_config) \<Rightarrow> store \<Rightarrow> store \<Rightarrow> bool"
  for E :: environment and amb :: nat and conf :: "string \<Rightarrow> session_config" where
  client_fill: "sc_accounting (conf (rq_session rq)) = Inr cfg \<Longrightarrow> cfg_qty cfg v = Inr qty \<Longrightarrow> 0 < dval qty \<Longrightarrow>
    find_order (rq_user rq) (rq_order rq) s = Some r \<Longrightarrow> ow_account r = rq_account rq \<Longrightarrow>
    ow_session r = Some (rq_session rq) \<Longrightarrow> fill_ready rq r s \<Longrightarrow>
    plan_fill amb (conf (rq_session rq)) cfg rq qty price s = Inr fc \<Longrightarrow>
    paper_apply_fill_atomic E fc s = Inr (out, s') \<Longrightarrow> client_step E amb conf s s'"
| client_bump: "bumped user aid version payload s = Inr (a, s') \<Longrightarrow> client_step E amb conf s s'"
| client_order: "ow_state row = PO_CREATED \<Longrightarrow> ow_filled row = dec_zero \<Longrightarrow> new_order E row s = Inr (p, s') \<Longrightarrow>
    client_step E amb conf s s'"
| client_move: "target \<notin> {PO_PARTIALLY_FILLED, PO_FILLED} \<Longrightarrow> accept_fits conf user oid target s \<Longrightarrow>
    moved_order user oid target expected reason s = Inr (r, s') \<Longrightarrow> client_step E amb conf s s'"
| client_entry: "ld_cause row \<noteq> ''FILL'' \<Longrightarrow> new_ledger row s = Inr (l, s') \<Longrightarrow> client_step E amb conf s s'"
| client_feed: "client_step E amb conf s (s\<lparr>st_sessions := sessions\<rparr>)"

section \<open>The invariant\<close>

definition fills_on :: "string \<Rightarrow> store \<Rightarrow> fill_row list" where
  "fills_on oid s = filter (\<lambda>f. fl_order f = oid) (st_fills s)"

definition filled_on :: "string \<Rightarrow> store \<Rightarrow> rat" where
  "filled_on oid s = (\<Sum>f\<leftarrow>fills_on oid s. dval (fl_quantity f))"

text \<open>The state of an order says how much of it is filled.\<close>

definition state_fits :: "order_row \<Rightarrow> bool" where
  "state_fits r =
     (case ow_state r of
        PO_FILLED \<Rightarrow> dval (ow_filled r) = dval (ow_quantity r)
      | PO_PARTIALLY_FILLED \<Rightarrow> 0 < dval (ow_filled r) \<and> dval (ow_filled r) < dval (ow_quantity r)
      | PO_CANCELLED \<Rightarrow> dval (ow_filled r) < dval (ow_quantity r)
      | _ \<Rightarrow> dval (ow_filled r) = 0)"

definition order_ok :: "(string \<Rightarrow> session_config) \<Rightarrow> store \<Rightarrow> string \<Rightarrow> order_row \<Rightarrow> bool" where
  "order_ok conf s oid r \<longleftrightarrow>
     0 < dval (ow_quantity r) \<and> dval (ow_quantity r) < 10 ^ 18 \<and>
     (ow_state r \<in> {PO_CREATED, PO_REJECTED} \<or> lots_of conf (ow_session r) (ow_quantity r)) \<and>
     (\<forall>f \<in> set (fills_on oid s). fl_user f = ow_user r \<and> fl_session f = ow_session r \<and>
        0 < dval (fl_quantity f) \<and> lots_of conf (ow_session r) (fl_quantity f)) \<and>
     distinct (map fl_event (fills_on oid s)) \<and>
     dval (ow_filled r) = filled_on oid s \<and> dval (ow_filled r) \<le> dval (ow_quantity r) \<and> state_fits r"

text \<open>The ledger row of a fill.\<close>

definition fill_entry :: "store \<Rightarrow> ledger_row \<Rightarrow> fill_row \<Rightarrow> bool" where
  "fill_entry s l f \<longleftrightarrow> ld_fill l = Some (fl_id f) \<and> ld_user l = fl_user f \<and> ld_session l = fl_session f \<and>
     (\<exists>r. dget (st_orders s) (fl_order f) = Some r \<and> ld_account l = ow_account r)"

definition fill_entries :: "store \<Rightarrow> ledger_row list" where
  "fill_entries s = filter (\<lambda>l. ld_cause l = ''FILL'') (st_ledger s)"

definition drawn :: "environment \<Rightarrow> store \<Rightarrow> string \<Rightarrow> bool" where
  "drawn E s k \<longleftrightarrow> (\<exists>i < st_count s. k = en_id E i)"

definition store_ok :: "environment \<Rightarrow> (string \<Rightarrow> session_config) \<Rightarrow> store \<Rightarrow> bool" where
  "store_ok E conf s \<longleftrightarrow>
     dict_ok (st_orders s) \<and> dict_ok (st_positions s) \<and> distinct (map fl_id (st_fills s)) \<and>
     (\<forall>k \<in> fst ` set (st_orders s) \<union> fst ` set (st_positions s) \<union> fl_id ` set (st_fills s). drawn E s k) \<and>
     (\<forall>oid r. dget (st_orders s) oid = Some r \<longrightarrow> order_ok conf s oid r) \<and>
     (\<forall>f \<in> set (st_fills s). dget (st_orders s) (fl_order f) \<noteq> None) \<and>
     list_all2 (fill_entry s) (fill_entries s) (st_fills s)"

text \<open>What holds of the identifiers and of the configurations.\<close>

definition setting_ok :: "environment \<Rightarrow> nat \<Rightarrow> (string \<Rightarrow> session_config) \<Rightarrow> bool" where
  "setting_ok E amb conf \<longleftrightarrow> inj (en_id E) \<and> (\<forall>n. py_strip (en_id E n) = en_id E n) \<and> 28 \<le> amb \<and> (\<forall>k. session_ok (conf k))"

text \<open>The clients act on stores that satisfy the invariant.\<close>

definition clients :: "environment \<Rightarrow> nat \<Rightarrow> (string \<Rightarrow> session_config) \<Rightarrow> store \<Rightarrow> store \<Rightarrow> bool" where
  "clients E amb conf s t \<longleftrightarrow> s = t \<or> (setting_ok E amb conf \<and> store_ok E conf s \<and> (client_step E amb conf)\<^sup>*\<^sup>* s t)"

lemma store_okI:
  assumes "dict_ok (st_orders s)" "dict_ok (st_positions s)" "distinct (map fl_id (st_fills s))"
    "\<And>k. k \<in> fst ` set (st_orders s) \<union> fst ` set (st_positions s) \<union> fl_id ` set (st_fills s) \<Longrightarrow> drawn E s k"
    "\<And>oid r. dget (st_orders s) oid = Some r \<Longrightarrow> order_ok conf s oid r"
    "\<And>f. f \<in> set (st_fills s) \<Longrightarrow> dget (st_orders s) (fl_order f) \<noteq> None"
    "list_all2 (fill_entry s) (fill_entries s) (st_fills s)"
  shows "store_ok E conf s"
  using assms unfolding store_ok_def by blast

lemma store_okD:
  assumes "store_ok E conf s"
  shows "dict_ok (st_orders s)" "dict_ok (st_positions s)" "distinct (map fl_id (st_fills s))"
    "k \<in> fst ` set (st_orders s) \<union> fst ` set (st_positions s) \<union> fl_id ` set (st_fills s) \<Longrightarrow> drawn E s k"
    "dget (st_orders s) oid = Some r \<Longrightarrow> order_ok conf s oid r"
    "f \<in> set (st_fills s) \<Longrightarrow> dget (st_orders s) (fl_order f) \<noteq> None"
    "list_all2 (fill_entry s) (fill_entries s) (st_fills s)"
  using assms unfolding store_ok_def by blast+

section \<open>The invariant is kept\<close>

lemma session_figures:
  assumes "session_ok (conf k)" and "sc_accounting (conf k) = Inr cfg"
  shows "qty_exp cfg = - int (sc_quantity_precision (conf k))" "cfg_quantity_precision cfg \<le> 10"
  using assms sc_accounting_eq [OF assms(1)]
  by (auto simp: qty_exp_def accounting_of_def session_ok_def MAX_RECORDED_PRECISION_def)

lemma lots_of_column:
  assumes "lots_of conf sid d" and "\<And>k. session_ok (conf k)" and "column d = Inr q"
  shows "dval q = dval d" "lots_of conf sid q"
proof -
  obtain k where k: "sid = Some k" and l: "lots (- int (sc_quantity_precision (conf k))) d"
    using assms(1) by (auto simp: lots_of_def split: option.splits)
  have "sc_quantity_precision (conf k) \<le> 10" using assms(2) [of k] by (simp add: session_ok_def MAX_RECORDED_PRECISION_def)
  then show "dval q = dval d" using column_exact [OF assms(3) l] by simp
  then show "lots_of conf sid q" using l k by (simp add: lots_of_def lots_def)
qed

lemma fills_on_cong: "st_fills t = st_fills s \<Longrightarrow> fills_on oid t = fills_on oid s \<and> filled_on oid t = filled_on oid s"
  by (simp add: fills_on_def filled_on_def)

text \<open>Only these tables matter.\<close>

lemma store_ok_same:
  assumes "st_orders t = st_orders s" "st_fills t = st_fills s" "fill_entries t = fill_entries s"
    "st_positions t = st_positions s" "st_count t = st_count s"
  shows "store_ok E conf t = store_ok E conf s"
proof -
  have "fill_entry t = fill_entry s" using assms by (simp add: fill_entry_def fun_eq_iff)
  moreover have "order_ok conf t oid r = order_ok conf s oid r" for oid r
    using fills_on_cong [OF assms(2), of oid] by (simp add: order_ok_def)
  moreover have "drawn E t = drawn E s" using assms by (simp add: drawn_def fun_eq_iff)
  ultimately show ?thesis using assms by (simp add: store_ok_def)
qed

text \<open>Replacing an order by one with the same fixed columns.\<close>

lemma fill_entry_moved:
  assumes "dget (st_orders s) oid = Some r" and "ow_account q = ow_account r"
    and "st_orders t = dset oid q (st_orders s)" and "fill_entry s l f"
  shows "fill_entry t l f"
  using assms by (auto simp: fill_entry_def dict_simps)

lemma store_ok_moved:
  assumes ok: "store_ok E conf s" and r: "dget (st_orders s) oid = Some r" and acc: "ow_account q = ow_account r"
    and t: "t = s\<lparr>st_orders := dset oid q (st_orders s)\<rparr>" and q: "order_ok conf s oid q"
  shows "store_ok E conf t"
proof -
  have oo: "order_ok conf t k x = order_ok conf s k x" for k x
    by (simp add: t order_ok_def fills_on_def filled_on_def)
  have mem: "(oid, r) \<in> set (st_orders s)" using r by (rule map_of_SomeD)
  have keys: "fst ` set (st_orders t) = fst ` set (st_orders s)"
    using mem by (auto simp: t dom_update image_iff) (metis fst_conv)+
  have "list_all2 (fill_entry t) (fill_entries t) (st_fills t)"
    using ok unfolding store_ok_def
    by (auto simp: t fill_entries_def intro!: list_all2_mono [of "fill_entry s"] fill_entry_moved [OF r acc])
  then show ?thesis using ok keys q
    unfolding store_ok_def oo by (auto simp: t dict_simps drawn_def)
qed

lemma moved_order_Inr:
  assumes "moved_order user oid target expected reason s = Inr (q, s')"
  obtains r where "find_order user oid s = Some r" "ow_state r = expected" "transition_guard expected target"
    "order_fixed q = order_fixed r" "ow_filled q = ow_filled r" "ow_state q = target"
    "s' = s\<lparr>st_orders := dset oid q (st_orders s)\<rparr>"
  using assms by (auto simp: moved_order_def Let_def order_fixed_eq split: option.splits if_splits)

lemma find_orderD: "find_order u oid s = Some r \<Longrightarrow> dget (st_orders s) oid = Some r \<and> ow_user r = u"
  by (auto simp: find_order_def split: option.splits if_splits)

lemma find_accountD: "find_account u aid s = Some r \<Longrightarrow> dget (st_accounts s) aid = Some r \<and> ac_user r = u"
  by (auto simp: find_account_def split: option.splits if_splits)

lemma state_fits_moved:
  assumes "state_fits r" "transition_guard (ow_state r) target" "target \<notin> {PO_PARTIALLY_FILLED, PO_FILLED}"
    and "ow_filled q = ow_filled r" "ow_quantity q = ow_quantity r" "ow_state q = target" "0 < dval (ow_quantity r)"
  shows "state_fits q"
  using assms by (cases "ow_state r"; cases target) (auto simp: state_fits_def transition_guard_def)

lemma move_ok:
  assumes ok: "store_ok E conf s" and tg: "target \<notin> {PO_PARTIALLY_FILLED, PO_FILLED}"
    and af: "accept_fits conf user oid target s" and mv: "moved_order user oid target expected reason s = Inr (q, s')"
  shows "store_ok E conf s'"
proof -
  obtain r where r: "find_order user oid s = Some r" "ow_state r = expected" "transition_guard expected target"
    "order_fixed q = order_fixed r" "ow_filled q = ow_filled r" "ow_state q = target"
    "s' = s\<lparr>st_orders := dset oid q (st_orders s)\<rparr>" by (rule moved_order_Inr [OF mv])
  have fx: "ow_user q = ow_user r" "ow_session q = ow_session r" "ow_account q = ow_account r"
    "ow_quantity q = ow_quantity r" using r(4) by (simp_all add: order_fixed_eq)
  have o0: "order_ok conf s oid r" using ok find_orderD [OF r(1)] by (simp add: store_ok_def)
  then have "state_fits q" using state_fits_moved [OF _ _ tg r(5) fx(4) r(6)] r(2,3) by (simp add: order_ok_def)
  moreover have "ow_state q \<in> {PO_CREATED, PO_REJECTED} \<or> lots_of conf (ow_session q) (ow_quantity q)"
    using o0 af r(1,2,3,6) fx by (cases target; cases "ow_state r") (auto simp: order_ok_def accept_fits_def transition_guard_def)
  ultimately have "order_ok conf s oid q" using o0 fx r(5) by (simp add: order_ok_def)
  then show ?thesis using store_ok_moved [OF ok _ fx(3) r(7)] find_orderD [OF r(1)] by simp
qed

lemma bumped_Inr:
  assumes "bumped user aid v payload s = Inr (a, s')"
  shows "s' = s\<lparr>st_accounts := dset aid a (st_accounts s)\<rparr>" "ac_user a = user" "ac_version a = v + 1"
    "\<exists>r. find_account user aid s = Some r \<and> ac_version r = v"
  using assms by (auto simp: bumped_def result_simps Let_def split: option.splits if_splits)

lemma new_ledger_Inr:
  "new_ledger row s = Inr (l, s') \<Longrightarrow> s' = s\<lparr>st_ledger := st_ledger s @ [l]\<rparr> \<and> ld_cause l = ld_cause row"
  by (auto simp: new_ledger_def ledger_columns_def result_simps)

lemma new_order_Inr:
  assumes "new_order E row s = Inr ((oid, r), s')"
  shows "oid = en_id E (st_count s)" "s' = s\<lparr>st_orders := st_orders s @ [(oid, r)], st_count := Suc (st_count s)\<rparr>"
    "ow_session r = ow_session row" "ow_state r = ow_state row" "ow_user r = ow_user row" "ow_account r = ow_account row"
    "column (ow_quantity row) = Inr (ow_quantity r)" "column (ow_filled row) = Inr (ow_filled r)" "0 < dval (ow_quantity r)"
  using assms by (auto simp: new_order_def order_columns_def result_simps Let_def check_def dec_lt_val split: if_splits)

lemma not_drawn: "inj (en_id E) \<Longrightarrow> \<not> drawn E s (en_id E (st_count s + k))"
  by (auto simp: drawn_def dest: injD)

lemma column_zero: "column dec_zero = Inr q \<Longrightarrow> dval q = 0"
  by (auto simp: column_def Let_def dval_Dec split: if_splits)

lemma order_ok_new:
  assumes ok: "store_ok E conf s" and inj: "inj (en_id E)"
    and st: "ow_state row = PO_CREATED" "ow_filled row = dec_zero" and new: "new_order E row s = Inr ((oid, r), s')"
  shows "order_ok conf s oid r"
proof -
  note n = new_order_Inr [OF new]
  have fresh: "fills_on oid s = []"
    using ok not_drawn [OF inj, of s 0] unfolding store_ok_def n(1)
    by (auto simp: fills_on_def filter_empty_conv) (metis image_eqI map_of_SomeD UnI1 fst_conv)
  show ?thesis
    using fresh column_bound(1) [OF n(7)] column_zero n(3,4,8,9) st
    by (simp add: order_ok_def filled_on_def state_fits_def)
qed

lemma order_new_ok:
  assumes ok: "store_ok E conf s" and inj: "inj (en_id E)"
    and st: "ow_state row = PO_CREATED" "ow_filled row = dec_zero" and new: "new_order E row s = Inr ((oid, r), s')"
  shows "store_ok E conf s'"
proof -
  note n = new_order_Inr [OF new]
  have absent: "dget (st_orders s) oid = None"
    using ok not_drawn [OF inj, of s 0] unfolding store_ok_def n(1) map_of_eq_None_iff by auto
  have get: "dget (st_orders s') k = (if k = oid then Some r else dget (st_orders s) k)" for k
    using absent by (auto simp: n(2) map_add_def split: option.splits)
  have o0: "order_ok conf s oid r" by (rule order_ok_new [OF assms])
  have oo: "order_ok conf s' k x = order_ok conf s k x" for k x
    by (simp add: n(2) order_ok_def fills_on_def filled_on_def)
  have "fill_entry s' l f" if "fill_entry s l f" for l f
    using that absent unfolding fill_entry_def get by (auto split: if_splits)
  then have entries: "list_all2 (fill_entry s') (fill_entries s') (st_fills s')"
    using ok unfolding store_ok_def by (auto simp: n(2) fill_entries_def intro: list_all2_mono)
  have dr: "drawn E s' k" if "drawn E s k \<or> k = oid" for k
    using that by (auto simp: n drawn_def less_Suc_eq)
  note old = store_okD [OF ok]
  show ?thesis
  proof (rule store_okI)
    show "dict_ok (st_orders s')" using old(1) absent by (simp add: n(2) map_of_eq_None_iff)
    show "drawn E s' k" if "k \<in> fst ` set (st_orders s') \<union> fst ` set (st_positions s') \<union> fl_id ` set (st_fills s')" for k
      using that old(4) dr by (auto simp: n(2))
    show "order_ok conf s' k x" if "dget (st_orders s') k = Some x" for k x
      using that old(5) o0 unfolding get oo by (auto split: if_splits)
    show "dget (st_orders s') (fl_order f) \<noteq> None" if "f \<in> set (st_fills s')" for f
      using that old(6) [of f] unfolding get by (simp add: n(2))
  qed (use old(2,3) entries in \<open>simp_all add: n(2)\<close>)
qed

text \<open>The position writes of a transaction: fresh keys, and only the account's own rows.\<close>

definition positions_ok :: "environment \<Rightarrow> store \<Rightarrow> bool" where
  "positions_ok E s \<longleftrightarrow> dict_ok (st_positions s) \<and> (\<forall>k \<in> fst ` set (st_positions s). drawn E s k)"

definition of_account :: "string \<Rightarrow> store \<Rightarrow> position_row list" where
  "of_account aid s = filter (\<lambda>r. pr_account r = aid) (dvalues (st_positions s))"

lemma filter_dset_other:
  assumes "dict_ok d" "(k, old) \<in> set d" "\<not> P old" "\<not> P r"
  shows "filter P (dvalues (dset k r d)) = filter P (dvalues d)"
  using assms
proof (induction d)
  case (Cons p d)
  have "filter P (dvalues (dset k r d)) = filter P (dvalues d)" if "k \<noteq> fst p"
    using Cons that by (cases p) auto
  moreover have "snd p = old" if "k = fst p" using Cons.prems that by (cases p) (auto simp: image_iff)
  ultimately show ?case using Cons.prems by (cases p) auto
qed simp

lemma drawn_mono: "drawn E s k \<Longrightarrow> st_count s \<le> st_count s' \<Longrightarrow> drawn E s' k"
  unfolding drawn_def using less_le_trans by blast

lemma drawn_next: "drawn E (s\<lparr>st_count := Suc (st_count s)\<rparr>) (en_id E (st_count s))"
  unfolding drawn_def by auto

lemma positions_new:
  assumes ok: "positions_ok E s" and inj: "inj (en_id E)" and acc: "pr_account r = aid"
    and t: "t = s\<lparr>st_positions := st_positions s @ [(en_id E (st_count s), r)], st_count := Suc (st_count s)\<rparr>"
  shows "positions_ok E t" "b \<noteq> aid \<Longrightarrow> of_account b t = of_account b s"
proof -
  have "en_id E (st_count s) \<notin> fst ` set (st_positions s)"
    using ok not_drawn [OF inj, of s 0] unfolding positions_ok_def by auto
  then show "positions_ok E t"
    using ok by (auto simp: positions_ok_def t drawn_def less_Suc_eq)
  show "b \<noteq> aid \<Longrightarrow> of_account b t = of_account b s" using acc by (simp add: of_account_def t)
qed

lemma closed_leg_positions:
  assumes "commit_closed_leg E fc s = Inr (r, s')" "positions_ok E s" "inj (en_id E)"
  shows "positions_ok E s'" "b \<noteq> fc_account fc \<Longrightarrow> of_account b s' = of_account b s"
  using assms positions_new [OF assms(2,3), where aid = "fc_account fc"]
  by (auto simp: commit_closed_leg_def result_simps Let_def split: option.splits)

lemma commit_position_positions:
  assumes run: "commit_position E fc s = Inr (r, s')" and ok: "positions_ok E s" and inj: "inj (en_id E)"
  shows "positions_ok E s'" "b \<noteq> fc_account fc \<Longrightarrow> of_account b s' = of_account b s"
proof -
  have "positions_ok E s' \<and> (b \<noteq> fc_account fc \<longrightarrow> of_account b s' = of_account b s)"
  proof (cases "open_row (fc_user fc) (fc_account fc) (pos_symbol (fc_position fc)) s")
    case None
    then show ?thesis using run positions_new [OF ok inj, where aid = "fc_account fc"]
      by (auto simp: commit_position_def result_simps Let_def)
  next
    case (Some kr)
    obtain k old where kr: "kr = (k, old)" by (cases kr)
    have old: "(k, old) \<in> set (st_positions s)" "pr_account old = fc_account fc"
      using Some unfolding kr open_row_def find_Some_iff by auto (metis nth_mem)
    obtain p where p: "r = old\<lparr>pr_position := p, pr_version := pr_version old + 1\<rparr>"
        "s' = s\<lparr>st_positions := dset k r (st_positions s)\<rparr>"
      using run Some kr by (auto simp: commit_position_def result_simps Let_def)
    have "positions_ok E s'" using ok old(1) imageI [OF old(1), of fst]
      by (auto simp: positions_ok_def p(2) dict_simps drawn_def)
    moreover have "of_account b s' = of_account b s" if "b \<noteq> fc_account fc"
      using filter_dset_other [of "st_positions s" k old "\<lambda>r. pr_account r = b" r] ok old that
      by (simp add: of_account_def p positions_ok_def)
    ultimately show ?thesis by blast
  qed
  then show "positions_ok E s'" "b \<noteq> fc_account fc \<Longrightarrow> of_account b s' = of_account b s" by blast+
qed

lemma atomic_positions:
  assumes run: "paper_apply_fill_atomic E fc s = Inr (rows, s')" and fresh: "fc_resume fc = None"
    and ok: "positions_ok E s" and inj: "inj (en_id E)"
  shows "positions_ok E s'" "b \<noteq> fc_account fc \<Longrightarrow> of_account b s' = of_account b s"
    "st_count s < st_count s'"
proof -
  from run obtain acct ord f s1 a s2 l s3 cl s4 p s5 r s6 t s7 n where
    c1: "commit_fill E fc s = Inr (f, s1)" and c2: "commit_account fc acct s1 = Inr (a, s2)" and
    c3: "commit_ledger fc f a s2 = Inr (l, s3)" and c4: "commit_closed_leg E fc s3 = Inr (cl, s4)" and
    c5: "commit_position E fc s4 = Inr (p, s5)" and c6: "commit_order fc ord s5 = Inr (r, s6)" and
    c7: "commit_trade fc s6 = Inr (t, s7)" and c8: "commit_snapshot fc s7 = Inr (n, s')"
    unfolding paper_apply_fill_atomic_def by (auto simp only: bnd_Inr_iff split_paired_Ex prod.case sum.inject prod.inject)
  have s3: "st_positions s3 = st_positions s" "st_count s3 = Suc (st_count s)"
    using commit_fill_Inr [OF c1] commit_account_Inr [OF c2] commit_ledger_Inr [OF c3] fresh by auto
  have o3: "positions_ok E s3" using ok s3 drawn_mono [of E s _ s3] by (auto simp: positions_ok_def)
  have s5: "st_positions s' = st_positions s5" "st_count s' = st_count s5"
    using commit_snapshot_Inr [OF c8, THEN arg_cong [where f = st_positions]]
      commit_snapshot_Inr [OF c8, THEN arg_cong [where f = st_count]]
      commit_trade_Inr [OF c7, THEN arg_cong [where f = st_positions]]
      commit_trade_Inr [OF c7, THEN arg_cong [where f = st_count]] commit_order_Inr [OF c6] by simp_all
  note p4 = closed_leg_positions [OF c4 o3 inj] and p5 = commit_position_positions [OF c5 _ inj]
  show "positions_ok E s'" using p5(1) [OF p4(1)] s5 by (simp add: positions_ok_def drawn_def)
  show "b \<noteq> fc_account fc \<Longrightarrow> of_account b s' = of_account b s"
    using p5(2) [OF p4(1)] p4(2) s3 s5 by (simp add: of_account_def)
  show "st_count s < st_count s'" using commit_closed_leg_Inr [OF c4] commit_position_Inr [OF c5] s3 s5
    by (simp add: positions_only_def)
qed

section \<open>A fill keeps the invariant\<close>

lemma fills_of_order:
  assumes ok: "store_ok E conf s" and r: "find_order u oid s = Some r" and sid: "ow_session r = Some sid"
  shows "fills_of u (Some sid) oid s = sort_key (\<lambda>f. - fl_at f) (fills_on oid s)"
proof -
  have "\<forall>f \<in> set (fills_on oid s). fl_user f = u \<and> fl_session f = Some sid"
    using store_okD(5) [OF ok] find_orderD [OF r] sid by (auto simp: order_ok_def)
  then have "filter (\<lambda>f. fl_user f = u \<and> fl_session f = Some sid \<and> fl_order f = oid) (st_fills s) = fills_on oid s"
    unfolding fills_on_def by (intro filter_cong) auto
  then show ?thesis by (simp add: fills_of_def)
qed

lemma sum_list_insort: "(\<Sum>y\<leftarrow>insort_key k x xs. g y) = g x + (\<Sum>y\<leftarrow>xs. (g y :: 'a::comm_monoid_add))"
  by (induction xs) (simp_all add: add.left_commute)

lemma sum_list_sort: "(\<Sum>x\<leftarrow>sort_key k xs. g x) = (\<Sum>x\<leftarrow>xs. (g x :: 'a::comm_monoid_add))"
  by (induction xs) (simp_all add: sum_list_insort)

text \<open>On a store that satisfies the invariant no fill is left half made.\<close>

lemma nothing_to_resume:
  assumes ok: "store_ok E conf s" and r: "find_order (rq_user rq) (rq_order rq) s = Some r"
    and acc: "ow_account r = rq_account rq" and sid: "ow_session r = Some (rq_session rq)" and ready: "fill_ready rq r s"
  shows "existing_fill rq s = None"
proof (rule ccontr)
  assume "existing_fill rq s \<noteq> None"
  then obtain f where f: "existing_fill rq s = Some f" by blast
  then have mem: "f \<in> set (fills_of (rq_user rq) (Some (rq_session rq)) (rq_order rq) s)"
    unfolding existing_fill_def find_Some_iff by (metis nth_mem)
  then have fs: "f \<in> set (st_fills s)" "fl_user f = rq_user rq" "fl_session f = Some (rq_session rq)" "fl_order f = rq_order rq"
    by (auto simp: fills_of_def)
  obtain l where l: "l \<in> set (fill_entries s)" "fill_entry s l f"
    using store_okD(7) [OF ok] fs(1) by (metis in_set_conv_nth list_all2_conv_all_nth)
  then have "settled rq f s"
    using find_orderD [OF r] acc fs by (auto simp: settled_def ledger_of_def list_ex_iff fill_entry_def fill_entries_def)
  then show False using ready f by (simp add: fill_ready_def)
qed

lemma fill_guards_gate:
  "fill_guards amb cfg r others qty = Inr (filled, fee, slip, target) \<Longrightarrow> ow_state r \<notin> {PO_CREATED, PO_REJECTED}"
  by (cases "ow_state r") (auto simp: fill_guards_def result_simps Let_def paper_gate_edge split: if_splits)

lemma new_fill_row_Inr:
  "new_fill_row fid fc = Inr f \<Longrightarrow> fl_id f = fid \<and> fl_order f = fc_order fc \<and> fl_session f = fc_session fc \<and>
    fl_user f = fc_user fc \<and> fl_event f = fc_event fc \<and> column (fc_quantity fc) = Inr (fl_quantity f) \<and>
    column (fc_price fc) = Inr (fl_price f) \<and> fl_fee f = fc_fee fc \<and> fl_at f = fc_at fc"
  by (auto simp: new_fill_row_def result_simps)

lemma order_written:
  "\<exists>avg. q = r\<lparr>ow_state := target, ow_legacy := legacy, ow_filled := x, ow_avg := Some avg, ow_fee := fee,
     ow_slippage := slip\<rparr> \<Longrightarrow>
   order_fixed q = order_fixed r \<and> ow_state q = target \<and> ow_quantity q = ow_quantity r"
  by (auto simp: order_fixed_eq)

lemma client_fill_effect:
  assumes set: "setting_ok E amb conf" and ok: "store_ok E conf s"
    and cfg: "sc_accounting (conf (rq_session rq)) = Inr cfg" and q: "cfg_qty cfg v = Inr qty" "0 < dval qty"
    and r: "find_order (rq_user rq) (rq_order rq) s = Some r" and acc: "ow_account r = rq_account rq"
    and sid: "ow_session r = Some (rq_session rq)" and ready: "fill_ready rq r s"
    and plan: "plan_fill amb (conf (rq_session rq)) cfg rq qty price s = Inr fc"
    and run: "paper_apply_fill_atomic E fc s = Inr (out, s')"
  obtains a where
    "existing_fill rq s = None" "fc_resume fc = None"
    "st_fills s' = st_fills s @ [cr_fill out]" "fl_id (cr_fill out) = en_id E (st_count s)"
    "fl_user (cr_fill out) = rq_user rq" "fl_order (cr_fill out) = rq_order rq"
    "fl_session (cr_fill out) = Some (rq_session rq)" "fl_event (cr_fill out) = rq_event rq"
    "dval (fl_quantity (cr_fill out)) = dval qty" "lots_of conf (ow_session r) (fl_quantity (cr_fill out))"
    "\<forall>f \<in> set (fills_on (rq_order rq) s). fl_event f \<noteq> rq_event rq"
    "st_ledger s' = st_ledger s @ [cr_ledger out]" "fill_entries s' = fill_entries s @ [cr_ledger out]"
    "ld_fill (cr_ledger out) = Some (en_id E (st_count s))" "ld_user (cr_ledger out) = rq_user rq"
    "ld_session (cr_ledger out) = Some (rq_session rq)" "ld_account (cr_ledger out) = rq_account rq"
    "st_orders s' = dset (rq_order rq) (cr_order out) (st_orders s)" "order_fixed (cr_order out) = order_fixed r"
    "dval (ow_filled (cr_order out)) = filled_on (rq_order rq) s + dval qty"
    "dval (ow_filled (cr_order out)) \<le> dval (ow_quantity r)" "state_fits (cr_order out)"
    "find_account (rq_user rq) (rq_account rq) s = Some a"
    "st_accounts s' = dset (rq_account rq) (cr_account out) (st_accounts s)" "ac_user (cr_account out) = rq_user rq"
    "ac_version (cr_account out) = ac_version a + 1" "fc_account fc = rq_account rq"
    "lots_of conf (ow_session r) (ow_quantity r)"
proof -
  note old = store_okD [OF ok]
  have so: "session_ok (conf k)" for k using set by (simp add: setting_ok_def)
  have amb: "28 \<le> amb" using set by (simp add: setting_ok_def)
  note sf = session_figures [where conf = conf and k = "rq_session rq", OF so cfg]
  have ex: "existing_fill rq s = None" by (rule nothing_to_resume [OF ok r acc sid ready])
  define others where "others = fills_of (rq_user rq) (Some (rq_session rq)) (rq_order rq) s"
  have others: "others = sort_key (\<lambda>f. - fl_at f) (fills_on (rq_order rq) s)"
    unfolding others_def by (rule fills_of_order [OF ok r sid])
  obtain a where a: "find_account (rq_user rq) (rq_account rq) s = Some a"
    using plan by (auto simp: plan_fill_def split: option.splits)
  obtain filled fee slip target where gd: "fill_guards amb cfg r others qty = Inr (filled, fee, slip, target)"
    and settle: "settle_fill amb (conf (rq_session rq)) cfg rq qty price a r others None
      (positions_in (rq_user rq) (rq_account rq) None True s) (filled, fee, slip, target) = Inr fc"
    using plan a r ex by (auto simp: plan_fill_def Let_def other_fills_def others_def result_simps)
  note ff = settle_fill_fields [OF settle, simplified]
  have o0: "order_ok conf s (rq_order rq) r" using old(5) find_orderD [OF r] by blast
  have sum: "(\<Sum>f\<leftarrow>others. dval (fl_quantity f)) = filled_on (rq_order rq) s"
    by (simp add: others sum_list_sort filled_on_def)
  have "ow_state r \<notin> {PO_CREATED, PO_REJECTED}"
    by (rule fill_guards_gate [OF gd])
  then have lo: "lots_of conf (ow_session r) (ow_quantity r)" using o0 by (auto simp: order_ok_def)
  have ge: "fill_guards amb cfg r others qty = Inr (filled, fee, slip, target)"
    "\<forall>f \<in> set others. lots (qty_exp cfg) (fl_quantity f) \<and> 0 \<le> dval (fl_quantity f)"
    "(\<Sum>f\<leftarrow>others. dval (fl_quantity f)) < 10 ^ 18" "lots (qty_exp cfg) (ow_quantity r)" "dval (ow_quantity r) < 10 ^ 18"
    using gd o0 lo sum by (auto simp: order_ok_def others lots_of_def sid sf(1) intro: less_imp_le)
  note ex5 = fill_guards_exact [OF sf(2) amb ge q, unfolded sum]
  have fresh: "fc_resume fc = None" using ff by simp
  obtain acct ord where
    at1: "find_account (fc_user fc) (fc_account fc) s = Some acct" "ac_version acct = fc_version fc"
    "find_order (fc_user fc) (fc_order fc) s = Some ord" and
    at2: "case fc_resume fc of
       Some rid \<Rightarrow> st_fills s' = st_fills s \<and> cr_fill out \<in> set (st_fills s) \<and> fl_id (cr_fill out) = rid \<and>
         fl_order (cr_fill out) = fc_order fc \<and> fl_event (cr_fill out) = fc_event fc
     | None \<Rightarrow> new_fill_row (en_id E (st_count s)) fc = Inr (cr_fill out) \<and> st_count s < st_count s' \<and>
         (\<forall>g \<in> set (st_fills s). \<not> (fl_order g = fc_order fc \<and> fl_event g = fc_event fc)) \<and>
         st_fills s' = st_fills s @ [cr_fill out]" and
    at3: "st_accounts s' = dset (fc_account fc) (cr_account out) (st_accounts s)"
    "ac_version (cr_account out) = fc_version fc + 1" "ac_user (cr_account out) = fc_user fc"
    "st_ledger s' = st_ledger s @ [cr_ledger out]" and
    at4: "commit_ledger fc (cr_fill out) (cr_account out) (s\<lparr>st_ledger := []\<rparr>) =
       Inr (cr_ledger out, s\<lparr>st_ledger := [cr_ledger out]\<rparr>)" and
    at5: "column (fc_filled fc) = Inr (ow_filled (cr_order out))"
    "\<exists>avg. cr_order out = ord\<lparr>ow_state := fc_target fc, ow_legacy := LEGACY_STATUS_FOR_STATE (fc_target fc),
                 ow_filled := ow_filled (cr_order out), ow_avg := Some avg, ow_fee := fc_order_fee fc,
                 ow_slippage := fc_order_slippage fc\<rparr>"
    "st_orders s' = dset (fc_order fc) (cr_order out) (st_orders s)"
    by (rule atomic_effect [OF run]) (rule that, assumption+)
  have ids: "acct = a" "ord = r" using at1 a r ff by simp_all
  have fill: "new_fill_row (en_id E (st_count s)) fc = Inr (cr_fill out)" "st_fills s' = st_fills s @ [cr_fill out]"
    "\<forall>g \<in> set (st_fills s). \<not> (fl_order g = rq_order rq \<and> fl_event g = rq_event rq)"
    using at2 fresh ff by simp_all
  have fr: "fl_id (cr_fill out) = en_id E (st_count s)" "fl_user (cr_fill out) = rq_user rq" "fl_order (cr_fill out) = rq_order rq"
    "fl_session (cr_fill out) = Some (rq_session rq)" "fl_event (cr_fill out) = rq_event rq"
    "column qty = Inr (fl_quantity (cr_fill out))"
    using new_fill_row_Inr [OF fill(1)] ff by simp_all
  have lq: "lots_of conf (ow_session r) qty" using lots_quantity [OF q(1)] by (simp add: lots_of_def sid sf(1))
  have lf: "lots_of conf (ow_session r) filled" using ex5(3) by (simp add: lots_of_def sid sf(1))
  have fd: "dval (ow_filled (cr_order out)) = dval filled" using lots_of_column(1) [OF lf so] at5(1) ff by simp
  have or: "order_fixed (cr_order out) = order_fixed r" "ow_state (cr_order out) = target"
    "ow_quantity (cr_order out) = ow_quantity r"
    using order_written [OF at5(2)] ids ff by simp_all
  have pos: "0 \<le> filled_on (rq_order rq) s" using ge(2) unfolding sum [symmetric] by (intro sum_list_nonneg) auto
  have st: "state_fits (cr_order out)" using ex5(1,2,4) fd or q(2) pos by (simp add: state_fits_def)
  note le = commit_ledger_Inr [OF at4]
  show thesis
  proof (rule that [of a])
    show "fill_entries s' = fill_entries s @ [cr_ledger out]" using at3(4) le by (simp add: fill_entries_def)
    show "lots_of conf (ow_session r) (fl_quantity (cr_fill out))" "dval (fl_quantity (cr_fill out)) = dval qty"
      using lots_of_column [OF lq so fr(6)] by simp_all
    show "\<forall>f \<in> set (fills_on (rq_order rq) s). fl_event f \<noteq> rq_event rq" using fill(3) by (auto simp: fills_on_def)
  qed (use lo ex fresh fill fr at1 at3 at5(3) ids or fd ex5(1,2) st a le ff in simp_all)
qed

lemma fill_keeps_ok:
  assumes set: "setting_ok E amb conf" and ok: "store_ok E conf s"
    and cfg: "sc_accounting (conf (rq_session rq)) = Inr cfg" and q: "cfg_qty cfg v = Inr qty" "0 < dval qty"
    and r: "find_order (rq_user rq) (rq_order rq) s = Some r" and acc: "ow_account r = rq_account rq"
    and sid: "ow_session r = Some (rq_session rq)" and ready: "fill_ready rq r s"
    and plan: "plan_fill amb (conf (rq_session rq)) cfg rq qty price s = Inr fc"
    and run: "paper_apply_fill_atomic E fc s = Inr (out, s')"
  shows "store_ok E conf s'"
proof (rule client_fill_effect [OF assms])
  define oid where "oid = rq_order rq"
  define f where "f = cr_fill out"
  define q' where "q' = cr_order out"
  fix a
  assume fresh: "fc_resume fc = None" and fs: "st_fills s' = st_fills s @ [cr_fill out]"
    and fid: "fl_id (cr_fill out) = en_id E (st_count s)" and fu: "fl_user (cr_fill out) = rq_user rq"
    and fo: "fl_order (cr_fill out) = rq_order rq" and fse: "fl_session (cr_fill out) = Some (rq_session rq)"
    and fe: "fl_event (cr_fill out) = rq_event rq" and fq: "dval (fl_quantity (cr_fill out)) = dval qty"
    and fl: "lots_of conf (ow_session r) (fl_quantity (cr_fill out))"
    and new: "\<forall>f \<in> set (fills_on (rq_order rq) s). fl_event f \<noteq> rq_event rq"
    and es: "fill_entries s' = fill_entries s @ [cr_ledger out]" and lf: "ld_fill (cr_ledger out) = Some (en_id E (st_count s))"
    and lu: "ld_user (cr_ledger out) = rq_user rq" and ls: "ld_session (cr_ledger out) = Some (rq_session rq)"
    and la: "ld_account (cr_ledger out) = rq_account rq" and os: "st_orders s' = dset (rq_order rq) (cr_order out) (st_orders s)"
    and ofx: "order_fixed (cr_order out) = order_fixed r"
    and sum: "dval (ow_filled (cr_order out)) = filled_on (rq_order rq) s + dval qty"
    and le: "dval (ow_filled (cr_order out)) \<le> dval (ow_quantity r)" and fits: "state_fits (cr_order out)"
    and lo: "lots_of conf (ow_session r) (ow_quantity r)"
  note old = store_okD [OF ok]
  have r0: "dget (st_orders s) oid = Some r" and ru: "ow_user r = rq_user rq" using find_orderD [OF r] by (simp_all add: oid_def)
  have o0: "order_ok conf s oid r" by (rule old(5) [OF r0])
  have fx: "ow_user q' = ow_user r" "ow_session q' = ow_session r" "ow_account q' = ow_account r" "ow_quantity q' = ow_quantity r"
    using ofx by (simp_all add: order_fixed_eq q'_def)
  have fills: "fills_on k s' = fills_on k s @ (if k = oid then [f] else [])" for k
    by (simp add: fills_on_def fs fo f_def oid_def)
  have "order_ok conf s' oid q'"
    using o0 lo fx fu fse fe fq fl new sum le fits q(2) sid ru
    by (simp add: order_ok_def filled_on_def fills flip: f_def q'_def oid_def) auto
  moreover have "order_ok conf s' k x = order_ok conf s k x" if "k \<noteq> oid" for k x
    using that by (simp add: order_ok_def filled_on_def fills)
  moreover have get: "dget (st_orders s') k = (if k = oid then Some q' else dget (st_orders s) k)" for k
    by (simp add: os dict_simps oid_def q'_def)
  ultimately have orders: "order_ok conf s' k x" if "dget (st_orders s') k = Some x" for k x
    using that old(5) by (auto split: if_splits)
  have inj: "inj (en_id E)" using set by (simp add: setting_ok_def)
  have pos: "positions_ok E s" using old(2,4) by (simp add: positions_ok_def)
  note ap = atomic_positions [OF run fresh pos inj]
  have keys: "fst ` set (st_orders s') = fst ` set (st_orders s)"
    using map_of_SomeD [OF r0] by (auto simp: os dom_update image_iff simp flip: oid_def) (metis fst_conv)+
  have entry: "fill_entry s' l g" if "fill_entry s l g" for l g
    using that r0 fx(3) unfolding fill_entry_def get by (auto split: if_splits)
  have last: "fill_entry s' (cr_ledger out) f"
    using lf lu ls la fid fu fse fo fx(3) acc unfolding fill_entry_def get by (simp add: f_def oid_def)
  show ?thesis
  proof (rule store_okI)
    show "dict_ok (st_orders s')" using old(1) by (simp add: os dict_simps)
    show "dict_ok (st_positions s')" using ap(1) by (simp add: positions_ok_def)
    have "en_id E (st_count s) \<notin> fl_id ` set (st_fills s)" using old(4) not_drawn [OF inj, of s 0] by auto
    then show "distinct (map fl_id (st_fills s'))" using old(3) by (simp add: fs fid)
    have "drawn E s' (fl_id (cr_fill out))" using ap(3) fid by (auto simp: drawn_def)
    then show "drawn E s' k" if "k \<in> fst ` set (st_orders s') \<union> fst ` set (st_positions s') \<union> fl_id ` set (st_fills s')" for k
      using that old(4) [of k] drawn_mono [of E s k s'] ap(1,3)
      unfolding keys fs positions_ok_def by (auto simp: less_imp_le)
    show "dget (st_orders s') (fl_order g) \<noteq> None" if "g \<in> set (st_fills s')" for g
      using that old(6) [of g] fo unfolding get by (auto simp: fs oid_def)
    show "list_all2 (fill_entry s') (fill_entries s') (st_fills s')"
      unfolding es fs f_def [symmetric] using old(7) entry last
      by (intro list_all2_appendI) (auto intro: list_all2_mono)
  qed (rule orders)
qed

text \<open>Every statement of a client keeps the invariant.\<close>

lemma step_keeps_ok:
  assumes "client_step E amb conf s t" and set: "setting_ok E amb conf" and ok: "store_ok E conf s"
  shows "store_ok E conf t"
  using assms(1)
proof cases
  case (client_order row p)
  obtain oid r where p: "p = (oid, r)" by (cases p)
  show ?thesis
    by (rule order_new_ok [OF ok _ client_order(1,2) client_order(3) [unfolded p]])
       (use set in \<open>auto simp: setting_ok_def\<close>)
next
  case (client_bump user aid version payload a)
  then show ?thesis using store_ok_same [of t s] ok bumped_Inr(1) [OF client_bump(1)] by (simp add: fill_entries_def)
next
  case (client_entry row l)
  then show ?thesis using store_ok_same [of t s] ok new_ledger_Inr [OF client_entry(2)] by (simp add: fill_entries_def)
next
  case (client_feed sessions)
  then show ?thesis using store_ok_same [of t s] ok by (simp add: fill_entries_def)
qed (use fill_keeps_ok [OF set ok] move_ok [OF ok] in blast)+

lemma clients_keep_ok:
  assumes "clients E amb conf s t" and "store_ok E conf s"
  shows "store_ok E conf t"
proof -
  have "(client_step E amb conf)\<^sup>*\<^sup>* s t \<Longrightarrow> setting_ok E amb conf \<Longrightarrow> store_ok E conf t"
    by (induction rule: rtranclp_induct) (auto intro: step_keeps_ok assms)
  then show ?thesis using assms by (auto simp: clients_def)
qed

section \<open>The clients are disciplined\<close>

lemma positions_in_account:
  "positions_in u aid None c s = sort_key opened_key (filter (\<lambda>r. pr_user r = u \<and> (c \<or> pos_closed_at (pr_position r) = None)) (of_account aid s))"
  by (simp add: positions_in_def of_account_def conj_ac)

text \<open>What one statement of a client leaves alone.\<close>

definition untouched :: "string \<Rightarrow> string \<Rightarrow> string option \<Rightarrow> string \<Rightarrow> store \<Rightarrow> store \<Rightarrow> bool" where
  "untouched u aid sid oid s t \<longleftrightarrow> fills_of u sid oid t = fills_of u sid oid s \<and>
     ledger_of u aid sid ''FILL'' t = ledger_of u aid sid ''FILL'' s \<and>
     positions_in u aid None True t = positions_in u aid None True s"

lemma untouched_same:
  "st_fills t = st_fills s \<Longrightarrow> fill_entries t = fill_entries s \<Longrightarrow> st_positions t = st_positions s \<Longrightarrow>
    untouched u aid sid oid s t"
proof -
  have l: "ledger_of u aid sid ''FILL'' x = sort_key (\<lambda>r. - ld_at r)
       (filter (\<lambda>r. ld_user r = u \<and> ld_account r = aid \<and> (sid = None \<or> ld_session r = sid)) (fill_entries x))" for x
    by (simp add: ledger_of_def fill_entries_def conj_ac)
  show "st_fills t = st_fills s \<Longrightarrow> fill_entries t = fill_entries s \<Longrightarrow> st_positions t = st_positions s \<Longrightarrow>
    untouched u aid sid oid s t"
    unfolding untouched_def l by (simp add: fills_of_def positions_in_def)
qed

lemma step_order:
  assumes step: "client_step E amb conf s t" and set: "setting_ok E amb conf" and ok: "store_ok E conf s"
    and r: "find_order u oid s = Some r"
  shows "\<exists>r'. find_order u oid t = Some r' \<and> order_fixed r' = order_fixed r"
  using step
proof cases
  case (client_fill rq cfg v qty r1 price fc out)
  show ?thesis
  proof (rule client_fill_effect [OF set ok client_fill])
    assume "st_orders t = dset (rq_order rq) (cr_order out) (st_orders s)" "order_fixed (cr_order out) = order_fixed r1"
    then show ?thesis using r client_fill(4) by (auto simp: find_order_def dict_simps order_fixed_eq split: option.splits if_splits)
  qed
next
  case (client_bump user aid version payload a)
  then show ?thesis using r bumped_Inr(1) [OF client_bump(1)] by (simp add: find_order_def)
next
  case (client_order row p)
  then show ?thesis using r new_order_Inr(2) [of E row s "fst p" "snd p" t]
    by (auto simp: find_order_def map_add_def split: option.splits if_splits)
next
  case (client_move target user k expected reason q)
  obtain r1 where m: "find_order user k s = Some r1" "order_fixed q = order_fixed r1"
    "t = s\<lparr>st_orders := dset k q (st_orders s)\<rparr>" by (rule moved_order_Inr [OF client_move(3)])
  then show ?thesis using r by (auto simp: find_order_def dict_simps order_fixed_eq split: option.splits if_splits)
next
  case (client_entry row l)
  then show ?thesis using r new_ledger_Inr [OF client_entry(2)] by (simp add: find_order_def)
qed (use r in \<open>simp add: find_order_def\<close>)

lemma step_account:
  assumes step: "client_step E amb conf s t" and set: "setting_ok E amb conf" and ok: "store_ok E conf s"
    and a: "find_account u aid s = Some a"
  shows "\<exists>b. find_account u aid t = Some b \<and> (b = a \<or> ac_version b = ac_version a + 1) \<and>
    (b = a \<longrightarrow> find_order u oid s = Some r \<longrightarrow> ow_account r = aid \<longrightarrow> untouched u aid sid oid s t)"
  using step
proof cases
  case (client_fill rq cfg v qty r1 price fc out)
  show ?thesis
  proof (rule client_fill_effect [OF set ok client_fill])
    fix a1
    assume fresh: "fc_resume fc = None" and fs: "st_fills t = st_fills s @ [cr_fill out]" and fo: "fl_order (cr_fill out) = rq_order rq"
      and led: "st_ledger t = st_ledger s @ [cr_ledger out]" and la: "ld_account (cr_ledger out) = rq_account rq"
      and a1: "find_account (rq_user rq) (rq_account rq) s = Some a1"
      and as: "st_accounts t = dset (rq_account rq) (cr_account out) (st_accounts s)" and au: "ac_user (cr_account out) = rq_user rq"
      and ver: "ac_version (cr_account out) = ac_version a1 + 1" and fa: "fc_account fc = rq_account rq"
    show ?thesis
    proof (cases "aid = rq_account rq")
      case True
      then have "a1 = a" "u = rq_user rq" using a a1 by (auto simp: find_account_def split: option.splits if_splits)
      then have "find_account u aid t = Some (cr_account out)" "ac_version (cr_account out) = ac_version a + 1"
        using True au ver by (simp_all add: find_account_def as dict_simps)
      then show ?thesis by auto
    next
      case False
      have pos: "positions_ok E s" using store_okD(2,4) [OF ok] by (simp add: positions_ok_def)
      have "of_account aid t = of_account aid s"
        using atomic_positions(2) [OF client_fill(9) fresh pos _ , of aid] set False fa by (simp add: setting_ok_def)
      moreover have "oid \<noteq> rq_order rq" if "find_order u oid s = Some r" "ow_account r = aid"
        using that client_fill(4,5) False by (auto simp: find_order_def split: option.splits if_splits)
      ultimately have "find_order u oid s = Some r \<longrightarrow> ow_account r = aid \<longrightarrow> untouched u aid sid oid s t"
        using fs fo led la False by (auto simp: untouched_def fills_of_def ledger_of_def positions_in_account)
      moreover have "find_account u aid t = Some a" using a False by (simp add: find_account_def as dict_simps)
      ultimately show ?thesis by auto
    qed
  qed
next
  case (client_bump user k version payload b)
  note eb = bumped_Inr [OF client_bump(1)]
  have "find_account u aid t = (if aid = k then if user = u then Some b else None else find_account u aid s)"
    using eb(1,2) by (simp add: find_account_def dict_simps)
  then show ?thesis using a eb(1,3,4) untouched_same [of t s u aid sid oid]
    by (auto simp: fill_entries_def find_account_def split: option.splits if_splits)
next
  case (client_order row p)
  then show ?thesis using a new_order_Inr(2) [of E row s "fst p" "snd p" t] untouched_same [of t s u aid sid oid]
    by (simp add: find_account_def fill_entries_def)
next
  case (client_move target user k expected reason q)
  obtain r1 where "t = s\<lparr>st_orders := dset k q (st_orders s)\<rparr>" by (rule moved_order_Inr [OF client_move(3)])
  then show ?thesis using a untouched_same [of t s u aid sid oid] by (simp add: find_account_def fill_entries_def)
next
  case (client_entry row l)
  then show ?thesis using a new_ledger_Inr [OF client_entry(2)] untouched_same [of t s u aid sid oid]
    by (simp add: find_account_def fill_entries_def)
next
  case (client_feed sessions)
  then show ?thesis using a untouched_same [of t s u aid sid oid] by (simp add: find_account_def fill_entries_def)
qed

lemma steps_order:
  assumes "(client_step E amb conf)\<^sup>*\<^sup>* s t" and set: "setting_ok E amb conf" and ok: "store_ok E conf s"
    and r: "find_order u oid s = Some r"
  shows "store_ok E conf t \<and> (\<exists>r'. find_order u oid t = Some r' \<and> order_fixed r' = order_fixed r)"
  using assms(1)
proof (induction rule: rtranclp_induct)
  case (step t v)
  then show ?case using step_order [OF step.hyps(2) set] step_keeps_ok [OF step.hyps(2) set] by metis
qed (use ok r in auto)

lemma steps_account:
  assumes "(client_step E amb conf)\<^sup>*\<^sup>* s t" and set: "setting_ok E amb conf" and ok: "store_ok E conf s"
    and a: "find_account u aid s = Some a"
  shows "\<exists>b. find_account u aid t = Some b \<and> (ac_version a < ac_version b \<or>
    b = a \<and> (find_order u oid s = Some r \<longrightarrow> ow_account r = aid \<longrightarrow> untouched u aid sid oid s t))"
  using assms(1)
proof (induction rule: rtranclp_induct)
  case (step t v)
  then obtain b where b: "find_account u aid t = Some b" and alt: "ac_version a < ac_version b \<or>
    b = a \<and> (find_order u oid s = Some r \<longrightarrow> ow_account r = aid \<longrightarrow> untouched u aid sid oid s t)" by blast
  have okt: "store_ok E conf t"
    using clients_keep_ok [OF _ ok] step.hyps(1) set ok unfolding clients_def by blast
  have sa: "\<exists>b'. find_account u aid v = Some b' \<and> (b' = b \<or> ac_version b' = ac_version b + 1) \<and>
    (b' = b \<longrightarrow> find_order u oid t = Some r' \<longrightarrow> ow_account r' = aid \<longrightarrow> untouched u aid sid oid t v)" for r'
    by (rule step_account [OF step.hyps(2) set okt b])
  show ?case
  proof (cases "find_order u oid s = Some r \<and> ow_account r = aid")
    case True
    obtain r' where r': "find_order u oid t = Some r'" "order_fixed r' = order_fixed r"
      using steps_order [OF step.hyps(1) set ok] True by blast
    then have "ow_account r' = aid" using True by (simp add: order_fixed_eq)
    then show ?thesis using sa [of r'] alt r'(1) by (auto simp: untouched_def)
  next
    case False
    then show ?thesis using sa [of r] alt by auto
  qed
qed (use a in \<open>auto simp: untouched_def\<close>)

lemma clients_account:
  assumes c: "clients E amb conf s t" and a: "find_account u aid s = Some a"
  shows "\<exists>b. find_account u aid t = Some b \<and> (ac_version a < ac_version b \<or>
    b = a \<and> (find_order u oid s = Some r \<longrightarrow> ow_account r = aid \<longrightarrow> untouched u aid sid oid s t))"
  using steps_account [OF _ _ _ a] c a unfolding clients_def by (auto simp: untouched_def)

interpretation sim: disciplined "clients E amb conf" for E amb conf
proof
  fix s t v
  show "clients E amb conf s s" by (simp add: clients_def)
  show "clients E amb conf s t \<Longrightarrow> clients E amb conf t v \<Longrightarrow> clients E amb conf s v"
    unfolding clients_def by (metis rtranclp_trans)
next
  fix s t u aid a
  assume "clients E amb conf s t" "find_account u aid s = Some a"
  then show "\<exists>b. find_account u aid t = Some b \<and> ac_version a \<le> ac_version b"
    using clients_account by fastforce
next
  fix s t u aid a b oid r sid
  assume "clients E amb conf s t" "find_account u aid s = Some a" "find_account u aid t = Some b"
    "ac_version b = ac_version a" "find_order u oid s = Some r" "ow_account r = aid"
  then show "b = a \<and> fills_of u sid oid t = fills_of u sid oid s \<and>
      ledger_of u aid sid ''FILL'' t = ledger_of u aid sid ''FILL'' s \<and>
      positions_in u aid None True t = positions_in u aid None True s"
    using clients_account [of E amb conf s t u aid a oid r sid] by (auto simp: untouched_def)
next
  fix s t u oid r
  assume "clients E amb conf s t" "find_order u oid s = Some r"
  then show "\<exists>r'. find_order u oid t = Some r' \<and> order_fixed r' = order_fixed r"
    using steps_order unfolding clients_def by blast
qed

end
