(* ===== verification/Sim_Laws.thy ===== *)
theory Sim_Laws
  imports Sim_Session
begin

text \<open>
  What a call of \<open>apply_fill\<close> means to the other clients: it is one step of theirs or none, it keeps
  the invariant, an event fills an order once, and a call that does not report a fill wrote nothing.
\<close>

section \<open>A call among the clients\<close>

text \<open>The others are clients; the order belongs to the session and the account of the request.\<close>

definition among_clients :: "environment \<Rightarrow> nat \<Rightarrow> (string \<Rightarrow> session_config) \<Rightarrow> bool" where
  "among_clients E amb conf \<longleftrightarrow> setting_ok E amb conf \<and> faults_ok E \<and> (\<forall>n s. clients E amb conf s (en_act E n s))"

definition order_of_request :: "fill_request \<Rightarrow> store \<Rightarrow> bool" where
  "order_of_request rq s \<longleftrightarrow> (case find_order (rq_user rq) (rq_order rq) s of
     None \<Rightarrow> False | Some r \<Rightarrow> ow_account r = rq_account rq \<and> ow_session r = Some (rq_session rq))"

lemma order_of_request_moves:
  "clients E amb conf s t \<Longrightarrow> order_of_request rq s \<Longrightarrow> order_of_request rq t"
  using sim.order_stays unfolding order_of_request_def
  by (fastforce simp: order_fixed_eq split: option.splits)

lemma figures_cases:
  assumes "figures_of c rq0 = Inr (rq, cfg, qty, price)"
  shows "sc_accounting c = Inr cfg" "cfg_qty cfg (rq_quantity rq) = Inr qty" "0 < dval qty" "0 < dval price"
  using assms by (auto simp: figures_of_def result_simps dec_le_val split: if_splits)

lemma committed_reports:
  assumes "committed R E amb c cfg rq qty price s res s'"
  shows "(\<exists>rep. res = Inr rep \<and> fo_kind rep = FILL_APPLIED) \<or> (\<exists>n. en_fault E n = Some (PersistenceError, True))"
proof -
  have "(\<exists>out x n. res = Inr \<lparr>fo_kind = FILL_APPLIED, fo_order = cr_order out, fo_rows = Some out, fo_filled = x, fo_attempts = n\<rparr>)
    \<or> (\<exists>n. en_fault E n = Some (PersistenceError, True))"
    using assms unfolding committed_def by blast
  then show ?thesis by auto
qed

text \<open>A committed call is one step of a client.\<close>

lemma committed_step:
  assumes cm: "committed (clients E amb conf) E amb (conf (rq_session rq)) cfg rq qty price s res s'"
    and fig: "figures_of (conf (rq_session rq)) rq0 = Inr (rq, cfg, qty, price)"
    and ord: "order_of_request rq s"
  obtains gate t r fc out where "clients E amb conf s gate" "clients E amb conf gate t"
    "find_order (rq_user rq) (rq_order rq) t = Some r" "fill_ready rq r t"
    "\<exists>se. dget (st_sessions gate) (rq_session rq) = Some se \<and> se_user se = rq_user rq \<and> admit_execution se = Inr ()"
    "plan_fill amb (conf (rq_session rq)) cfg rq qty price t = Inr fc"
    "paper_apply_fill_atomic E fc t = Inr (out, s')" "client_step E amb conf t s'"
    "(\<exists>n. res = Inr \<lparr>fo_kind = FILL_APPLIED, fo_order = cr_order out, fo_rows = Some out, fo_filled = fc_filled fc,
                   fo_attempts = n\<rparr>) \<or> (res = Inl PersistenceError \<and> (\<exists>n. en_fault E n = Some (PersistenceError, True)))"
proof -
  obtain gate t r fc out where c: "clients E amb conf s gate" "clients E amb conf gate t"
    "\<exists>se. dget (st_sessions gate) (rq_session rq) = Some se \<and> se_user se = rq_user rq \<and> admit_execution se = Inr ()"
    "find_order (rq_user rq) (rq_order rq) t = Some r" "fill_ready rq r t"
    "plan_fill amb (conf (rq_session rq)) cfg rq qty price t = Inr fc"
    "paper_apply_fill_atomic E fc t = Inr (out, s')"
    "(\<exists>n. res = Inr \<lparr>fo_kind = FILL_APPLIED, fo_order = cr_order out, fo_rows = Some out, fo_filled = fc_filled fc,
                   fo_attempts = n\<rparr>) \<or> (res = Inl PersistenceError \<and> (\<exists>n. en_fault E n = Some (PersistenceError, True)))"
    using cm unfolding committed_def by blast
  have "order_of_request rq t" by (rule order_of_request_moves [OF sim.trans [OF c(1,2)] ord])
  then have r: "ow_account r = rq_account rq" "ow_session r = Some (rq_session rq)"
    using c(4) by (simp_all add: order_of_request_def)
  note f = figures_cases [OF fig]
  have "client_step E amb conf t s'"
    by (rule client_step.client_fill [where conf = conf and rq = rq, OF f(1,2,3) c(4) r c(5,6,7)])
  then show thesis using that c by blast
qed

text \<open>Every call, whatever it returns, is a client to the others.\<close>

lemma call_trace:
  assumes am: "among_clients E amb conf" and fig: "figures_of (conf (rq_session rq)) rq0 = Inr (rq, cfg, qty, price)"
    and ord: "order_of_request rq (w_store w)"
    and run: "sim_apply_fill E amb (conf (rq_session rq)) rq0 w = (res, w')"
  shows "(clients E amb conf (w_store w) (w_store w') \<and> (\<forall>rep. res = Inr rep \<longrightarrow> fo_kind rep \<noteq> FILL_APPLIED \<and> fo_rows rep = None)) \<or>
    committed (clients E amb conf) E amb (conf (rq_session rq)) cfg rq qty price (w_store w) res (w_store w')"
proof -
  obtain r0 where r0: "find_order (rq_user rq) (rq_order rq) (w_store w) = Some r0" "ow_account r0 = rq_account rq"
    using ord by (auto simp: order_of_request_def split: option.splits)
  have "sim.guarded E amb conf E" using am by (simp add: among_clients_def sim.guarded_def)
  then show ?thesis using sim.fill_trace [OF _ _ fig r0 run] am by (simp add: among_clients_def)
qed

lemma clients_step: "clients E amb conf s t \<Longrightarrow> store_ok E conf s \<Longrightarrow> setting_ok E amb conf \<Longrightarrow> client_step E amb conf t v \<Longrightarrow>
    clients E amb conf s v"
  unfolding clients_def by (metis r_into_rtranclp rtranclp.rtrancl_into_rtrancl)

lemma call_keeps_ok:
  assumes am: "among_clients E amb conf" and fig: "figures_of (conf (rq_session rq)) rq0 = Inr (rq, cfg, qty, price)"
    and ord: "order_of_request rq (w_store w)" and ok: "store_ok E conf (w_store w)"
    and run: "sim_apply_fill E amb (conf (rq_session rq)) rq0 w = (res, w')"
  shows "clients E amb conf (w_store w) (w_store w') \<and> store_ok E conf (w_store w')"
proof -
  have c: "clients E amb conf (w_store w) (w_store w')"
    using call_trace [OF am fig ord run]
  proof
    assume "committed (clients E amb conf) E amb (conf (rq_session rq)) cfg rq qty price (w_store w) res (w_store w')"
    then show ?thesis
      by (rule committed_step [where conf = conf and rq = rq, OF _ fig ord])
        (use am ok in \<open>unfold among_clients_def, blast intro: clients_step sim.trans\<close>)
  qed simp
  then show ?thesis using clients_keep_ok [OF c ok] by blast
qed

text \<open>
  Under any interleaving with the other clients and any fault, a call of apply_fill leaves a store
  the clients can reach from the one it started on: the invariant of the store survives it.
\<close>

theorem fill_keeps_store_ok:
  assumes am: "among_clients E amb conf" and fig: "figures_of (conf (rq_session rq)) rq0 = Inr (rq, cfg, qty, price)"
    and ord: "order_of_request rq (w_store w)" and ok: "store_ok E conf (w_store w)"
    and run: "sim_apply_fill E amb (conf (rq_session rq)) rq0 w = (res, w')"
  shows "clients E amb conf (w_store w) (w_store w') \<and> store_ok E conf (w_store w')"
  by (rule call_keeps_ok [OF assms])

text \<open>The step behind a report that says applied.\<close>

lemma applied_in_one_step:
  assumes am: "among_clients E amb conf" and fig: "figures_of (conf (rq_session rq)) rq0 = Inr (rq, cfg, qty, price)"
    and ord: "order_of_request rq (w_store w)" and ok: "store_ok E conf (w_store w)"
    and run: "sim_apply_fill E amb (conf (rq_session rq)) rq0 w = (Inr rep, w')" and ap: "fo_kind rep = FILL_APPLIED"
  shows "\<exists>gate t r se fc out. clients E amb conf (w_store w) gate \<and> clients E amb conf gate t \<and>
    dget (st_sessions gate) (rq_session rq) = Some se \<and> admit_execution se = Inr () \<and>
    find_order (rq_user rq) (rq_order rq) t = Some r \<and> \<not> paper_terminal_state (ow_state r) \<and> existing_fill rq t = None \<and>
    plan_fill amb (conf (rq_session rq)) cfg rq qty price t = Inr fc \<and>
    paper_apply_fill_atomic E fc t = Inr (out, w_store w') \<and>
    fo_order rep = cr_order out \<and> fo_rows rep = Some out \<and> fo_filled rep = fc_filled fc"
proof -
  have cm: "committed (clients E amb conf) E amb (conf (rq_session rq)) cfg rq qty price (w_store w) (Inr rep) (w_store w')"
    using call_trace [OF am fig ord run] ap by auto
  show ?thesis
  proof (rule committed_step [where conf = conf and rq = rq, OF cm fig ord])
    fix gate t r fc out
    assume c: "clients E amb conf (w_store w) gate" "clients E amb conf gate t"
      and r: "find_order (rq_user rq) (rq_order rq) t = Some r" and ready: "fill_ready rq r t"
      and rest: "\<exists>se. dget (st_sessions gate) (rq_session rq) = Some se \<and> se_user se = rq_user rq \<and> admit_execution se = Inr ()"
      "plan_fill amb (conf (rq_session rq)) cfg rq qty price t = Inr fc" "paper_apply_fill_atomic E fc t = Inr (out, w_store w')"
      "(\<exists>n. Inr rep = Inr \<lparr>fo_kind = FILL_APPLIED, fo_order = cr_order out, fo_rows = Some out, fo_filled = fc_filled fc,
                   fo_attempts = n\<rparr>) \<or> (Inr rep = Inl PersistenceError \<and> (\<exists>n. en_fault E n = Some (PersistenceError, True)))"
    have okt: "store_ok E conf t" using clients_keep_ok [OF sim.trans [OF c] ok] .
    have "order_of_request rq t" by (rule order_of_request_moves [OF sim.trans [OF c] ord])
    then have "existing_fill rq t = None"
      using nothing_to_resume [OF okt r _ _ ready] r by (simp add: order_of_request_def)
    moreover have "\<not> paper_terminal_state (ow_state r)" using ready by (simp add: fill_ready_def)
    ultimately show ?thesis using c r rest by fastforce
  qed
qed


text \<open>Fills only grow.\<close>

lemma step_fills:
  assumes step: "client_step E amb conf s t" and set: "setting_ok E amb conf" and ok: "store_ok E conf s"
  shows "set (st_fills s) \<subseteq> set (st_fills t)"
  using step
proof cases
  case (client_fill rq cfg v qty r1 price fc out)
  show ?thesis by (rule client_fill_effect [OF set ok client_fill]) auto
next
  case (client_move target user k expected reason q)
  show ?thesis by (rule moved_order_Inr [OF client_move(3)]) simp
next
  case (client_order row p)
  then show ?thesis using new_order_Inr(2) [of E row s "fst p" "snd p" t] by simp
qed (auto dest: bumped_Inr(1) new_ledger_Inr)

lemma clients_fills:
  assumes "clients E amb conf s t"
  shows "set (st_fills s) \<subseteq> set (st_fills t)"
proof -
  have "(client_step E amb conf)\<^sup>*\<^sup>* s t \<Longrightarrow> setting_ok E amb conf \<Longrightarrow> store_ok E conf s \<Longrightarrow>
    set (st_fills s) \<subseteq> set (st_fills t) \<and> store_ok E conf t"
    by (induction rule: rtranclp_induct) (auto dest: step_fills intro: step_keeps_ok)
  then show ?thesis using assms by (auto simp: clients_def)
qed

text \<open>
  C7: exactly once. When the order already has a fill of the event, a call with that event never
  applies another, whatever the others do and however statements fail.
\<close>

theorem event_fills_once:
  assumes am: "among_clients E amb conf" and fig: "figures_of (conf (rq_session rq)) rq0 = Inr (rq, cfg, qty, price)"
    and ord: "order_of_request rq (w_store w)" and ok: "store_ok E conf (w_store w)"
    and f: "f \<in> set (st_fills (w_store w))" "fl_order f = rq_order rq" "fl_event f = rq_event rq"
    and run: "sim_apply_fill E amb (conf (rq_session rq)) rq0 w = (Inr rep, w')"
  shows "fo_kind rep \<noteq> FILL_APPLIED"
proof
  assume "fo_kind rep = FILL_APPLIED"
  then obtain gate t r where c: "clients E amb conf (w_store w) gate" "clients E amb conf gate t"
    and r: "find_order (rq_user rq) (rq_order rq) t = Some r" and none: "existing_fill rq t = None"
    using applied_in_one_step [OF am fig ord ok run] by blast
  have okt: "store_ok E conf t" using clients_keep_ok [OF sim.trans [OF c] ok] .
  have "ow_session r = Some (rq_session rq)"
    using order_of_request_moves [OF sim.trans [OF c] ord] r by (simp add: order_of_request_def)
  note fo = fills_of_order [OF okt r this]
  have "f \<in> set (fills_on (rq_order rq) t)" using clients_fills [OF sim.trans [OF c]] f by (auto simp: fills_on_def)
  then have "f \<in> set (fills_of (rq_user rq) (Some (rq_session rq)) (rq_order rq) t)" by (simp add: fo)
  then show False using none f(3) by (auto simp: existing_fill_def find_None_iff)
qed

section \<open>Orders and ledger under any interleaving\<close>


text \<open>
  C6: the ledger rows of cause FILL are, in order, the rows of the fills: each fill once, with its
  owner and session, and the account of its order.
\<close>

theorem ledger_mirrors_fills:
  assumes "clients E amb conf s t" and "store_ok E conf s"
  shows "map ld_fill (filter (\<lambda>l. ld_cause l = ''FILL'') (st_ledger t)) = map (\<lambda>f. Some (fl_id f)) (st_fills t) \<and>
    map ld_session (filter (\<lambda>l. ld_cause l = ''FILL'') (st_ledger t)) = map fl_session (st_fills t) \<and>
    map (\<lambda>l. Some (ld_account l)) (filter (\<lambda>l. ld_cause l = ''FILL'') (st_ledger t)) =
      map (\<lambda>f. map_option ow_account (dget (st_orders t) (fl_order f))) (st_fills t) \<and>
    distinct (map fl_id (st_fills t))"
proof -
  note okt = store_okD [OF clients_keep_ok [OF assms]]
  have "list_all2 (fill_entry t) es fs \<Longrightarrow> map ld_fill es = map (\<lambda>f. Some (fl_id f)) fs \<and> map ld_session es = map fl_session fs \<and>
    map (\<lambda>l. Some (ld_account l)) es = map (\<lambda>f. map_option ow_account (dget (st_orders t) (fl_order f))) fs" for es fs
    by (induction rule: list_all2_induct) (auto simp: fill_entry_def)
  then show ?thesis using okt(3,7) by (simp add: fill_entries_def)
qed

section \<open>A call alone\<close>

text \<open>With nobody else about, the relation of the others is equality.\<close>

interpretation alone: disciplined "(=)"
  by unfold_locales auto


text \<open>The call as one function of the store.\<close>

definition commit_spec ::
  "environment \<Rightarrow> fill_commit \<Rightarrow> order_row \<Rightarrow> store \<Rightarrow> sim_error + (fill_report \<times> store)" where
  "commit_spec E fc r s =
     (case paper_apply_fill_atomic E fc s of
        Inl e \<Rightarrow> if e = DuplicateFill then Inr (unchanged FILL_DUPLICATE r 1, s) else Inl e
      | Inr (out, s') \<Rightarrow>
          Inr (\<lparr>fo_kind = FILL_APPLIED, fo_order = cr_order out, fo_rows = Some out,
                 fo_filled = fc_filled fc, fo_attempts = 1\<rparr>, s'))"

definition fill_spec ::
  "environment \<Rightarrow> nat \<Rightarrow> session_config \<Rightarrow> accounting_config \<Rightarrow> fill_request \<Rightarrow> decimal \<Rightarrow> decimal \<Rightarrow> store \<Rightarrow>
    sim_error + (fill_report \<times> store)" where
  "fill_spec E amb c cfg rq qty price s =
     (case (find_account (rq_user rq) (rq_account rq) s, find_order (rq_user rq) (rq_order rq) s) of
        (Some a, Some r) \<Rightarrow>
          if paper_terminal_state (ow_state r) then Inr (unchanged FILL_TERMINAL r 1, s)
          else if \<not> fill_ready rq r s then Inr (unchanged FILL_DUPLICATE r 1, s)
          else
            bnd (case dget (st_sessions s) (rq_session rq) of None \<Rightarrow> Inl InvalidOrderIntent
                 | Some se \<Rightarrow> if se_user se = rq_user rq then admit_execution se else Inl InvalidOrderIntent) (\<lambda>_.
            bnd (plan_fill amb c cfg rq qty price s) (\<lambda>fc.
              commit_spec E fc r s))
      | _ \<Rightarrow> Inl PersistenceError)"

definition undisturbed :: "environment \<Rightarrow> bool" where
  "undisturbed E \<longleftrightarrow> (\<forall>n s. en_act E n s = s) \<and> (\<forall>n. en_fault E n = None)"

lemma undisturbed_statement:
  "undisturbed E \<Longrightarrow> statement E f w = (fst (f (w_store w)), \<lparr>w_store = snd (f (w_store w)), w_step = Suc (w_step w)\<rparr>)"
  by (simp add: undisturbed_def statement_def Let_def)

lemma undisturbed_read:
  "undisturbed E \<Longrightarrow> read_store E f w = (f (w_store w), \<lparr>w_store = w_store w, w_step = Suc (w_step w)\<rparr>)"
  by (simp add: read_store_def undisturbed_statement)

lemmas undisturbed_runs = lock_account_for_update_def read_order_def get_fills_def get_balance_events_def
  read_session_def get_positions_def apply_fill_atomic_def undisturbed_read undisturbed_statement

lemma undisturbed_commit:
  assumes un: "undisturbed E" and spec: "commit_spec E fc r (w_store w) = Inr (rep, s')"
  shows "fst (commit_or_duplicate E fc r 1 (fc_filled fc) w) = Inr rep"
    "w_store (snd (commit_or_duplicate E fc r 1 (fc_filled fc) w)) = s'"
  using spec
  by (auto simp: commit_or_duplicate_def on_duplicate_def undisturbed_runs un andthen_def pure_run_def commit_spec_def
      commit_cases split: sum.splits if_splits)

lemma undisturbed_gate:
  assumes un: "undisturbed E" and se: "dget (st_sessions (w_store w)) (rq_session rq) = Some se" "se_user se = rq_user rq"
    "admit_execution se = Inr ()"
    and g: "fill_guards amb cfg r (other_fills rows resumed) qty = Inr g"
    and fc: "settle_fill amb c cfg rq qty price a r (other_fills rows resumed) resumed
      (positions_in (rq_user rq) (rq_account rq) None True (w_store w)) g = Inr fc"
    and spec: "commit_spec E fc r (w_store w) = Inr (rep, s')"
  shows "fst (fill_from_gate E amb c cfg rq qty price 1 a r rows resumed w) = Inr rep"
    "w_store (snd (fill_from_gate E amb c cfg rq qty price 1 a r rows resumed w)) = s'"
proof -
  have fg: "fst g = fc_filled fc" using settle_fill_fields [OF fc] by simp
  let ?v = "\<lparr>w_store = w_store w, w_step = Suc (Suc (w_step w))\<rparr>"
  have "fill_from_gate E amb c cfg rq qty price 1 a r rows resumed w = commit_or_duplicate E fc r 1 (fc_filled fc) ?v"
    unfolding fill_from_gate_def read_session_def get_positions_def undisturbed_read [OF un] andthen_def pure_run_def
    by (simp add: se g fc fg)
  then show "fst (fill_from_gate E amb c cfg rq qty price 1 a r rows resumed w) = Inr rep"
    "w_store (snd (fill_from_gate E amb c cfg rq qty price 1 a r rows resumed w)) = s'"
    using undisturbed_commit [OF un, of fc r ?v] spec by simp_all
qed

lemma undisturbed_attempt:
  assumes un: "undisturbed E" and spec: "fill_spec E amb c cfg rq qty price (w_store w) = Inr (rep, s')"
  shows "fst (fill_attempt E amb c cfg rq qty price 1 w) = Inr rep"
    "w_store (snd (fill_attempt E amb c cfg rq qty price 1 w)) = s'"
proof -
  define s where "s = w_store w"
  let ?at = "fill_attempt E amb c cfg rq qty price 1 w"
  obtain a r where a: "find_account (rq_user rq) (rq_account rq) s = Some a"
    and r: "find_order (rq_user rq) (rq_order rq) s = Some r"
    using spec by (auto simp: fill_spec_def s_def split: option.splits)
  let ?rows = "fills_of (rq_user rq) (Some (rq_session rq)) (rq_order rq) s"
  have "fst ?at = Inr rep \<and> w_store (snd ?at) = s'"
  proof (cases "fill_ready rq r s")
    case False
    then show ?thesis using spec a r
      by (auto simp: fill_spec_def fill_attempt_def undisturbed_runs un andthen_def pure_run_def fill_ready_def
          existing_fill_def settled_def simp flip: s_def split: option.splits if_splits)
  next
    case True
    obtain se fc where se: "dget (st_sessions s) (rq_session rq) = Some se" "se_user se = rq_user rq" "admit_execution se = Inr ()"
      and plan: "plan_fill amb c cfg rq qty price s = Inr fc" and cs: "commit_spec E fc r s = Inr (rep, s')"
      using spec a r True unfolding fill_spec_def
      by (auto simp: fill_ready_def result_simps simp flip: s_def split: option.splits if_splits)
    obtain g where g: "fill_guards amb cfg r (other_fills ?rows (existing_fill rq s)) qty = Inr g"
      and fc: "settle_fill amb c cfg rq qty price a r (other_fills ?rows (existing_fill rq s)) (existing_fill rq s)
        (positions_in (rq_user rq) (rq_account rq) None True s) g = Inr fc"
      using plan a r by (auto simp: plan_fill_def Let_def result_simps)
    note gate = undisturbed_gate [OF un, of _ rq se amb cfg r ?rows "existing_fill rq s", OF _ se(2,3) g]
    show ?thesis using True gate [of "\<lparr>w_store = s, w_step = k\<rparr>" for k] se fc cs a r
      by (auto simp: fill_attempt_def undisturbed_runs un andthen_def pure_run_def fill_ready_def
          existing_fill_def settled_def simp flip: s_def split: option.splits)
  qed
  then show "fst ?at = Inr rep" "w_store (snd ?at) = s'" by simp_all
qed


section \<open>Bounds\<close>

text \<open>At most so many statements.\<close>

definition cost :: "nat \<Rightarrow> 'a run \<Rightarrow> bool" where
  "cost k m \<longleftrightarrow> (\<forall>w. w_step (snd (m w)) \<le> w_step w + k)"

lemma cost_le: "cost k m \<Longrightarrow> k \<le> j \<Longrightarrow> cost j m"
  unfolding cost_def by (meson add_left_mono le_trans)

lemma cost_pure: "cost k (pure_run r)"
  by (simp add: cost_def pure_run_def)

lemma cost_statement: "cost (Suc k) (statement E f)"
  by (auto simp: cost_def statement_def Let_def split: option.splits)

lemma cost_read: "cost (Suc k) (read_store E f)"
  unfolding read_store_def by (rule cost_statement)

lemma cost_andthen: "cost (Suc 0) m \<Longrightarrow> (\<And>x. cost k (f x)) \<Longrightarrow> cost (Suc k) (andthen m f)"
proof -
  assume m: "cost (Suc 0) m" and f: "\<And>x. cost k (f x)"
  show ?thesis unfolding cost_def
  proof
    fix w
    obtain r v where v: "m w = (r, v)" by fastforce
    have "w_step (snd (m w)) \<le> w_step w + Suc 0" using m unfolding cost_def by blast
    then have one: "w_step v \<le> Suc (w_step w)" by (simp add: v)
    have "w_step (snd (f x v)) \<le> w_step v + k" for x using f [of x] unfolding cost_def by blast
    then have two: "w_step (snd (f x v)) \<le> w_step w + Suc k" for x using one [THEN add_right_mono [of _ _ k]] le_trans
      by (metis add_Suc_shift add_Suc)
    then show "w_step (snd (andthen m f w)) \<le> w_step w + Suc k"
      using one two by (cases r) (simp_all add: andthen_def v)
  qed
qed

lemma cost_pure_andthen: "(\<And>x. r = Inr x \<Longrightarrow> cost k (f x)) \<Longrightarrow> cost k (andthen (pure_run r) f)"
  by (cases r) (auto simp: cost_def andthen_def pure_run_def)

lemmas cost_rules = cost_pure cost_statement cost_read cost_pure_andthen cost_andthen

lemma cost_duplicate: "cost k m \<Longrightarrow> cost k (on_duplicate m x)"
proof -
  assume m: "cost k m"
  have "w_step (snd (on_duplicate m x w)) = w_step (snd (m w))" for w
    by (auto simp: on_duplicate_def split: prod.splits sum.splits)
  then show ?thesis using m by (simp add: cost_def)
qed

lemma cost_gate: "cost 3 (fill_from_gate E amb c cfg rq qty price n acct r rows resumed)"
proof -
  have commit: "cost (Suc 0) (commit_or_duplicate E fc r n q)" for fc q
    unfolding commit_or_duplicate_def apply_fill_atomic_def by (intro cost_duplicate cost_andthen cost_rules)
  have "cost (Suc (Suc (Suc 0))) (fill_from_gate E amb c cfg rq qty price n acct r rows resumed)"
    unfolding fill_from_gate_def read_session_def get_positions_def
    by (intro cost_andthen [OF cost_read] cost_pure_andthen commit)
  then show ?thesis by (simp add: numeral_3_eq_3)
qed

lemma cost_attempt: "cost 7 (fill_attempt E amb c cfg rq qty price n)"
proof -
  have g: "cost (Suc (Suc (Suc (Suc 0)))) (fill_from_gate E amb c cfg rq qty price n acct r rows resumed)"
    "cost (Suc (Suc (Suc 0))) (fill_from_gate E amb c cfg rq qty price n acct r rows resumed)" for acct r rows resumed
    using cost_le [OF cost_gate] by simp_all
  have "cost (Suc (Suc (Suc (Suc (Suc (Suc (Suc 0))))))) (fill_attempt E amb c cfg rq qty price n)"
    unfolding fill_attempt_def lock_account_for_update_def read_order_def get_fills_def get_balance_events_def
    by (intro cost_andthen [OF cost_read] cost_pure_andthen)
      (auto split: option.splits intro!: cost_pure cost_andthen [OF cost_read] g)
  then show ?thesis by (simp add: eval_nat_numeral)
qed

lemma cost_retry: "(\<And>i. cost j (m i)) \<Longrightarrow> cost (k * j) (retry_from n k m)"
proof (induction k arbitrary: n)
  case (Suc k)
  show ?case unfolding cost_def
  proof
    fix w
    obtain r v where v: "m n w = (r, v)" by fastforce
    have "w_step (snd (m n w)) \<le> w_step w + j" using Suc.prems unfolding cost_def by blast
    moreover have "w_step (snd (retry_from (Suc n) k m v)) \<le> w_step v + k * j"
      using Suc.IH [OF Suc.prems] unfolding cost_def by blast
    ultimately show "w_step (snd (retry_from n (Suc k) m w)) \<le> w_step w + Suc k * j"
      by (cases r) (auto simp: v)
  qed
qed (simp add: cost_def)

text \<open>What a run returns when it returns.\<close>

definition yields :: "('a \<Rightarrow> bool) \<Rightarrow> 'a run \<Rightarrow> bool" where
  "yields P m \<longleftrightarrow> (\<forall>w x w'. m w = (Inr x, w') \<longrightarrow> P x)"

lemma yields_pure: "(\<And>x. r = Inr x \<Longrightarrow> P x) \<Longrightarrow> yields P (pure_run r)"
  by (simp add: yields_def pure_run_def)

lemma yields_andthen: "(\<And>x. yields P (k x)) \<Longrightarrow> yields P (andthen m k)"
  unfolding yields_def andthen_Inr by blast

lemma yields_duplicate: "yields P m \<Longrightarrow> P x \<Longrightarrow> yields P (on_duplicate m x)"
  by (auto simp: yields_def on_duplicate_def split: prod.splits sum.splits if_splits)

lemma yields_attempt: "yields (\<lambda>rep. fo_attempts rep = n) (fill_attempt E amb c cfg rq qty price n)"
proof -
  have commit: "yields (\<lambda>rep. fo_attempts rep = n) (commit_or_duplicate E fc r n q)" for fc r q
    unfolding commit_or_duplicate_def by (intro yields_duplicate yields_andthen yields_pure) (auto simp: unchanged_def)
  have gate: "yields (\<lambda>rep. fo_attempts rep = n) (fill_from_gate E amb c cfg rq qty price n acct r rows resumed)"
    for acct r rows resumed
    unfolding fill_from_gate_def by (intro yields_andthen commit)
  show ?thesis unfolding fill_attempt_def
    by (intro yields_andthen)
      (auto split: option.splits intro!: yields_pure yields_andthen gate simp: unchanged_def)
qed

lemma retry_attempts:
  "retry_from n k m w = (Inr rep, w') \<Longrightarrow> (\<And>i v v'. m i v = (Inr rep, v') \<Longrightarrow> P i) \<Longrightarrow> \<exists>i. n \<le> i \<and> i < n + k \<and> P i"
proof (induction k arbitrary: n w)
  case (Suc k)
  show ?case
  proof (cases "m n w")
    case (Pair r v)
    show ?thesis
    proof (cases r)
      case (Inl e)
      then have "retry_from (Suc n) k m v = (Inr rep, w')" using Suc.prems(1) Pair by (auto split: if_splits)
      then obtain i where "Suc n \<le> i" "i < Suc n + k" "P i" using Suc.IH [of "Suc n" v] Suc.prems(2) by blast
      then show ?thesis by (intro exI [of _ i]) simp
    next
      case (Inr x)
      then have "P n" using Suc.prems Pair by auto
      then show ?thesis by auto
    qed
  qed
qed simp


end
