(* ===== verification/Sim_Submit.thy ===== *)
theory Sim_Submit
  imports Sim_Laws
begin

text \<open>
  \<open>submit_intent\<close> and \<open>check_resting_orders\<close> of \<open>backend/paper/paper_simulator.py\<close>: from an intent
  to a recorded order, with the lock of a limit order and the fill of a market order after it, and
  from a market event to the fills of the resting orders it triggers.
\<close>

section \<open>Requests and outcomes\<close>

text \<open>
  The session row, the resolved intent and the arguments of a call. An instant is read by
  \<open>instant_of\<close>, a number is digested by \<open>digest\<close>, a value that is no text is written by \<open>text_of\<close>.
\<close>

record submit_request =
  sq_user :: string
  sq_session :: string
  sq_account :: string
  sq_intent :: order_intent
  sq_event :: "source option"
  sq_reference :: pyval
  sq_filled_at :: "stamp option"
  sq_series :: int

record submit_outcome =
  so_id :: string
  so_order :: order_row
  so_duplicate :: bool
  so_reason :: "string option"
  so_reference :: "decimal option"
  so_required :: "decimal option"
  so_locked :: "decimal option"
  so_fill :: "fill_report option"
  so_attempts :: nat

record readers =
  rd_text :: "pyval \<Rightarrow> string"
  rd_digest :: "string \<Rightarrow> string"
  rd_instant :: "pyval \<Rightarrow> stamp option"

definition event_instant :: "readers \<Rightarrow> source option \<Rightarrow> stamp option" where
  "event_instant rd ev =
     (case ev of
        None \<Rightarrow> None
      | Some src \<Rightarrow> rd_instant rd (get_or_none (case src of Mapped m _ \<Rightarrow> m | Object a _ \<Rightarrow> a) ''event_timestamp''))"

definition market_fill_event_id :: "string \<Rightarrow> sim_error + string" where
  "market_fill_event_id oid = bnd (require_session_text oid) (\<lambda>t. Inr (''market-'' @ t))"

definition resting_fill_event_id :: "readers \<Rightarrow> string \<Rightarrow> source option \<Rightarrow> sim_error + string" where
  "resting_fill_event_id rd oid ev =
     (let first = (\<lambda>a b. case a of None \<Rightarrow> b | Some t \<Rightarrow> Some t)
      in case first (event_text (rd_text rd) ev ''source_event_id'')
           (first (event_text (rd_text rd) ev ''sequence'') (event_text (rd_text rd) ev ''event_timestamp'')) of
        None \<Rightarrow> Inl InvalidOrderIntent
      | Some identity \<Rightarrow>
          bnd (require_session_text oid) (\<lambda>t.
            Inr (''limit-'' @ take 32 (rd_digest rd (t @ ''|'' @ identity)))))"

definition optional_reason :: "order_row \<Rightarrow> string option" where
  "optional_reason r = (if ow_state r = PO_REJECTED then ow_reason r else None)"

section \<open>A refused order\<close>

text \<open>The row of an intent, as it is inserted.\<close>

definition intent_row ::
  "submit_request \<Rightarrow> string \<Rightarrow> string option \<Rightarrow> decimal option \<Rightarrow> order_row" where
  "intent_row sq fp key ref =
     (let i = sq_intent sq
      in \<lparr>ow_user = sq_user sq, ow_session = Some (sq_session sq), ow_account = sq_account sq,
          ow_symbol = oi_symbol i, ow_side = oi_side i, ow_type = oi_order_type i,
          ow_quantity = oi_quantity i, ow_limit = oi_limit_price i, ow_reference = ref,
          ow_filled = dec_zero, ow_avg = None, ow_fee = 0, ow_slippage = 0, ow_state = PO_CREATED,
          ow_legacy = [], ow_reason = None, ow_key = key, ow_signal = oi_signal_id i,
          ow_fingerprint = fp, ow_created = 0\<rparr>)"

definition submit_reject ::
  "environment \<Rightarrow> submit_request \<Rightarrow> string \<Rightarrow> string option \<Rightarrow> string \<Rightarrow> nat \<Rightarrow> decimal option \<Rightarrow>
    decimal option \<Rightarrow> submit_outcome run" where
  "submit_reject E sq fp key reason n ref required =
     (if unrepresentable_order_constraint (sq_intent sq) \<noteq> None then pure_run (Inl (OrderInvalid reason))
      else
        andthen (insert_order E (intent_row sq fp key ref)) (\<lambda>(oid, _).
        andthen (update_order E (sq_user sq) oid PO_REJECTED PO_CREATED (Some reason)) (\<lambda>r.
          pure_run (Inr \<lparr>so_id = oid, so_order = r, so_duplicate = False, so_reason = Some reason,
            so_reference = ref, so_required = required, so_locked = None, so_fill = None,
            so_attempts = n\<rparr>))))"

section \<open>The lock of a limit order\<close>

text \<open>Past the money a conflict is reported, not retried.\<close>

definition past_the_money :: "'a run \<Rightarrow> 'a run" where
  "past_the_money m w =
     (case m w of (Inl e, w') \<Rightarrow> (Inl (if is_retryable e then ConcurrencyExhausted True else e), w') | r \<Rightarrow> r)"

definition order_lock_entry ::
  "submit_request \<Rightarrow> decimal \<Rightarrow> decimal \<Rightarrow> account \<Rightarrow> stamp \<Rightarrow> ledger_row" where
  "order_lock_entry sq amount taken locked occurred =
     \<lparr>ld_session = Some (sq_session sq), ld_account = sq_account sq, ld_user = sq_user sq,
       ld_cause = ''ORDER_LOCK'', ld_available_delta = taken, ld_locked_delta = amount,
       ld_realized_delta = dec_zero, ld_available = acc_available locked, ld_locked = acc_locked locked,
       ld_realized = acc_realized locked, ld_fill = None, ld_at = occurred\<rparr>"

definition lock_payload :: "account \<Rightarrow> account_row \<Rightarrow> account_row" where
  "lock_payload locked r =
     r\<lparr>ac_money := (ac_money r)\<lparr>acc_available := acc_available locked, acc_locked := acc_locked locked\<rparr>\<rparr>"

definition lock_attempt ::
  "environment \<Rightarrow> nat \<Rightarrow> submit_request \<Rightarrow> accounting_config \<Rightarrow> decimal \<Rightarrow> stamp option \<Rightarrow> decimal run" where
  "lock_attempt E amb sq cfg required occurred =
     andthen (lock_account_for_update E (sq_user sq) (sq_account sq)) (\<lambda>row.
     andthen (pure_run (as_invariant (lock (account_of row) (D required) cfg))) (\<lambda>locked.
     andthen (pure_run (engine (cfg_money cfg (D required)))) (\<lambda>amount.
     andthen (bump_version E (sq_user sq) (sq_account sq) (ac_version row) (lock_payload locked)) (\<lambda>_.
     andthen (past_the_money (insert_balance_event E (order_lock_entry sq amount (dec_neg amb amount) locked
         (or_stamp occurred (ac_updated row))))) (\<lambda>_.
       pure_run (Inr amount))))))"

definition lock_for_order ::
  "environment \<Rightarrow> nat \<Rightarrow> submit_request \<Rightarrow> accounting_config \<Rightarrow> decimal \<Rightarrow> stamp option \<Rightarrow> decimal run" where
  "lock_for_order E amb sq cfg required occurred w =
     (case with_retries RETRY_ATTEMPTS (\<lambda>_. lock_attempt E amb sq cfg required occurred) w of
        (Inl (ConcurrencyExhausted _), w') \<Rightarrow> (Inl (ConcurrencyExhausted True), w')
      | r \<Rightarrow> r)"

section \<open>Submission\<close>

text \<open>Step 3: the reference price of an intent.\<close>

definition submit_reference ::
  "submit_request \<Rightarrow> accounting_config \<Rightarrow> sim_error + decimal option" where
  "submit_reference sq cfg =
     (let price = (\<lambda>v. bnd (engine (cfg_price cfg v)) (\<lambda>p. Inr (Some p)))
      in case oi_limit_price (sq_intent sq) of
           Some l \<Rightarrow> price (D l)
         | None \<Rightarrow>
             if sq_reference sq \<noteq> PyNone then price (sq_reference sq)
             else bnd (reference_price (sq_event sq) (oi_side (sq_intent sq))) (\<lambda>d.
                    case d of None \<Rightarrow> Inr None | Some p \<Rightarrow> price (D p)))"

text \<open>The feed gate of a market order.\<close>

definition submit_gate :: "environment \<Rightarrow> submit_request \<Rightarrow> unit run" where
  "submit_gate E sq =
     (if oi_order_type (sq_intent sq) = ''market''
      then andthen (read_session E (sq_user sq) (sq_session sq)) (\<lambda>se.
             pure_run (case se of None \<Rightarrow> Inl InvalidOrderIntent | Some row \<Rightarrow> admit_execution row))
      else pure_run (Inr ()))"

text \<open>Step 5: insert, accept, and lock a limit order.\<close>

definition submit_accept ::
  "environment \<Rightarrow> readers \<Rightarrow> nat \<Rightarrow> submit_request \<Rightarrow> accounting_config \<Rightarrow> string \<Rightarrow> string option \<Rightarrow> nat \<Rightarrow>
    decimal \<Rightarrow> decimal \<Rightarrow> submit_outcome run" where
  "submit_accept E rd amb sq cfg fp key n ref required =
     andthen (submit_gate E sq) (\<lambda>_.
     andthen (insert_order E (intent_row sq fp key (Some ref))) (\<lambda>(oid, _).
     andthen (update_order E (sq_user sq) oid PO_ACCEPTED PO_CREATED None) (\<lambda>r.
     andthen (if oi_order_type (sq_intent sq) = ''limit''
              then andthen (lock_for_order E amb sq cfg required
                     (case sq_filled_at sq of None \<Rightarrow> event_instant rd (sq_event sq) | Some t \<Rightarrow> Some t))
                     (\<lambda>a. pure_run (Inr (Some a)))
              else pure_run (Inr None)) (\<lambda>locked.
       pure_run (Inr \<lparr>so_id = oid, so_order = r, so_duplicate = False, so_reason = None,
         so_reference = Some ref, so_required = Some required, so_locked = locked, so_fill = None,
         so_attempts = n\<rparr>)))))"

definition decide_intent ::
  "environment \<Rightarrow> readers \<Rightarrow> nat \<Rightarrow> session_config \<Rightarrow> accounting_config \<Rightarrow> submit_request \<Rightarrow> string \<Rightarrow>
    string option \<Rightarrow> nat \<Rightarrow> account_row \<Rightarrow> submit_outcome run" where
  "decide_intent E rd amb c cfg sq fp key n acct =
     (case static_rejection_reason amb (sq_intent sq) c of
        Some failure \<Rightarrow> submit_reject E sq fp key failure n None None
      | None \<Rightarrow>
          andthen (pure_run (submit_reference sq cfg)) (\<lambda>ref.
            if \<not> positive_decimal ref then submit_reject E sq fp key ''NO_VALIDATED_PRICE'' n None None
            else
              andthen (pure_run (engine (required_funds [''quantity'' \<mapsto> D (oi_quantity (sq_intent sq))]
                  (D (the ref)) cfg))) (\<lambda>required.
                if dec_lt (acc_available (account_of acct)) required
                then submit_reject E sq fp key ''INSUFFICIENT_FUNDS'' n ref (Some required)
                else submit_accept E rd amb sq cfg fp key n (the ref) required)))"

definition submit_attempt ::
  "environment \<Rightarrow> readers \<Rightarrow> nat \<Rightarrow> session_config \<Rightarrow> accounting_config \<Rightarrow> submit_request \<Rightarrow> string \<Rightarrow>
    string option \<Rightarrow> nat \<Rightarrow> submit_outcome run" where
  "submit_attempt E rd amb c cfg sq fp key n =
     andthen (lock_account_for_update E (sq_user sq) (sq_account sq)) (\<lambda>acct.
       case key of
         None \<Rightarrow> decide_intent E rd amb c cfg sq fp key n acct
       | Some k \<Rightarrow>
           andthen (probe_idempotency_key E (sq_user sq) k (Some (sq_session sq)) (sq_account sq)) (\<lambda>found.
             case found of
               None \<Rightarrow> decide_intent E rd amb c cfg sq fp key n acct
             | Some (oid, r) \<Rightarrow>
                 if ow_fingerprint r \<noteq> fp then pure_run (Inl IdempotencyConflict)
                 else pure_run (Inr \<lparr>so_id = oid, so_order = r, so_duplicate = True,
                   so_reason = optional_reason r, so_reference = None, so_required = None,
                   so_locked = None, so_fill = None, so_attempts = n\<rparr>)))"

text \<open>The fill of an accepted market order.\<close>

definition market_fill_request ::
  "readers \<Rightarrow> nat \<Rightarrow> session_config \<Rightarrow> submit_request \<Rightarrow> submit_outcome \<Rightarrow> sim_error + fill_request" where
  "market_fill_request rd amb c sq out =
     (case (case sq_filled_at sq of None \<Rightarrow> event_instant rd (sq_event sq) | Some t \<Rightarrow> Some t) of
        None \<Rightarrow> Inl InvalidOrderIntent
      | Some instant \<Rightarrow>
          let ref = (case so_reference out of None \<Rightarrow> PyNone | Some r \<Rightarrow> D r)
          in bnd (market_fill_price amb ref (oi_side (sq_intent sq)) c) (\<lambda>price.
             bnd (market_fill_event_id (so_id out)) (\<lambda>event.
               Inr \<lparr>rq_user = sq_user sq, rq_session = sq_session sq, rq_order = so_id out,
                 rq_account = sq_account sq, rq_event = event, rq_quantity = D (oi_quantity (sq_intent sq)),
                 rq_price = D price, rq_at = instant, rq_reference = ref,
                 rq_market = event_text (rd_text rd) (sq_event sq) ''source_event_id'',
                 rq_release = PyNone, rq_series = sq_series sq\<rparr>)))"

definition clean_submission :: "submit_request \<Rightarrow> sim_error + submit_request" where
  "clean_submission sq =
     bnd (require_session_text (sq_user sq)) (\<lambda>u.
     bnd (require_session_text (sq_session sq)) (\<lambda>s.
     bnd (require_session_text (sq_account sq)) (\<lambda>a.
       Inr (sq\<lparr>sq_user := u, sq_session := s, sq_account := a\<rparr>))))"

definition fill_accepted ::
  "environment \<Rightarrow> readers \<Rightarrow> nat \<Rightarrow> session_config \<Rightarrow> submit_request \<Rightarrow> submit_outcome \<Rightarrow> submit_outcome run" where
  "fill_accepted E rd amb c sq out =
     (if so_duplicate out \<or> so_reason out \<noteq> None \<or> oi_order_type (sq_intent sq) \<noteq> ''market''
      then pure_run (Inr out)
      else
        andthen (pure_run (market_fill_request rd amb c sq out)) (\<lambda>rq.
        andthen (sim_apply_fill E amb c rq) (\<lambda>rep.
          pure_run (Inr (out\<lparr>so_order := fo_order rep, so_fill := Some rep\<rparr>)))))"

definition submit_intent ::
  "environment \<Rightarrow> readers \<Rightarrow> nat \<Rightarrow> session_config \<Rightarrow> submit_request \<Rightarrow> submit_outcome run" where
  "submit_intent E rd amb c sq0 =
     andthen (pure_run (clean_submission sq0)) (\<lambda>sq.
     andthen (pure_run (validate_idempotency_key (oi_idempotency_key (sq_intent sq)))) (\<lambda>key.
     andthen (pure_run (sc_accounting c)) (\<lambda>cfg.
     andthen (with_retries RETRY_ATTEMPTS (submit_attempt E rd amb c cfg sq
         (order_fingerprint (rd_digest rd) amb (sq_intent sq)) key)) (\<lambda>out.
       fill_accepted E rd amb c sq out))))"

section \<open>Resting orders\<close>

text \<open>The orders an event triggers, oldest first.\<close>

fun triggered ::
  "readers \<Rightarrow> source option \<Rightarrow> string option \<Rightarrow> (string \<times> order_row) list \<Rightarrow> sim_error + (string \<times> order_row) list" where
  "triggered rd ev symbol [] = Inr []"
| "triggered rd ev symbol ((oid, r) # rows) =
     bnd (if py_lower (py_strip (ow_type r)) = ''limit'' \<and> (symbol = None \<or> symbol = Some (ow_symbol r))
          then limit_fill_triggered (rd_text rd) (order_source r) ev else Inr False) (\<lambda>hit.
     bnd (triggered rd ev symbol rows) (\<lambda>rest. Inr (if hit then (oid, r) # rest else rest)))"

definition resting_fill_request ::
  "readers \<Rightarrow> submit_request \<Rightarrow> session_config \<Rightarrow> stamp \<Rightarrow> string \<Rightarrow> order_row \<Rightarrow> decimal \<Rightarrow> sim_error + fill_request" where
  "resting_fill_request rd sq c instant oid r quantity =
     bnd (limit_fill_price (order_source r) c) (\<lambda>price.
     bnd (resting_fill_event_id rd oid (sq_event sq)) (\<lambda>event.
       Inr \<lparr>rq_user = sq_user sq, rq_session = sq_session sq, rq_order = oid, rq_account = sq_account sq,
         rq_event = event, rq_quantity = D quantity, rq_price = D price, rq_at = instant,
         rq_reference = D price, rq_market = event_text (rd_text rd) (sq_event sq) ''source_event_id'',
         rq_release = PyNone, rq_series = sq_series sq\<rparr>))"

fun fill_resting ::
  "environment \<Rightarrow> readers \<Rightarrow> nat \<Rightarrow> session_config \<Rightarrow> submit_request \<Rightarrow> stamp \<Rightarrow> (string \<times> order_row) list \<Rightarrow>
    fill_report list run" where
  "fill_resting E rd amb c sq instant [] = pure_run (Inr [])"
| "fill_resting E rd amb c sq instant ((oid, r) # rows) =
     andthen (pure_run (fillable_quantity amb (order_source r) (sq_event sq) c)) (\<lambda>quantity.
       if dec_le quantity dec_zero then fill_resting E rd amb c sq instant rows
       else
         andthen (pure_run (resting_fill_request rd sq c instant oid r quantity)) (\<lambda>rq.
         andthen (sim_apply_fill E amb c rq) (\<lambda>rep.
         andthen (fill_resting E rd amb c sq instant rows) (\<lambda>reps. pure_run (Inr (rep # reps))))))"

definition check_resting_orders ::
  "environment \<Rightarrow> readers \<Rightarrow> nat \<Rightarrow> session_config \<Rightarrow> submit_request \<Rightarrow> fill_report list run" where
  "check_resting_orders E rd amb c sq0 =
     andthen (pure_run (clean_submission sq0)) (\<lambda>sq.
       case event_instant rd (sq_event sq) of
         None \<Rightarrow> pure_run (Inl InvalidOrderIntent)
       | Some instant \<Rightarrow>
           andthen (get_orders E (sq_user sq) (sq_account sq) (Some (sq_session sq)) ''OPEN'') (\<lambda>rows.
           andthen (pure_run (triggered rd (sq_event sq) (event_text (rd_text rd) (sq_event sq) ''symbol'') rows)) (\<lambda>hits.
             fill_resting E rd amb c sq instant (sort_key (\<lambda>(_, r). ow_created r) hits))))"

end
