(* ===== verification/Sim_Guarantee.thy ===== *)
theory Sim_Guarantee
  imports Sim_Submit
begin

text \<open>
  Every operation of the simulator is a client to the others. \<open>guarantees pre m post\<close> says that a
  run \<open>m\<close>, started on a store with the invariant and \<open>pre\<close>, leaves a store the clients can reach,
  whatever the others do and however statements fail, and that a result satisfies \<open>post\<close>. The rules
  follow the construction of a run.
\<close>

section \<open>Rules\<close>

definition guarantees ::
  "environment \<Rightarrow> nat \<Rightarrow> (string \<Rightarrow> session_config) \<Rightarrow> (store \<Rightarrow> bool) \<Rightarrow> 'a run \<Rightarrow> ('a \<Rightarrow> store \<Rightarrow> bool) \<Rightarrow> bool" where
  "guarantees E amb conf pre m post \<longleftrightarrow>
     (\<forall>w r w'. store_ok E conf (w_store w) \<longrightarrow> pre (w_store w) \<longrightarrow> m w = (r, w') \<longrightarrow>
        clients E amb conf (w_store w) (w_store w') \<and> (\<forall>x. r = Inr x \<longrightarrow> post x (w_store w')))"

definition stable :: "environment \<Rightarrow> nat \<Rightarrow> (string \<Rightarrow> session_config) \<Rightarrow> (store \<Rightarrow> bool) \<Rightarrow> bool" where
  "stable E amb conf P \<longleftrightarrow> (\<forall>s t. clients E amb conf s t \<longrightarrow> P s \<longrightarrow> P t)"

lemma guaranteesI:
  "(\<And>w r w'. store_ok E conf (w_store w) \<Longrightarrow> pre (w_store w) \<Longrightarrow> m w = (r, w') \<Longrightarrow>
      clients E amb conf (w_store w) (w_store w') \<and> (\<forall>x. r = Inr x \<longrightarrow> post x (w_store w'))) \<Longrightarrow>
    guarantees E amb conf pre m post"
  unfolding guarantees_def by blast

lemma guaranteesD:
  "guarantees E amb conf pre m post \<Longrightarrow> store_ok E conf (w_store w) \<Longrightarrow> pre (w_store w) \<Longrightarrow> m w = (r, w') \<Longrightarrow>
    clients E amb conf (w_store w) (w_store w') \<and> (\<forall>x. r = Inr x \<longrightarrow> post x (w_store w'))"
  unfolding guarantees_def by blast

lemma g_weaken: "guarantees E amb conf pre m mid \<Longrightarrow> (\<And>s. pre' s \<Longrightarrow> pre s) \<Longrightarrow> (\<And>x s. mid x s \<Longrightarrow> post x s) \<Longrightarrow>
    guarantees E amb conf pre' m post"
  unfolding guarantees_def by blast

lemma g_conj: "guarantees E amb conf pre m post \<Longrightarrow> guarantees E amb conf (\<lambda>s. A \<and> pre s) m post"
  unfolding guarantees_def by blast

lemma g_pure: "(\<And>x s. r = Inr x \<Longrightarrow> pre s \<Longrightarrow> post x s) \<Longrightarrow> guarantees E amb conf pre (pure_run r) post"
  by (auto intro!: guaranteesI simp: pure_run_def sim.refl)

lemma g_andthen:
  assumes m: "guarantees E amb conf pre m mid" and k: "\<And>x. guarantees E amb conf (mid x) (k x) post"
  shows "guarantees E amb conf pre (andthen m k) post"
proof (rule guaranteesI)
  fix w r w'
  assume ok: "store_ok E conf (w_store w)" and pre: "pre (w_store w)" and run: "andthen m k w = (r, w')"
  obtain r0 v where v: "m w = (r0, v)" by fastforce
  note one = guaranteesD [OF m ok pre v]
  have okv: "store_ok E conf (w_store v)" using clients_keep_ok one ok by blast
  show "clients E amb conf (w_store w) (w_store w') \<and> (\<forall>x. r = Inr x \<longrightarrow> post x (w_store w'))"
  proof (cases r0)
    case (Inl e)
    then show ?thesis using run v one by (auto simp: andthen_def)
  next
    case (Inr x)
    then have "k x v = (r, w')" using run v by (simp add: andthen_def)
    then show ?thesis using guaranteesD [OF k okv] one Inr sim.trans by blast
  qed
qed

lemma found_clients: "among_clients E amb conf \<Longrightarrow> clients E amb conf (w_store w) (found E w)"
  by (simp add: among_clients_def found_def)

lemma stableD: "stable E amb conf P \<Longrightarrow> clients E amb conf s t \<Longrightarrow> P s \<Longrightarrow> P t"
  unfolding stable_def by blast

lemma found_ok:
  assumes "among_clients E amb conf" "stable E amb conf pre" "store_ok E conf (w_store w)" "pre (w_store w)"
  shows "store_ok E conf (found E w)" "pre (found E w)"
  using clients_keep_ok [OF found_clients [OF assms(1)] assms(3)] stableD [OF assms(2) found_clients [OF assms(1)] assms(4)] .

lemma g_read:
  assumes am: "among_clients E amb conf" and st: "stable E amb conf pre"
    and f: "\<And>s x. store_ok E conf s \<Longrightarrow> pre s \<Longrightarrow> f s = Inr x \<Longrightarrow> post x s"
  shows "guarantees E amb conf pre (read_store E f) post"
proof (rule guaranteesI)
  fix w r w'
  assume ok: "store_ok E conf (w_store w)" and pre: "pre (w_store w)" and run: "read_store E f w = (r, w')"
  have w': "w_store w' = found E w" using read_store_step [OF run] by simp
  have "post x (found E w)" if "r = Inr x" for x
    using f [OF found_ok [OF am st ok pre]] read_store_Inr [OF run [unfolded that]] by blast
  then show "clients E amb conf (w_store w) (w_store w') \<and> (\<forall>x. r = Inr x \<longrightarrow> post x (w_store w'))"
    using found_clients [OF am, of w] by (simp add: w')
qed

lemma g_commit:
  assumes am: "among_clients E amb conf" and st: "stable E amb conf pre"
    and f: "\<And>s x s'. store_ok E conf s \<Longrightarrow> pre s \<Longrightarrow> f s = Inr (x, s') \<Longrightarrow> client_step E amb conf s s' \<and> post x s'"
  shows "guarantees E amb conf pre (statement E (\<lambda>s. commit s (f s))) post"
proof (rule guaranteesI)
  fix w r w'
  assume ok: "store_ok E conf (w_store w)" and pre: "pre (w_store w)" and run: "statement E (\<lambda>s. commit s (f s)) w = (r, w')"
  note okf = found_ok [OF am st ok pre]
  have set: "setting_ok E amb conf" using am by (simp add: among_clients_def)
  have "clients E amb conf (w_store w) (w_store w')"
    using statement_commit(2) [OF run] found_clients [OF am, of w] f [OF okf] clients_step [OF _ ok set] by auto
  moreover have "post x (w_store w')" if "r = Inr x" for x
    using statement_commit(3) [OF run that] f [OF okf] by blast
  ultimately show "clients E amb conf (w_store w) (w_store w') \<and> (\<forall>x. r = Inr x \<longrightarrow> post x (w_store w'))" by blast
qed

lemma g_retry:
  assumes m: "\<And>n. guarantees E amb conf pre (m n) post" and st: "stable E amb conf pre"
  shows "guarantees E amb conf pre (retry_from n k m) post"
proof (induction k arbitrary: n)
  case 0
  then show ?case by (auto intro!: guaranteesI simp: sim.refl)
next
  case (Suc k)
  show ?case
  proof (rule guaranteesI)
    fix w r w'
    assume ok: "store_ok E conf (w_store w)" and pre: "pre (w_store w)" and run: "retry_from n (Suc k) m w = (r, w')"
    obtain r0 v where v: "m n w = (r0, v)" by fastforce
    note one = guaranteesD [OF m ok pre v]
    have okv: "store_ok E conf (w_store v)" "pre (w_store v)"
      using clients_keep_ok [OF _ ok] stableD [OF st _ pre] one by blast+
    show "clients E amb conf (w_store w) (w_store w') \<and> (\<forall>x. r = Inr x \<longrightarrow> post x (w_store w'))"
    proof (cases "\<exists>e. r0 = Inl e \<and> is_retryable e")
      case True
      then have "retry_from (Suc n) k m v = (r, w')" using run v by auto
      then show ?thesis using guaranteesD [OF Suc.IH okv] one sim.trans by blast
    next
      case False
      then have "r = r0 \<and> w' = v" using run v by (auto split: sum.splits)
      then show ?thesis using one by simp
    qed
  qed
qed

lemma stable_True [simp]: "stable E amb conf (\<lambda>s. True)"
  by (simp add: stable_def)

lemma g_retries:
  "(\<And>n. guarantees E amb conf pre (m n) post) \<Longrightarrow> stable E amb conf pre \<Longrightarrow>
    guarantees E amb conf pre (with_retries k m) post"
  unfolding with_retries_def by (auto intro: g_retry g_pure)

lemma g_frame: "guarantees E amb conf pre m post \<Longrightarrow> stable E amb conf P \<Longrightarrow>
    guarantees E amb conf (\<lambda>s. pre s \<and> P s) m (\<lambda>x s. post x s \<and> P s)"
  unfolding guarantees_def stable_def by blast

text \<open>Changing an error changes no store.\<close>

lemma g_error:
  assumes "guarantees E amb conf pre m post" and "\<And>w. snd (m' w) = snd (m w)" and "\<And>w x. fst (m' w) = Inr x \<Longrightarrow> fst (m w) = Inr x"
  shows "guarantees E amb conf pre m' post"
proof (rule guaranteesI)
  fix w r w'
  assume "store_ok E conf (w_store w)" "pre (w_store w)" "m' w = (r, w')"
  then show "clients E amb conf (w_store w) (w_store w') \<and> (\<forall>x. r = Inr x \<longrightarrow> post x (w_store w'))"
    using guaranteesD [OF assms(1), of w "fst (m w)" w'] assms(2,3) [of w] by (metis fst_conv snd_conv prod.collapse)
qed

lemma g_past: "guarantees E amb conf pre m post \<Longrightarrow> guarantees E amb conf pre (past_the_money m) post"
  by (erule g_error) (auto simp: past_the_money_def split: prod.splits sum.splits)

section \<open>The statements of a submission\<close>

text \<open>The order a submission placed.\<close>

definition placed :: "(string \<Rightarrow> session_config) \<Rightarrow> submit_request \<Rightarrow> string \<Rightarrow> store \<Rightarrow> bool" where
  "placed conf sq oid s \<longleftrightarrow> py_strip oid = oid \<and>
     (\<exists>r. find_order (sq_user sq) oid s = Some r \<and> ow_account r = sq_account sq \<and>
       ow_session r = Some (sq_session sq) \<and> lots_of conf (Some (sq_session sq)) (ow_quantity r))"

lemma stable_placed [simp]: "stable E amb conf (placed conf sq oid)"
  unfolding stable_def placed_def using sim.order_stays by (fastforce simp: order_fixed_eq)

lemma new_order_found:
  assumes ok: "store_ok E conf s" and set: "setting_ok E amb conf" and new: "new_order E row s = Inr ((oid, r), s')"
  shows "find_order (ow_user row) oid s' = Some r"
proof -
  note n = new_order_Inr [OF new]
  have "dget (st_orders s) oid = None"
    using store_okD(4) [OF ok] not_drawn [of E s 0] set unfolding n(1) setting_ok_def map_of_eq_None_iff by auto
  then show ?thesis using n(5) by (simp add: find_order_def n(2) map_add_def)
qed

lemma g_insert:
  assumes am: "among_clients E amb conf" and row: "ow_state row = PO_CREATED" "ow_filled row = dec_zero"
    and post: "\<And>oid r s. py_strip oid = oid \<Longrightarrow> find_order (ow_user row) oid s = Some r \<Longrightarrow> ow_account r = ow_account row \<Longrightarrow>
      ow_session r = ow_session row \<Longrightarrow> column (ow_quantity row) = Inr (ow_quantity r) \<Longrightarrow> post (oid, r) s"
  shows "guarantees E amb conf (\<lambda>s. True) (insert_order E row) post"
proof -
  have set: "setting_ok E amb conf" using am by (simp add: among_clients_def)
  have "client_step E amb conf s s' \<and> post x s'" if ok: "store_ok E conf s" and new: "new_order E row s = Inr (x, s')" for s x s'
  proof -
    obtain oid r where x: "x = (oid, r)" by (cases x)
    note n = new_order_Inr [OF new [unfolded x]]
    have "py_strip oid = oid" using set by (simp add: setting_ok_def n(1))
    then have "post x s'" unfolding x
      using post new_order_found [OF ok set new [unfolded x]] n(3,6,7) by blast
    then show ?thesis using client_step.client_order [OF row new] by blast
  qed
  then show ?thesis unfolding insert_order_def by (auto intro!: g_pure g_commit [OF am])
qed

lemma g_move:
  assumes am: "among_clients E amb conf" and tg: "target \<notin> {PO_PARTIALLY_FILLED, PO_FILLED}" and st: "stable E amb conf pre"
    and af: "\<And>s. pre s \<Longrightarrow> accept_fits conf user oid target s" and post: "\<And>x s t. clients E amb conf s t \<Longrightarrow> pre s \<Longrightarrow> post x t"
  shows "guarantees E amb conf pre (update_order E user oid target expected reason) post"
proof -
  have set: "setting_ok E amb conf" using am by (simp add: among_clients_def)
  have "client_step E amb conf s s' \<and> post x s'"
    if ok: "store_ok E conf s" and p: "pre s" and mv: "moved_order user oid target expected reason s = Inr (x, s')" for s x s'
  proof -
    have step: "client_step E amb conf s s'" by (rule client_step.client_move [OF tg af [OF p] mv])
    then show ?thesis using post [OF clients_step [OF sim.refl ok set step] p] by blast
  qed
  then show ?thesis unfolding update_order_def by (auto intro!: g_pure g_commit [OF am st])
qed

lemma g_reject:
  assumes am: "among_clients E amb conf"
  shows "guarantees E amb conf (\<lambda>s. True) (submit_reject E sq fp key reason n ref required) (\<lambda>out s. so_reason out \<noteq> None)"
proof -
  have ins: "guarantees E amb conf (\<lambda>s. True) (insert_order E (intent_row sq fp key ref)) (\<lambda>x s. True)"
    by (rule g_insert [OF am]) (simp_all add: intent_row_def Let_def)
  have mv: "guarantees E amb conf (\<lambda>s. True) (update_order E (sq_user sq) oid PO_REJECTED PO_CREATED (Some reason)) (\<lambda>x s. True)" for oid
    by (rule g_move [OF am]) (simp_all add: accept_fits_def)
  show ?thesis unfolding submit_reject_def
    by (auto intro!: g_pure g_andthen [OF ins] g_andthen [OF mv] split: prod.splits)
qed

lemma g_lock:
  assumes am: "among_clients E amb conf"
  shows "guarantees E amb conf (\<lambda>s. True) (lock_for_order E amb sq cfg required occurred) (\<lambda>x s. True)"
proof -
  have rd: "guarantees E amb conf (\<lambda>s. True) (lock_account_for_update E u aid) (\<lambda>x s. True)" for u aid
    unfolding lock_account_for_update_def by (rule g_read [OF am]) simp_all
  have bp: "guarantees E amb conf (\<lambda>s. True) (bump_version E u aid v p) (\<lambda>x s. True)" for u aid v p
    unfolding bump_version_def by (rule g_commit [OF am]) (auto intro: client_step.client_bump)
  have le: "guarantees E amb conf (\<lambda>s. True) (past_the_money (insert_balance_event E (order_lock_entry sq a t l o'))) (\<lambda>x s. True)" for a t l o'
  proof -
    have c: "ld_cause (order_lock_entry sq a t l o') \<noteq> ''FILL''" by (simp add: order_lock_entry_def)
    show ?thesis unfolding insert_balance_event_def
      by (intro g_past g_commit [OF am]) (simp_all add: client_step.client_entry [OF c])
  qed
  have pr: "guarantees E amb conf (\<lambda>s. True) (pure_run x) (\<lambda>x s. True)" for x :: "sim_error + 'a" by (rule g_pure) simp
  have "guarantees E amb conf (\<lambda>s. True) (lock_attempt E amb sq cfg required occurred) (\<lambda>x s. True)"
    unfolding lock_attempt_def by (intro g_andthen [OF rd] g_andthen [OF pr] g_andthen [OF bp] g_andthen [OF le] g_pure) simp
  then have "guarantees E amb conf (\<lambda>s. True) (with_retries RETRY_ATTEMPTS (\<lambda>_. lock_attempt E amb sq cfg required occurred)) (\<lambda>x s. True)"
    by (intro g_retries) simp_all
  then show ?thesis
    by (rule g_error) (auto simp: lock_for_order_def split: prod.splits sum.splits sim_error.splits)
qed

lemma g_gate:
  assumes am: "among_clients E amb conf"
  shows "guarantees E amb conf (\<lambda>s. True) (submit_gate E sq) (\<lambda>x s. True)"
proof -
  have rd: "guarantees E amb conf (\<lambda>s. True) (read_session E u sid) (\<lambda>x s. True)" for u sid
    unfolding read_session_def by (rule g_read [OF am]) simp_all
  show ?thesis unfolding submit_gate_def by (auto intro!: g_pure g_andthen [OF rd])
qed

section \<open>The calls\<close>

lemma g_fill:
  assumes am: "among_clients E amb conf"
    and rq: "\<And>rq. clean_request rq0 = Inr rq \<Longrightarrow> c = conf (rq_session rq) \<and> (\<forall>s. pre s \<longrightarrow> order_of_request rq s)"
  shows "guarantees E amb conf pre (sim_apply_fill E amb c rq0) (\<lambda>x s. True)"
proof (rule guaranteesI)
  fix w r w'
  assume ok: "store_ok E conf (w_store w)" and pre: "pre (w_store w)" and run: "sim_apply_fill E amb c rq0 w = (r, w')"
  have "clients E amb conf (w_store w) (w_store w')"
  proof (cases "figures_of c rq0")
    case (Inl e)
    then show ?thesis using run fill_refused [OF Inl] by (simp add: sim.refl)
  next
    case (Inr z)
    then obtain rq cfg qty price where fig: "figures_of c rq0 = Inr (rq, cfg, qty, price)" by (cases z) auto
    then have "clean_request rq0 = Inr rq" by (auto simp: figures_of_def result_simps split: if_splits)
    then have c: "c = conf (rq_session rq)" and ord: "order_of_request rq (w_store w)" using rq pre by blast+
    show ?thesis
      using call_keeps_ok [where conf = conf and rq = rq, OF am fig [unfolded c] ord ok run [unfolded c]] by blast
  qed
  then show "clients E amb conf (w_store w) (w_store w') \<and> (\<forall>x. r = Inr x \<longrightarrow> True)" by blast
qed

lemma g_accept:
  assumes am: "among_clients E amb conf" and lots: "lots_of conf (Some (sq_session sq)) (oi_quantity (sq_intent sq))"
  shows "guarantees E amb conf (\<lambda>s. True) (submit_accept E rd amb sq cfg fp key n ref required)
    (\<lambda>out s. placed conf sq (so_id out) s)"
proof -
  have so: "session_ok (conf k)" for k using am by (simp add: among_clients_def setting_ok_def)
  have ins: "guarantees E amb conf (\<lambda>s. True) (insert_order E (intent_row sq fp key (Some ref))) (\<lambda>(oid, r) s. placed conf sq oid s)"
    by (rule g_insert [OF am])
      (auto simp: intent_row_def Let_def placed_def dest: lots_of_column(2) [OF lots so])
  have mv: "guarantees E amb conf (placed conf sq oid) (update_order E (sq_user sq) oid PO_ACCEPTED PO_CREATED None)
      (\<lambda>x s. placed conf sq oid s)" for oid
  proof (rule g_move [OF am _ stable_placed])
    show "accept_fits conf (sq_user sq) oid PO_ACCEPTED s" if "placed conf sq oid s" for s
      using that by (auto simp: accept_fits_def placed_def)
  qed (simp_all add: stableD [OF stable_placed])
  have lk: "guarantees E amb conf (placed conf sq oid)
    (if oi_order_type (sq_intent sq) = ''limit''
     then andthen (lock_for_order E amb sq cfg required t) (\<lambda>a. pure_run (Inr (Some a))) else pure_run (Inr None))
    (\<lambda>x s. placed conf sq oid s)" for oid t
    using g_frame [OF g_lock [OF am, of sq cfg required t] stable_placed, of sq oid]
    by (auto intro!: g_pure g_andthen [where mid = "\<lambda>x s. placed conf sq oid s"])
  show ?thesis unfolding submit_accept_def
    apply (intro g_andthen [OF g_gate [OF am]] g_andthen [OF ins])
    apply (split prod.split, intro allI impI)
    apply (simp only: prod.case)
    apply (intro g_andthen [OF mv] g_andthen [OF lk] g_pure)
    apply auto
    done
qed

text \<open>A quantity that passes the static checks is a whole number of lots.\<close>

lemma static_lots:
  assumes ok: "static_rejection_reason amb i c = None" and amb: "28 \<le> amb" and fit: "fits amb (dcoeff (oi_quantity i))"
    and c: "c = conf sid"
  shows "lots_of conf (Some sid) (oi_quantity i)"
proof -
  have "decimal_places amb (oi_quantity i) \<le> sc_quantity_precision c"
    using ok by (auto simp: static_rejection_reason_def split: if_splits)
  then obtain n :: int where "dval (oi_quantity i) * 10 ^ sc_quantity_precision c = of_int n"
    using decimal_places_le [OF _ fit] amb by auto
  then have "dval (oi_quantity i) = of_int n * 10 powi (- int (sc_quantity_precision c))"
    by (simp add: power_int_minus field_simps)
  then show ?thesis unfolding lots_of_def lots_def c by auto
qed

definition settled_outcome :: "(string \<Rightarrow> session_config) \<Rightarrow> submit_request \<Rightarrow> submit_outcome \<Rightarrow> store \<Rightarrow> bool" where
  "settled_outcome conf sq out s \<longleftrightarrow> so_duplicate out \<or> so_reason out \<noteq> None \<or> placed conf sq (so_id out) s"

lemma g_attempt:
  assumes am: "among_clients E amb conf" and c: "c = conf (sq_session sq)"
    and fit: "fits amb (dcoeff (oi_quantity (sq_intent sq)))"
  shows "guarantees E amb conf (\<lambda>s. True) (submit_attempt E rd amb c cfg sq fp key n) (settled_outcome conf sq)"
proof -
  have amb: "28 \<le> amb" using am by (simp add: among_clients_def setting_ok_def)
  have lk: "guarantees E amb conf (\<lambda>s. True) (lock_account_for_update E u aid) (\<lambda>x s. True)" for u aid
    unfolding lock_account_for_update_def by (rule g_read [OF am]) simp_all
  have pb: "guarantees E amb conf (\<lambda>s. True) (probe_idempotency_key E u k sid aid) (\<lambda>x s. True)" for u k sid aid
    unfolding probe_idempotency_key_def by (rule g_read [OF am]) simp_all
  have pr: "guarantees E amb conf (\<lambda>s. True) (pure_run x) (\<lambda>x s. True)" for x :: "sim_error + 'a" by (rule g_pure) simp
  have rj: "guarantees E amb conf (\<lambda>s. True) (submit_reject E sq fp k reason n ref required) (settled_outcome conf sq)" for k reason ref required
    by (rule g_weaken [OF g_reject [OF am]]) (simp_all add: settled_outcome_def)
  have ac: "guarantees E amb conf (\<lambda>s. True) (submit_accept E rd amb sq cfg fp k n ref required) (settled_outcome conf sq)"
    if "static_rejection_reason amb (sq_intent sq) c = None" for k ref required
    by (rule g_weaken [OF g_accept [OF am static_lots [where conf = conf and sid = "sq_session sq", OF that amb fit c]]]) (simp_all add: settled_outcome_def)
  have dec: "guarantees E amb conf (\<lambda>s. True) (decide_intent E rd amb c cfg sq fp k n acct) (settled_outcome conf sq)" for k acct
    unfolding decide_intent_def
    by (cases "static_rejection_reason amb (sq_intent sq) c") (auto intro!: rj ac g_andthen [OF pr])
  show ?thesis unfolding submit_attempt_def
    by (cases key) (auto intro!: g_andthen [OF lk] g_andthen [OF pb] dec g_pure simp: settled_outcome_def split: option.splits prod.splits)
qed

lemma clean_submission_fields:
  "clean_submission sq0 = Inr sq \<Longrightarrow> py_strip (sq_user sq) = sq_user sq \<and> py_strip (sq_session sq) = sq_session sq \<and>
    py_strip (sq_account sq) = sq_account sq \<and> sq_session sq = py_strip (sq_session sq0) \<and> sq_intent sq = sq_intent sq0 \<and>
    sq_event sq = sq_event sq0"
  by (auto simp: clean_submission_def require_session_text_def result_simps split: if_splits)

lemma clean_request_fields:
  "clean_request rq0 = Inr rq \<Longrightarrow> rq_user rq = py_strip (rq_user rq0) \<and> rq_session rq = py_strip (rq_session rq0) \<and>
    rq_order rq = py_strip (rq_order rq0) \<and> rq_account rq = py_strip (rq_account rq0)"
  by (auto simp: clean_request_def require_session_text_def result_simps split: if_splits)

lemma g_fill_order:
  assumes am: "among_clients E amb conf" and sq: "clean_submission sq0 = Inr sq" and c: "c = conf (sq_session sq)"
    and rq: "rq_user rq = sq_user sq" "rq_session rq = sq_session sq" "rq_order rq = oid" "rq_account rq = sq_account sq"
  shows "guarantees E amb conf (placed conf sq oid) (sim_apply_fill E amb c rq) (\<lambda>x s. True)"
proof (rule g_fill [OF am])
  fix rq' assume "clean_request rq = Inr rq'"
  then show "c = conf (rq_session rq') \<and> (\<forall>s. placed conf sq oid s \<longrightarrow> order_of_request rq' s)"
    using clean_submission_fields [OF sq] clean_request_fields [of rq rq'] rq c
    by (auto simp: placed_def order_of_request_def)
qed

lemma g_fill_accepted:
  assumes am: "among_clients E amb conf" and sq: "clean_submission sq0 = Inr sq" and c: "c = conf (sq_session sq)"
  shows "guarantees E amb conf (settled_outcome conf sq out) (fill_accepted E rd amb c sq out) (\<lambda>x s. True)"
proof (cases "so_duplicate out \<or> so_reason out \<noteq> None \<or> oi_order_type (sq_intent sq) \<noteq> ''market''")
  case True
  then show ?thesis unfolding fill_accepted_def by (auto intro: g_pure)
next
  case False
  let ?mid = "\<lambda>rq s. market_fill_request rd amb c sq out = Inr rq \<and> placed conf sq (so_id out) s"
  have a: "guarantees E amb conf (settled_outcome conf sq out) (pure_run (market_fill_request rd amb c sq out)) ?mid"
    using False by (intro g_pure) (simp add: settled_outcome_def)
  have b: "guarantees E amb conf (?mid rq) (sim_apply_fill E amb c rq) (\<lambda>x s. True)" for rq
  proof (cases "market_fill_request rd amb c sq out = Inr rq")
    case True
    then have f: "rq_user rq = sq_user sq" "rq_session rq = sq_session sq" "rq_order rq = so_id out" "rq_account rq = sq_account sq"
      by (auto simp: market_fill_request_def result_simps Let_def split: option.splits)
    show ?thesis by (rule g_weaken [OF g_fill_order [OF am sq c f]]) simp_all
  qed (simp add: guarantees_def)
  show ?thesis unfolding fill_accepted_def using False by (auto intro!: g_andthen [OF a] g_andthen [OF b] g_pure)
qed

lemma g_submit:
  assumes am: "among_clients E amb conf" and c: "c = conf (py_strip (sq_session sq0))"
    and fit: "fits amb (dcoeff (oi_quantity (sq_intent sq0)))"
  shows "guarantees E amb conf (\<lambda>s. True) (submit_intent E rd amb c sq0) (\<lambda>x s. True)"
proof (cases "clean_submission sq0")
  case (Inl e)
  then show ?thesis by (auto intro!: guaranteesI simp: submit_intent_def andthen_def pure_run_def sim.refl)
next
  case (Inr sq)
  note f = clean_submission_fields [OF Inr]
  have pr: "guarantees E amb conf (\<lambda>s. True) (pure_run x) (\<lambda>x s. True)" for x :: "sim_error + 'a" by (rule g_pure) simp
  have c': "c = conf (sq_session sq)" using c f by simp
  have at: "guarantees E amb conf (\<lambda>s. True) (with_retries RETRY_ATTEMPTS (submit_attempt E rd amb c cfg sq fp key)) (settled_outcome conf sq)"
    for cfg fp key
    by (intro g_retries g_attempt [OF am c']) (use fit f in simp_all)
  have "submit_intent E rd amb c sq0 = andthen (pure_run (validate_idempotency_key (oi_idempotency_key (sq_intent sq)))) (\<lambda>key.
     andthen (pure_run (sc_accounting c)) (\<lambda>cfg.
     andthen (with_retries RETRY_ATTEMPTS (submit_attempt E rd amb c cfg sq
         (order_fingerprint (rd_digest rd) amb (sq_intent sq)) key)) (\<lambda>out.
       fill_accepted E rd amb c sq out)))"
    by (simp add: submit_intent_def Inr fun_eq_iff andthen_def pure_run_def)
  then show ?thesis by (auto intro!: g_andthen [OF pr] g_andthen [OF at] g_fill_accepted [OF am Inr c'])
qed

text \<open>Resting orders: every row read belongs to the account and the session.\<close>

definition resting_row :: "submit_request \<Rightarrow> store \<Rightarrow> string \<times> order_row \<Rightarrow> bool" where
  "resting_row sq s p \<longleftrightarrow> py_strip (fst p) = fst p \<and>
     (\<exists>r. find_order (sq_user sq) (fst p) s = Some r \<and> ow_account r = sq_account sq \<and> ow_session r = Some (sq_session sq))"

lemma stable_resting: "stable E amb conf (\<lambda>s. \<forall>p \<in> set rows. resting_row sq s p)"
  unfolding stable_def resting_row_def using sim.order_stays by (fastforce simp: order_fixed_eq)

lemma orders_in_resting:
  assumes ok: "store_ok E conf s" and set: "setting_ok E amb conf"
  shows "\<forall>p \<in> set (orders_in (sq_user sq) (sq_account sq) (Some (sq_session sq)) legacy s). resting_row sq s p"
proof
  fix p assume "p \<in> set (orders_in (sq_user sq) (sq_account sq) (Some (sq_session sq)) legacy s)"
  then have p: "p \<in> set (st_orders s)" "ow_user (snd p) = sq_user sq" "ow_account (snd p) = sq_account sq"
    "ow_session (snd p) = Some (sq_session sq)" by (auto simp: orders_in_def)
  have "dget (st_orders s) (fst p) = Some (snd p)" using p(1) store_okD(1) [OF ok] by (metis map_of_is_SomeI prod.collapse)
  moreover have "drawn E s (fst p)" using store_okD(4) [OF ok] p(1) by blast
  ultimately show "resting_row sq s p" using p set by (auto simp: resting_row_def find_order_def drawn_def setting_ok_def)
qed

lemma triggered_subset: "triggered rd ev symbol rows = Inr hits \<Longrightarrow> set hits \<subseteq> set rows"
  by (induction rows arbitrary: hits) (force simp: result_simps split: if_splits prod.splits)+

lemma g_fill_resting:
  assumes am: "among_clients E amb conf" and sq: "clean_submission sq0 = Inr sq" and c: "c = conf (sq_session sq)"
  shows "guarantees E amb conf (\<lambda>s. \<forall>p \<in> set rows. resting_row sq s p) (fill_resting E rd amb c sq instant rows) (\<lambda>x s. True)"
proof (induction rows)
  case Nil
  then show ?case by (auto intro: g_pure)
next
  case (Cons p rows)
  obtain oid r where p: "p = (oid, r)" by (cases p)
  let ?pre = "\<lambda>s. \<forall>q \<in> set (p # rows). resting_row sq s q"
  let ?mid = "\<lambda>q rq s. resting_fill_request rd sq c instant oid r q = Inr rq \<and> ?pre s"
  have a: "guarantees E amb conf ?pre (pure_run x) (\<lambda>y s. x = Inr y \<and> ?pre s)" for x :: "sim_error + 'a"
    by (rule g_pure) simp
  have b: "guarantees E amb conf (?mid q rq) (sim_apply_fill E amb c rq) (\<lambda>x s. \<forall>p \<in> set rows. resting_row sq s p)" for q rq
  proof (cases "resting_fill_request rd sq c instant oid r q = Inr rq")
    case True
    then have f: "rq_user rq = sq_user sq" "rq_session rq = sq_session sq" "rq_order rq = oid" "rq_account rq = sq_account sq"
      by (auto simp: resting_fill_request_def result_simps)
    have g: "guarantees E amb conf ?pre (sim_apply_fill E amb c rq) (\<lambda>x s. True)"
    proof (rule g_fill [OF am])
      fix rq' assume "clean_request rq = Inr rq'"
      then show "c = conf (rq_session rq') \<and> (\<forall>s. ?pre s \<longrightarrow> order_of_request rq' s)"
        using clean_submission_fields [OF sq] clean_request_fields [of rq rq'] f c p
        by (auto simp: resting_row_def order_of_request_def)
    qed
    show ?thesis by (rule g_weaken [OF g_frame [OF g stable_resting [of E amb conf rows sq]]]) auto
  qed (simp add: guarantees_def)
  have rest: "guarantees E amb conf ?pre (fill_resting E rd amb c sq instant rows) (\<lambda>x s. True)"
    by (rule g_weaken [OF Cons.IH]) auto
  have "guarantees E amb conf (\<lambda>s. fillable_quantity amb (order_source r) (sq_event sq) c = Inr q \<and> ?pre s)
    (if dec_le q dec_zero then fill_resting E rd amb c sq instant rows
     else andthen (pure_run (resting_fill_request rd sq c instant oid r q)) (\<lambda>rq. andthen (sim_apply_fill E amb c rq) (\<lambda>rep.
       andthen (fill_resting E rd amb c sq instant rows) (\<lambda>reps. pure_run (Inr (rep # reps)))))) (\<lambda>x s. True)" for q
  proof (cases "dec_le q dec_zero")
    case True
    then show ?thesis by (simp only: if_True) (rule g_conj [OF rest])
  next
    case False
    have "guarantees E amb conf ?pre (andthen (pure_run (resting_fill_request rd sq c instant oid r q)) (\<lambda>rq. andthen (sim_apply_fill E amb c rq) (\<lambda>rep.
       andthen (fill_resting E rd amb c sq instant rows) (\<lambda>reps. pure_run (Inr (rep # reps)))))) (\<lambda>x s. True)"
      by (intro g_andthen [OF a] g_andthen [OF b] g_andthen [OF Cons.IH] g_pure) simp
    then show ?thesis by (simp only: False if_False) (rule g_conj)
  qed
  then show ?case unfolding p fill_resting.simps by (intro g_andthen [OF a [unfolded p]]) (simp add: p)
qed

lemma g_check_resting:
  assumes am: "among_clients E amb conf" and c: "c = conf (py_strip (sq_session sq0))"
  shows "guarantees E amb conf (\<lambda>s. True) (check_resting_orders E rd amb c sq0) (\<lambda>x s. True)"
proof (cases "clean_submission sq0")
  case (Inl e)
  then show ?thesis by (auto intro!: guaranteesI simp: check_resting_orders_def andthen_def pure_run_def sim.refl)
next
  case (Inr sq)
  have c': "c = conf (sq_session sq)" using c clean_submission_fields [OF Inr] by simp
  have set: "setting_ok E amb conf" using am by (simp add: among_clients_def)
  have rd: "guarantees E amb conf (\<lambda>s. True) (get_orders E (sq_user sq) (sq_account sq) (Some (sq_session sq)) ''OPEN'')
      (\<lambda>rows s. \<forall>p \<in> set rows. resting_row sq s p)"
    unfolding get_orders_def by (rule g_read [OF am]) (use orders_in_resting [OF _ set] in auto)
  have tr: "guarantees E amb conf (\<lambda>s. \<forall>p \<in> set rows. resting_row sq s p) (pure_run (triggered rd ev sy rows))
      (\<lambda>hits s. \<forall>p \<in> set hits. resting_row sq s p)" for rows ev sy
    by (rule g_pure) (use triggered_subset in blast)
  have fr: "guarantees E amb conf (\<lambda>s. \<forall>p \<in> set hits. resting_row sq s p)
      (fill_resting E rd amb c sq instant (sort_key k hits)) (\<lambda>x s. True)" for hits instant k
    using g_fill_resting [OF am Inr c', of "sort_key k hits" rd instant] by simp
  have "check_resting_orders E rd amb c sq0 = (case event_instant rd (sq_event sq) of None \<Rightarrow> pure_run (Inl InvalidOrderIntent)
     | Some instant \<Rightarrow> andthen (get_orders E (sq_user sq) (sq_account sq) (Some (sq_session sq)) ''OPEN'') (\<lambda>rows.
           andthen (pure_run (triggered rd (sq_event sq) (event_text (rd_text rd) (sq_event sq) ''symbol'') rows)) (\<lambda>hits.
             fill_resting E rd amb c sq instant (sort_key (\<lambda>(_, r). ow_created r) hits))))"
    by (simp add: check_resting_orders_def Inr fun_eq_iff andthen_def pure_run_def)
  then show ?thesis
    by (auto intro!: g_pure g_andthen [OF rd] g_andthen [OF tr] fr split: option.splits)
qed

section \<open>The calls keep the invariant\<close>



end
