(* ===== verification/Sim_Submit_Laws.thy ===== *)
theory Sim_Submit_Laws
  imports Sim_Guarantee
begin

text \<open>
  What a submission means alone: a rejection writes orders only, a repeated key writes nothing, and
  an accepted limit order moves exactly its required funds from available to locked.
\<close>

section \<open>Rejections\<close>

text \<open>Only orders, and the identifiers drawn for them.\<close>

definition orders_only :: "store \<Rightarrow> store \<Rightarrow> bool" where
  "orders_only s t \<longleftrightarrow> t = s\<lparr>st_orders := st_orders t, st_count := st_count t\<rparr>"

lemma orders_only_refl [simp]: "orders_only s s"
  by (simp add: orders_only_def)

lemma orders_only_iff: "orders_only s t \<longleftrightarrow> st_accounts t = st_accounts s \<and> st_fills t = st_fills s \<and>
    st_ledger t = st_ledger s \<and> st_positions t = st_positions s \<and> st_trades t = st_trades s \<and>
    st_snapshots t = st_snapshots s \<and> st_sessions t = st_sessions s"
  unfolding orders_only_def by (cases s; cases t) auto

lemma orders_only_trans: "orders_only s t \<Longrightarrow> orders_only t v \<Longrightarrow> orders_only s v"
  by (simp add: orders_only_iff)

definition idle :: "environment \<Rightarrow> bool" where
  "idle E \<longleftrightarrow> (\<forall>n s. en_act E n s = s)"

text \<open>
  \<open>touches m\<close>: whatever \<open>m\<close> returns, it wrote orders only. \<open>spares m\<close>: so it did when it ends
  in a rejection, or in a failure that is retried.
\<close>

definition touches :: "'a run \<Rightarrow> bool" where
  "touches m \<longleftrightarrow> (\<forall>w r w'. m w = (r, w') \<longrightarrow> orders_only (w_store w) (w_store w'))"

definition rejects :: "sim_error + submit_outcome \<Rightarrow> bool" where
  "rejects r \<longleftrightarrow> (case r of Inl e \<Rightarrow> is_retryable e | Inr out \<Rightarrow> so_reason out \<noteq> None)"

definition spares :: "submit_outcome run \<Rightarrow> bool" where
  "spares m \<longleftrightarrow> (\<forall>w r w'. m w = (r, w') \<longrightarrow> rejects r \<longrightarrow> orders_only (w_store w) (w_store w'))"

lemma touches_pure: "touches (pure_run r)"
  by (simp add: touches_def pure_run_def)

lemma touches_andthen: "touches m \<Longrightarrow> (\<And>x. touches (k x)) \<Longrightarrow> touches (andthen m k)"
  unfolding touches_def andthen_pair by (meson orders_only_trans)

lemma touches_read: "idle E \<Longrightarrow> touches (read_store E f)"
  using read_store_step [of E f] by (auto simp: touches_def found_def idle_def)

lemma touches_commit:
  assumes "idle E" and "\<And>s x s'. f s = Inr (x, s') \<Longrightarrow> orders_only s s'"
  shows "touches (statement E (\<lambda>s. commit s (f s)))"
  unfolding touches_def
proof (intro allI impI)
  fix w r w' assume run: "statement E (\<lambda>s. commit s (f s)) w = (r, w')"
  have "found E w = w_store w" using assms(1) by (simp add: found_def idle_def)
  then show "orders_only (w_store w) (w_store w')" using statement_commit(2) [OF run] assms(2) by auto
qed

lemma touches_insert: "idle E \<Longrightarrow> touches (insert_order E row)"
  unfolding insert_order_def
  by (auto intro!: touches_pure touches_commit dest: new_order_Inr(2) simp: orders_only_iff)

lemma touches_update: "idle E \<Longrightarrow> touches (update_order E user oid target expected reason)"
  unfolding update_order_def
  by (auto intro!: touches_pure touches_commit elim!: moved_order_Inr simp: orders_only_iff)

lemma touches_reject: "idle E \<Longrightarrow> touches (submit_reject E sq fp key reason n ref required)"
  unfolding submit_reject_def
  by (auto intro!: touches_pure touches_andthen touches_insert touches_update split: prod.splits)

lemma touches_gate: "idle E \<Longrightarrow> touches (submit_gate E sq)"
  unfolding submit_gate_def read_session_def by (auto intro!: touches_pure touches_andthen touches_read)

lemma spares_touches: "touches m \<Longrightarrow> spares m"
  unfolding touches_def spares_def by blast

lemma spares_andthen: "touches m \<Longrightarrow> (\<And>x. spares (k x)) \<Longrightarrow> spares (andthen m k)"
  unfolding touches_def spares_def andthen_pair by (meson orders_only_trans)

lemma spares_pure: "spares (pure_run r)"
  by (simp add: spares_touches touches_pure)

lemma retry_not_retryable: "retry_from n k m w = (Inl e, w') \<Longrightarrow> \<not> is_retryable e"
  by (induction k arbitrary: n w) (auto simp: is_retryable_def split: prod.splits sum.splits if_splits)

lemma retries_not_retryable: "with_retries k m w = (Inl e, w') \<Longrightarrow> \<not> is_retryable e"
  using retry_not_retryable [of 1 k m w e w']
  by (cases "k < 1") (auto simp: with_retries_def pure_run_def is_retryable_def)

lemma lock_not_retryable:
  assumes "lock_for_order E amb sq cfg required t w = (Inl e, w')"
  shows "\<not> is_retryable e"
proof (cases "with_retries RETRY_ATTEMPTS (\<lambda>_. lock_attempt E amb sq cfg required t) w")
  case (Pair r v)
  show ?thesis
  proof (cases r)
    case (Inl e')
    have "\<not> is_retryable e'" using retries_not_retryable Pair Inl by blast
    then show ?thesis using assms Pair Inl
      by (cases e') (auto simp: lock_for_order_def is_retryable_def)
  qed (use assms Pair in \<open>simp add: lock_for_order_def\<close>)
qed

text \<open>After the accept, neither a rejection nor a retried failure can follow.\<close>

lemma spares_locked:
  "spares (andthen (if b then andthen (lock_for_order E amb sq cfg required t) (\<lambda>a. pure_run (Inr (Some a))) else pure_run (Inr None))
     (\<lambda>locked. pure_run (Inr \<lparr>so_id = oid, so_order = r, so_duplicate = False, so_reason = None,
         so_reference = Some ref, so_required = Some required, so_locked = locked, so_fill = None,
         so_attempts = n\<rparr>)))"
  unfolding spares_def rejects_def
  using lock_not_retryable by (auto simp: andthen_pair pure_run_pair split: sum.splits if_splits)

lemma spares_accept: "idle E \<Longrightarrow> spares (submit_accept E rd amb sq cfg fp key n ref required)"
  unfolding submit_accept_def
  apply (intro spares_andthen touches_gate touches_insert, assumption+)
  apply (split prod.split, intro allI impI)
  apply (rule spares_andthen, erule touches_update)
  apply (rule spares_locked)
  done

lemma spares_decide: "idle E \<Longrightarrow> spares (decide_intent E rd amb c cfg sq fp key n acct)"
  unfolding decide_intent_def
  by (auto intro!: spares_touches [OF touches_reject] spares_accept spares_andthen [OF touches_pure] split: option.splits)

lemma spares_attempt: "idle E \<Longrightarrow> spares (submit_attempt E rd amb c cfg sq fp key n)"
  unfolding submit_attempt_def lock_account_for_update_def probe_idempotency_key_def
  by (auto intro!: spares_decide spares_pure spares_andthen [OF touches_read] split: option.splits prod.splits)

lemma spares_retry: "(\<And>i. spares (m i)) \<Longrightarrow> spares (retry_from n k m)"
proof (induction k arbitrary: n)
  case 0
  then show ?case by (auto simp: spares_def)
next
  case (Suc k)
  show ?case unfolding spares_def
  proof (intro allI impI)
    fix w r w' assume run: "retry_from n (Suc k) m w = (r, w')" and rj: "rejects r"
    obtain r0 v where v: "m n w = (r0, v)" by fastforce
    have one: "rejects r0 \<Longrightarrow> orders_only (w_store w) (w_store v)" using Suc.prems [of n] v unfolding spares_def by blast
    show "orders_only (w_store w) (w_store w')"
    proof (cases "\<exists>e. r0 = Inl e \<and> is_retryable e")
      case True
      then have "retry_from (Suc n) k m v = (r, w')" "rejects r0" using run v by (auto simp: rejects_def)
      then show ?thesis using Suc.IH [OF Suc.prems, of "Suc n"] rj one orders_only_trans unfolding spares_def by blast
    next
      case False
      then have "r = r0 \<and> w' = v" using run v by (auto split: sum.splits)
      then show ?thesis using one rj by blast
    qed
  qed
qed

lemma fill_accepted_reason:
  "fill_accepted E rd amb c sq out w = (Inr out', w') \<Longrightarrow> so_reason out' \<noteq> None \<Longrightarrow> so_reason out \<noteq> None \<and> w' = w"
  by (auto simp: fill_accepted_def result_simps split: if_splits)

text \<open>
  C20: a submission that ends in a rejection, however many of its statements failed and were retried,
  has written orders and nothing else: no balance, no position, no fill, no ledger row.
\<close>

theorem rejection_moves_no_money:
  assumes "idle E" and "submit_intent E rd amb c sq w = (Inr out, w')" and "so_reason out \<noteq> None"
  shows "st_accounts (w_store w') = st_accounts (w_store w) \<and> st_positions (w_store w') = st_positions (w_store w) \<and>
    st_fills (w_store w') = st_fills (w_store w) \<and> st_ledger (w_store w') = st_ledger (w_store w) \<and>
    st_trades (w_store w') = st_trades (w_store w)"
proof -
  obtain q key cfg fp out0 w0 where run: "with_retries RETRY_ATTEMPTS (submit_attempt E rd amb c cfg q fp key) w = (Inr out0, w0)"
    and fin: "fill_accepted E rd amb c q out0 w0 = (Inr out, w')"
    using assms(2) by (auto simp: submit_intent_def result_simps)
  have "so_reason out0 \<noteq> None" "w' = w0" using fill_accepted_reason [OF fin assms(3)] by blast+
  moreover have "spares (retry_from 1 3 (submit_attempt E rd amb c cfg q fp key))"
    by (rule spares_retry) (rule spares_attempt [OF assms(1)])
  ultimately have "orders_only (w_store w) (w_store w')"
    using run unfolding spares_def with_retries_def RETRY_ATTEMPTS_def by (auto simp: rejects_def)
  then show ?thesis by (simp add: orders_only_iff)
qed

section \<open>Repeated keys\<close>

text \<open>The order recorded under a key.\<close>

definition recorded :: "submit_request \<Rightarrow> string \<Rightarrow> store \<Rightarrow> (string \<times> order_row) option" where
  "recorded sq k s = find (\<lambda>(oid, r). ow_user r = sq_user sq \<and> ow_key r = Some k \<and> ow_session r = Some (sq_session sq)) (st_orders s)"

lemma repeated_attempt:
  assumes id: "idle E" and rec: "recorded sq k (w_store w) = Some (oid, r)"
    and run: "submit_attempt E rd amb c cfg sq fp (Some k) n w = (res, w')"
  shows "w_store w' = w_store w \<and> (\<forall>out. res = Inr out \<longrightarrow> so_duplicate out \<and> so_id out = oid \<and> so_order out = r \<and> ow_fingerprint r = fp)"
proof -
  obtain r1 w1 where one: "lock_account_for_update E (sq_user sq) (sq_account sq) w = (r1, w1)" by fastforce
  obtain r2 w2 where two: "probe_idempotency_key E (sq_user sq) k (Some (sq_session sq)) (sq_account sq) w1 = (r2, w2)" by fastforce
  have f: "found E v = w_store v" for v using id by (simp add: found_def idle_def)
  have s: "w_store w1 = w_store w" "w_store w2 = w_store w"
    using read_store_step [OF one [unfolded lock_account_for_update_def]] read_store_step [OF two [unfolded probe_idempotency_key_def]] f by simp_all
  have "p = Some (oid, r)" if "r2 = Inr p" for p
    using read_store_Inr [OF two [unfolded probe_idempotency_key_def that]] rec f s(1)
    by (simp add: recorded_def cong: prod.case_cong)
  then show ?thesis
    using run one two s by (auto simp: submit_attempt_def andthen_def pure_run_def split: sum.splits if_splits)
qed


section \<open>The lock of an accepted order\<close>

lemma idle_found: "idle E \<Longrightarrow> found E w = w_store w"
  by (simp add: found_def idle_def)

lemma past_the_money_run:
  "past_the_money m w = (r, w') \<Longrightarrow> \<exists>r0. m w = (r0, w') \<and> (\<forall>x. r = Inr x \<longrightarrow> r0 = Inr x) \<and> (\<forall>e. r = Inl e \<longrightarrow> \<not> is_retryable e)"
  by (auto simp: past_the_money_def is_retryable_def split: prod.splits sum.splits if_splits)

text \<open>What an attempt to lock leaves: nothing, or the account written and then its ledger row.\<close>

definition lock_written ::
  "nat \<Rightarrow> submit_request \<Rightarrow> accounting_config \<Rightarrow> decimal \<Rightarrow> stamp option \<Rightarrow> decimal \<Rightarrow> store \<Rightarrow> store \<Rightarrow> bool" where
  "lock_written amb sq cfg required t amount s s' \<longleftrightarrow>
     (\<exists>a locked b s1 l. find_account (sq_user sq) (sq_account sq) s = Some a \<and>
        lock (account_of a) (D required) cfg = Inr locked \<and> cfg_money cfg (D required) = Inr amount \<and>
        bumped (sq_user sq) (sq_account sq) (ac_version a) (lock_payload locked) s = Inr (b, s1) \<and>
        new_ledger (order_lock_entry sq amount (dec_neg amb amount) locked (or_stamp t (ac_updated a))) s1 = Inr (l, s'))"

lemma as_invariant_Inr [result_simps]: "as_invariant r = Inr x \<longleftrightarrow> r = Inr x"
  by (auto simp: as_invariant_def split: sum.splits paper_error.splits)

lemma as_invariant_Inl:
  obtains e' where "as_invariant (Inl e) = Inl e'"
  unfolding as_invariant_def by (cases e) auto

lemma idle_statement_Inl:
  assumes id: "idle E" and fl: "faults_ok E" and run: "statement E (\<lambda>s. commit s (f s)) w = (Inl e, w')" and re: "is_retryable e"
  shows "w_store w' = w_store w"
proof -
  have "\<not> en_fault E (w_step w) = Some (e, True)" using fl re by (auto simp: faults_ok_def is_retryable_def)
  then show ?thesis using statement_commit(2) [OF run] idle_found [OF id] by auto
qed

lemma lock_attempt_effect:
  assumes id: "idle E" and fl: "faults_ok E" and run: "lock_attempt E amb sq cfg required t w = (r, w')"
  shows "case r of Inl e \<Rightarrow> is_retryable e \<longrightarrow> w_store w' = w_store w
    | Inr amount \<Rightarrow> lock_written amb sq cfg required t amount (w_store w) (w_store w')"
proof -
  obtain r1 w1 where st1: "lock_account_for_update E (sq_user sq) (sq_account sq) w = (r1, w1)" by fastforce
  have w1: "w_store w1 = w_store w"
    using read_store_step [OF st1 [unfolded lock_account_for_update_def]] idle_found [OF id] by simp
  have a: "find_account (sq_user sq) (sq_account sq) (w_store w) = Some a" if "r1 = Inr a" for a
    using read_store_Inr [OF st1 [unfolded lock_account_for_update_def that]] idle_found [OF id] by (auto split: option.splits)
  show ?thesis
  proof (cases "\<exists>a locked amount. r1 = Inr a \<and> lock (account_of a) (D required) cfg = Inr locked \<and> cfg_money cfg (D required) = Inr amount")
    case False
    have "w' = w1 \<and> (\<exists>e. r = Inl e)"
    proof (cases r1)
      case (Inl e)
      then show ?thesis using run st1 by (auto simp: lock_attempt_def andthen_def)
    next
      case (Inr x)
      show ?thesis
      proof (cases "lock (account_of x) (D required) cfg")
        case (Inl e)
        obtain e' where "as_invariant (lock (account_of x) (D required) cfg) = Inl e'" unfolding Inl by (rule as_invariant_Inl)
        then show ?thesis using run st1 \<open>r1 = Inr x\<close> by (auto simp: lock_attempt_def andthen_def pure_run_def)
      next
        case (Inr locked)
        then have bad: "cfg_money cfg (D required) \<noteq> Inr amount" for amount using False \<open>r1 = Inr x\<close> by blast
        then obtain e where "cfg_money cfg (D required) = Inl e" by (cases "cfg_money cfg (D required)") auto
        moreover have "as_invariant (lock (account_of x) (D required) cfg) = Inr locked" using Inr by (simp add: as_invariant_Inr)
        ultimately show ?thesis using run st1 \<open>r1 = Inr x\<close> by (auto simp: lock_attempt_def andthen_def pure_run_def engine_def)
      qed
    qed
    then show ?thesis using w1 by auto
  next
    case True
    then obtain x locked amount where d: "r1 = Inr x" "lock (account_of x) (D required) cfg = Inr locked"
      "cfg_money cfg (D required) = Inr amount" by blast
    obtain b w2 where st2: "bump_version E (sq_user sq) (sq_account sq) (ac_version x) (lock_payload locked) w1 = (b, w2)" by fastforce
    note b = st2 [unfolded bump_version_def]
    obtain l w3 where st3: "past_the_money (insert_balance_event E (order_lock_entry sq amount (dec_neg amb amount) locked
        (or_stamp t (ac_updated x)))) w2 = (l, w3)" by fastforce
    have go: "(r, w') = (case b of Inl e \<Rightarrow> (Inl e, w2) | Inr _ \<Rightarrow> (case l of Inl e \<Rightarrow> (Inl e, w3) | Inr _ \<Rightarrow> (Inr amount, w3)))"
      using run st1 st2 st3 d by (simp add: lock_attempt_def andthen_def pure_run_def as_invariant_def engine_def split: sum.splits)
    show ?thesis
    proof (cases b)
      case (Inl e)
      then show ?thesis using go idle_statement_Inl [OF id fl b [unfolded Inl]] w1 by simp
    next
      case (Inr y)
      have bw: "bumped (sq_user sq) (sq_account sq) (ac_version x) (lock_payload locked) (w_store w) = Inr (y, w_store w2)"
        using statement_commit(3) [OF b Inr] idle_found [OF id] w1 by simp
      show ?thesis
      proof (cases l)
        case (Inl e)
        then show ?thesis using go Inr past_the_money_run [OF st3] by auto
      next
        case (Inr z)
        then have "insert_balance_event E (order_lock_entry sq amount (dec_neg amb amount) locked (or_stamp t (ac_updated x))) w2 = (Inr z, w3)"
          using past_the_money_run [OF st3] by auto
        then have "new_ledger (order_lock_entry sq amount (dec_neg amb amount) locked (or_stamp t (ac_updated x))) (w_store w2) = Inr (z, w_store w3)"
          using statement_commit(3) [OF _ refl] idle_found [OF id] unfolding insert_balance_event_def by force
        then show ?thesis using go \<open>b = Inr y\<close> Inr a [OF d(1)] d(2,3) bw unfolding lock_written_def by auto
      qed
    qed
  qed
qed

lemma retry_last:
  assumes "\<And>i v e v'. m i v = (Inl e, v') \<Longrightarrow> is_retryable e \<Longrightarrow> Q (w_store v) (w_store v')"
    and "\<And>s. Q s s" and "\<And>s t u. Q s t \<Longrightarrow> Q t u \<Longrightarrow> Q s u"
  shows "retry_from n k m w = (Inr x, w') \<Longrightarrow> \<exists>i v. m i v = (Inr x, w') \<and> Q (w_store w) (w_store v)"
proof (induction k arbitrary: n w)
  case (Suc k)
  obtain r0 u where u: "m n w = (r0, u)" by fastforce
  show ?case
  proof (cases r0)
    case (Inl e)
    then have re: "is_retryable e" and "retry_from (Suc n) k m u = (Inr x, w')" using Suc.prems u by (auto split: if_splits)
    then obtain i v where "m i v = (Inr x, w')" "Q (w_store u) (w_store v)" using Suc.IH by blast
    then show ?thesis using assms(1) [OF u [unfolded Inl] re] assms(3) by blast
  next
    case (Inr y)
    then show ?thesis using Suc.prems u assms(2) by auto
  qed
qed simp

lemma lock_for_order_effect:
  assumes id: "idle E" and fl: "faults_ok E" and run: "lock_for_order E amb sq cfg required t w = (Inr amount, w')"
  shows "lock_written amb sq cfg required t amount (w_store w) (w_store w')"
proof -
  have "retry_from 1 3 (\<lambda>_. lock_attempt E amb sq cfg required t) w = (Inr amount, w')"
    using run by (auto simp: lock_for_order_def with_retries_def RETRY_ATTEMPTS_def split: prod.splits sum.splits sim_error.splits)
  then obtain i v where at: "lock_attempt E amb sq cfg required t v = (Inr amount, w')" and "w_store w = w_store v"
    using retry_last [of "\<lambda>_. lock_attempt E amb sq cfg required t" "(=)" 1 3 w amount w']
      lock_attempt_effect [OF id fl] by fastforce
  then show ?thesis using lock_attempt_effect [OF id fl at] by simp
qed

text \<open>A balance as its column holds it, and the exact arithmetic of a lock on two of them.\<close>

definition in_column :: "decimal \<Rightarrow> bool" where
  "in_column d \<longleftrightarrow> dexp d = - 10 \<and> \<bar>dcoeff d\<bar> < 10 ^ 28"

lemma in_column_grid: "in_column d \<Longrightarrow> on_grid (- 10) d \<and> \<bar>coeff_at d (- 10)\<bar> < 10 ^ 28"
  by (simp add: in_column_def on_grid_def coeff_at_def)

lemma lock_columns:
  assumes av: "in_column (acc_available a)" and lk: "in_column (acc_locked a)"
    and run: "lock a v cfg = Inr b" and q: "cfg_money cfg v = Inr q" and m: "cfg_minor_unit_exponent cfg \<le> 10"
  shows "dval (acc_available b) = dval (acc_available a) - dval q \<and> dval (acc_locked b) = dval (acc_locked a) + dval q \<and>
    lots (- 10) (acc_available b) \<and> lots (- 10) (acc_locked b)"
proof -
  note d = in_column_grid [OF av] in_column_grid [OF lk]
  have qg: "on_grid (- 10) q" using cfg_money_on_grid [OF q] m by (auto simp: on_grid_def cash_exp_def)
  have b: "b = a\<lparr>acc_available := dec_sub DECIMAL_PRECISION (acc_available a) q,
      acc_locked := dec_add DECIMAL_PRECISION (acc_locked a) q\<rparr>" and "\<not> dec_lt q dec_zero" "\<not> dec_lt (acc_available a) q"
    using run by (auto simp: lock_def q split: if_splits)
  then have "0 \<le> coeff_at q (- 10)" "coeff_at q (- 10) \<le> coeff_at (acc_available a) (- 10)"
    using grid_lt [of "- 10"] qg d coeff_at_sign(1) [of q "- 10"] by auto
  then have fit: "fits DECIMAL_PRECISION (coeff_at (acc_available a) (- 10) - coeff_at q (- 10))"
    "fits DECIMAL_PRECISION (coeff_at (acc_locked a) (- 10) + coeff_at q (- 10))"
    using d by (auto simp: fits_def DECIMAL_PRECISION_def)
  note g = grid_sub [OF prec_pos conjunct1 [OF d(1)] qg fit(1)] grid_add [OF prec_pos conjunct1 [OF d(2)] qg fit(2)]
  show ?thesis using g d qg lots_grid by (simp add: b grid_val [of "- 10"] left_diff_distrib distrib_right)
qed

lemma lock_written_money:
  assumes lw: "lock_written amb sq cfg required t amount s s'" and m: "cfg_minor_unit_exponent cfg \<le> 10"
    and a: "find_account (sq_user sq) (sq_account sq) s = Some a"
    and cols: "in_column (acc_available (ac_money a))" "in_column (acc_locked (ac_money a))"
  obtains b l where "find_account (sq_user sq) (sq_account sq) s' = Some b" "ac_version b = ac_version a + 1"
    "dval (acc_available (ac_money b)) = dval (acc_available (ac_money a)) - dval amount"
    "dval (acc_locked (ac_money b)) = dval (acc_locked (ac_money a)) + dval amount"
    "st_ledger s' = st_ledger s @ [l]" "ld_cause l = ''ORDER_LOCK''"
    "ld_available l = acc_available (ac_money b)" "ld_locked l = acc_locked (ac_money b)"
proof -
  obtain locked b s1 l where w: "lock (account_of a) (D required) cfg = Inr locked" "cfg_money cfg (D required) = Inr amount"
    and b: "bumped (sq_user sq) (sq_account sq) (ac_version a) (lock_payload locked) s = Inr (b, s1)"
    and l: "new_ledger (order_lock_entry sq amount (dec_neg amb amount) locked (or_stamp t (ac_updated a))) s1 = Inr (l, s')"
    using lw a by (auto simp: lock_written_def)
  note v = lock_columns [OF _ _ w m]
  note bs = bumped_Inr [OF b] and ls = new_ledger_Inr [OF l]
  have mc: "column (acc_available locked) = Inr (acc_available (ac_money b))" "column (acc_locked locked) = Inr (acc_locked (ac_money b))"
    using b by (auto simp: bumped_def result_simps Let_def money_columns_def lock_payload_def split: option.splits if_splits)
  have lc: "column (acc_available locked) = Inr (ld_available l)" "column (acc_locked locked) = Inr (ld_locked l)"
    using l by (auto simp: new_ledger_def ledger_columns_def result_simps order_lock_entry_def)
  have n: "dval (acc_available locked) = dval (acc_available (ac_money a)) - dval amount"
    "dval (acc_locked locked) = dval (acc_locked (ac_money a)) + dval amount"
    "lots (- 10) (acc_available locked)" "lots (- 10) (acc_locked locked)"
    using v cols by (auto simp: account_of_def)
  show ?thesis
  proof (rule that)
    show "find_account (sq_user sq) (sq_account sq) s' = Some b" using bs(1,2) ls by (simp add: find_account_def dict_simps)
    show "dval (acc_available (ac_money b)) = dval (acc_available (ac_money a)) - dval amount"
      using column_exact [OF mc(1) n(3)] n(1) by simp
    show "dval (acc_locked (ac_money b)) = dval (acc_locked (ac_money a)) + dval amount"
      using column_exact [OF mc(2) n(4)] n(2) by simp
    show "ld_available l = acc_available (ac_money b)" "ld_locked l = acc_locked (ac_money b)" using mc lc by simp_all
    show "st_ledger s' = st_ledger s @ [l]" "ld_cause l = ''ORDER_LOCK''" "ac_version b = ac_version a + 1"
      using bs(1,3) ls by (simp_all add: order_lock_entry_def)
  qed
qed

text \<open>The attempt that accepted the order, and its lock.\<close>

lemma locked_run:
  assumes id: "idle E" and fl: "faults_ok E"
    and run: "andthen (if b then andthen (lock_for_order E amb sq cfg required t) (\<lambda>x. pure_run (Inr (Some x))) else pure_run (Inr None))
      (\<lambda>locked. pure_run (Inr \<lparr>so_id = oid, so_order = r, so_duplicate = False, so_reason = None,
         so_reference = Some ref, so_required = Some required, so_locked = locked, so_fill = None,
         so_attempts = n\<rparr>)) w = (Inr out, w')"
    and out: "so_locked out = Some amount"
  shows "b \<and> so_required out = Some required \<and> lock_written amb sq cfg required t amount (w_store w) (w_store w')"
  using run out lock_for_order_effect [OF id fl] by (auto simp: result_simps split: if_splits)

lemma accept_locks:
  assumes id: "idle E" and fl: "faults_ok E"
    and run: "submit_accept E rd amb sq cfg fp key n ref required w = (Inr out, w')" and out: "so_locked out = Some amount"
  shows "oi_order_type (sq_intent sq) = ''limit'' \<and> so_required out = Some required \<and>
    (\<exists>t s. orders_only (w_store w) s \<and> lock_written amb sq cfg required t amount s (w_store w'))"
proof -
  obtain x w1 oid r0 w2 r w3 where st: "submit_gate E sq w = (Inr x, w1)"
    "insert_order E (intent_row sq fp key (Some ref)) w1 = (Inr (oid, r0), w2)"
    "update_order E (sq_user sq) oid PO_ACCEPTED PO_CREATED None w2 = (Inr r, w3)"
    and fin: "andthen (if oi_order_type (sq_intent sq) = ''limit''
              then andthen (lock_for_order E amb sq cfg required
                     (case sq_filled_at sq of None \<Rightarrow> event_instant rd (sq_event sq) | Some t \<Rightarrow> Some t))
                     (\<lambda>a. pure_run (Inr (Some a)))
              else pure_run (Inr None)) (\<lambda>locked.
       pure_run (Inr \<lparr>so_id = oid, so_order = r, so_duplicate = False, so_reason = None,
         so_reference = Some ref, so_required = Some required, so_locked = locked, so_fill = None,
         so_attempts = n\<rparr>)) w3 = (Inr out, w')"
    using run by (simp only: submit_accept_def andthen_Inr split_paired_Ex prod.case) blast
  have "orders_only (w_store w) (w_store w3)"
    using touches_gate [OF id] touches_insert [OF id] touches_update [OF id] st orders_only_trans unfolding touches_def by metis
  then show ?thesis using locked_run [OF id fl fin out] by blast
qed

lemma decide_locks:
  assumes id: "idle E" and fl: "faults_ok E"
    and run: "decide_intent E rd amb c cfg sq fp key n acct w = (Inr out, w')" and out: "so_locked out = Some amount"
  shows "oi_order_type (sq_intent sq) = ''limit'' \<and>
    (\<exists>required t s. so_required out = Some required \<and> orders_only (w_store w) s \<and> lock_written amb sq cfg required t amount s (w_store w'))"
proof -
  have no: "submit_reject E sq fp key reason n ref required w = (Inr out, w') \<Longrightarrow> False" for reason ref required w
    using out by (auto simp: submit_reject_def result_simps split: if_splits)
  show ?thesis using run
    by (auto simp: decide_intent_def result_simps split: option.splits if_splits dest!: no accept_locks [OF id fl _ out])
qed

lemma attempt_locks:
  assumes id: "idle E" and fl: "faults_ok E"
    and run: "submit_attempt E rd amb c cfg sq fp key n w = (Inr out, w')" and out: "so_locked out = Some amount"
  shows "oi_order_type (sq_intent sq) = ''limit'' \<and>
    (\<exists>required t s. so_required out = Some required \<and> orders_only (w_store w) s \<and> lock_written amb sq cfg required t amount s (w_store w'))"
proof -
  obtain acct w1 where one: "lock_account_for_update E (sq_user sq) (sq_account sq) w = (Inr acct, w1)"
    and rest: "(case key of None \<Rightarrow> decide_intent E rd amb c cfg sq fp key n acct
       | Some k \<Rightarrow> andthen (probe_idempotency_key E (sq_user sq) k (Some (sq_session sq)) (sq_account sq)) (\<lambda>found.
             case found of
               None \<Rightarrow> decide_intent E rd amb c cfg sq fp key n acct
             | Some (oid, r) \<Rightarrow>
                 if ow_fingerprint r \<noteq> fp then pure_run (Inl IdempotencyConflict)
                 else pure_run (Inr \<lparr>so_id = oid, so_order = r, so_duplicate = True,
                   so_reason = optional_reason r, so_reference = None, so_required = None,
                   so_locked = None, so_fill = None, so_attempts = n\<rparr>))) w1 = (Inr out, w')"
    using run unfolding submit_attempt_def andthen_Inr by blast
  have w1: "w_store w1 = w_store w"
    using read_store_step [OF one [unfolded lock_account_for_update_def]] idle_found [OF id] by simp
  have "\<exists>v. decide_intent E rd amb c cfg sq fp key n acct v = (Inr out, w') \<and> w_store v = w_store w"
  proof (cases key)
    case None
    then show ?thesis using rest w1 by auto
  next
    case (Some k)
    note key = Some
    from Some have "andthen (probe_idempotency_key E (sq_user sq) k (Some (sq_session sq)) (sq_account sq)) (\<lambda>found.
             case found of
               None \<Rightarrow> decide_intent E rd amb c cfg sq fp (Some k) n acct
             | Some (oid, r) \<Rightarrow>
                 if ow_fingerprint r \<noteq> fp then pure_run (Inl IdempotencyConflict)
                 else pure_run (Inr \<lparr>so_id = oid, so_order = r, so_duplicate = True,
                   so_reason = optional_reason r, so_reference = None, so_required = None,
                   so_locked = None, so_fill = None, so_attempts = n\<rparr>)) w1 = (Inr out, w')"
      using rest by (simp add: Some)
    then obtain f v where pr: "probe_idempotency_key E (sq_user sq) k (Some (sq_session sq)) (sq_account sq) w1 = (Inr f, v)"
      and k: "(case f of None \<Rightarrow> decide_intent E rd amb c cfg sq fp (Some k) n acct
             | Some (oid, r) \<Rightarrow>
                 if ow_fingerprint r \<noteq> fp then pure_run (Inl IdempotencyConflict)
                 else pure_run (Inr \<lparr>so_id = oid, so_order = r, so_duplicate = True,
                   so_reason = optional_reason r, so_reference = None, so_required = None,
                   so_locked = None, so_fill = None, so_attempts = n\<rparr>)) v = (Inr out, w')"
      unfolding andthen_Inr by blast
    have "decide_intent E rd amb c cfg sq fp (Some k) n acct v = (Inr out, w')"
    proof (cases f)
      case None
      then show ?thesis using k by simp
    next
      case (Some p)
      then show ?thesis using k out by (cases p) (auto simp: pure_run_def split: if_split_asm)
    qed
    then show ?thesis
      using key read_store_step [OF pr [unfolded probe_idempotency_key_def]] idle_found [OF id] w1 by auto
  qed
  then show ?thesis using decide_locks [OF id fl _ out] by fastforce
qed

lemma fill_accepted_limit:
  "oi_order_type (sq_intent sq) = ''limit'' \<Longrightarrow> fill_accepted E rd amb c sq out w = (Inr out, w)"
  by (simp add: fill_accepted_def pure_run_def)

lemma fill_accepted_locked:
  "fill_accepted E rd amb c sq out w = (Inr out', w') \<Longrightarrow> so_locked out' = so_locked out \<and> so_required out' = so_required out"
  by (auto simp: fill_accepted_def result_simps split: if_splits)

lemma submit_locks:
  assumes id: "idle E" and fl: "faults_ok E" and sq: "clean_submission sq0 = Inr sq"
    and run: "submit_intent E rd amb c sq0 w = (Inr out, w')" and out: "so_locked out = Some amount"
  obtains cfg required t s where "sc_accounting c = Inr cfg" "so_required out = Some required"
    "orders_only (w_store w) s" "lock_written amb sq cfg required t amount s (w_store w')"
proof -
  obtain key cfg fp out0 w0 where cfg: "Inr cfg = sc_accounting c"
    and rt: "with_retries RETRY_ATTEMPTS (submit_attempt E rd amb c cfg sq fp key) w = (Inr out0, w0)"
    and fin: "fill_accepted E rd amb c sq out0 w0 = (Inr out, w')"
    using run sq by (auto simp: submit_intent_def result_simps)
  have o0: "so_locked out0 = Some amount" "so_required out0 = so_required out" using fill_accepted_locked [OF fin] out by simp_all
  have "retry_from 1 3 (submit_attempt E rd amb c cfg sq fp key) w = (Inr out0, w0)"
    using rt by (simp add: with_retries_def RETRY_ATTEMPTS_def)
  moreover have "orders_only (w_store v) (w_store v')"
    if "submit_attempt E rd amb c cfg sq fp key i v = (Inl e, v')" "is_retryable e" for i v e v'
    using spares_attempt [OF id] that unfolding spares_def by (fastforce simp: rejects_def)
  ultimately obtain i v where last: "submit_attempt E rd amb c cfg sq fp key i v = (Inr out0, w0)" "orders_only (w_store w) (w_store v)"
    using retry_last [of "submit_attempt E rd amb c cfg sq fp key" orders_only] orders_only_refl orders_only_trans by blast
  obtain required t s where l: "oi_order_type (sq_intent sq) = ''limit''" "so_required out0 = Some required"
    "orders_only (w_store v) s" "lock_written amb sq cfg required t amount s (w_store w0)"
    using attempt_locks [OF id fl last(1) o0(1)] by blast
  have w': "w' = w0" using fin fill_accepted_limit [OF l(1)] by simp
  have "so_required out = Some required" using l(2) o0(2) by simp
  then show ?thesis using that [OF cfg [symmetric]] orders_only_trans [OF last(2) l(3)] l(4) unfolding w' by blast
qed


end
