(* ===== verification/Money.thy ===== *)
theory Money
  imports Py_Values
begin

text \<open>
  \<open>backend/marketplace/money.py\<close>: amounts are integers of the currency's minor unit. The 90/10
  split, the listing's charged amount, and the two boundary conversions between minor units
  and major-unit decimals.
\<close>

text \<open>\<open>DecimalSignal\<close> is an exception of the \<open>decimal\<close> module that the code does not catch.\<close>

datatype money_error = InvalidAmount | UnsupportedCurrency | DecimalSignal

definition MINOR_UNIT_EXPONENT :: "string \<rightharpoonup> int" where
  "MINOR_UNIT_EXPONENT = [''USD'' \<mapsto> 2, ''INR'' \<mapsto> 2]"

definition OWNER_SHARE_PERCENT :: int where
  "OWNER_SHARE_PERCENT = 90"

definition MAX_AMOUNT_MINOR :: int where
  "MAX_AMOUNT_MINOR = 99999999999"

definition CONVERSION_PRECISION :: nat where
  "CONVERSION_PRECISION = 28"

text \<open>\<open>_assert_integral\<close>: a true \<open>int\<close>; a \<open>bool\<close>, a \<open>float\<close> and a \<open>Decimal\<close> are refused.\<close>

definition assert_integral :: "pyval \<Rightarrow> money_error + int" where
  "assert_integral v = (case v of PyInt n \<Rightarrow> Inr n | _ \<Rightarrow> Inl InvalidAmount)"

definition assert_admissible_amount :: "pyval \<Rightarrow> money_error + int" where
  "assert_admissible_amount v =
     bnd (assert_integral v) (\<lambda>n.
       if n < 0 \<or> n > MAX_AMOUNT_MINOR then Inl InvalidAmount else Inr n)"

definition split_ninety_ten :: "pyval \<Rightarrow> money_error + (int \<times> int)" where
  "split_ninety_ten v =
     bnd (assert_admissible_amount v) (\<lambda>amount_minor.
       let owner_share = (amount_minor * OWNER_SHARE_PERCENT) div 100;
           platform_fee = amount_minor - owner_share
       in Inr (owner_share, platform_fee))"

text \<open>A listing row: a missing key and a missing attribute are both refused alike.\<close>

definition amount_for_listing :: "(string \<rightharpoonup> pyval) \<Rightarrow> money_error + int" where
  "amount_for_listing row =
     (case row ''price_minor'' of
        None \<Rightarrow> Inl InvalidAmount
      | Some v \<Rightarrow> if v = PyNone then Inl InvalidAmount else assert_admissible_amount v)"

definition minor_unit_exponent :: "pyval \<Rightarrow> money_error + int" where
  "minor_unit_exponent currency =
     (case currency of
        PyStr s \<Rightarrow> (case MINOR_UNIT_EXPONENT s of None \<Rightarrow> Inl UnsupportedCurrency | Some e \<Rightarrow> Inr e)
      | _ \<Rightarrow> Inl UnsupportedCurrency)"

definition money_quantum :: "int \<Rightarrow> decimal" where
  "money_quantum e = dec_scaleb CONVERSION_PRECISION (dec_of_int 1) (- e)"

definition to_major :: "pyval \<Rightarrow> pyval \<Rightarrow> money_error + decimal" where
  "to_major amount currency =
     bnd (minor_unit_exponent currency) (\<lambda>e.
     bnd (assert_integral amount) (\<lambda>n.
       if \<bar>n\<bar> > MAX_AMOUNT_MINOR then Inl InvalidAmount
       else case dec_quantize CONVERSION_PRECISION ROUND_HALF_EVEN (dexp (money_quantum e))
              (dec_scaleb CONVERSION_PRECISION (dec_of_int n) (- e)) of
              None \<Rightarrow> Inl DecimalSignal
            | Some d \<Rightarrow> Inr d))"

definition from_major_string :: "pyval \<Rightarrow> pyval \<Rightarrow> money_error + int" where
  "from_major_string v currency =
     bnd (minor_unit_exponent currency) (\<lambda>e.
     case v of
       PyStr text \<Rightarrow>
         (case parse_decimal (py_strip text) of
            None \<Rightarrow> Inl InvalidAmount
          | Some NonFinite \<Rightarrow> Inl InvalidAmount
          | Some (Fin major) \<Rightarrow>
              let decimal_places = - dexp major in
              if decimal_places > e then Inl InvalidAmount
              else
                let scaled = dec_scaleb CONVERSION_PRECISION major e in
                if \<not> dec_is_integral scaled then Inl InvalidAmount
                else
                  let amount_minor = dec_to_int scaled in
                  if \<bar>amount_minor\<bar> > MAX_AMOUNT_MINOR then Inl InvalidAmount else Inr amount_minor)
     | _ \<Rightarrow> Inl InvalidAmount)"

section \<open>Facts the properties rest on\<close>

lemma assert_integral_Inr [result_simps]: "assert_integral v = Inr n \<longleftrightarrow> v = PyInt n"
  by (cases v) (auto simp: assert_integral_def)

lemma assert_admissible_Inr [result_simps]:
  "assert_admissible_amount v = Inr n \<longleftrightarrow> v = PyInt n \<and> 0 \<le> n \<and> n \<le> MAX_AMOUNT_MINOR"
  by (auto simp: assert_admissible_amount_def result_simps not_less)

lemma minor_unit_exponent_Inr [result_simps]:
  "minor_unit_exponent c = Inr e \<longleftrightarrow> e = 2 \<and> (c = PyStr ''USD'' \<or> c = PyStr ''INR'')"
  by (cases c) (auto simp: minor_unit_exponent_def MINOR_UNIT_EXPONENT_def split: if_splits)

lemma minor_unit_fits: "\<bar>n\<bar> \<le> MAX_AMOUNT_MINOR \<Longrightarrow> fits CONVERSION_PRECISION n"
  by (simp add: MAX_AMOUNT_MINOR_def CONVERSION_PRECISION_def fits_def)

lemma conversion_precision_pos [simp]: "0 < CONVERSION_PRECISION"
  by (simp add: CONVERSION_PRECISION_def)

lemma money_quantum_exp: "dexp (money_quantum e) = - e"
  by (simp add: money_quantum_def dec_scaleb_def dec_of_int_def dec_fix_fits fits_def
      CONVERSION_PRECISION_def)

lemma to_major_eq:
  "minor_unit_exponent c = Inr e \<Longrightarrow> \<bar>n\<bar> \<le> MAX_AMOUNT_MINOR \<Longrightarrow>
    to_major (PyInt n) c = Inr (Dec n (- e))"
  by (simp add: to_major_def assert_integral_def money_quantum_exp dec_scaleb_def dec_of_int_def
      dec_fix_fits minor_unit_fits dec_quantize_idem)

lemma dec_to_int_nonneg_exp: "0 \<le> dexp d \<Longrightarrow> dval d = of_int (dec_to_int d)"
  by (simp add: dval_def dec_to_int_def power_int_def)

text \<open>An amount too wide for the conversion context is out of range after its rounding as well.\<close>

lemma wide_amount_out_of_range:
  assumes e: "0 \<le> e" and wide: "\<not> fits CONVERSION_PRECISION c"
  shows "0 \<le> dexp (dec_fix CONVERSION_PRECISION (Dec c e)) \<and>
    MAX_AMOUNT_MINOR < \<bar>dec_to_int (dec_fix CONVERSION_PRECISION (Dec c e))\<bar>"
proof -
  define x where "x = dec_fix CONVERSION_PRECISION (Dec c e)"
  have exp: "0 \<le> dexp x" using e by (simp add: x_def dec_fix_def Let_def)
  have big: "10 ^ 28 \<le> \<bar>c\<bar>" using wide by (simp add: fits_def CONVERSION_PRECISION_def)
  have grow: "(10::rat) ^ 28 \<le> \<bar>dval (Dec c e)\<bar>"
  proof -
    have "(10::rat) ^ 28 * 1 \<le> of_int \<bar>c\<bar> * 10 powi e"
      using big e by (intro mult_mono) (simp_all add: power_int_def flip: of_int_abs)
    then show ?thesis by (simp add: dval_Dec abs_mult)
  qed
  have one: "dval (Dec 1 28) = 10 ^ 28" and mone: "dval (Dec (- 1) 28) = - (10 ^ 28)"
    by (simp_all add: dval_Dec power_int_def)
  have "(10::rat) ^ 28 \<le> \<bar>dval x\<bar>"
  proof (cases "0 \<le> dval (Dec c e)")
    case True
    then have "dval (Dec 1 28) \<le> dval (Dec c e)" using grow one by simp
    then have "dval (Dec 1 28) \<le> dval x"
      unfolding x_def by (rule dec_fix_ge [rotated]) (simp_all add: fits_def CONVERSION_PRECISION_def)
    then show ?thesis using one by linarith
  next
    case False
    then have "dval (Dec c e) \<le> dval (Dec (- 1) 28)" using grow mone by linarith
    then have "dval x \<le> dval (Dec (- 1) 28)"
      unfolding x_def by (rule dec_fix_le [rotated]) (simp_all add: fits_def CONVERSION_PRECISION_def)
    then show ?thesis using mone by linarith
  qed
  then have "(10::rat) ^ 28 \<le> of_int \<bar>dec_to_int x\<bar>"
    using dec_to_int_nonneg_exp [OF exp] by simp
  then have "10 ^ 28 \<le> \<bar>dec_to_int x\<bar>"
    by (metis of_int_le_iff of_int_numeral of_int_power)
  then show ?thesis using exp by (simp add: x_def [symmetric] MAX_AMOUNT_MINOR_def)
qed

text \<open>Ingestion, for a text that denotes a finite decimal.\<close>

lemma from_major_finite:
  assumes parsed: "parse_decimal (py_strip s) = Some (Fin d)" and cur: "minor_unit_exponent c = Inr e"
  shows "from_major_string (PyStr s) c = Inr n \<longleftrightarrow>
    - dexp d \<le> e \<and> of_int n = dval d * 10 powi e \<and> \<bar>n\<bar> \<le> MAX_AMOUNT_MINOR"
proof (cases "- dexp d \<le> e")
  case False
  then show ?thesis by (simp add: from_major_string_def parsed cur Let_def)
next
  case True
  define x where "x = dec_fix CONVERSION_PRECISION (Dec (dcoeff d) (dexp d + e))"
  have val: "dval (Dec (dcoeff d) (dexp d + e)) = dval d * 10 powi e"
    by (simp add: dval_def power_int_add)
  have run: "from_major_string (PyStr s) c =
      (if \<not> dec_is_integral x then Inl InvalidAmount
       else if \<bar>dec_to_int x\<bar> > MAX_AMOUNT_MINOR then Inl InvalidAmount else Inr (dec_to_int x))"
    using True by (simp add: from_major_string_def parsed cur Let_def dec_scaleb_def x_def)
  show ?thesis
  proof (cases "fits CONVERSION_PRECISION (dcoeff d)")
    case fit: True
    then have x: "x = Dec (dcoeff d) (dexp d + e)" by (simp add: x_def dec_fix_fits)
    have "dec_is_integral x" using True by (simp add: x dec_is_integral_def)
    moreover have "of_int (dec_to_int x) = dval d * 10 powi e"
      using dec_to_int_nonneg_exp [of x] val True by (simp add: x)
    ultimately show ?thesis using True by (auto simp: run not_less)
  next
    case wide: False
    have out: "MAX_AMOUNT_MINOR < \<bar>dec_to_int x\<bar>"
      using wide_amount_out_of_range [OF _ wide] True by (simp add: x_def)
    have "MAX_AMOUNT_MINOR < \<bar>n\<bar>" if "of_int n = dval d * 10 powi e"
    proof -
      have "(10::rat) ^ 28 * 1 \<le> of_int \<bar>dcoeff d\<bar> * 10 powi (dexp d + e)"
        using wide True by (intro mult_mono)
          (simp_all add: power_int_def fits_def CONVERSION_PRECISION_def flip: of_int_abs)
      moreover have "of_int \<bar>n\<bar> = of_int \<bar>dcoeff d\<bar> * (10::rat) powi (dexp d + e)"
        using that unfolding val [unfolded dval_Dec, symmetric]
        by (simp add: abs_mult)
      ultimately have "(10::rat) ^ 28 \<le> of_int \<bar>n\<bar>" by simp
      then have "10 ^ 28 \<le> \<bar>n\<bar>" by (metis of_int_le_iff of_int_numeral of_int_power)
      then show ?thesis by (simp add: MAX_AMOUNT_MINOR_def)
    qed
    then show ?thesis using out by (auto simp: run)
  qed
qed

section \<open>Properties\<close>

text \<open>
  C39: the split of a charge returns exactly for the admissible integer amounts,
  conserves the amount, is never negative, and gives the owner the whole part of ninety percent:
  the remainder of a cent goes to the platform.
\<close>

theorem split_conserves:
  "(split_ninety_ten v = Inr (owner, fee)) \<longleftrightarrow>
    (\<exists>n. v = PyInt n \<and> 0 \<le> n \<and> n \<le> MAX_AMOUNT_MINOR \<and> owner + fee = n \<and> 0 \<le> owner \<and> 0 \<le> fee \<and>
       100 * owner \<le> 90 * n \<and> 90 * n < 100 * owner + 100)"
proof
  assume "split_ninety_ten v = Inr (owner, fee)"
  then show "\<exists>n. v = PyInt n \<and> 0 \<le> n \<and> n \<le> MAX_AMOUNT_MINOR \<and> owner + fee = n \<and> 0 \<le> owner \<and>
      0 \<le> fee \<and> 100 * owner \<le> 90 * n \<and> 90 * n < 100 * owner + 100"
    by (auto simp: split_ninety_ten_def result_simps OWNER_SHARE_PERCENT_def Let_def)
next
  assume "\<exists>n. v = PyInt n \<and> 0 \<le> n \<and> n \<le> MAX_AMOUNT_MINOR \<and> owner + fee = n \<and> 0 \<le> owner \<and>
      0 \<le> fee \<and> 100 * owner \<le> 90 * n \<and> 90 * n < 100 * owner + 100"
  then obtain n where n: "v = PyInt n" "0 \<le> n" "n \<le> MAX_AMOUNT_MINOR" "owner + fee = n"
    "100 * owner \<le> 90 * n" "90 * n < 100 * owner + 100" by blast
  then have "n * 90 div 100 = owner" by linarith
  then show "split_ninety_ten v = Inr (owner, fee)"
    using n by (simp add: split_ninety_ten_def assert_admissible_amount_def assert_integral_def
        OWNER_SHARE_PERCENT_def Let_def)
qed

text \<open>
  An amount converted to major units, printed and read back is the same
  amount, for every amount the module admits, refunds included.
\<close>

theorem minor_units_roundtrip:
  assumes cur: "minor_unit_exponent c = Inr e" and n: "\<bar>n\<bar> \<le> MAX_AMOUNT_MINOR"
  shows "\<exists>d. to_major (PyInt n) c = Inr d \<and> dval d * 100 = of_int n \<and>
    from_major_string (PyStr (dec_str d)) c = Inr n"
proof -
  have e: "e = 2" using cur by (simp add: minor_unit_exponent_Inr)
  define d where "d = Dec n (- 2)"
  have run: "to_major (PyInt n) c = Inr d" using to_major_eq [OF cur n] by (simp add: d_def e)
  have ne: "int_digits \<bar>dcoeff d\<bar> \<noteq> []" by (subst int_digits.simps) simp
  have shape: "dexp d \<le> 0" "- 6 < dexp d + int (length (int_digits \<bar>dcoeff d\<bar>))"
    using ne by (cases "int_digits \<bar>dcoeff d\<bar>"; simp add: d_def)+
  note parse = parse_decimal_str(1) [OF shape] and strip = parse_decimal_str(2) [OF shape]
  have val: "dval d * 100 = of_int n" by (simp add: d_def dval_Dec power_int_def power_divide)
  have "from_major_string (PyStr (dec_str d)) c = Inr n"
    using n val parse strip from_major_finite [OF _ cur, of "dec_str d" d n]
    by (simp add: e d_def)
  then show ?thesis using run val by blast
qed

theorem minor_units_roundtrip_witness:
  "\<exists>d. to_major (PyInt (- 1995)) (PyStr ''USD'') = Inr d \<and> dval d * 100 = of_int (- 1995) \<and>
    from_major_string (PyStr (dec_str d)) (PyStr ''USD'') = Inr (- 1995)"
  by (rule minor_units_roundtrip [of _ 2]) (simp_all add: minor_unit_exponent_Inr MAX_AMOUNT_MINOR_def)

text \<open>
  Reading a major-unit text returns an amount exactly when the text denotes
  a decimal with no more places than the currency has, and the amount is that decimal in minor
  units, within the bound: nothing is ever rounded or truncated.
\<close>

theorem from_major_exact:
  assumes parsed: "parse_decimal (py_strip s) = Some (Fin d)" and cur: "minor_unit_exponent c = Inr e"
  shows "from_major_string (PyStr s) c = Inr n \<longleftrightarrow>
    - dexp d \<le> e \<and> of_int n = dval d * 10 powi e \<and> \<bar>n\<bar> \<le> MAX_AMOUNT_MINOR"
  by (rule from_major_finite [OF parsed cur])

theorem from_major_exact_witness:
  "from_major_string (PyStr '' 19.95'') (PyStr ''USD'') = Inr 1995 \<and>
    from_major_string (PyStr ''19.955'') (PyStr ''USD'') \<noteq> Inr 1995"
proof -
  have "parse_decimal (py_strip '' 19.95'') = Some (Fin (Dec 1995 (- 2)))"
    and "parse_decimal (py_strip ''19.955'') = Some (Fin (Dec 19955 (- 3)))"
    by code_simp+
  moreover have "minor_unit_exponent (PyStr ''USD'') = Inr 2" by (simp add: minor_unit_exponent_Inr)
  ultimately show ?thesis
    using from_major_exact [of "'' 19.95''" "Dec 1995 (- 2)" "PyStr ''USD''" 2 1995]
      from_major_exact [of "''19.955''" "Dec 19955 (- 3)" "PyStr ''USD''" 2 1995]
    by (simp add: dval_Dec MAX_AMOUNT_MINOR_def power_int_def power_divide)
qed

end
