(* ===== verification/Sim_Start.thy ===== *)
theory Sim_Start
  imports Sim_Intent Money
begin

text \<open>
  What \<open>backend/paper/paper_simulator.py\<close> does before a session starts: it refuses a forbidden
  simulator, reads the venue's market map, and freezes the configuration.
\<close>

section \<open>The simulator guard\<close>

text \<open>A candidate: its own \<open>__module__\<close> and \<open>__qualname__\<close>, and those of its type.\<close>

record candidate =
  cd_module :: "string option"
  cd_qualname :: "string option"
  cd_type_module :: "string option"
  cd_type_qualname :: "string option"

definition or_else :: "'a option \<Rightarrow> 'a option \<Rightarrow> 'a option" where
  "or_else a b = (case a of Some x \<Rightarrow> Some x | None \<Rightarrow> b)"

definition simulator_identity :: "candidate \<Rightarrow> sim_error + (string \<times> string)" where
  "simulator_identity c =
     (case (or_else (cd_module c) (cd_type_module c), or_else (cd_qualname c) (cd_type_qualname c)) of
        (Some m, Some q) \<Rightarrow> if m = [] \<or> q = [] then Inl SimulatorMisconfigured else Inr (m, q)
      | _ \<Rightarrow> Inl SimulatorMisconfigured)"

definition assert_paper_simulator :: "candidate \<Rightarrow> sim_error + (string \<times> string)" where
  "assert_paper_simulator c =
     bnd (simulator_identity c) (\<lambda>i.
       if i \<in> set FORBIDDEN_SIMULATORS then Inl SimulatorMisconfigured else Inr i)"

section \<open>The venue's market map\<close>

text \<open>A value of the market map: a figure, or a mapping.\<close>

datatype market_value = Figure figure | Entries "(string \<times> market_value) list"

definition entry_get :: "(string, market_value) dict \<Rightarrow> string \<Rightarrow> market_value" where
  "entry_get m k = (case dget m k of None \<Rightarrow> Figure (OtherFigure PyNone) | Some v \<Rightarrow> v)"

definition market_truthy :: "market_value \<Rightarrow> bool" where
  "market_truthy v =
     (case v of
        Entries m \<Rightarrow> m \<noteq> []
      | Figure (OtherFigure p) \<Rightarrow> py_truthy p
      | Figure (FloatFigure s) \<Rightarrow> (case parse_decimal s of Some (Fin d) \<Rightarrow> dcoeff d \<noteq> 0 | _ \<Rightarrow> True))"

definition as_entries :: "market_value \<Rightarrow> (string, market_value) dict" where
  "as_entries v = (case v of Entries m \<Rightarrow> m | Figure _ \<Rightarrow> [])"

definition as_figure :: "market_value \<Rightarrow> figure" where
  "as_figure v = (case v of Figure f \<Rightarrow> f | Entries _ \<Rightarrow> OtherFigure PyOther)"

definition market_str :: "(market_value \<Rightarrow> string) \<Rightarrow> market_value \<Rightarrow> string" where
  "market_str text_of v = (case v of Figure (OtherFigure (PyStr s)) \<Rightarrow> s | _ \<Rightarrow> text_of v)"

definition SUPPORTED_MARKET_TYPES :: "string list" where
  "SUPPORTED_MARKET_TYPES = [''spot'', ''swap'', ''future'']"

record market_metadata =
  md_exchange :: string
  md_symbol :: string
  md_market_type :: string
  md_price_precision :: nat
  md_quantity_precision :: nat
  md_max_quantity :: decimal

text \<open>The type of a market: stated, or the first flag that is \<open>True\<close>.\<close>

definition market_type_of :: "(market_value \<Rightarrow> string) \<Rightarrow> (string, market_value) dict \<Rightarrow> string" where
  "market_type_of text_of e =
     (let stated = entry_get e ''type''
      in if market_truthy stated then py_lower (py_strip (market_str text_of stated))
         else
           case find (\<lambda>flag. entry_get e flag = Figure (OtherFigure (PyBool True))) SUPPORTED_MARKET_TYPES of
             Some flag \<Rightarrow> py_lower (py_strip flag)
           | None \<Rightarrow> [])"

definition read_market ::
  "(market_value \<Rightarrow> string) \<Rightarrow> nat \<Rightarrow> market_value \<Rightarrow> string \<Rightarrow> string option \<Rightarrow> string option \<Rightarrow>
    sim_error + market_metadata" where
  "read_market text_of amb entry exchange symbol mode =
     (case entry of
        Figure _ \<Rightarrow> Inl (MetadataUnavailable ''SYMBOL_NOT_LISTED'')
      | Entries e \<Rightarrow>
          let own = entry_get e ''symbol''
          in case (if market_truthy own then Some (market_str text_of own) else symbol) of
               None \<Rightarrow> Inl (MetadataUnavailable ''SYMBOL_NOT_LISTED'')
             | Some listed \<Rightarrow>
                 if \<not> market_truthy own \<and> listed = [] then Inl (MetadataUnavailable ''SYMBOL_NOT_LISTED'')
                 else
                   let mt = market_type_of text_of e;
                       precision = as_entries (entry_get e ''precision'');
                       amount = as_entries (entry_get (as_entries (entry_get e ''limits'')) ''amount'')
                   in if mt \<notin> set SUPPORTED_MARKET_TYPES then Inl (MetadataUnavailable ''MARKET_TYPE_UNSUPPORTED'')
                      else
                        bnd (figure_places amb mode (as_figure (entry_get precision ''price''))) (\<lambda>pp.
                        bnd (figure_places amb mode (as_figure (entry_get precision ''amount''))) (\<lambda>qp.
                        bnd (positive_figure (as_figure (entry_get amount ''max''))) (\<lambda>mx.
                          Inr \<lparr>md_exchange = exchange, md_symbol = listed, md_market_type = mt,
                            md_price_precision = pp, md_quantity_precision = qp, md_max_quantity = mx\<rparr>))))"

definition resolve_market_metadata ::
  "(market_value \<Rightarrow> string) \<Rightarrow> nat \<Rightarrow> market_value \<Rightarrow> string \<Rightarrow> string \<Rightarrow> string option \<Rightarrow>
    sim_error + market_metadata" where
  "resolve_market_metadata text_of amb markets exchange symbol mode =
     (if as_entries markets = [] then Inl (MetadataUnavailable ''MARKET_METADATA_UNAVAILABLE'')
      else
        let entry = entry_get (as_entries markets) symbol
        in if entry = Figure (OtherFigure PyNone) then Inl (MetadataUnavailable ''SYMBOL_NOT_LISTED'')
           else read_market text_of amb entry exchange (Some symbol) mode)"

section \<open>Freezing the configuration\<close>

definition SIMULATOR_NAME :: string where
  "SIMULATOR_NAME = ''backend_app.backend.paper.paper_simulator.PaperSimulator''"

definition DEFAULT_FEE_RATE :: decimal where
  "DEFAULT_FEE_RATE = Dec 10 (- 4)"

definition DEFAULT_SLIPPAGE_RATE :: decimal where
  "DEFAULT_SLIPPAGE_RATE = Dec 5 (- 4)"

definition DEFAULT_PARTICIPATION_RATE :: decimal where
  "DEFAULT_PARTICIPATION_RATE = Dec 10 (- 2)"

record freeze_args =
  fz_currency :: pyval
  fz_source :: pyval
  fz_fee_rate :: pyval
  fz_slippage_rate :: pyval
  fz_participation_rate :: pyval
  fz_rounding_mode :: pyval
  fz_cost_basis :: pyval
  fz_symbols :: "conf_value option"
  fz_simulator :: "candidate option"

definition frozen_args ::
  "market_metadata \<Rightarrow> freeze_args \<Rightarrow> int \<Rightarrow> string \<Rightarrow> string list \<Rightarrow> session_args" where
  "frozen_args md a exponent name symbols =
     \<lparr>sa_fee_rate = fz_fee_rate a, sa_slippage_rate = fz_slippage_rate a,
      sa_participation_rate = fz_participation_rate a, sa_rounding_mode = fz_rounding_mode a,
      sa_cost_basis = fz_cost_basis a, sa_price_precision = PyInt (int (md_price_precision md)),
      sa_quantity_precision = PyInt (int (md_quantity_precision md)),
      sa_minor_unit_exponent = PyInt exponent, sa_max_order_quantity = D (md_max_quantity md),
      sa_order_types = Items (map PyStr SUPPORTED_ORDER_TYPES),
      sa_sides = Items (map PyStr SUPPORTED_SIDES), sa_symbols = Items (map PyStr symbols),
      sa_market_data_source = fz_source a, sa_simulator = PyStr name,
      sa_schema_version = PyStr SCHEMA_VERSION\<rparr>"

definition freeze_session_config ::
  "market_metadata option \<Rightarrow> freeze_args \<Rightarrow> sim_error + session_config" where
  "freeze_session_config metadata a =
     (case metadata of
        None \<Rightarrow> Inl InvalidSessionConfig
      | Some md \<Rightarrow>
          bnd (as_error InvalidSessionConfig (minor_unit_exponent (fz_currency a))) (\<lambda>exponent.
          bnd (case fz_simulator a of
                 None \<Rightarrow> Inr SIMULATOR_NAME
               | Some c \<Rightarrow> bnd (assert_paper_simulator c) (\<lambda>(m, q). Inr (m @ ''.'' @ q))) (\<lambda>name.
          bnd (case fz_symbols a of
                 None \<Rightarrow> Inr [md_symbol md]
               | Some v \<Rightarrow> bnd (texts v) (\<lambda>ts.
                   if md_symbol md \<in> set ts then Inr ts else Inl InvalidSessionConfig)) (\<lambda>symbols.
            make_session_config (frozen_args md a exponent name symbols)))))"

section \<open>What is frozen\<close>

lemma texts_of_plain: "texts (Items (map PyStr ts)) = Inr us \<Longrightarrow> us = map py_strip ts"
proof -
  have "foldm collect_text acc (map PyStr ts) = Inr us \<Longrightarrow> us = acc @ map py_strip ts" for acc
    by (induction ts arbitrary: acc) (fastforce simp: result_simps collect_text_def split: if_splits)+
  then show "texts (Items (map PyStr ts)) = Inr us \<Longrightarrow> us = map py_strip ts"
    by (fastforce simp: texts_def)
qed

lemma texts_strip: "texts v = Inr ts \<Longrightarrow> map py_strip ts = ts"
  using texts_Inr [of v ts] by (simp add: text_ok_def map_idI)

text \<open>
  C33: a frozen configuration is well typed, has an accounting configuration, and records
  the figures of the venue: the price and quantity places and the largest order are those of the
  metadata, the symbol they were read for is among the validated ones, the minor unit is that of
  the currency, and the simulator is none of the forbidden ones.
\<close>

theorem frozen_config_typed:
  assumes "freeze_session_config (Some md) a = Inr c"
  shows "session_ok c \<and> sc_accounting c = Inr (accounting_of c) \<and>
    sc_price_precision c = md_price_precision md \<and> sc_quantity_precision c = md_quantity_precision md \<and>
    sc_max_order_quantity c = md_max_quantity md \<and> py_strip (md_symbol md) \<in> set (sc_symbols c) \<and>
    minor_unit_exponent (fz_currency a) = Inr (int (sc_minor_unit_exponent c)) \<and>
    sc_simulator c \<notin> set forbidden_simulator_names"
proof -
  from assms obtain e name symbols where e: "minor_unit_exponent (fz_currency a) = Inr e"
    and mem: "md_symbol md \<in> set symbols"
    and mk: "make_session_config (frozen_args md a e name symbols) = Inr c"
    by (auto simp: freeze_session_config_def bnd_Inr_iff as_error_Inr if_Inl_Inr_iff
        split: option.splits if_splits; metis list.set_intros(1))
  have ok: "session_ok c" by (rule make_session_config_ok [OF mk])
  have "0 \<le> e" using e by (auto simp: result_simps)
  have figs: "precision_value (PyInt (int (md_price_precision md))) = Inr (sc_price_precision c)"
    "precision_value (PyInt (int (md_quantity_precision md))) = Inr (sc_quantity_precision c)"
    "precision_value (PyInt e) = Inr (sc_minor_unit_exponent c)"
    "exact_value (D (md_max_quantity md)) = Inr (sc_max_order_quantity c)"
    "texts (Items (map PyStr symbols)) = Inr (sc_symbols c)"
    using mk unfolding make_session_config_def frozen_args_def
    by (auto simp only: bnd_Inr_iff if_Inl_Inr_iff session_args.simps session_config.simps sum.inject)
  have "py_strip (md_symbol md) \<in> set (sc_symbols c)"
    using texts_of_plain [OF figs(5)] mem by simp
  moreover have "sc_price_precision c = md_price_precision md" "sc_quantity_precision c = md_quantity_precision md"
    "int (sc_minor_unit_exponent c) = e" "sc_max_order_quantity c = md_max_quantity md"
    using figs(1-4) \<open>0 \<le> e\<close> by (auto simp: precision_value_def exact_value_def split: if_splits)
  ultimately show ?thesis using ok sc_accounting_eq [OF ok] e by (simp add: session_ok_def)
qed

text \<open>
  Read as a tick size, a precision figure within the ambient precision gives exactly the
  fewest decimal places that hold the tick, and at most ten.
\<close>

theorem tick_places_least:
  assumes "0 < amb" and "figure_decimal v = Some tick" and "fits amb (dcoeff tick)"
    and "figure_places amb (Some ''TICK_SIZE'') v = Inr k"
  shows "on_places j tick = (k \<le> j) \<and> k \<le> MAX_RECORDED_PRECISION \<and> 0 < dval tick"
proof -
  have ts: "py_upper (py_strip ''TICK_SIZE'') = ''TICK_SIZE''" by code_simp
  have "k = decimal_places amb tick" "k \<le> MAX_RECORDED_PRECISION" "0 < dval tick"
    using assms(2,4) by (auto simp: figure_places_def mode_places_def ts places_of_tick_def decimal_places_def
        dec_le_val not_le split: if_splits option.splits bind_splits)
  then show ?thesis using decimal_places_le [OF assms(1,3), of j] by (simp add: on_places_def)
qed

end
