(* ===== verification/Sim_Example.thy ===== *)
theory Sim_Example
  imports Sim_Prices Sim_Start
begin

text \<open>
  One paper session of the simulator, evaluated: a configuration as a venue supplies it, two
  spellings of one order, and a market price. It also records two readings that the code accepts
  and its comments rule out.
\<close>

section \<open>The session and its orders\<close>

definition sim_args :: session_args where
  "sim_args = \<lparr>sa_fee_rate = PyStr ''0.001'', sa_slippage_rate = PyStr ''0.0005'',
     sa_participation_rate = PyStr ''0.1'', sa_rounding_mode = PyStr ''ROUND_HALF_EVEN'',
     sa_cost_basis = PyStr ''WEIGHTED_AVERAGE'', sa_price_precision = PyInt 2,
     sa_quantity_precision = PyInt 4, sa_minor_unit_exponent = PyInt 2,
     sa_max_order_quantity = PyStr ''1E+3'', sa_order_types = Items [PyStr ''market'', PyStr '' limit''],
     sa_sides = Items [PyStr ''buy'', PyStr ''sell''], sa_symbols = Items [PyStr ''BTC/USDT''],
     sa_market_data_source = PyStr '' feed '', sa_simulator = PyStr ''paper'',
     sa_schema_version = PyStr ''paper.v1''\<rparr>"

definition sim_config :: session_config where
  "sim_config = \<lparr>sc_fee_rate = Dec 1 (- 3), sc_slippage_rate = Dec 5 (- 4),
     sc_participation_rate = Dec 1 (- 1), sc_rounding_mode = ROUND_HALF_EVEN,
     sc_cost_basis = WEIGHTED_AVERAGE, sc_price_precision = 2, sc_quantity_precision = 4,
     sc_minor_unit_exponent = 2, sc_max_order_quantity = Dec 1 3,
     sc_order_types = [''market'', ''limit''], sc_sides = [''buy'', ''sell''],
     sc_symbols = [''BTC/USDT''], sc_market_data_source = ''feed'', sc_simulator = ''paper''\<rparr>"

definition sim_intent :: "decimal \<Rightarrow> decimal option \<Rightarrow> order_intent" where
  "sim_intent q p = \<lparr>oi_symbol = ''BTC/USDT'', oi_side = ''buy'', oi_order_type = ''limit'', oi_quantity = q,
     oi_limit_price = p, oi_time_in_force = ''GTC'', oi_idempotency_key = None, oi_signal_id = None\<rparr>"

lemma sim_args_config: "make_session_config sim_args = Inr sim_config"
  by code_simp

lemma sim_config_ok: "session_ok sim_config"
  by (rule make_session_config_ok [OF sim_args_config])

theorem session_config_roundtrip_witness:
  "session_config_from_jsonb (\<lambda>v. []) (Some (to_jsonb sim_config)) = Inr sim_config \<and>
    dget (to_jsonb sim_config) ''max_order_quantity'' = Some (Scalar (PyStr ''1E+3''))"
proof -
  have "dget (to_jsonb sim_config) ''max_order_quantity'' = Some (Scalar (PyStr ''1E+3''))" by code_simp
  then show ?thesis using session_config_roundtrip [OF sim_args_config] by blast
qed

lemma sim_intent_fits: "intent_fits 28 (sim_intent (Dec 15 (- 1)) (Some (Dec 10000 (- 2))))"
    "intent_fits 28 (sim_intent (Dec 1500 (- 3)) (Some (Dec 1 2)))"
    "intent_fits 28 (sim_intent (Dec 150001 (- 5)) (Some (Dec 0 0)))"
  by code_simp+




section \<open>Readings the comments rule out\<close>

text \<open>
  A stored configuration whose symbols are one string instead of a list is read: the string is
  turned into a tuple of its characters before the check that refuses a string.
\<close>

definition bare_symbols :: "(string, conf_value) dict" where
  "bare_symbols = dset ''validated_symbols'' (Scalar (PyStr ''BTC'')) (to_jsonb sim_config)"

theorem string_symbols_split:
  "session_config_from_jsonb (\<lambda>v. []) (Some bare_symbols) =
      Inr (sim_config\<lparr>sc_symbols := [''B'', ''T'', ''C'']\<rparr>) \<and>
    texts (Scalar (PyStr ''BTC'')) = Inl InvalidSessionConfig"
proof -
  have "session_config_from_jsonb (\<lambda>v. []) (Some bare_symbols) =
      Inr (sim_config\<lparr>sc_symbols := [''B'', ''T'', ''C'']\<rparr>)" by code_simp
  then show ?thesis by (simp add: texts_def)
qed

text \<open>
  The decimal places of a quantity are counted after it is rounded to the ambient precision, so a
  quantity of 32 digits with 31 places passes the check for four places.
\<close>

definition long_quantity :: decimal where
  "long_quantity = Dec 10000000000000000000000000000001 (- 31)"

theorem long_quantity_accepted:
  "static_rejection_reason 28 (sim_intent long_quantity None) sim_config = None \<and>
    \<not> on_places (sc_quantity_precision sim_config) long_quantity"
proof
  show "static_rejection_reason 28 (sim_intent long_quantity None) sim_config = None" by code_simp
  have "decimal_places 34 long_quantity \<le> 4 \<longleftrightarrow> (\<exists>n::int. dval long_quantity * 10 ^ 4 = of_int n)"
    by (rule decimal_places_le) code_simp+
  moreover have "\<not> decimal_places 34 long_quantity \<le> 4" by code_simp
  ultimately show "\<not> on_places (sc_quantity_precision sim_config) long_quantity"
    by (simp add: on_places_def sim_config_def)
qed

section \<open>A venue and the frozen configuration\<close>

definition sim_markets :: market_value where
  "sim_markets = Entries [(''BTC/USDT'', Entries [(''spot'', Figure (OtherFigure (PyBool True))),
     (''precision'', Entries [(''price'', Figure (FloatFigure ''0.01'')), (''amount'', Figure (FloatFigure ''1e-4''))]),
     (''limits'', Entries [(''amount'', Entries [(''max'', Figure (OtherFigure (PyInt 1000)))])])])]"

definition sim_market :: market_metadata where
  "sim_market = \<lparr>md_exchange = ''venue'', md_symbol = ''BTC/USDT'', md_market_type = ''spot'',
     md_price_precision = 2, md_quantity_precision = 4, md_max_quantity = Dec 1000 0\<rparr>"

definition sim_freeze :: freeze_args where
  "sim_freeze = \<lparr>fz_currency = PyStr ''USD'', fz_source = PyStr ''feed'', fz_fee_rate = D DEFAULT_FEE_RATE,
     fz_slippage_rate = D DEFAULT_SLIPPAGE_RATE, fz_participation_rate = D DEFAULT_PARTICIPATION_RATE,
     fz_rounding_mode = PyStr ''ROUND_HALF_EVEN'', fz_cost_basis = PyStr ''WEIGHTED_AVERAGE'',
     fz_symbols = None, fz_simulator = None\<rparr>"

definition sim_frozen :: session_config where
  "sim_frozen = sim_config\<lparr>sc_fee_rate := DEFAULT_FEE_RATE, sc_participation_rate := DEFAULT_PARTICIPATION_RATE,
     sc_max_order_quantity := Dec 1000 0, sc_simulator := SIMULATOR_NAME\<rparr>"

theorem frozen_config_typed_witness:
  "resolve_market_metadata (\<lambda>v. []) 28 sim_markets ''venue'' ''BTC/USDT'' None = Inr sim_market \<and>
    freeze_session_config (Some sim_market) sim_freeze = Inr sim_frozen \<and>
    sc_price_precision sim_frozen = 2 \<and> sc_accounting sim_frozen = Inr (accounting_of sim_frozen)"
proof -
  have f: "freeze_session_config (Some sim_market) sim_freeze = Inr sim_frozen" by code_simp
  have "resolve_market_metadata (\<lambda>v. []) 28 sim_markets ''venue'' ''BTC/USDT'' None = Inr sim_market" by code_simp
  then show ?thesis using frozen_config_typed [OF f] f by (simp add: sim_market_def)
qed

theorem tick_places_least_witness:
  "figure_places 28 (Some ''TICK_SIZE'') (FloatFigure ''1e-4'') = Inr 4 \<and>
    on_places 4 (Dec 1 (- 4)) \<and> \<not> on_places 3 (Dec 1 (- 4))"
proof -
  have f: "figure_places 28 (Some ''TICK_SIZE'') (FloatFigure ''1e-4'') = Inr 4"
    "figure_decimal (FloatFigure ''1e-4'') = Some (Dec 1 (- 4))" "fits 28 (dcoeff (Dec 1 (- 4)))"
    by code_simp+
  then show ?thesis
    using tick_places_least [OF _ f(2,3,1), of 4] tick_places_least [OF _ f(2,3,1), of 3] by simp
qed

end
