(* ===== verification/Sim_Session_Example.thy ===== *)
theory Sim_Session_Example
  imports Sim_Laws Sim_Example
begin

text \<open>
  One session, evaluated: a market order filled in two parts, with another client's write between
  the reads and the commit of the first part.
\<close>

section \<open>The session\<close>

definition shop_account :: account_row where
  "shop_account = \<lparr>ac_user = ''u'', ac_money = \<lparr>acc_available = Dec 100000 (- 2), acc_locked = Dec 0 (- 2),
     acc_realized = Dec 0 (- 2), acc_total_equity = Dec 100000 (- 2), acc_currency = ''USD''\<rparr>,
     ac_version = 0, ac_price_at = None, ac_stale = False, ac_updated = 0\<rparr>"

definition shop_order :: order_row where
  "shop_order = \<lparr>ow_user = ''u'', ow_session = Some ''s'', ow_account = ''a'', ow_symbol = ''BTC/USDT'',
     ow_side = ''buy'', ow_type = ''market'', ow_quantity = Dec 15000000000 (- 10), ow_limit = None,
     ow_reference = None, ow_filled = Dec 0 (- 10), ow_avg = None, ow_fee = 0, ow_slippage = 0,
     ow_state = PO_ACCEPTED, ow_legacy = ''OPEN'', ow_reason = None, ow_key = None, ow_signal = None,
     ow_fingerprint = [], ow_created = 1\<rparr>"

definition shop :: store where
  "shop = \<lparr>st_accounts = [(''a'', shop_account)], st_orders = [(''x'', shop_order)], st_fills = [], st_ledger = [],
     st_positions = [], st_trades = [], st_snapshots = [], st_sessions = [(''s'', \<lparr>se_user = ''u'', se_feed = Some ''HEALTHY''\<rparr>)],
     st_count = 2\<rparr>"

text \<open>The other client: a write of the account, between the reads of the first attempt.\<close>

definition shop_bumped :: store where
  "shop_bumped = shop\<lparr>st_accounts := [(''a'', shop_account\<lparr>ac_money :=
     \<lparr>acc_available = Dec 10000000000000 (- 10), acc_locked = Dec 0 (- 10), acc_realized = Dec 0 (- 10),
      acc_total_equity = Dec 10000000000000 (- 10), acc_currency = ''USD''\<rparr>,
     ac_version := 1\<rparr>)]\<rparr>"

definition shop_env :: environment where
  "shop_env = \<lparr>en_act = (\<lambda>n s. if n = 4 \<and> s = shop then shop_bumped else s), en_fault = (\<lambda>n. None),
     en_id = (\<lambda>n. replicate n (CHR ''x'')), en_clock = int\<rparr>"

definition quiet_env :: environment where
  "quiet_env = shop_env\<lparr>en_act := \<lambda>n s. s\<rparr>"

definition shop_request :: "string \<Rightarrow> string \<Rightarrow> fill_request" where
  "shop_request event qty = \<lparr>rq_user = '' u'', rq_session = ''s'', rq_order = ''x'', rq_account = ''a'', rq_event = event,
     rq_quantity = PyStr qty, rq_price = PyStr ''100.10'', rq_at = 7, rq_reference = PyNone, rq_market = None,
     rq_release = PyNone, rq_series = 0\<rparr>"

definition shop_world :: "store \<Rightarrow> world" where
  "shop_world s = \<lparr>w_store = s, w_step = 0\<rparr>"

text \<open>What the first part leaves.\<close>

definition shop_after :: store where
  "shop_after =
     \<lparr>st_accounts = [(''a'', \<lparr>ac_user = ''u'', ac_money = \<lparr>acc_available = Dec
     9499000000000 (- 10), acc_locked = Dec 0 (- 10), acc_realized = Dec 0 (- 10), acc_total_equity = Dec
     9999500000000 (- 10), acc_currency = ''USD''\<rparr>, ac_version = 2, ac_price_at = Some 7, ac_stale =
     False, ac_updated = 0\<rparr>)], st_orders = [(''x'', \<lparr>ow_user = ''u'', ow_session = Some ''s'',
     ow_account = ''a'', ow_symbol = ''BTC/USDT'', ow_side = ''buy'', ow_type = ''market'', ow_quantity = Dec
     15000000000 (- 10), ow_limit = None, ow_reference = None, ow_filled = Dec 5000000000 (- 10), ow_avg =
     Some (Dec 1001000000000 (- 10)), ow_fee = 5, ow_slippage = 0, ow_state = PO_PARTIALLY_FILLED, ow_legacy =
     ''OPEN'', ow_reason = None, ow_key = None, ow_signal = None, ow_fingerprint = [], ow_created =
     1\<rparr>)], st_fills = [\<lparr>fl_id = ''xx'', fl_order = ''x'', fl_session = Some ''s'', fl_user =
     ''u'', fl_event = ''e1'', fl_quantity = Dec 5000000000 (- 10), fl_price = Dec 1001000000000 (- 10),
     fl_fee = 5, fl_slippage = 0, fl_market = None, fl_at = 7\<rparr>], st_ledger = [\<lparr>ld_session = Some
     ''s'', ld_account = ''a'', ld_user = ''u'', ld_cause = ''FILL'', ld_available_delta = Dec (-
     501000000000) (- 10), ld_locked_delta = Dec 0 (- 10), ld_realized_delta = Dec 0 (- 10), ld_available =
     Dec 9499000000000 (- 10), ld_locked = Dec 0 (- 10), ld_realized = Dec 0 (- 10), ld_fill = Some ''xx'',
     ld_at = 7\<rparr>], st_positions = [(''xxx'', \<lparr>pr_session = Some ''s'', pr_account = ''a'',
     pr_user = ''u'', pr_position = \<lparr>pos_symbol = ''BTC/USDT'', pos_side = ''LONG'', pos_size = Dec
     5000000000 (- 10), pos_entry_price = Dec 1001000000000 (- 10), pos_current_price = Some (Dec
     1001000000000 (- 10)), pos_unrealized_pnl = Some (Dec 0 (- 10)), pos_price_at = Some 7, pos_opened_at =
     Some 7, pos_closed_at = None\<rparr>, pr_version = 1\<rparr>)], st_trades = [], st_snapshots =
     [\<lparr>sn_session = Some ''s'', sn_user = ''u'', sn_series = 0, sn_equity = Dec 9999500000000 (- 10),
     sn_available = Dec 9499000000000 (- 10), sn_locked = Dec 0 (- 10), sn_market_value = Dec 500500000000 (-
     10), sn_stale = False, sn_cause = ''FILL'', sn_at = 7\<rparr>], st_sessions = [(''s'', \<lparr>se_user =
     ''u'', se_feed = Some ''HEALTHY''\<rparr>)], st_count = 4\<rparr>"

abbreviation one_config :: "string \<Rightarrow> session_config" where
  "one_config \<equiv> \<lambda>k. sim_config"

lemma shop_run:
  "case sim_apply_fill shop_env 28 sim_config (shop_request ''e1'' ''0.5'') (shop_world shop) of
     (Inr rep, w') \<Rightarrow> fo_kind rep = FILL_APPLIED \<and> fo_attempts rep = 2 \<and> w_step w' = 12 \<and>
       ow_state (fo_order rep) = PO_PARTIALLY_FILLED \<and> fo_filled rep = Dec 5000 (- 4) \<and> w_store w' = shop_after
   | (Inl e, w') \<Rightarrow> False"
  by code_simp

definition shop_clean :: "string \<Rightarrow> string \<Rightarrow> fill_request" where
  "shop_clean event qty = (shop_request event qty)\<lparr>rq_user := ''u''\<rparr>"

lemma shop_figures:
  "figures_of sim_config (shop_request ''e1'' ''0.5'') =
    Inr (shop_clean ''e1'' ''0.5'', accounting_of sim_config, Dec 5000 (- 4), Dec 10010 (- 2))"
  "figures_of sim_config (shop_request ''e2'' ''2'') =
    Inr (shop_clean ''e2'' ''2'', accounting_of sim_config, Dec 20000 (- 4), Dec 10010 (- 2))"
  by code_simp+

lemma shop_clean_fields [simp]:
  "rq_user (shop_clean e q) = ''u''" "rq_session (shop_clean e q) = ''s''" "rq_order (shop_clean e q) = ''x''"
  "rq_account (shop_clean e q) = ''a''" "rq_event (shop_clean e q) = e"
  by (simp_all add: shop_clean_def shop_request_def)

lemma replicate_inj: "inj (\<lambda>n. replicate n (CHR ''x''))"
  by (rule injI) (metis length_replicate)

lemma replicate_strip: "py_strip (replicate n (CHR ''x'')) = replicate n (CHR ''x'')"
proof (rule py_strip_no_space)
  have "\<not> is_space (CHR ''x'')" by code_simp
  then show "\<forall>c\<in>set (replicate n (CHR ''x'')). \<not> is_space c" by simp
qed

lemma shop_setting: "setting_ok shop_env 28 one_config" "setting_ok quiet_env 28 one_config"
  using sim_config_ok replicate_inj replicate_strip by (simp_all add: setting_ok_def shop_env_def quiet_env_def)

lemma shop_ok: "store_ok E one_config shop" if "en_id E = (\<lambda>n. replicate n (CHR ''x''))" for E
proof (rule store_okI)
  show "drawn E shop k" if "k \<in> fst ` set (st_orders shop) \<union> fst ` set (st_positions shop) \<union> fl_id ` set (st_fills shop)" for k
    using that \<open>en_id E = _\<close> by (auto simp: shop_def drawn_def intro: exI [of _ 1])
  have "lots (- 4) (Dec 15000000000 (- 10))" unfolding lots_def
    by (rule exI [of _ 15000]) (simp add: dval_Dec power_int_minus)
  then show "order_ok one_config shop oid r" if "dget (st_orders shop) oid = Some r" for oid r
    using that by (auto simp: shop_def shop_order_def order_ok_def fills_on_def filled_on_def lots_of_def sim_config_def
        state_fits_def dval_Dec power_int_minus split: if_splits)
qed (simp_all add: shop_def fill_entries_def)

lemma store_ok_ids: "en_id E = en_id E' \<Longrightarrow> store_ok E conf s = store_ok E' conf s"
  by (simp add: store_ok_def drawn_def)

lemma shop_order_of: "order_of_request (shop_clean e q) shop"
  by (simp add: order_of_request_def find_order_def shop_def shop_order_def)

lemma shop_bump: "bumped ''u'' ''a'' 0 (\<lambda>r. r) shop = Inr (snd (hd (st_accounts shop_bumped)), shop_bumped)"
  by code_simp

lemma shop_among: "among_clients shop_env 28 one_config" "among_clients quiet_env 28 one_config"
proof -
  have "clients shop_env 28 one_config shop shop_bumped"
    using shop_ok [of shop_env] shop_setting(1) client_step.client_bump [OF shop_bump]
    by (auto simp: clients_def shop_env_def intro: r_into_rtranclp)
  then show "among_clients shop_env 28 one_config"
    using shop_setting(1) by (auto simp: among_clients_def faults_ok_def shop_env_def sim.refl)
  show "among_clients quiet_env 28 one_config"
    using shop_setting(2) by (auto simp: among_clients_def faults_ok_def quiet_env_def shop_env_def sim.refl)
qed

section \<open>Witnesses\<close>

text \<open>The call of the example, with its report and its store.\<close>

lemma shop_call:
  obtains rep w' where
    "sim_apply_fill shop_env 28 (one_config (rq_session (shop_clean ''e1'' ''0.5''))) (shop_request ''e1'' ''0.5'') (shop_world shop) = (Inr rep, w')"
    "fo_kind rep = FILL_APPLIED" "fo_filled rep = Dec 5000 (- 4)" "w_store w' = shop_after"
  using shop_run by (auto split: prod.splits sum.splits)

lemma shop_world_store [simp]: "w_store (shop_world s) = s"
  by (simp add: shop_world_def)

lemma shop_figures_of: "figures_of (one_config (rq_session (shop_clean ''e1'' ''0.5''))) (shop_request ''e1'' ''0.5'') =
    Inr (shop_clean ''e1'' ''0.5'', accounting_of sim_config, Dec 5000 (- 4), Dec 10010 (- 2))"
  using shop_figures(1) by simp

lemma shop_start: "order_of_request (shop_clean e q) (w_store (shop_world shop))" "store_ok shop_env one_config (w_store (shop_world shop))"
    "store_ok quiet_env one_config (w_store (shop_world shop))"
  using shop_order_of shop_ok [of shop_env] shop_ok [of quiet_env] by (simp_all add: shop_env_def quiet_env_def)

lemma shop_reached: "clients shop_env 28 one_config shop shop_after" "store_ok shop_env one_config shop_after"
proof -
  obtain rep w' where "sim_apply_fill shop_env 28 (one_config (rq_session (shop_clean ''e1'' ''0.5''))) (shop_request ''e1'' ''0.5'') (shop_world shop) = (Inr rep, w')"
    "w_store w' = shop_after" by (rule shop_call)
  then show "clients shop_env 28 one_config shop shop_after" "store_ok shop_env one_config shop_after"
    using call_keeps_ok [where conf = one_config and rq = "shop_clean ''e1'' ''0.5''", OF shop_among(1) shop_figures_of shop_start(1,2)] by auto
qed

theorem fill_keeps_store_ok_witness:
  "clients shop_env 28 one_config shop shop_after \<and> store_ok shop_env one_config shop_after"
proof -
  obtain rep w' where run: "sim_apply_fill shop_env 28 (one_config (rq_session (shop_clean ''e1'' ''0.5''))) (shop_request ''e1'' ''0.5'') (shop_world shop) = (Inr rep, w')"
    and w: "w_store w' = shop_after" by (rule shop_call)
  show ?thesis
    using fill_keeps_store_ok [where conf = one_config and rq = "shop_clean ''e1'' ''0.5''", OF shop_among(1) shop_figures_of shop_start(1,2) run]
    by (simp add: w)
qed


lemma shop_repeat:
  "case sim_apply_fill quiet_env 28 sim_config (shop_request ''e1'' ''0.5'') (shop_world shop_after) of
     (Inr rep, w') \<Rightarrow> fo_kind rep = FILL_DUPLICATE \<and> w_store w' = shop_after | (Inl e, w') \<Rightarrow> False"
  by code_simp

lemma shop_after_order: "order_of_request (shop_clean e q) (w_store (shop_world shop_after))"
  by (simp add: order_of_request_def find_order_def shop_after_def)

theorem event_fills_once_witness:
  "\<exists>rep w'. sim_apply_fill quiet_env 28 sim_config (shop_request ''e1'' ''0.5'') (shop_world shop_after) = (Inr rep, w') \<and>
    fo_kind rep \<noteq> FILL_APPLIED"
proof -
  obtain rep w' where run: "sim_apply_fill quiet_env 28 (one_config (rq_session (shop_clean ''e1'' ''0.5''))) (shop_request ''e1'' ''0.5'') (shop_world shop_after) = (Inr rep, w')"
    using shop_repeat by (auto split: prod.splits sum.splits)
  obtain f where f: "f \<in> set (st_fills (w_store (shop_world shop_after)))" "fl_order f = rq_order (shop_clean ''e1'' ''0.5'')"
    "fl_event f = rq_event (shop_clean ''e1'' ''0.5'')"
    by (rule that [of "hd (st_fills shop_after)"]) (simp_all add: shop_after_def)
  have ok: "store_ok quiet_env one_config (w_store (shop_world shop_after))"
    using shop_reached(2) store_ok_ids [of quiet_env shop_env] by (simp add: quiet_env_def)
  show ?thesis
    using event_fills_once [where conf = one_config and rq = "shop_clean ''e1'' ''0.5''", OF shop_among(2) shop_figures_of shop_after_order ok f run] run
    by auto
qed

lemma shop_after_found: "\<exists>r. dget (st_orders shop_after) ''x'' = Some r"
  by (simp add: shop_after_def)


theorem ledger_mirrors_fills_witness:
  "map ld_fill (filter (\<lambda>l. ld_cause l = ''FILL'') (st_ledger shop_after)) = map (\<lambda>f. Some (fl_id f)) (st_fills shop_after) \<and>
    st_fills shop_after \<noteq> []"
  using ledger_mirrors_fills [OF shop_reached(1)] shop_start(2) by (simp add: shop_after_def)

lemma shop_overfill:
  "fst (sim_apply_fill quiet_env 28 sim_config (shop_request ''e2'' ''2'') (shop_world shop)) = Inl OverFill"
  by code_simp


lemma shop_spec:
  "case fill_spec quiet_env 28 sim_config (accounting_of sim_config) (shop_clean ''e1'' ''0.5'') (Dec 5000 (- 4)) (Dec 10010 (- 2)) shop of
     Inr (rep, s) \<Rightarrow> fo_kind rep = FILL_APPLIED | Inl e \<Rightarrow> False"
  by code_simp


end
