(* ===== verification/Sim_Submit_Example.thy ===== *)
theory Sim_Submit_Example
  imports Sim_Submit_Laws Sim_Session_Example
begin

text \<open>
  Submissions evaluated: a limit order with its lock, its refusal and its repetition, a submission
  whose retry is not a repetition, and a limit order that leaves money locked when it is filled.
\<close>

section \<open>The desk\<close>

definition desk_account :: account_row where
  "desk_account = shop_account\<lparr>ac_money := (ac_money shop_account)\<lparr>acc_available := Dec 10000000000000 (- 10),
     acc_locked := Dec 0 (- 10)\<rparr>\<rparr>"

definition desk :: store where
  "desk = shop\<lparr>st_accounts := [(''a'', desk_account)], st_orders := []\<rparr>"

definition desk_readers :: readers where
  "desk_readers = \<lparr>rd_text = (\<lambda>v. ''?''), rd_digest = (\<lambda>t. t), rd_instant = (\<lambda>v. case v of PyInt n \<Rightarrow> Some n | _ \<Rightarrow> None)\<rparr>"

definition desk_request :: "string \<Rightarrow> decimal \<Rightarrow> decimal option \<Rightarrow> string option \<Rightarrow> submit_request" where
  "desk_request kind q p key = \<lparr>sq_user = ''u'', sq_session = '' s'', sq_account = ''a'',
     sq_intent = \<lparr>oi_symbol = ''BTC/USDT'', oi_side = ''buy'', oi_order_type = kind, oi_quantity = q, oi_limit_price = p,
       oi_time_in_force = ''GTC'', oi_idempotency_key = key, oi_signal_id = None\<rparr>,
     sq_event = Some (Mapped [''event_timestamp'' \<mapsto> PyInt 5] (\<lambda>_. None)), sq_reference = PyNone, sq_filled_at = None, sq_series = 0\<rparr>"

text \<open>One and a half at one hundred, under a key.\<close>

abbreviation desk_limit :: submit_request where
  "desk_limit \<equiv> desk_request ''limit'' (Dec 15 (- 1)) (Some (Dec 100 0)) (Some ''k'')"

lemma desk_ok: "store_ok E one_config desk"
proof (rule store_okI)
  show "drawn E desk k" if "k \<in> fst ` set (st_orders desk) \<union> fst ` set (st_positions desk) \<union> fl_id ` set (st_fills desk)" for k
    using that by (auto simp: desk_def shop_def)
  show "order_ok one_config desk oid r" if "dget (st_orders desk) oid = Some r" for oid r
    using that by (simp add: desk_def)
qed (simp_all add: desk_def shop_def fill_entries_def)

section \<open>A limit order, its repetition and a refusal\<close>

definition desk_locked :: store where
  "desk_locked = desk\<lparr>st_accounts := [(''a'', desk_account\<lparr>ac_money := (ac_money desk_account)\<lparr>acc_available := Dec 8497800000000 (- 10),
       acc_locked := Dec 1502200000000 (- 10), acc_realized := Dec 0 (- 10), acc_total_equity := Dec 10000000000000 (- 10)\<rparr>,
       ac_version := 1\<rparr>)],
     st_orders := [(''xx'', shop_order\<lparr>ow_type := ''limit'', ow_limit := Some (Dec 1000000000000 (- 10)),
       ow_reference := Some (Dec 1000000000000 (- 10)), ow_key := Some ''k'',
       ow_fingerprint := ''BTC/USDT|buy|limit|1.5|100|GTC'', ow_created := 2\<rparr>)],
     st_ledger := [\<lparr>ld_session = Some ''s'', ld_account = ''a'', ld_user = ''u'', ld_cause = ''ORDER_LOCK'',
       ld_available_delta = Dec (- 1502200000000) (- 10), ld_locked_delta = Dec 1502200000000 (- 10),
       ld_realized_delta = Dec 0 (- 10), ld_available = Dec 8497800000000 (- 10), ld_locked = Dec 1502200000000 (- 10),
       ld_realized = Dec 0 (- 10), ld_fill = None, ld_at = 5\<rparr>],
     st_count := 3\<rparr>"

lemma desk_limit_run:
  "case submit_intent quiet_env desk_readers 28 sim_config desk_limit (shop_world desk) of
     (Inr out, w') \<Rightarrow> so_locked out = Some (Dec 15022 (- 2)) \<and> so_id out = ''xx'' \<and> so_reason out = None \<and> w_store w' = desk_locked
   | (Inl e, w') \<Rightarrow> False"
  by code_simp

lemma desk_call:
  obtains out w' where "submit_intent quiet_env desk_readers 28 sim_config desk_limit (shop_world desk) = (Inr out, w')"
    "so_locked out = Some (Dec 15022 (- 2))" "w_store w' = desk_locked"
  using desk_limit_run by (auto split: prod.splits sum.splits)

lemma desk_clean: "clean_submission (desk_request kind q p key) = Inr ((desk_request kind q p key)\<lparr>sq_session := ''s''\<rparr>)"
proof -
  have "require_session_text '' s'' = Inr ''s''" "require_session_text ''u'' = Inr ''u''" "require_session_text ''a'' = Inr ''a''"
    by code_simp+
  then show ?thesis by (simp add: clean_submission_def desk_request_def)
qed

lemma quiet_idle: "idle quiet_env" "faults_ok quiet_env"
  by (simp_all add: idle_def faults_ok_def quiet_env_def shop_env_def)




lemma desk_refused:
  "case submit_intent quiet_env desk_readers 28 sim_config (desk_request ''limit'' (Dec 900 0) (Some (Dec 100 0)) None) (shop_world desk) of
     (Inr out, w') \<Rightarrow> so_reason out = Some ''INSUFFICIENT_FUNDS'' \<and> ow_state (so_order out) = PO_REJECTED
   | (Inl e, w') \<Rightarrow> False"
  by code_simp

theorem rejection_moves_no_money_witness:
  "\<exists>out w'. submit_intent quiet_env desk_readers 28 sim_config (desk_request ''limit'' (Dec 900 0) (Some (Dec 100 0)) None)
      (shop_world desk) = (Inr out, w') \<and> ow_state (so_order out) = PO_REJECTED \<and> st_accounts (w_store w') = [(''a'', desk_account)]"
proof -
  obtain out w' where run: "submit_intent quiet_env desk_readers 28 sim_config (desk_request ''limit'' (Dec 900 0) (Some (Dec 100 0)) None)
      (shop_world desk) = (Inr out, w')" and o: "so_reason out = Some ''INSUFFICIENT_FUNDS''" "ow_state (so_order out) = PO_REJECTED"
    using desk_refused by (auto split: prod.splits sum.splits)
  have "st_accounts (w_store w') = [(''a'', desk_account)]"
    using rejection_moves_no_money [OF quiet_idle(1) run] o by (simp add: desk_def)
  then show ?thesis using run o by blast
qed

section \<open>A retry that is not a repetition\<close>

text \<open>The statement that accepts the order is lost to a serialization failure: it did not apply.\<close>

definition lost_env :: "nat \<Rightarrow> environment" where
  "lost_env k = quiet_env\<lparr>en_fault := \<lambda>n. if n = k then Some (SerializationFailure, False) else None\<rparr>"

text \<open>
  With a key, the retry finds the order its own first attempt inserted and reports it as a repetition:
  the order stays CREATED and is never accepted. Without one, the retry inserts a second order.
\<close>

theorem lost_accept_is_not_retried:
  "(case submit_intent (lost_env 3) desk_readers 28 sim_config desk_limit (shop_world desk) of
     (Inr out, w') \<Rightarrow> so_duplicate out \<and> ow_state (so_order out) = PO_CREATED \<and> so_attempts out = 2 \<and>
       st_accounts (w_store w') = st_accounts desk \<and> map (\<lambda>(k, r). ow_state r) (st_orders (w_store w')) = [PO_CREATED]
   | (Inl e, w') \<Rightarrow> False) \<and>
   (case submit_intent (lost_env 2) desk_readers 28 sim_config (desk_request ''limit'' (Dec 15 (- 1)) (Some (Dec 100 0)) None) (shop_world desk) of
     (Inr out, w') \<Rightarrow> \<not> so_duplicate out \<and> map (\<lambda>(k, r). ow_state r) (st_orders (w_store w')) = [PO_CREATED, PO_ACCEPTED]
   | (Inl e, w') \<Rightarrow> False)"
proof
  show "case submit_intent (lost_env 3) desk_readers 28 sim_config desk_limit (shop_world desk) of
     (Inr out, w') \<Rightarrow> so_duplicate out \<and> ow_state (so_order out) = PO_CREATED \<and> so_attempts out = 2 \<and>
       st_accounts (w_store w') = st_accounts desk \<and> map (\<lambda>(k, r). ow_state r) (st_orders (w_store w')) = [PO_CREATED]
   | (Inl e, w') \<Rightarrow> False" by code_simp
  show "case submit_intent (lost_env 2) desk_readers 28 sim_config (desk_request ''limit'' (Dec 15 (- 1)) (Some (Dec 100 0)) None) (shop_world desk) of
     (Inr out, w') \<Rightarrow> \<not> so_duplicate out \<and> map (\<lambda>(k, r). ow_state r) (st_orders (w_store w')) = [PO_CREATED, PO_ACCEPTED]
   | (Inl e, w') \<Rightarrow> False" by code_simp
qed

section \<open>Money left locked\<close>

text \<open>
  Two units at 0.325 lock 0.65; each of two fills of one unit releases 0.32. The order is filled and
  0.01 stays locked.
\<close>

definition penny_config :: session_config where
  "penny_config = sim_config\<lparr>sc_fee_rate := Dec 0 0, sc_slippage_rate := Dec 0 0, sc_participation_rate := Dec 1 0,
     sc_price_precision := 3\<rparr>"

definition penny_order :: submit_request where
  "penny_order = desk_request ''limit'' (Dec 2 0) (Some (Dec 325 (- 3))) None"

definition penny_tick :: "string \<Rightarrow> submit_request" where
  "penny_tick e = penny_order\<lparr>sq_event := Some (Mapped [''event_timestamp'' \<mapsto> PyInt 6, ''source_event_id'' \<mapsto> PyStr e,
     ''close'' \<mapsto> PyStr ''0.325'', ''volume'' \<mapsto> PyStr ''1''] (\<lambda>_. None))\<rparr>"

text \<open>The store after the submission, and after the first fill.\<close>

definition penny_locked :: store where
  "penny_locked =
     \<lparr>st_accounts = [(''a'', \<lparr>ac_user = ''u'', ac_money = \<lparr>acc_available = Dec
     9993500000000 (- 10), acc_locked = Dec 6500000000 (- 10), acc_realized = Dec 0 (- 10), acc_total_equity =
     Dec 10000000000000 (- 10), acc_currency = ''USD''\<rparr>, ac_version = 1, ac_price_at = None, ac_stale =
     False, ac_updated = 0\<rparr>)], st_orders = [(''xx'', \<lparr>ow_user = ''u'', ow_session = Some ''s'',
     ow_account = ''a'', ow_symbol = ''BTC/USDT'', ow_side = ''buy'', ow_type = ''limit'', ow_quantity = Dec
     20000000000 (- 10), ow_limit = Some (Dec 3250000000 (- 10)), ow_reference = Some (Dec 3250000000 (- 10)),
     ow_filled = Dec 0 (- 10), ow_avg = None, ow_fee = 0, ow_slippage = 0, ow_state = PO_ACCEPTED, ow_legacy =
     ''OPEN'', ow_reason = None, ow_key = None, ow_signal = None, ow_fingerprint =
     ''BTC/USDT|buy|limit|2|0.325|GTC'', ow_created = 2\<rparr>)], st_fills = [], st_ledger =
     [\<lparr>ld_session = Some ''s'', ld_account = ''a'', ld_user = ''u'', ld_cause = ''ORDER_LOCK'',
     ld_available_delta = Dec (- 6500000000) (- 10), ld_locked_delta = Dec 6500000000 (- 10),
     ld_realized_delta = Dec 0 (- 10), ld_available = Dec 9993500000000 (- 10), ld_locked = Dec 6500000000 (-
     10), ld_realized = Dec 0 (- 10), ld_fill = None, ld_at = 5\<rparr>], st_positions = [], st_trades = [],
     st_snapshots = [], st_sessions = [(''s'', \<lparr>se_user = ''u'', se_feed = Some ''HEALTHY''\<rparr>)],
     st_count = 3\<rparr>"

definition penny_half :: store where
  "penny_half =
     \<lparr>st_accounts = [(''a'', \<lparr>ac_user = ''u'', ac_money = \<lparr>acc_available = Dec
     9993500000000 (- 10), acc_locked = Dec 3300000000 (- 10), acc_realized = Dec 0 (- 10), acc_total_equity =
     Dec 10000000000000 (- 10), acc_currency = ''USD''\<rparr>, ac_version = 2, ac_price_at = Some 6, ac_stale
     = False, ac_updated = 0\<rparr>)], st_orders = [(''xx'', \<lparr>ow_user = ''u'', ow_session = Some
     ''s'', ow_account = ''a'', ow_symbol = ''BTC/USDT'', ow_side = ''buy'', ow_type = ''limit'', ow_quantity
     = Dec 20000000000 (- 10), ow_limit = Some (Dec 3250000000 (- 10)), ow_reference = Some (Dec 3250000000 (-
     10)), ow_filled = Dec 10000000000 (- 10), ow_avg = Some (Dec 3250000000 (- 10)), ow_fee = 0, ow_slippage
     = 0, ow_state = PO_PARTIALLY_FILLED, ow_legacy = ''OPEN'', ow_reason = None, ow_key = None, ow_signal =
     None, ow_fingerprint = ''BTC/USDT|buy|limit|2|0.325|GTC'', ow_created = 2\<rparr>)], st_fills =
     [\<lparr>fl_id = ''xxx'', fl_order = ''xx'', fl_session = Some ''s'', fl_user = ''u'', fl_event =
     ''limit-xx|1'', fl_quantity = Dec 10000000000 (- 10), fl_price = Dec 3250000000 (- 10), fl_fee = 0,
     fl_slippage = 0, fl_market = Some ''1'', fl_at = 6\<rparr>], st_ledger = [\<lparr>ld_session = Some
     ''s'', ld_account = ''a'', ld_user = ''u'', ld_cause = ''ORDER_LOCK'', ld_available_delta = Dec (-
     6500000000) (- 10), ld_locked_delta = Dec 6500000000 (- 10), ld_realized_delta = Dec 0 (- 10),
     ld_available = Dec 9993500000000 (- 10), ld_locked = Dec 6500000000 (- 10), ld_realized = Dec 0 (- 10),
     ld_fill = None, ld_at = 5\<rparr>, \<lparr>ld_session = Some ''s'', ld_account = ''a'', ld_user = ''u'',
     ld_cause = ''FILL'', ld_available_delta = Dec 0 (- 10), ld_locked_delta = Dec (- 3200000000) (- 10),
     ld_realized_delta = Dec 0 (- 10), ld_available = Dec 9993500000000 (- 10), ld_locked = Dec 3300000000 (-
     10), ld_realized = Dec 0 (- 10), ld_fill = Some ''xxx'', ld_at = 6\<rparr>], st_positions = [(''xxxx'',
     \<lparr>pr_session = Some ''s'', pr_account = ''a'', pr_user = ''u'', pr_position = \<lparr>pos_symbol =
     ''BTC/USDT'', pos_side = ''LONG'', pos_size = Dec 10000000000 (- 10), pos_entry_price = Dec 3250000000 (-
     10), pos_current_price = Some (Dec 3250000000 (- 10)), pos_unrealized_pnl = Some (Dec 0 (- 10)),
     pos_price_at = Some 6, pos_opened_at = Some 6, pos_closed_at = None\<rparr>, pr_version = 1\<rparr>)],
     st_trades = [], st_snapshots = [\<lparr>sn_session = Some ''s'', sn_user = ''u'', sn_series = 0,
     sn_equity = Dec 10000000000000 (- 10), sn_available = Dec 9993500000000 (- 10), sn_locked = Dec
     3300000000 (- 10), sn_market_value = Dec 3200000000 (- 10), sn_stale = False, sn_cause = ''FILL'', sn_at
     = 6\<rparr>], st_sessions = [(''s'', \<lparr>se_user = ''u'', se_feed = Some ''HEALTHY''\<rparr>)],
     st_count = 5\<rparr>"

definition penny_event :: "string \<Rightarrow> store \<Rightarrow> world" where
  "penny_event e s = snd (check_resting_orders quiet_env desk_readers 28 penny_config (penny_tick e) (shop_world s))"

lemma penny_submitted:
  "w_store (snd (submit_intent quiet_env desk_readers 28 penny_config penny_order (shop_world desk))) = penny_locked"
  by code_simp

lemma penny_first: "w_store (penny_event ''1'' penny_locked) = penny_half"
  by code_simp

lemma penny_second:
  "map (\<lambda>(k, r). ow_state r) (st_orders (w_store (penny_event ''2'' penny_half))) = [PO_FILLED] \<and>
    map (\<lambda>(k, a). (acc_available (ac_money a), acc_locked (ac_money a))) (st_accounts (w_store (penny_event ''2'' penny_half))) =
      [(Dec 9993400000000 (- 10), Dec 100000000 (- 10))]"
  by code_simp

theorem filled_order_leaves_lock:
  "\<exists>s0 s1 s2. s0 = w_store (snd (submit_intent quiet_env desk_readers 28 penny_config penny_order (shop_world desk))) \<and>
    s1 = w_store (penny_event ''1'' s0) \<and> s2 = w_store (penny_event ''2'' s1) \<and>
    map (\<lambda>(k, r). ow_state r) (st_orders s2) = [PO_FILLED] \<and>
    map (\<lambda>(k, a). (acc_available (ac_money a), acc_locked (ac_money a))) (st_accounts s2) =
      [(Dec 9993400000000 (- 10), Dec 100000000 (- 10))]"
  by (simp only: penny_submitted penny_first penny_second simp_thms ex_simps)


section \<open>A reversed position keeps its opening\<close>

definition sell_order :: order_row where
  "sell_order = shop_order\<lparr>ow_side := ''sell'', ow_quantity := Dec 10000000000 (- 10)\<rparr>"

definition sell_request :: fill_request where
  "sell_request = (shop_request ''e3'' ''1'')\<lparr>rq_order := ''y'', rq_at := 9\<rparr>"

text \<open>A sale of one at instant 9 turns the long half of instant 7 into a short half, opened at 7.\<close>

theorem reversal_keeps_opened_at:
  "map (\<lambda>(k, p). (pos_side (pr_position p), pos_size (pr_position p), pos_opened_at (pr_position p), pos_closed_at (pr_position p)))
     (st_positions (w_store (snd (sim_apply_fill quiet_env 28 sim_config sell_request
       (shop_world (shop_after\<lparr>st_orders := st_orders shop_after @ [(''y'', sell_order)]\<rparr>)))))) =
    [(''SHORT'', Dec 5000000000 (- 10), Some 7, None), (''LONG'', Dec 0 (- 10), Some 7, Some 9)]"
  by code_simp

end
