(* ===== verification/Subscription_Period.thy ===== *)
theory Subscription_Period
  imports Py_Values "HOL-Library.Product_Lexorder"
begin

text \<open>
  \<open>backend/marketplace/subscription_period.py\<close>: the calendar-month arithmetic of a subscription
  period. A \<open>datetime\<close> carries its fields and its zone; two aware UTC instants compare by their
  fields in order. The field \<open>fold\<close> is absent: UTC never repeats a clock reading.
\<close>

text \<open>
  The zone of a datetime: none, the singleton \<open>timezone.utc\<close>, another \<open>tzinfo\<close> with an offset in
  microseconds at that instant (strictly less than a day), or one that returns no offset.
\<close>

datatype tzinfo = TzNaive | TzUTC | TzOffset int | TzUndefined

record datetime =
  year :: int
  month :: int
  day :: int
  hour :: int
  minute :: int
  second :: int
  microsecond :: int
  tz :: tzinfo

datatype py_instant = DT datetime | NotADatetime

section \<open>The calendar of the standard library\<close>

definition is_leap :: "int \<Rightarrow> bool" where
  "is_leap y = (y mod 4 = 0 \<and> (y mod 100 \<noteq> 0 \<or> y mod 400 = 0))"

text \<open>\<open>calendar.monthrange(year, month)[1]\<close>.\<close>

definition days_in_month :: "int \<Rightarrow> int \<Rightarrow> int" where
  "days_in_month y m =
     (if m = 2 then (if is_leap y then 29 else 28) else if m \<in> {4, 6, 9, 11} then 30 else 31)"

definition dt_valid :: "datetime \<Rightarrow> bool" where
  "dt_valid t \<longleftrightarrow> 1 \<le> year t \<and> year t \<le> 9999 \<and> 1 \<le> month t \<and> month t \<le> 12 \<and>
     1 \<le> day t \<and> day t \<le> days_in_month (year t) (month t) \<and> 0 \<le> hour t \<and> hour t < 24 \<and>
     0 \<le> minute t \<and> minute t < 60 \<and> 0 \<le> second t \<and> second t < 60 \<and>
     0 \<le> microsecond t \<and> microsecond t < 1000000"

definition dt_fields :: "datetime \<Rightarrow> int \<times> int \<times> int \<times> int \<times> int \<times> int \<times> int" where
  "dt_fields t = (year t, month t, day t, hour t, minute t, second t, microsecond t)"

definition dt_lt :: "datetime \<Rightarrow> datetime \<Rightarrow> bool" where
  "dt_lt s t = (dt_fields s < dt_fields t)"

text \<open>\<open>max(a, b)\<close> keeps the first of two equal arguments.\<close>

definition dt_max :: "datetime \<Rightarrow> datetime \<Rightarrow> datetime" where
  "dt_max s t = (if dt_lt s t then t else s)"

text \<open>\<open>t.replace(year, month, day)\<close>: a year past 9999 is a \<open>ValueError\<close>.\<close>

definition dt_replace :: "datetime \<Rightarrow> int \<Rightarrow> int \<Rightarrow> int \<Rightarrow> py_exc + datetime" where
  "dt_replace t y m d =
     (if y < 1 \<or> 9999 < y \<or> m < 1 \<or> 12 < m \<or> d < 1 \<or> days_in_month y m < d then Inl ValueError
      else Inr (t\<lparr>year := y, month := m, day := d\<rparr>))"

definition micros_of_day :: "datetime \<Rightarrow> int" where
  "micros_of_day t = ((hour t * 60 + minute t) * 60 + second t) * 1000000 + microsecond t"

definition day_micros :: int where
  "day_micros = 86400000000"

definition next_day :: "int \<times> int \<times> int \<Rightarrow> int \<times> int \<times> int" where
  "next_day = (\<lambda>(y, m, d). if d < days_in_month y m then (y, m, d + 1)
     else if m < 12 then (y, m + 1, 1) else (y + 1, 1, 1))"

definition prev_day :: "int \<times> int \<times> int \<Rightarrow> int \<times> int \<times> int" where
  "prev_day = (\<lambda>(y, m, d). if 1 < d then (y, m, d - 1)
     else if 1 < m then (y, m - 1, days_in_month y (m - 1)) else (y - 1, 12, 31))"

text \<open>
  \<open>t.astimezone(timezone.utc)\<close> for a non-zero offset: the clock reading moves by the offset,
  into a neighbouring day at most, and out of the year range it is an \<open>OverflowError\<close>.
\<close>

definition to_utc :: "datetime \<Rightarrow> int \<Rightarrow> py_exc + datetime" where
  "to_utc t off =
     (let n = micros_of_day t - off;
          (y, m, d) = (if n < 0 then prev_day (year t, month t, day t)
                       else if day_micros \<le> n then next_day (year t, month t, day t)
                       else (year t, month t, day t));
          r = n mod day_micros
      in if y < 1 \<or> 9999 < y then Inl OverflowError
         else Inr \<lparr>year = y, month = m, day = d, hour = r div 3600000000,
                minute = r div 60000000 mod 60, second = r div 1000000 mod 60,
                microsecond = r mod 1000000, tz = TzUTC\<rparr>)"

section \<open>The module\<close>

definition ensure_utc :: "py_instant \<Rightarrow> py_exc + datetime" where
  "ensure_utc v =
     (case v of
        NotADatetime \<Rightarrow> Inl TypeError
      | DT t \<Rightarrow>
          (case tz t of
             TzNaive \<Rightarrow> Inl ValueError
           | TzUndefined \<Rightarrow> Inl ValueError
           | TzUTC \<Rightarrow> Inr t
           | TzOffset off \<Rightarrow> if off = 0 then Inr (t\<lparr>tz := TzUTC\<rparr>) else to_utc t off))"

definition require_utc :: "py_instant \<Rightarrow> py_exc + datetime" where
  "require_utc v =
     (case v of
        NotADatetime \<Rightarrow> Inl TypeError
      | DT t \<Rightarrow> if tz t = TzUTC then Inr t else Inl ValueError)"

definition add_one_calendar_month :: "py_instant \<Rightarrow> py_exc + datetime" where
  "add_one_calendar_month v =
     bnd (require_utc v) (\<lambda>t.
       let (y, m) = (if month t < 12 then (year t, month t + 1) else (year t + 1, 1));
           last_day = days_in_month y m;
           d = min (day t) last_day
       in dt_replace t y m d)"

definition period_for_activation :: "py_instant \<Rightarrow> py_exc + (datetime \<times> datetime)" where
  "period_for_activation v =
     bnd (require_utc v) (\<lambda>t.
     bnd (add_one_calendar_month v) (\<lambda>expiry. Inr (t, expiry)))"

definition period_for_renewal :: "py_instant \<Rightarrow> py_instant \<Rightarrow> py_exc + datetime" where
  "period_for_renewal current_expiry confirmation_instant =
     bnd (require_utc current_expiry) (\<lambda>e.
     bnd (require_utc confirmation_instant) (\<lambda>c.
       add_one_calendar_month (DT (dt_max e c))))"

section \<open>Facts the properties rest on\<close>

text \<open>The proleptic Gregorian ordinal of a date, as \<open>date.toordinal\<close> counts it.\<close>

definition days_before_month :: "int \<Rightarrow> int \<Rightarrow> int" where
  "days_before_month y m = sum_list (map (days_in_month y) (upto 1 (m - 1)))"

definition date_ordinal :: "datetime \<Rightarrow> int" where
  "date_ordinal t =
     (let p = year t - 1 in p * 365 + p div 4 - p div 100 + p div 400 +
        days_before_month (year t) (month t) + day t)"

lemma days_in_month_bounds: "28 \<le> days_in_month y m" "days_in_month y m \<le> 31"
  by (simp_all add: days_in_month_def)

lemma days_before_month_next: "1 \<le> m \<Longrightarrow>
    days_before_month y (m + 1) = days_before_month y m + days_in_month y m"
  by (simp add: days_before_month_def upto_rec2)

definition days_before_year :: "int \<Rightarrow> int" where
  "days_before_year y = (let p = y - 1 in p * 365 + p div 4 - p div 100 + p div 400)"

lemma div_pred:
  assumes "0 < (k::int)"
  shows "(y - 1) div k = y div k - (if y mod k = 0 then 1 else 0)"
proof (cases "y mod k = 0")
  case True
  then have "y - 1 = k * (y div k - 1) + (k - 1)" by (auto simp: algebra_simps)
  then have "(y - 1) div k = y div k - 1"
    by (rule int_div_pos_eq) (use assms in auto)
  then show ?thesis using True by simp
next
  case False
  have r: "0 \<le> y mod k" "y mod k < k" using assms by auto
  have "y - 1 = k * (y div k) + (y mod k - 1)" by simp
  then have "(y - 1) div k = y div k"
    by (rule int_div_pos_eq) (use r False in auto)
  then show ?thesis using False by simp
qed

lemma days_before_year_next:
  "days_before_year (y + 1) = days_before_year y + (if is_leap y then 366 else 365)"
proof -
  have m: "y mod 400 = 0 \<Longrightarrow> y mod 100 = 0" "y mod 100 = 0 \<Longrightarrow> y mod 4 = 0"
    using mod_mod_cancel [of 100 400 y] mod_mod_cancel [of 4 100 y] by simp_all
  have "days_before_year (y + 1) - days_before_year y =
      365 + (if y mod 4 = 0 then 1 else 0) - (if y mod 100 = 0 then 1 else 0) +
      (if y mod 400 = 0 then 1 else 0)"
    unfolding days_before_year_def Let_def div_pred [of 4 y, simplified]
      div_pred [of 100 y, simplified] div_pred [of 400 y, simplified] by simp
  also have "\<dots> = (if is_leap y then 366 else 365)"
    using m by (cases "y mod 400 = 0"; cases "y mod 100 = 0"; cases "y mod 4 = 0")
      (simp_all add: is_leap_def)
  finally show ?thesis by simp
qed

lemma days_before_month_1 [simp]: "days_before_month y 1 = 0"
  by (simp add: days_before_month_def)

lemma days_before_month_13: "days_before_month y 13 = (if is_leap y then 366 else 365)"
proof -
  have "[1..12] = [1, 2, 3, 4, 5, 6, 7, 8, 9, 10, 11, 12::int]" by code_simp
  then show ?thesis by (simp add: days_before_month_def days_in_month_def)
qed

definition ymd_ordinal :: "int \<times> int \<times> int \<Rightarrow> int" where
  "ymd_ordinal = (\<lambda>(y, m, d). days_before_year y + days_before_month y m + d)"

lemma date_ordinal_ymd: "date_ordinal t = ymd_ordinal (year t, month t, day t)"
  by (simp add: date_ordinal_def ymd_ordinal_def days_before_year_def Let_def)

lemma ordinal_next_day:
  assumes "1 \<le> m" "m \<le> 12" "d \<le> days_in_month y m"
  shows "ymd_ordinal (next_day (y, m, d)) = ymd_ordinal (y, m, d) + 1"
proof -
  have "m = 12 \<Longrightarrow> days_before_year (y + 1) = days_before_year y + days_before_month y m + days_in_month y m"
    using days_before_month_next [of 12 y]
    by (simp add: days_before_month_13 days_before_year_next)
  then show ?thesis
    using assms days_before_month_next [of m y] by (auto simp: next_day_def ymd_ordinal_def)
qed

lemma ordinal_prev_day:
  assumes "1 \<le> m" "m \<le> 12" "1 \<le> d"
  shows "ymd_ordinal (prev_day (y, m, d)) = ymd_ordinal (y, m, d) - 1"
proof -
  have "days_before_year y = days_before_year (y - 1) + days_before_month (y - 1) 12 + 31"
    using days_before_month_next [of 12 "y - 1"] days_before_year_next [of "y - 1"]
    by (simp add: days_before_month_13) (simp add: days_in_month_def)
  moreover have "days_before_month y m = days_before_month y (m - 1) + days_in_month y (m - 1)" if "1 < m"
    using that days_before_month_next [of "m - 1" y] by simp
  ultimately show ?thesis
    using assms by (cases "m = 1") (auto simp: prev_day_def ymd_ordinal_def)
qed

text \<open>The instant a datetime denotes, in microseconds of its own clock.\<close>

definition dt_instant :: "datetime \<Rightarrow> int" where
  "dt_instant t = date_ordinal t * day_micros + micros_of_day t"

lemma micros_of_day_bounds:
  assumes "dt_valid t"
  shows "0 \<le> micros_of_day t" and "micros_of_day t < day_micros"
  using assms by (auto simp: dt_valid_def micros_of_day_def day_micros_def)

lemma clock_of_micros:
  assumes "0 \<le> r" "r < day_micros"
  shows "((r div 3600000000 * 60 + r div 60000000 mod 60) * 60 + r div 1000000 mod 60) * 1000000
    + r mod 1000000 = r"
proof -
  have a: "r div 60000000 = r div 1000000 div 60" and b: "r div 3600000000 = r div 60000000 div 60"
    by (simp_all flip: div_mult2_eq)
  have "(r div 3600000000 * 60 + r div 60000000 mod 60) = r div 60000000" by (simp add: b)
  moreover have "r div 60000000 * 60 + r div 1000000 mod 60 = r div 1000000" by (simp add: a)
  ultimately show ?thesis by simp
qed

lemma to_utc_instant:
  assumes t: "dt_valid t" and off: "\<bar>off\<bar> < day_micros" and u: "to_utc t off = Inr u"
  shows "dt_instant u = dt_instant t - off \<and> tz u = TzUTC"
proof -
  define n where "n = micros_of_day t - off"
  define ymd where "ymd = (if n < 0 then prev_day (year t, month t, day t)
      else if day_micros \<le> n then next_day (year t, month t, day t) else (year t, month t, day t))"
  have n: "- day_micros < n" "n < 2 * day_micros"
    using micros_of_day_bounds [OF t] off by (auto simp: n_def)
  have m: "1 \<le> month t" "month t \<le> 12" "1 \<le> day t" "day t \<le> days_in_month (year t) (month t)"
    using t by (auto simp: dt_valid_def)
  have ord: "ymd_ordinal ymd = date_ordinal t + n div day_micros"
  proof -
    consider "n < 0" | "0 \<le> n" "n < day_micros" | "day_micros \<le> n" by linarith
    then show ?thesis
    proof cases
      case 1
      have "n div day_micros = -1"
        using n(1) 1 by (intro int_div_pos_eq [where r = "n + day_micros"]) auto
      then show ?thesis using 1 m by (simp add: ymd_def ordinal_prev_day date_ordinal_ymd)
    next
      case 2
      then show ?thesis by (simp add: ymd_def date_ordinal_ymd)
    next
      case 3
      have "n div day_micros = 1"
        using n(2) 3 by (intro int_div_pos_eq [where r = "n - day_micros"]) auto
      then show ?thesis using 3 m n
        by (simp add: ymd_def ordinal_next_day date_ordinal_ymd day_micros_def)
    qed
  qed
  obtain y mo d where y: "ymd = (y, mo, d)" by (cases ymd)
  define r where "r = n mod day_micros"
  have u_eq: "u = \<lparr>year = y, month = mo, day = d, hour = r div 3600000000,
      minute = r div 60000000 mod 60, second = r div 1000000 mod 60,
      microsecond = r mod 1000000, tz = TzUTC\<rparr>"
    using u by (simp add: to_utc_def Let_def n_def [symmetric] ymd_def [symmetric] y r_def
        split: if_splits)
  have "micros_of_day u = r"
    unfolding u_eq micros_of_day_def datetime.select_convs
    by (rule clock_of_micros) (simp_all add: r_def day_micros_def)
  moreover have "year u = y" "month u = mo" "day u = d" and utc: "tz u = TzUTC"
    by (simp_all only: u_eq datetime.select_convs)
  ultimately have "dt_instant u = ymd_ordinal ymd * day_micros + n mod day_micros"
    by (simp only: dt_instant_def date_ordinal_ymd y r_def)
  also have "\<dots> = date_ordinal t * day_micros + (n div day_micros * day_micros + n mod day_micros)"
    by (simp only: ord distrib_right add.assoc)
  also have "\<dots> = dt_instant t - off"
    unfolding div_mult_mod_eq by (simp add: dt_instant_def n_def)
  finally show ?thesis using utc by simp
qed

lemma require_utc_Inr [result_simps]: "require_utc v = Inr t \<longleftrightarrow> v = DT t \<and> tz t = TzUTC"
  by (cases v) (auto simp: require_utc_def)

lemma add_month_eq:
  "add_one_calendar_month (DT t) = Inr u \<longleftrightarrow> tz t = TzUTC \<and>
    (\<exists>y m. (y, m) = (if month t < 12 then (year t, month t + 1) else (year t + 1, 1)) \<and>
      dt_replace t y m (min (day t) (days_in_month y m)) = Inr u)"
  by (auto simp: add_one_calendar_month_def result_simps Let_def split: if_splits)

section \<open>Properties\<close>

lemma days_next_month:
  "month t < 12 \<Longrightarrow> 1 \<le> month t \<Longrightarrow>
    ymd_ordinal (year t, month t + 1, d) = ymd_ordinal (year t, month t, 0) + days_in_month (year t) (month t) + d"
  "month t = 12 \<Longrightarrow>
    ymd_ordinal (year t + 1, 1, d) = ymd_ordinal (year t, month t, 0) + days_in_month (year t) (month t) + d"
  using days_before_month_next [of "month t" "year t"]
    days_before_year_next [of "year t"] days_before_month_13 [of "year t"]
  by (simp_all add: ymd_ordinal_def)

text \<open>The month step, as a fact the renewal rests on.\<close>

lemma month_step:
  assumes t: "dt_valid t" and run: "add_one_calendar_month (DT t) = Inr u"
  shows "dt_valid u" "tz u = TzUTC" "micros_of_day u = micros_of_day t"
    "date_ordinal t + 28 \<le> date_ordinal u" "date_ordinal u \<le> date_ordinal t + 31"
    "day u = min (day t) (days_in_month (year u) (month u))"
    "12 * year u + month u = 12 * year t + month t + 1"
proof -
  from run obtain y m where tz: "tz t = TzUTC"
    and ym: "(y, m) = (if month t < 12 then (year t, month t + 1) else (year t + 1, 1))"
    and rep: "dt_replace t y m (min (day t) (days_in_month y m)) = Inr u"
    by (auto simp: add_month_eq)
  have u: "u = t\<lparr>year := y, month := m, day := min (day t) (days_in_month y m)\<rparr>" and y: "y \<le> 9999"
    using rep by (auto simp: dt_replace_def split: if_splits)
  have v: "1 \<le> month t" "month t \<le> 12" "1 \<le> day t" "day t \<le> days_in_month (year t) (month t)"
    "1 \<le> year t" using t by (simp_all add: dt_valid_def)
  have m: "1 \<le> m \<and> m \<le> 12 \<and> 1 \<le> y" using ym v by (auto split: if_splits)
  have dm: "1 \<le> min (day t) (days_in_month y m)" using v days_in_month_bounds(1) [of y m] by simp
  show "dt_valid u" using t m dm y by (auto simp: u dt_valid_def)
  show "tz u = TzUTC" using tz by (simp add: u)
  show "micros_of_day u = micros_of_day t" by (simp add: u micros_of_day_def)
  show "day u = min (day t) (days_in_month (year u) (month u))" by (simp add: u)
  show "12 * year u + month u = 12 * year t + month t + 1" using ym v by (auto simp: u split: if_splits)
  have ord: "date_ordinal u = ymd_ordinal (year t, month t, 0) + days_in_month (year t) (month t) +
      min (day t) (days_in_month y m)"
    using ym v days_next_month [of t] by (auto simp: date_ordinal_ymd u split: if_splits)
  have ot: "date_ordinal t = ymd_ordinal (year t, month t, 0) + day t"
    by (simp add: date_ordinal_ymd ymd_ordinal_def)
  have long: "days_in_month (year t) (month t) = 31" if "days_in_month y m < 30"
    using that ym v by (auto simp: days_in_month_def split: if_splits)
  show "date_ordinal t + 28 \<le> date_ordinal u" "date_ordinal u \<le> date_ordinal t + 31"
    using ord ot v days_in_month_bounds [of y m] days_in_month_bounds [of "year t" "month t"] long
    by (auto simp: min_def)
qed

lemma month_step_lt:
  assumes t: "dt_valid t" and run: "add_one_calendar_month (DT t) = Inr u"
  shows "dt_lt t u"
proof -
  note s = month_step [OF t run]
  have "1 \<le> month t" "month t \<le> 12" "1 \<le> month u" "month u \<le> 12"
    using t s(1) by (simp_all add: dt_valid_def)
  then have "year t < year u \<or> year t = year u \<and> month t < month u" using s(7) by presburger
  then show ?thesis by (auto simp: dt_lt_def dt_fields_def less_prod_def')
qed

lemma dt_lt_trans: "dt_lt a b \<Longrightarrow> dt_lt b c \<Longrightarrow> dt_lt a c"
  by (simp add: dt_lt_def)

lemma dt_max_cases: "dt_max a b = a \<and> \<not> dt_lt a b \<or> dt_max a b = b \<and> dt_lt a b"
  by (simp add: dt_max_def)

lemma dt_lt_max: "dt_lt (dt_max a b) u \<Longrightarrow> dt_lt a u \<and> dt_lt b u"
  by (auto simp: dt_max_def dt_lt_def split: if_splits)

text \<open>
  One calendar month later is a valid UTC datetime in the next month with
  the same time of day, on the same day of the month or the month's last one, between 28 and 31
  days later.
\<close>

theorem add_month_calendar:
  assumes t: "dt_valid t" and run: "add_one_calendar_month (DT t) = Inr u"
  shows "dt_valid u \<and> tz u = TzUTC \<and> micros_of_day u = micros_of_day t \<and>
    12 * year u + month u = 12 * year t + month t + 1 \<and>
    day u = min (day t) (days_in_month (year u) (month u)) \<and>
    date_ordinal t + 28 \<le> date_ordinal u \<and> date_ordinal u \<le> date_ordinal t + 31"
  using month_step [OF t run] by blast

definition jan_31 :: datetime where
  "jan_31 = \<lparr>year = 2024, month = 1, day = 31, hour = 1, minute = 0, second = 0, microsecond = 0,
     tz = TzUTC\<rparr>"

theorem add_month_calendar_witness:
  "dt_valid (jan_31\<lparr>month := 2, day := 29\<rparr>)"
proof -
  have v: "dt_valid jan_31" and r: "add_one_calendar_month (DT jan_31) = Inr (jan_31\<lparr>month := 2, day := 29\<rparr>)"
    by code_simp+
  show ?thesis using add_month_calendar [OF v r] by blast
qed

text \<open>
  C40: a renewal moves the expiry strictly past both the current expiry and the
  confirmation of the payment.
\<close>

theorem renewal_extends:
  assumes v: "dt_valid e" "dt_valid c" and run: "period_for_renewal (DT e) (DT c) = Inr u"
  shows "dt_valid u \<and> dt_lt e u \<and> dt_lt c u"
proof -
  have run': "add_one_calendar_month (DT (dt_max e c)) = Inr u"
    using run by (auto simp: period_for_renewal_def result_simps)
  have "dt_valid (dt_max e c)" using v dt_max_cases [of e c] by auto
  then show ?thesis using month_step(1) [OF _ run'] month_step_lt [OF _ run'] dt_lt_max by blast
qed

theorem renewal_extends_witness:
  "dt_lt jan_31 (jan_31\<lparr>month := 3, day := 29\<rparr>)"
proof -
  have v: "dt_valid jan_31" "dt_valid (jan_31\<lparr>month := 2, day := 29\<rparr>)"
    and r: "period_for_renewal (DT jan_31) (DT (jan_31\<lparr>month := 2, day := 29\<rparr>)) =
      Inr (jan_31\<lparr>month := 3, day := 29\<rparr>)" by code_simp+
  show ?thesis using renewal_extends [OF v r] by blast
qed

text \<open>
  Converting an aware datetime to UTC keeps the instant it denotes, with
  the offset taken off the clock, across day, month and year ends.
\<close>

theorem ensure_utc_instant:
  assumes t: "dt_valid t" and off: "\<And>n. tz t = TzOffset n \<Longrightarrow> \<bar>n\<bar> < day_micros"
    and run: "ensure_utc (DT t) = Inr u"
  shows "tz u = TzUTC \<and>
    dt_instant u = dt_instant t - (case tz t of TzOffset n \<Rightarrow> n | _ \<Rightarrow> 0)"
proof (cases "tz t")
  case (TzOffset n)
  show ?thesis
  proof (cases "n = 0")
    case True
    then show ?thesis using run TzOffset
      by (auto simp: ensure_utc_def dt_instant_def date_ordinal_ymd micros_of_day_def)
  next
    case False
    then show ?thesis using to_utc_instant [OF t off [OF TzOffset], of u] run TzOffset
      by (simp add: ensure_utc_def)
  qed
qed (use run in \<open>simp_all add: ensure_utc_def\<close>)

theorem ensure_utc_instant_witness:
  "dt_instant (jan_31\<lparr>day := 30, hour := 19, minute := 30\<rparr>) =
    dt_instant (jan_31\<lparr>tz := TzOffset 19800000000\<rparr>) - 19800000000"
proof -
  have v: "dt_valid (jan_31\<lparr>tz := TzOffset 19800000000\<rparr>)"
    and r: "ensure_utc (DT (jan_31\<lparr>tz := TzOffset 19800000000\<rparr>)) =
      Inr (jan_31\<lparr>day := 30, hour := 19, minute := 30\<rparr>)" by code_simp+
  show ?thesis using ensure_utc_instant [OF v _ r] by (simp add: jan_31_def day_micros_def)
qed

text \<open>
  The month step is not increasing in its argument: one and two days
  before the end of January both lead to the last of February, and a later hour of the earlier
  day even overtakes.
\<close>

theorem add_month_not_monotone:
  "dt_lt (jan_31\<lparr>day := 30, hour := 23\<rparr>) jan_31 \<and>
    add_one_calendar_month (DT jan_31) = Inr (jan_31\<lparr>month := 2, day := 29\<rparr>) \<and>
    add_one_calendar_month (DT (jan_31\<lparr>day := 30, hour := 23\<rparr>)) =
      Inr (jan_31\<lparr>month := 2, day := 29, hour := 23\<rparr>) \<and>
    dt_lt (jan_31\<lparr>month := 2, day := 29\<rparr>) (jan_31\<lparr>month := 2, day := 29, hour := 23\<rparr>)"
  by code_simp

end
