(* ===== verification/Subscription_State.thy ===== *)
theory Subscription_State
  imports Transition_Table
begin

text \<open>
  \<open>backend/marketplace/subscription_state.py\<close>: the seven subscription states, the twelve permitted
  transitions, the payment rule and the one mapping between a state and its stored column text.
\<close>

datatype subscription_state = SUB_PENDING | SUB_ACTIVE | SUB_EXPIRED | SUB_CANCELLED
  | SUB_REFUNDED | SUB_PAYMENT_FAILED | SUB_SUSPENDED

lemma subscription_state_UNIV:
  "(UNIV :: subscription_state set) = {SUB_PENDING, SUB_ACTIVE, SUB_EXPIRED, SUB_CANCELLED,
    SUB_REFUNDED, SUB_PAYMENT_FAILED, SUB_SUSPENDED}"
  using subscription_state.exhaust by blast

instantiation subscription_state :: finite
begin

instance
  by standard (simp add: subscription_state_UNIV)

end

definition subscription_members :: "subscription_state list" where
  "subscription_members = [SUB_PENDING, SUB_ACTIVE, SUB_EXPIRED, SUB_CANCELLED, SUB_REFUNDED,
     SUB_PAYMENT_FAILED, SUB_SUSPENDED]"

fun subscription_value :: "subscription_state \<Rightarrow> string" where
  "subscription_value SUB_PENDING = ''PENDING''"
| "subscription_value SUB_ACTIVE = ''ACTIVE''"
| "subscription_value SUB_EXPIRED = ''EXPIRED''"
| "subscription_value SUB_CANCELLED = ''CANCELLED''"
| "subscription_value SUB_REFUNDED = ''REFUNDED''"
| "subscription_value SUB_PAYMENT_FAILED = ''PAYMENT_FAILED''"
| "subscription_value SUB_SUSPENDED = ''SUSPENDED''"

fun SUBSCRIPTION_TRANSITIONS :: "subscription_state \<Rightarrow> subscription_state list" where
  "SUBSCRIPTION_TRANSITIONS SUB_PENDING = [SUB_ACTIVE, SUB_PAYMENT_FAILED, SUB_CANCELLED]"
| "SUBSCRIPTION_TRANSITIONS SUB_ACTIVE = [SUB_EXPIRED, SUB_CANCELLED, SUB_REFUNDED, SUB_SUSPENDED]"
| "SUBSCRIPTION_TRANSITIONS SUB_EXPIRED = [SUB_ACTIVE]"
| "SUBSCRIPTION_TRANSITIONS SUB_CANCELLED = [SUB_ACTIVE]"
| "SUBSCRIPTION_TRANSITIONS SUB_SUSPENDED = [SUB_ACTIVE, SUB_EXPIRED]"
| "SUBSCRIPTION_TRANSITIONS SUB_PAYMENT_FAILED = [SUB_PENDING]"
| "SUBSCRIPTION_TRANSITIONS SUB_REFUNDED = []"

definition PAYMENT_REQUIRED_TARGETS :: "subscription_state list" where
  "PAYMENT_REQUIRED_TARGETS = [SUB_ACTIVE]"

definition SUBSCRIPTION_TERMINAL_STATES :: "subscription_state list" where
  "SUBSCRIPTION_TERMINAL_STATES =
     filter (\<lambda>s. SUBSCRIPTION_TRANSITIONS s = []) subscription_members"

fun STATUS_TEXT_FOR_STATE :: "subscription_state \<Rightarrow> string" where
  "STATUS_TEXT_FOR_STATE SUB_PENDING = ''pending''"
| "STATUS_TEXT_FOR_STATE SUB_ACTIVE = ''active''"
| "STATUS_TEXT_FOR_STATE SUB_EXPIRED = ''expired''"
| "STATUS_TEXT_FOR_STATE SUB_CANCELLED = ''cancelled''"
| "STATUS_TEXT_FOR_STATE SUB_REFUNDED = ''refunded''"
| "STATUS_TEXT_FOR_STATE SUB_PAYMENT_FAILED = ''payment_failed''"
| "STATUS_TEXT_FOR_STATE SUB_SUSPENDED = ''suspended''"

definition STATE_FOR_STATUS_TEXT :: "string \<rightharpoonup> subscription_state" where
  "STATE_FOR_STATUS_TEXT = map_of (map (\<lambda>s. (STATUS_TEXT_FOR_STATE s, s)) subscription_members)"

definition SUBSCRIPTION_STATUS_VALUES :: "string list" where
  "SUBSCRIPTION_STATUS_VALUES = map STATUS_TEXT_FOR_STATE subscription_members"

definition SUBSCRIPTION_TRANSITION_PAIRS :: "(subscription_state \<times> subscription_state) list" where
  "SUBSCRIPTION_TRANSITION_PAIRS =
     concat (map (\<lambda>c. map (Pair c) (SUBSCRIPTION_TRANSITIONS c))
       [SUB_PENDING, SUB_ACTIVE, SUB_EXPIRED, SUB_CANCELLED, SUB_SUSPENDED, SUB_PAYMENT_FAILED,
        SUB_REFUNDED])"

definition SUBSCRIPTION_TRANSITION_TEXT_PAIRS :: "(string \<times> string) list" where
  "SUBSCRIPTION_TRANSITION_TEXT_PAIRS =
     map (\<lambda>(c, t). (STATUS_TEXT_FOR_STATE c, STATUS_TEXT_FOR_STATE t)) SUBSCRIPTION_TRANSITION_PAIRS"

text \<open>
  \<open>normalise_subscription_state\<close>. A member arrives as its own spelling (the enum is a \<open>str\<close>); a
  value that is neither \<open>None\<close> nor a string has no spelling among the seven.
\<close>

definition normalise_subscription_state :: "pyval \<Rightarrow> subscription_state option" where
  "normalise_subscription_state v =
     (case v of
        PyStr s \<Rightarrow>
          let text = py_replace1 CHR '' '' CHR ''_'' (py_replace1 CHR ''-'' CHR ''_'' (py_strip s))
          in if text = [] then None
             else map_of (map (\<lambda>m. (subscription_value m, m)) subscription_members) (py_upper text)
      | _ \<Rightarrow> None)"

definition status_text :: "pyval \<Rightarrow> py_exc + string" where
  "status_text v =
     (case normalise_subscription_state v of
        None \<Rightarrow> Inl ValueError
      | Some s \<Rightarrow> Inr (STATUS_TEXT_FOR_STATE s))"

definition subscription_legal_transitions :: "pyval \<Rightarrow> subscription_state list" where
  "subscription_legal_transitions v =
     (case normalise_subscription_state v of
        None \<Rightarrow> []
      | Some s \<Rightarrow> SUBSCRIPTION_TRANSITIONS s)"

definition subscription_can_transition :: "pyval \<Rightarrow> pyval \<Rightarrow> bool" where
  "subscription_can_transition current target =
     (case (normalise_subscription_state current, normalise_subscription_state target) of
        (Some c, Some t) \<Rightarrow> t \<in> set (SUBSCRIPTION_TRANSITIONS c)
      | _ \<Rightarrow> False)"

definition requires_confirmed_payment :: "pyval \<Rightarrow> bool" where
  "requires_confirmed_payment target =
     (case normalise_subscription_state target of
        None \<Rightarrow> False
      | Some t \<Rightarrow> t \<in> set PAYMENT_REQUIRED_TARGETS)"

definition subscription_is_terminal :: "pyval \<Rightarrow> bool" where
  "subscription_is_terminal v =
     (case normalise_subscription_state v of
        None \<Rightarrow> False
      | Some s \<Rightarrow> s \<in> set SUBSCRIPTION_TERMINAL_STATES)"

section \<open>Spellings\<close>

lemmas subscription_text_defs = normalise_subscription_state_def Let_def py_replace1_def py_strip_def
  is_space_def chr_code_def py_upper_def upper_char_def char_of_eq_iff subscription_members_def

lemma normalise_subscription_value [simp]:
  "normalise_subscription_state (PyStr (subscription_value s)) = Some s"
  by (cases s) (simp_all add: subscription_text_defs)

lemma normalise_status_text [simp]:
  "normalise_subscription_state (PyStr (STATUS_TEXT_FOR_STATE s)) = Some s"
  by (cases s) (simp_all add: subscription_text_defs)

definition subscription_gate :: "subscription_state \<Rightarrow> subscription_state \<Rightarrow> bool" where
  "subscription_gate a b =
     subscription_can_transition (PyStr (STATUS_TEXT_FOR_STATE a)) (PyStr (STATUS_TEXT_FOR_STATE b))"

definition subscription_terminal_state :: "subscription_state \<Rightarrow> bool" where
  "subscription_terminal_state a = subscription_is_terminal (PyStr (STATUS_TEXT_FOR_STATE a))"

lemma subscription_gate_edge: "subscription_gate a b \<longleftrightarrow> b \<in> set (SUBSCRIPTION_TRANSITIONS a)"
  by (simp add: subscription_gate_def subscription_can_transition_def)

lemma subscription_terminal_state_iff:
  "subscription_terminal_state a \<longleftrightarrow> SUBSCRIPTION_TRANSITIONS a = []"
  unfolding subscription_terminal_state_def subscription_is_terminal_def normalise_status_text
  by (cases a) (simp_all add: SUBSCRIPTION_TERMINAL_STATES_def subscription_members_def)

interpretation sub: lifecycle SUBSCRIPTION_TRANSITIONS subscription_gate subscription_terminal_state
  by unfold_locales (simp_all add: subscription_gate_edge subscription_terminal_state_iff)

text \<open>Without an edge into \<open>ACTIVE\<close> a pending subscription reaches these three states only.\<close>

lemma subscription_unpaid_reach:
  "set (reachable_from (avoiding SUB_ACTIVE SUBSCRIPTION_TRANSITIONS) SUB_PENDING) =
    {SUB_PENDING, SUB_PAYMENT_FAILED, SUB_CANCELLED}"
  by (simp add: reachable_from_def avoiding_def insert_commute)

section \<open>Properties\<close>

text \<open>
  A subscription that starts pending and moves only along the table
  has been active, the one state that requires a confirmed payment, before it can be expired,
  refunded, suspended or active.
\<close>

theorem subscription_paid_first:
  assumes run: "path subscription_gate SUB_PENDING ts"
    and last: "last (SUB_PENDING # ts) \<in> {SUB_ACTIVE, SUB_EXPIRED, SUB_REFUNDED, SUB_SUSPENDED}"
  shows "SUB_ACTIVE \<in> set ts \<and>
    (\<forall>s \<in> set ts. requires_confirmed_payment (PyStr (STATUS_TEXT_FOR_STATE s)) \<longleftrightarrow> s = SUB_ACTIVE)"
proof
  have "last (SUB_PENDING # ts) \<notin> set (reachable_from (avoiding SUB_ACTIVE SUBSCRIPTION_TRANSITIONS) SUB_PENDING)"
    using last by (auto simp: subscription_unpaid_reach)
  then show "SUB_ACTIVE \<in> set ts" using sub.cut [OF _ run refl] by blast
  show "\<forall>s \<in> set ts. requires_confirmed_payment (PyStr (STATUS_TEXT_FOR_STATE s)) \<longleftrightarrow> s = SUB_ACTIVE"
    by (simp add: requires_confirmed_payment_def PAYMENT_REQUIRED_TARGETS_def)
qed

theorem subscription_paid_first_witness:
  "SUB_ACTIVE \<in> set [SUB_PAYMENT_FAILED, SUB_PENDING, SUB_ACTIVE, SUB_REFUNDED]"
  using subscription_paid_first [of "[SUB_PAYMENT_FAILED, SUB_PENDING, SUB_ACTIVE, SUB_REFUNDED]"]
  by (simp add: subscription_gate_edge)

text \<open>
  A stored status changed only through the gate never leaves
  a terminal state, and refunded is the only one.
\<close>

theorem subscription_terminal_absorbing:
  "(subscription_is_terminal (PyStr (STATUS_TEXT_FOR_STATE s)) \<longleftrightarrow> s = SUB_REFUNDED) \<and>
    guarded_run subscription_gate SUB_REFUNDED ts = SUB_REFUNDED"
proof -
  have t: "subscription_is_terminal (PyStr (STATUS_TEXT_FOR_STATE a)) \<longleftrightarrow> a = SUB_REFUNDED" for a
    using subscription_terminal_state_iff [of a, unfolded subscription_terminal_state_def]
    by (cases a) simp_all
  then have "subscription_terminal_state SUB_REFUNDED"
    unfolding subscription_terminal_state_def by (simp only: t)
  then show ?thesis using t sub.run_terminal by blast
qed

text \<open>
  The stored text of a state reads back as that state, in the stored
  spelling and in the enum's own, and the stored texts are exactly the allowed column values.
\<close>

theorem status_text_roundtrip:
  "status_text (PyStr (subscription_value s)) = Inr (STATUS_TEXT_FOR_STATE s) \<and>
    STATE_FOR_STATUS_TEXT (STATUS_TEXT_FOR_STATE s) = Some s \<and>
    normalise_subscription_state (PyStr (STATUS_TEXT_FOR_STATE s)) = Some s \<and>
    STATUS_TEXT_FOR_STATE s \<in> set SUBSCRIPTION_STATUS_VALUES \<and>
    (status_text v = Inr t \<longrightarrow> t \<in> set SUBSCRIPTION_STATUS_VALUES)"
proof -
  have mem: "STATUS_TEXT_FOR_STATE a \<in> set SUBSCRIPTION_STATUS_VALUES" for a
    by (cases a) (simp_all add: SUBSCRIPTION_STATUS_VALUES_def subscription_members_def)
  have "STATE_FOR_STATUS_TEXT (STATUS_TEXT_FOR_STATE s) = Some s"
    by (cases s) (simp_all add: STATE_FOR_STATUS_TEXT_def subscription_members_def)
  moreover have "status_text v = Inr t \<longrightarrow> t \<in> set SUBSCRIPTION_STATUS_VALUES"
    using mem by (auto simp: status_text_def split: option.splits)
  ultimately show ?thesis using mem by (simp add: status_text_def)
qed

theorem status_text_roundtrip_witness:
  "''active'' \<in> set SUBSCRIPTION_STATUS_VALUES"
proof -
  have "status_text (PyStr '' Active'') = Inr ''active''"
    by (simp add: status_text_def subscription_text_defs subscription_members_def is_space_def
        chr_code_def py_upper_def upper_char_def)
  then show ?thesis using status_text_roundtrip [of SUB_ACTIVE "PyStr '' Active''" "''active''"] by blast
qed

end
