(* ===== verification/Submission_State.thy ===== *)
theory Submission_State
  imports Transition_Table
begin

text \<open>
  \<open>backend/marketplace/submission_state.py\<close>: the eight submission states, the eleven permitted
  transitions, the public and open sets, and the projection onto the legacy columns.
\<close>

datatype submission_state = SBM_DRAFT | SBM_SUBMITTED | SBM_UNDER_REVIEW | SBM_APPROVED
  | SBM_PUBLISHED | SBM_REJECTED | SBM_SUSPENDED | SBM_UNPUBLISHED

lemma submission_state_UNIV:
  "(UNIV :: submission_state set) = {SBM_DRAFT, SBM_SUBMITTED, SBM_UNDER_REVIEW, SBM_APPROVED,
    SBM_PUBLISHED, SBM_REJECTED, SBM_SUSPENDED, SBM_UNPUBLISHED}"
  using submission_state.exhaust by blast

instantiation submission_state :: finite
begin

instance
  by standard (simp add: submission_state_UNIV)

end

definition submission_members :: "submission_state list" where
  "submission_members = [SBM_DRAFT, SBM_SUBMITTED, SBM_UNDER_REVIEW, SBM_APPROVED, SBM_PUBLISHED,
     SBM_REJECTED, SBM_SUSPENDED, SBM_UNPUBLISHED]"

fun submission_value :: "submission_state \<Rightarrow> string" where
  "submission_value SBM_DRAFT = ''DRAFT''"
| "submission_value SBM_SUBMITTED = ''SUBMITTED''"
| "submission_value SBM_UNDER_REVIEW = ''UNDER_REVIEW''"
| "submission_value SBM_APPROVED = ''APPROVED''"
| "submission_value SBM_PUBLISHED = ''PUBLISHED''"
| "submission_value SBM_REJECTED = ''REJECTED''"
| "submission_value SBM_SUSPENDED = ''SUSPENDED''"
| "submission_value SBM_UNPUBLISHED = ''UNPUBLISHED''"

definition SUBMISSION_STATE_VALUES :: "string list" where
  "SUBMISSION_STATE_VALUES = map submission_value submission_members"

fun SUBMISSION_TRANSITIONS :: "submission_state \<Rightarrow> submission_state list" where
  "SUBMISSION_TRANSITIONS SBM_DRAFT = [SBM_SUBMITTED]"
| "SUBMISSION_TRANSITIONS SBM_SUBMITTED = [SBM_UNDER_REVIEW, SBM_REJECTED]"
| "SUBMISSION_TRANSITIONS SBM_UNDER_REVIEW = [SBM_APPROVED, SBM_REJECTED]"
| "SUBMISSION_TRANSITIONS SBM_APPROVED = [SBM_PUBLISHED]"
| "SUBMISSION_TRANSITIONS SBM_PUBLISHED = [SBM_SUSPENDED, SBM_UNPUBLISHED]"
| "SUBMISSION_TRANSITIONS SBM_SUSPENDED = [SBM_PUBLISHED, SBM_UNPUBLISHED]"
| "SUBMISSION_TRANSITIONS SBM_REJECTED = [SBM_DRAFT]"
| "SUBMISSION_TRANSITIONS SBM_UNPUBLISHED = []"

definition PUBLIC_STATES :: "submission_state list" where
  "PUBLIC_STATES = [SBM_PUBLISHED]"

definition OPEN_STATES :: "submission_state list" where
  "OPEN_STATES = [SBM_SUBMITTED, SBM_UNDER_REVIEW, SBM_APPROVED, SBM_PUBLISHED]"

fun MODERATION_STATUS_FOR_STATE :: "submission_state \<Rightarrow> string" where
  "MODERATION_STATUS_FOR_STATE SBM_DRAFT = ''pending''"
| "MODERATION_STATUS_FOR_STATE SBM_SUBMITTED = ''pending''"
| "MODERATION_STATUS_FOR_STATE SBM_UNDER_REVIEW = ''pending''"
| "MODERATION_STATUS_FOR_STATE SBM_APPROVED = ''pending''"
| "MODERATION_STATUS_FOR_STATE SBM_PUBLISHED = ''approved''"
| "MODERATION_STATUS_FOR_STATE SBM_REJECTED = ''rejected''"
| "MODERATION_STATUS_FOR_STATE SBM_SUSPENDED = ''rejected''"
| "MODERATION_STATUS_FOR_STATE SBM_UNPUBLISHED = ''rejected''"

definition IS_ACTIVE_FOR_STATE :: "submission_state \<Rightarrow> bool" where
  "IS_ACTIVE_FOR_STATE s = (s \<in> set PUBLIC_STATES)"

definition normalise_submission_state :: "pyval \<Rightarrow> submission_state option" where
  "normalise_submission_state v =
     (case v of
        PyStr s \<Rightarrow>
          let label = py_replace1 CHR '' '' CHR ''_''
                (py_replace1 CHR ''-'' CHR ''_'' (py_upper (py_strip s)))
          in if label = [] then None
             else map_of (map (\<lambda>m. (submission_value m, m)) submission_members) label
      | _ \<Rightarrow> None)"

definition submission_legal_transitions :: "pyval \<Rightarrow> submission_state list" where
  "submission_legal_transitions v =
     (case normalise_submission_state v of
        None \<Rightarrow> []
      | Some s \<Rightarrow> SUBMISSION_TRANSITIONS s)"

definition submission_can_transition :: "pyval \<Rightarrow> pyval \<Rightarrow> bool" where
  "submission_can_transition current target =
     (case normalise_submission_state target of
        None \<Rightarrow> False
      | Some t \<Rightarrow> t \<in> set (submission_legal_transitions current))"

definition submission_is_public :: "pyval \<Rightarrow> bool" where
  "submission_is_public v =
     (case normalise_submission_state v of None \<Rightarrow> False | Some s \<Rightarrow> s \<in> set PUBLIC_STATES)"

definition submission_is_open :: "pyval \<Rightarrow> bool" where
  "submission_is_open v =
     (case normalise_submission_state v of None \<Rightarrow> False | Some s \<Rightarrow> s \<in> set OPEN_STATES)"

definition moderation_status_for :: "pyval \<Rightarrow> string option" where
  "moderation_status_for v = map_option MODERATION_STATUS_FOR_STATE (normalise_submission_state v)"

definition is_active_for :: "pyval \<Rightarrow> bool" where
  "is_active_for v =
     (case normalise_submission_state v of None \<Rightarrow> False | Some s \<Rightarrow> IS_ACTIVE_FOR_STATE s)"

section \<open>The gate over members\<close>

lemmas submission_text_defs = normalise_submission_state_def Let_def py_replace1_def py_strip_def
  is_space_def chr_code_def py_upper_def upper_char_def submission_members_def

lemma normalise_submission_value [simp]:
  "normalise_submission_state (PyStr (submission_value s)) = Some s"
  by (cases s) (simp_all add: submission_text_defs)

definition submission_gate :: "submission_state \<Rightarrow> submission_state \<Rightarrow> bool" where
  "submission_gate a b =
     submission_can_transition (PyStr (submission_value a)) (PyStr (submission_value b))"

definition submission_terminal_state :: "submission_state \<Rightarrow> bool" where
  "submission_terminal_state a = (submission_legal_transitions (PyStr (submission_value a)) = [])"

lemma submission_gate_edge: "submission_gate a b \<longleftrightarrow> b \<in> set (SUBMISSION_TRANSITIONS a)"
  by (simp add: submission_gate_def submission_can_transition_def submission_legal_transitions_def)

interpretation sbm: lifecycle SUBMISSION_TRANSITIONS submission_gate submission_terminal_state
  by unfold_locales (simp_all add: submission_gate_edge submission_terminal_state_def
      submission_legal_transitions_def)

text \<open>Without an edge into \<open>APPROVED\<close> a draft reaches no state beyond the review.\<close>

lemma submission_unapproved_reach:
  "set (reachable_from (avoiding SBM_APPROVED SUBMISSION_TRANSITIONS) SBM_DRAFT) =
    {SBM_DRAFT, SBM_SUBMITTED, SBM_UNDER_REVIEW, SBM_REJECTED}"
  by (simp add: reachable_from_def avoiding_def insert_commute)

lemma submission_unsubmitted_reach:
  "set (reachable_from (avoiding SBM_UNDER_REVIEW SUBMISSION_TRANSITIONS) SBM_DRAFT) =
    {SBM_DRAFT, SBM_SUBMITTED, SBM_REJECTED}"
  by (simp add: reachable_from_def avoiding_def insert_commute)

section \<open>Properties\<close>

text \<open>
  A submission that starts as a draft and moves only along the
  table has passed review and approval before it is published, suspended or unpublished.
\<close>

theorem published_only_if_approved:
  assumes run: "path submission_gate SBM_DRAFT ts"
    and last: "last (SBM_DRAFT # ts) \<in> {SBM_APPROVED, SBM_PUBLISHED, SBM_SUSPENDED, SBM_UNPUBLISHED}"
  shows "SBM_APPROVED \<in> set ts \<and> SBM_UNDER_REVIEW \<in> set ts"
proof
  have "last (SBM_DRAFT # ts) \<notin> set (reachable_from (avoiding SBM_APPROVED SUBMISSION_TRANSITIONS) SBM_DRAFT)"
    using last by (auto simp: submission_unapproved_reach)
  then show "SBM_APPROVED \<in> set ts" using sbm.cut [OF _ run refl] by blast
  have "last (SBM_DRAFT # ts) \<notin> set (reachable_from (avoiding SBM_UNDER_REVIEW SUBMISSION_TRANSITIONS) SBM_DRAFT)"
    using last by (auto simp: submission_unsubmitted_reach)
  then show "SBM_UNDER_REVIEW \<in> set ts" using sbm.cut [OF _ run refl] by blast
qed

theorem published_only_if_approved_witness:
  "SBM_APPROVED \<in> set [SBM_SUBMITTED, SBM_UNDER_REVIEW, SBM_APPROVED, SBM_PUBLISHED]"
  using published_only_if_approved [of "[SBM_SUBMITTED, SBM_UNDER_REVIEW, SBM_APPROVED, SBM_PUBLISHED]"]
  by (simp add: submission_gate_edge)

text \<open>
  The three projections of a stored value agree, whatever text it is: the
  submission is public exactly when its moderation status is approved, exactly when it is
  active, and a public submission is open.
\<close>

theorem public_iff_approved:
  "(submission_is_public v \<longleftrightarrow> moderation_status_for v = Some ''approved'') \<and>
    (submission_is_public v \<longleftrightarrow> is_active_for v) \<and>
    (\<not> submission_is_open v \<longrightarrow> \<not> submission_is_public v)"
proof (cases "normalise_submission_state v")
  case None
  then show ?thesis
    by (simp add: submission_is_public_def moderation_status_for_def is_active_for_def)
next
  case (Some s)
  then show ?thesis
    by (cases s) (simp_all add: submission_is_public_def moderation_status_for_def is_active_for_def
        submission_is_open_def IS_ACTIVE_FOR_STATE_def PUBLIC_STATES_def OPEN_STATES_def)
qed

theorem public_iff_approved_witness:
  "\<not> submission_is_public (PyStr ''SUSPENDED'')"
proof -
  have "\<not> submission_is_open (PyStr ''SUSPENDED'')"
    by (simp add: submission_is_open_def submission_text_defs OPEN_STATES_def)
  then show ?thesis using public_iff_approved by blast
qed

end
