(* ===== verification/Spec2Isabelle.thy ===== *)
theory Spec2Isabelle
  imports Worked_Example Graph_Example Sim_Submit_Example Subscription_Period Money Subscription_State Submission_State
begin

text \<open>
  A model of the money-handling and strategy-checking core of the VyomQuant backend
  (\<open>src/backend_app/backend\<close>), with the theorems that make it correct.

  \<^bold>\<open>The program.\<close> The backend runs trading strategies in paper sessions and sells
  them on a marketplace. A strategy is a graph of blocks that a user draws;
  \<open>strategy_graph/validator.py\<close> decides whether it may run and \<open>strategy_graph/plan.py\<close> turns it
  into a plan. A paper session freezes a configuration (\<open>paper/paper_simulator.py\<close>), turns order
  intents into orders, and keeps one account and one position per symbol; every fill, reservation
  and revaluation goes through the pure functions of \<open>paper/paper_accounting.py\<close>. What it decides is
  written through \<open>paper/paper_repository.py\<close>, one statement after another, to tables that other
  workers write at the same time; a fill is committed by one database function,
  \<open>migrations/048_paper05_apply_fill_atomic.sql\<close>. The class
  \<open>ReferenceLedger\<close> of \<open>paper/paper_replay.py\<close> is a second, independently written ledger with
  mutable state, the oracle the first is compared with. An order moves through the table of
  \<open>paper/paper_order_state.py\<close>. On the marketplace side, \<open>marketplace/money.py\<close> keeps amounts as
  integers of minor units, \<open>marketplace/subscription_period.py\<close> computes expiry dates, and
  \<open>marketplace/subscription_state.py\<close> and \<open>marketplace/submission_state.py\<close> hold the two tables
  that stored rows move through.

  \<^bold>\<open>The theories, from the bottom.\<close>
  \<^item> \<open>Prelude\<close>: a function that may raise returns \<open>'e + 'a\<close>; \<open>bnd\<close> sequences two of them, \<open>foldm\<close>
    is a loop that may raise; a Python \<open>dict\<close> whose order matters is an association list.
  \<^item> \<open>Decimals\<close>: Python's \<open>decimal\<close> module. A decimal is a coefficient and an exponent, so 1.0
    and 1.00 differ as values and are equal as numbers (\<open>dval\<close>). Addition, multiplication,
    division and \<open>quantize\<close> round as the module does at a given precision, in the seven rounding
    modes the program uses. Exactness on a grid and the bounds that rounding keeps are proved
    here once, over a locale of rounding functions.
  \<^item> \<open>Py_Values\<close>: the dynamic values that reach a boundary (\<open>None\<close>, booleans, integers, floats,
    strings, decimals), \<open>Decimal(str)\<close> and \<open>str(Decimal)\<close> with their round trip, and \<open>strip\<close>,
    \<open>lower\<close>, \<open>upper\<close>.
  \<^item> \<open>Paper_Config\<close>, \<open>Paper_Book\<close>, \<open>Paper_Fill\<close>, \<open>Paper_Metrics\<close>: \<open>paper_accounting.py\<close> from top to
    bottom. \<open>Paper_Config\<close> has the conversions, the quantizers and \<open>AccountingConfig\<close>, and the
    locale \<open>scale_quantizer\<close>, interpreted on \<open>cfg_money\<close>, \<open>cfg_qty\<close> and \<open>cfg_price\<close>.
    \<open>Paper_Book\<close> has \<open>Position\<close>, \<open>Account\<close>, the valuation, the invariants, \<open>lock\<close> and \<open>unlock\<close>.
    \<open>Paper_Fill\<close> has \<open>apply_fill\<close>, one definition per block of the function in its order, and
    \<open>recalculate\<close>. \<open>Paper_Laws\<close> holds laws of the smaller operations.
  \<^item> \<open>Reference_Ledger\<close>, \<open>Reference_Fill\<close>: the class \<open>ReferenceLedger\<close>. A method takes the ledger
    and returns the ledger it leaves with its result or exception, so that what was written
    before a raise stays written. \<open>Ledger_Refinement\<close> relates the two ledgers;
    \<open>Reference_Laws\<close> has the laws of the reference ledger alone.
  \<^item> \<open>Sim_Config\<close>, \<open>Sim_Start\<close>, \<open>Sim_Intent\<close>, \<open>Sim_Prices\<close>: \<open>paper_simulator.py\<close>. \<open>Sim_Config\<close>
    has the readings of a venue's figures and \<open>SessionConfig\<close> with its stored form, \<open>Sim_Start\<close>
    the simulator guard, the market map and \<open>freeze_session_config\<close>, \<open>Sim_Intent\<close> the order
    intents, their eight static checks and their fingerprint, \<open>Sim_Prices\<close> the fill model: prices,
    fees, slippage, triggers and the participation cap. \<open>Sim_Example\<close> evaluates one session.
  \<^item> \<open>Sim_Store\<close>: the tables and the statements of \<open>paper_repository.py\<close>. An operation is a function
    of a world, the tables and the number of the next statement; around statement n the environment
    says what the other clients did before it (\<open>en_act\<close>) and whether it fails (\<open>en_fault\<close>), with the
    flag that tells whether it was applied all the same. \<open>Sim_Commit\<close> has the database function, one
    definition per write. \<open>Sim_Fill\<close> has \<open>apply_fill\<close> with its guards and \<open>with_retries\<close>, \<open>Sim_Submit\<close>
    \<open>submit_intent\<close>, the lock of a limit order and \<open>check_resting_orders\<close>.
  \<^item> \<open>Sim_Clients\<close>: what a fill needs of the other clients, the locale \<open>disciplined\<close> (a reflexive and
    transitive relation under which the version of an account guards the fills, the ledger and the
    positions of its orders), and the trace of a call under it. \<open>Sim_Session\<close> has the step relation \<open>client_step\<close> of everything the clients may do,
    the invariant \<open>store_ok\<close> of the tables, its preservation, and the interpretation of the locale on
    the reachable stores; \<open>Sim_Laws\<close> interprets it a second time on equality, the undisturbed case.
    \<open>Sim_Totals\<close> shows that sums of fills are exact. \<open>Sim_Guarantee\<close> is a calculus for runs:
    \<open>guarantees pre m post\<close> says that a run moves the store only as a client may. \<open>Sim_Submit_Laws\<close>
    says what a submission does alone. \<open>Sim_Session_Example\<close> and \<open>Sim_Submit_Example\<close> evaluate a
    session of two clients.
  \<^item> \<open>Transition_Table\<close>: the depth-first closure the code computes, paths, and the locale
    \<open>lifecycle\<close> (a gate and a terminal test that agree with a table), interpreted in
    \<open>Paper_Order_State\<close>, \<open>Subscription_State\<close> and \<open>Submission_State\<close>.
  \<^item> \<open>Money\<close>, \<open>Subscription_Period\<close>: the two marketplace modules of the same names.
  \<^item> \<open>Graph_Search\<close>, \<open>Topological_Order\<close>: the searches of \<open>validator.py\<close> over an adjacency of any
    node type: the three-colour cycle search as an explicit stack of frames, reachability, and
    Kahn's order in levels. \<open>Strategy_Graph\<close> has the graph envelope of \<open>schema.py\<close> and the views of
    it; \<open>Edge_Rules\<close> the descriptors of \<open>registry.py\<close>, the compatibility matrix of
    \<open>block_specs.py\<close> and the rules R1 to R8 for an edge; \<open>Graph_Warmup\<close>, \<open>Graph_Compose\<close>,
    \<open>Graph_Plan\<close> and \<open>Action_Markets\<close> the warmups, levels and markets of \<open>plan.py\<close>;
    \<open>Graph_Leakage\<close> the check against looking ahead; \<open>Graph_Validation\<close> the twelve stages of
    \<open>validate\<close> and the recomputation of a submitted graph, and \<open>Graph_Verdict\<close> what a valid report
    means. \<open>Graph_Example\<close> evaluates one strategy.
  \<^item> \<open>Worked_Example\<close>: one session, evaluated in the kernel, to which the theorems about the
    ledgers are applied.

  \<^bold>\<open>What the theorems show.\<close> For the accounting engine: a fill moves the total equity
  by exactly minus its fee in all five cases, keeps the book well formed and the five invariants
  true to the last digit, adds its signed quantity, and writes a closed trade exactly when a
  position reaches zero; revaluation moves nothing; cash is reserved and released exactly; a book
  without a price for an open position has no value; the drawdown is the largest decline. For
  the reference ledger: it does what the engine does, fill by fill; a refused or repeated fill
  changes nothing; an order is never filled beyond its quantity. For the simulator: a frozen
  configuration is well typed and records the venue's figures, is stored and read back without a
  change; an intent is rejected with the first check that fails; fingerprints identify orders;
  slippage is adverse only. For fills over the shared tables: a call that reports an applied fill is
  one transaction decided on the store it commits to, whatever interfered; one that does not report
  it, undisturbed, wrote nothing; an event fills an order once; no order is over-filled; fills and
  ledger rows correspond one to one; a call ends after three attempts. Submissions and resting
  orders keep the same invariant; a rejection moves no money; a repeated key writes nothing; an
  accepted limit order locks its funds once. For strategy graphs: a report is valid exactly when the graph is
  sound, the searches find a loop exactly when there is one, an order lists every block after its
  predecessors, an edge is accepted exactly by the rules and keeps a graph legal and acyclic, the
  two warmup computations agree on acyclic graphs, the leakage check is complete, and every
  action gets the one symbol upstream of it. For the tables: nothing leaves a terminal state, and
  a sale or a publication is preceded by its payment or approval. For amounts and dates:
  conversions are exact or refused, shares sum to the whole, a renewal never shortens a period.

  Some theorems record places where the code does not do what its comments say:
  \<open>fill_of_created_order\<close>, \<open>reference_drawdown\<close>, \<open>add_month_not_monotone\<close>,
  \<open>legacy_status_unknown\<close>, \<open>negative_warmup_differs\<close>, \<open>infinite_shift_raises\<close>,
  \<open>string_symbols_split\<close>, \<open>long_quantity_accepted\<close>, \<open>lost_accept_is_not_retried\<close>,
  \<open>filled_order_leaves_lock\<close> and \<open>reversal_keeps_opened_at\<close>.

  \<^bold>\<open>Bounds.\<close> A context of 34 digits makes sums of amounts exact while they stay below
  \<open>CASH_LIMIT\<close>, ten to the power 32 minor units, and sums of quantities while they stay below
  \<open>QTY_LIMIT\<close>, ten to the power 33 units of the quantity scale. The theorems that claim exactness
  assume these bounds on the balances, on the marks of the book and on the fee, and nothing on
  products, which the code rounds. The columns the figures are stored in hold 28 digits.
  Operations outside a local context take the ambient precision as an argument; where a theorem
  needs it, it is at least 28, the interpreter's default, or holds the figures at hand. No fuel is
  used: every loop of the modelled code is a structural recursion or has a measure, and the retry
  loop runs over its three attempts.

  \<^bold>\<open>Simplifications.\<close> Exponents of decimals are not bounded and zero has no sign; infinities
  and NaN are one value. Texts are ASCII. A timestamp is an optional number of microseconds; in
  \<open>Subscription_Period\<close> a datetime has its calendar fields and offset. A symbol that is not a
  string is refused when a position is built from it. An order or intent is a map from attribute
  names to values. \<open>RefPosition\<close> and \<open>RefClosedTrade\<close> have the fields of the engine's records
  and share them. A statement is atomic, and a failed one has an unknown outcome
  (\<open>PersistenceError\<close>) or was not applied (\<open>SerializationFailure\<close>); identifiers come from an injective
  supply; rows of one instant keep their order of insertion; the database's clock columns other than
  a creation time are left out. Whatever reads a text, a digest or an instant of a value is an
  argument (\<open>readers\<close>). The block registry is a function from identifiers to descriptors; the text of a
  value that is no string, the digests and the rules of block parameters are arguments. Exception
  messages and log lines are left out.

  \<^bold>\<open>Not modelled.\<close> Of the simulator, the workers that call it; of the repository, session and market
  events, metrics and the session rows beyond the feed state; \<open>replay\<close>, which rebuilds a session from
  its logs through the whole service; settlement, entitlements and listing admission beyond their
  tables, amounts and dates. Of the strategy graphs, the wire format, the parameter rules, the block
  catalogue and the compiled plan record are open. Network, database, websocket, telemetry and
  model-training code is input and output or numerical library code and stays outside.
\<close>

end
